(* ===== verification/Prelude.thy ===== *)
theory Prelude
  imports Main "HOL-Library.Multiset"
begin

text \<open>
  Shared vocabulary of the development: the error kinds of the \<open>trace\<close> package the
  code returns, results as sums, time and durations as Go has them, the slice helpers
  of \<open>api/utils/slices.go\<close> and \<open>lib/utils\<close>, and the list lemmas the components
  share. An error value keeps its kind; the text of its message is not modelled.
\<close>

section \<open>Lemma collections\<close>

named_theorems helper_defs \<open>definitions of small helpers, unfolded by the component proofs\<close>

section \<open>Errors and results\<close>

datatype trace_error =
    BadParameter
  | NotFound
  | AccessDenied
  | SessionMFARequired
  | AlreadyExists
  | LimitExceeded
  | CompareFailed
  | NotImplemented
  | ConnectionProblem
  | Unclassified

type_synonym 'a result = "trace_error + 'a"

definition is_ok :: "'a result \<Rightarrow> bool" where
  "is_ok r = (case r of Inl _ \<Rightarrow> False | Inr _ \<Rightarrow> True)"

lemma is_ok_simps [simp]: "is_ok (Inr a)" "\<not> is_ok (Inl e)"
  by (simp_all add: is_ok_def)

lemma is_ok_iff: "is_ok r \<longleftrightarrow> (\<exists>a. r = Inr a)"
  by (cases r) simp_all

lemma unit_result_cases: "(r :: unit result) = Inr () \<or> (\<exists>e. r = Inl e)"
  by (cases r) simp_all

lemma case_result_Inr:
  "(case r of Inl e \<Rightarrow> Inl (g e) | Inr x \<Rightarrow> f x) = Inr y \<longleftrightarrow> (\<exists>x. r = Inr x \<and> f x = Inr y)"
  by (cases r) simp_all

lemma case_result_unit_Inr:
  "(case (r :: unit result) of Inl e \<Rightarrow> Inl (g e) | Inr _ \<Rightarrow> s) = Inr y \<longleftrightarrow> r = Inr () \<and> s = Inr y"
  by (cases r) simp_all

section \<open>Time and durations\<close>

text \<open>
  A \<open>time.Time\<close> is the number of nanoseconds since January 1, year 1, UTC, which is
  Go's zero time. A \<open>time.Duration\<close> is a signed 64-bit count of nanoseconds, held as
  an integer; \<open>wrap64\<close> is written where the code's arithmetic can leave the range.
\<close>

type_synonym time = int
type_synonym duration = int

definition zero_time :: time where
  "zero_time = 0"

definition is_zero_time :: "time \<Rightarrow> bool" where
  "is_zero_time t = (t = zero_time)"

definition wrap64 :: "int \<Rightarrow> int" where
  "wrap64 x = (x + 2 ^ 63) mod 2 ^ 64 - 2 ^ 63"

lemma wrap64_id: "- (2 ^ 63) \<le> x \<Longrightarrow> x < 2 ^ 63 \<Longrightarrow> wrap64 x = x"
  by (simp add: wrap64_def)

definition second_ns :: int where
  "second_ns = 1000000000"

text \<open>The seconds since the Unix epoch, as \<open>time.Unix()\<close> returns them.\<close>

definition unix_seconds :: "time \<Rightarrow> int" where
  "unix_seconds t = t div second_ns - 62135596800"

section \<open>Slices\<close>

definition slice_contains :: "string list \<Rightarrow> string \<Rightarrow> bool" where
  "slice_contains xs x = (x \<in> set xs)"

text \<open>\<open>Deduplicate\<close> keeps the first occurrence of every element, in order.\<close>

fun dedup_from :: "'a list \<Rightarrow> 'a list \<Rightarrow> 'a list" where
  "dedup_from seen [] = []"
| "dedup_from seen (x # xs) =
     (if x \<in> set seen then dedup_from seen xs else x # dedup_from (x # seen) xs)"

definition Deduplicate :: "'a list \<Rightarrow> 'a list" where
  "Deduplicate xs = dedup_from [] xs"

lemma set_dedup_from: "set (dedup_from seen xs) = set xs - set seen"
  by (induction xs arbitrary: seen) auto

lemma distinct_dedup_from: "distinct (dedup_from seen xs)"
  by (induction xs arbitrary: seen) (auto simp: set_dedup_from)

lemma set_Deduplicate [simp]: "set (Deduplicate xs) = set xs"
  by (simp add: Deduplicate_def set_dedup_from)

lemma distinct_Deduplicate [simp]: "distinct (Deduplicate xs)"
  by (simp add: Deduplicate_def distinct_dedup_from)

lemma Deduplicate_Nil [simp]: "Deduplicate [] = []"
  by (simp add: Deduplicate_def)

lemma Deduplicate_eq_Nil [simp]: "Deduplicate xs = [] \<longleftrightarrow> xs = []"
  by (metis set_Deduplicate set_empty)

section \<open>Strings\<close>

definition has_prefix :: "string \<Rightarrow> string \<Rightarrow> bool" where
  "has_prefix s p = (take (length p) s = p)"

definition has_suffix :: "string \<Rightarrow> string \<Rightarrow> bool" where
  "has_suffix s p = has_prefix (rev s) (rev p)"

fun has_infix :: "string \<Rightarrow> string \<Rightarrow> bool" where
  "has_infix [] p = (p = [])"
| "has_infix (c # s) p = (has_prefix (c # s) p \<or> has_infix s p)"

definition trim_prefix :: "string \<Rightarrow> string \<Rightarrow> string" where
  "trim_prefix s p = (if has_prefix s p then drop (length p) s else s)"

definition trim_suffix :: "string \<Rightarrow> string \<Rightarrow> string" where
  "trim_suffix s p = (if has_suffix s p then take (length s - length p) s else s)"

lemma has_prefix_iff: "has_prefix s p \<longleftrightarrow> (\<exists>t. s = p @ t)"
  unfolding has_prefix_def by (metis append_eq_conv_conj append_take_drop_id)

lemma has_prefix_append [simp]: "has_prefix (p @ s) p"
  by (auto simp: has_prefix_iff)

lemma has_suffix_iff: "has_suffix s p \<longleftrightarrow> (\<exists>t. s = t @ p)"
proof
  assume "has_suffix s p"
  then obtain t where "rev s = rev p @ t"
    by (auto simp: has_suffix_def has_prefix_iff)
  then have "s = rev t @ p" by (metis rev_append rev_rev_ident)
  then show "\<exists>t. s = t @ p" ..
qed (auto simp: has_suffix_def)

lemma has_suffix_append [simp]: "has_suffix (s @ p) p"
  by (auto simp: has_suffix_iff)

lemma trim_prefix_append [simp]: "trim_prefix (p @ s) p = s"
  by (simp add: trim_prefix_def)

lemma trim_suffix_append [simp]: "trim_suffix (s @ p) p = s"
  by (simp add: trim_suffix_def)

section \<open>Loops over slices that may fail\<close>

text \<open>
  \<open>ex_res f xs\<close> is the loop that returns true at the first element that satisfies
  \<open>f\<close>, and stops at the first error; \<open>all_res\<close> is its dual.
\<close>

fun ex_res :: "('a \<Rightarrow> bool result) \<Rightarrow> 'a list \<Rightarrow> bool result" where
  "ex_res f [] = Inr False"
| "ex_res f (x # xs) =
     (case f x of Inl e \<Rightarrow> Inl e | Inr b \<Rightarrow> if b then Inr True else ex_res f xs)"

fun all_res :: "('a \<Rightarrow> bool result) \<Rightarrow> 'a list \<Rightarrow> bool result" where
  "all_res f [] = Inr True"
| "all_res f (x # xs) =
     (case f x of Inl e \<Rightarrow> Inl e | Inr b \<Rightarrow> if b then all_res f xs else Inr False)"

fun map_res :: "('a \<Rightarrow> 'b result) \<Rightarrow> 'a list \<Rightarrow> 'b list result" where
  "map_res f [] = Inr []"
| "map_res f (x # xs) =
     (case f x of Inl e \<Rightarrow> Inl e
      | Inr y \<Rightarrow> (case map_res f xs of Inl e \<Rightarrow> Inl e | Inr ys \<Rightarrow> Inr (y # ys)))"

lemma ex_res_total:
  assumes "\<forall>x\<in>set xs. f x = Inr (g x)"
  shows "ex_res f xs = Inr (\<exists>x\<in>set xs. g x)"
  using assms by (induction xs) auto

lemma all_res_total:
  assumes "\<forall>x\<in>set xs. f x = Inr (g x)"
  shows "all_res f xs = Inr (\<forall>x\<in>set xs. g x)"
  using assms by (induction xs) auto

lemma ex_res_False_iff: "ex_res f xs = Inr False \<longleftrightarrow> (\<forall>x\<in>set xs. f x = Inr False)"
  by (induction xs) (auto split: sum.splits)

lemma all_res_True_iff: "all_res f xs = Inr True \<longleftrightarrow> (\<forall>x\<in>set xs. f x = Inr True)"
  by (induction xs) (auto split: sum.splits)

lemma ex_res_TrueD: "ex_res f xs = Inr True \<Longrightarrow> \<exists>x\<in>set xs. f x = Inr True"
  by (induction xs) (auto split: sum.splits if_splits)

lemma all_res_FalseD: "all_res f xs = Inr False \<Longrightarrow> \<exists>x\<in>set xs. f x = Inr False"
  by (induction xs) (auto split: sum.splits if_splits)

lemma ex_res_InlD: "ex_res f xs = Inl e \<Longrightarrow> \<exists>x\<in>set xs. f x = Inl e"
  by (induction xs) (auto split: sum.splits if_splits)

lemma all_res_InlD: "all_res f xs = Inl e \<Longrightarrow> \<exists>x\<in>set xs. f x = Inl e"
  by (induction xs) (auto split: sum.splits if_splits)

lemma map_res_length: "map_res f xs = Inr ys \<Longrightarrow> length ys = length xs"
  by (induction xs arbitrary: ys) (auto split: sum.splits)

lemma map_res_total:
  assumes "\<forall>x\<in>set xs. f x = Inr (g x)"
  shows "map_res f xs = Inr (map g xs)"
  using assms by (induction xs) auto

end
