(* ===== verification/Regexp.thy ===== *)
theory Regexp
  imports Prelude
begin

text \<open>
  What the code uses of Go's \<open>regexp\<close> package: the syntax of
  \<open>regexp/syntax\<close> under the Perl flags (\<open>compile_regexp\<close>), the leftmost-first
  matcher with submatches (\<open>match_at\<close>, \<open>MatchString\<close>, \<open>FindStringSubmatch\<close>),
  \<open>QuoteMeta\<close> and \<open>ReplaceAllString\<close> with template expansion. A
  string is a list of 8-bit characters, each of them one rune: strings are ASCII. Outside the
  model: Unicode classes (\<open>\p{..}\<close>, rejected) and the limit of 1000 on nested
  counted repetitions.
\<close>

section \<open>Syntax trees\<close>

type_synonym ranges = "(nat \<times> nat) list"

text \<open>The Boolean of \<open>RLit\<close> and \<open>RSet\<close> is case folding; that of \<open>RAny\<close> says
  whether it also matches a newline; that of \<open>RStar\<close> and \<open>RQuest\<close> is greediness.
  A class is a negation flag and a union of (negated?, ranges) items.\<close>

datatype regex =
    REmpty
  | RLit bool char
  | RSet bool bool "(bool \<times> ranges) list"
  | RAny bool
  | RBeginText
  | REndText
  | RBeginLine
  | REndLine
  | RWordB
  | RNoWordB
  | RCat regex regex
  | RAlt regex regex
  | RStar bool regex
  | RQuest bool regex
  | RGroup nat regex

definition ccode :: "char \<Rightarrow> nat" where
  "ccode c = of_char c"

lemma ccode_inj [simp]: "ccode a = ccode b \<longleftrightarrow> a = b"
  by (simp add: ccode_def)

definition lower :: "char \<Rightarrow> char" where
  "lower c = (if 65 \<le> ccode c \<and> ccode c \<le> 90 then char_of (ccode c + 32) else c)"

definition upper :: "char \<Rightarrow> char" where
  "upper c = (if 97 \<le> ccode c \<and> ccode c \<le> 122 then char_of (ccode c - 32) else c)"

definition in_ranges :: "ranges \<Rightarrow> char \<Rightarrow> bool" where
  "in_ranges rs c = (\<exists>(lo, hi)\<in>set rs. lo \<le> ccode c \<and> ccode c \<le> hi)"

definition in_items :: "(bool \<times> ranges) list \<Rightarrow> char \<Rightarrow> bool" where
  "in_items its c = (\<exists>(neg, rs)\<in>set its. neg \<noteq> in_ranges rs c)"

definition lit_matches :: "bool \<Rightarrow> char \<Rightarrow> char \<Rightarrow> bool" where
  "lit_matches ci d c = (c = d \<or> ci \<and> lower c = lower d)"

definition set_matches :: "bool \<Rightarrow> bool \<Rightarrow> (bool \<times> ranges) list \<Rightarrow> char \<Rightarrow> bool" where
  "set_matches ci neg its c =
     (neg \<noteq> (in_items its c \<or> ci \<and> (in_items its (lower c) \<or> in_items its (upper c))))"

definition word_ranges :: ranges where
  "word_ranges = [(48, 57), (65, 90), (95, 95), (97, 122)]"

definition is_word :: "char option \<Rightarrow> bool" where
  "is_word o1 = (case o1 of None \<Rightarrow> False | Some c \<Rightarrow> in_ranges word_ranges c)"

section \<open>Matching\<close>

text \<open>
  A position is the character before it, the rest of the input and the captures so
  far, newest first. \<open>match_at r p\<close> lists the positions where a match of \<open>r\<close>
  from \<open>p\<close> can end, in the order of preference of the leftmost-first rule.
\<close>

type_synonym pos = "char option \<times> string \<times> (nat \<times> string) list"

definition newline :: char where
  "newline = CHR 0x0A"

fun eat :: "(char \<Rightarrow> bool) \<Rightarrow> pos \<Rightarrow> pos list" where
  "eat P (pv, [], cs) = []"
| "eat P (pv, c # s, cs) = (if P c then [(Some c, s, cs)] else [])"

fun at_word_boundary :: "pos \<Rightarrow> bool" where
  "at_word_boundary (pv, s, cs) =
     (is_word pv \<noteq> is_word (case s of [] \<Rightarrow> None | c # _ \<Rightarrow> Some c))"

fun add_capture :: "nat \<Rightarrow> pos \<Rightarrow> pos \<Rightarrow> pos" where
  "add_capture n (pv, s, cs) (pv', s', cs') =
     (pv', s', (n, take (length s - length s') s) # cs')"

function match_at :: "regex \<Rightarrow> pos \<Rightarrow> pos list" where
  "match_at REmpty p = [p]"
| "match_at (RLit f d) p = eat (lit_matches f d) p"
| "match_at (RSet f neg its) p = eat (set_matches f neg its) p"
| "match_at (RAny nl) p = eat (\<lambda>c. nl \<or> c \<noteq> newline) p"
| "match_at RBeginText p = (if fst p = None then [p] else [])"
| "match_at REndText p = (if fst (snd p) = [] then [p] else [])"
| "match_at RBeginLine p = (if fst p = None \<or> fst p = Some newline then [p] else [])"
| "match_at REndLine p =
     (if fst (snd p) = [] \<or> hd (fst (snd p)) = newline then [p] else [])"
| "match_at RWordB p = (if at_word_boundary p then [p] else [])"
| "match_at RNoWordB p = (if at_word_boundary p then [] else [p])"
| "match_at (RCat a b) p = concat (map (match_at b) (match_at a p))"
| "match_at (RAlt a b) p = match_at a p @ match_at b p"
| "match_at (RQuest g a) p = (if g then match_at a p @ [p] else p # match_at a p)"
| "match_at (RGroup n a) p = map (add_capture n p) (match_at a p)"
| "match_at (RStar g a) p =
     (let more = concat (map (\<lambda>q. if length (fst (snd q)) < length (fst (snd p))
                                  then match_at (RStar g a) q else [])
                             (match_at a p))
      in if g then more @ [p] else p # more)"
  by pat_completeness auto
termination
  by (relation "measures [\<lambda>(r, p). size r, \<lambda>(r, p). length (fst (snd p))]") auto

lemmas match_at_star = match_at.simps(15)
declare match_at_star [simp del]

text \<open>Every start position of the input, with the character before it.\<close>

fun starts :: "char option \<Rightarrow> string \<Rightarrow> (char option \<times> string) list" where
  "starts pv [] = [(pv, [])]"
| "starts pv (c # s) = (pv, c # s) # starts (Some c) s"

definition MatchString :: "regex \<Rightarrow> string \<Rightarrow> bool" where
  "MatchString r s =
     (\<exists>(pv, t)\<in>set (starts None s). match_at r (pv, t, []) \<noteq> [])"

text \<open>The leftmost match at or after a position: the skipped text, the matched text, the
  captures and the position after it.\<close>

fun find_from :: "regex \<Rightarrow> char option \<Rightarrow> string \<Rightarrow>
    (string \<times> string \<times> (nat \<times> string) list \<times> char option \<times> string) option" where
  "find_from r pv s =
     (case match_at r (pv, s, []) of
        (pv', s', cs) # _ \<Rightarrow> Some ([], take (length s - length s') s, cs, pv', s')
      | [] \<Rightarrow>
          (case s of
             [] \<Rightarrow> None
           | c # t \<Rightarrow>
               (case find_from r (Some c) t of
                  None \<Rightarrow> None
                | Some (skip, rest) \<Rightarrow> Some (c # skip, rest))))"

definition capture :: "nat \<Rightarrow> string \<Rightarrow> (nat \<times> string) list \<Rightarrow> string" where
  "capture n whole cs =
     (if n = 0 then whole else case map_of cs n of None \<Rightarrow> [] | Some t \<Rightarrow> t)"

section \<open>Parsing\<close>

record re_flags =
  fold_case :: bool
  dot_nl :: bool
  multi_line :: bool
  non_greedy :: bool

definition default_flags :: re_flags where
  "default_flags =
     \<lparr>fold_case = False, dot_nl = False, multi_line = False, non_greedy = False\<rparr>"

text \<open>
  The parser keeps the alternatives and the current concatenation of the innermost open
  group, newest first, and a frame for every enclosing group: its alternatives, its
  concatenation, the capture number of the group opened inside it and its flags.
\<close>

datatype re_frame = ReFrame "regex list" "regex list" "nat option" re_flags

record re_state =
  frames :: "re_frame list"
  alts :: "regex list"
  cur :: "regex list"
  flags :: re_flags
  ncap :: nat
  names :: "(string \<times> nat) list"
  last_repeat :: bool

definition init_re_state :: re_state where
  "init_re_state = \<lparr>frames = [], alts = [], cur = [], flags = default_flags, ncap = 0,
     names = [], last_repeat = False\<rparr>"

definition cat_list :: "regex list \<Rightarrow> regex" where
  "cat_list rs = foldr RCat rs REmpty"

fun alt_list :: "regex list \<Rightarrow> regex" where
  "alt_list [] = REmpty"
| "alt_list [r] = r"
| "alt_list (r # rs) = RAlt r (alt_list rs)"

definition group_body :: "re_state \<Rightarrow> regex" where
  "group_body st = alt_list (rev (cat_list (rev (cur st)) # alts st))"

definition push_re :: "regex \<Rightarrow> re_state \<Rightarrow> re_state" where
  "push_re r st = st\<lparr>cur := r # cur st, last_repeat := False\<rparr>"

definition push_lit :: "char \<Rightarrow> re_state \<Rightarrow> re_state" where
  "push_lit c st = push_re (RLit (fold_case (flags st)) c) st"

definition open_group :: "nat option \<Rightarrow> re_flags \<Rightarrow> re_state \<Rightarrow> re_state" where
  "open_group cap fl st =
     st\<lparr>frames := ReFrame (alts st) (cur st) cap (flags st) # frames st,
        alts := [], cur := [], flags := fl, last_repeat := False\<rparr>"

definition close_group :: "re_state \<Rightarrow> re_state result" where
  "close_group st =
     (case frames st of
        [] \<Rightarrow> Inl BadParameter
      | ReFrame as cs cap fl # fs \<Rightarrow>
          (let body = group_body st;
               r = (case cap of None \<Rightarrow> body | Some n \<Rightarrow> RGroup n body)
           in Inr (st\<lparr>frames := fs, alts := as, cur := r # cs, flags := fl,
                      last_repeat := False\<rparr>)))"

definition is_digit :: "char \<Rightarrow> bool" where
  "is_digit c = (48 \<le> ccode c \<and> ccode c \<le> 57)"

definition is_alnum :: "char \<Rightarrow> bool" where
  "is_alnum c = (is_digit c \<or> (65 \<le> ccode c \<and> ccode c \<le> 90) \<or> (97 \<le> ccode c \<and> ccode c \<le> 122))"

definition hex_val :: "char \<Rightarrow> nat option" where
  "hex_val c =
     (if is_digit c then Some (ccode c - 48)
      else if 97 \<le> ccode c \<and> ccode c \<le> 102 then Some (ccode c - 87)
      else if 65 \<le> ccode c \<and> ccode c \<le> 70 then Some (ccode c - 55)
      else None)"

definition is_octal :: "char \<Rightarrow> bool" where
  "is_octal c = (48 \<le> ccode c \<and> ccode c \<le> 55)"

text \<open>Up to \<open>n\<close> octal digits.\<close>

fun octal_run :: "nat \<Rightarrow> nat \<Rightarrow> string \<Rightarrow> nat \<times> string" where
  "octal_run 0 v s = (v, s)"
| "octal_run (Suc n) v [] = (v, [])"
| "octal_run (Suc n) v (c # s) =
     (if is_octal c then octal_run n (8 * v + (ccode c - 48)) s else (v, c # s))"

fun hex_run :: "nat \<Rightarrow> string \<Rightarrow> (nat \<times> string) option" where
  "hex_run v [] = None"
| "hex_run v (c # s) =
     (if c = CHR ''}'' then Some (v, s)
      else case hex_val c of None \<Rightarrow> None | Some d \<Rightarrow> hex_run (16 * v + d) s)"

definition small_char :: "nat \<Rightarrow> string \<Rightarrow> (char \<times> string) result" where
  "small_char v s = (if v < 256 then Inr (char_of v, s) else Inl BadParameter)"

text \<open>\<open>parseEscape\<close>: what follows the backslash.\<close>

definition parse_escape :: "string \<Rightarrow> (char \<times> string) result" where
  "parse_escape t =
     (case t of
        [] \<Rightarrow> Inl BadParameter
      | c # s \<Rightarrow>
          if \<not> is_alnum c then Inr (c, s)
          else if c = CHR ''0'' then (let (v, u) = octal_run 2 0 s in small_char v u)
          else if is_octal c then
            (case s of
               d # _ \<Rightarrow> if is_octal d then (let (v, u) = octal_run 2 (ccode c - 48) s in small_char v u)
                        else Inl BadParameter
             | [] \<Rightarrow> Inl BadParameter)
          else if c = CHR ''x'' then
            (case s of
               [] \<Rightarrow> Inl BadParameter
             | d # u \<Rightarrow>
                 if d = CHR ''{'' then
                   (if u \<noteq> [] \<and> hd u = CHR ''}'' then Inl BadParameter
                    else case hex_run 0 u of None \<Rightarrow> Inl BadParameter | Some (v, w) \<Rightarrow> small_char v w)
                 else
                   (case u of
                      [] \<Rightarrow> Inl BadParameter
                    | e # w \<Rightarrow>
                        (case (hex_val d, hex_val e) of
                           (Some x, Some y) \<Rightarrow> small_char (16 * x + y) w
                         | _ \<Rightarrow> Inl BadParameter)))
          else if c = CHR ''a'' then Inr (CHR 0x07, s)
          else if c = CHR ''f'' then Inr (CHR 0x0C, s)
          else if c = CHR ''n'' then Inr (newline, s)
          else if c = CHR ''r'' then Inr (CHR 0x0D, s)
          else if c = CHR ''t'' then Inr (CHR 0x09, s)
          else if c = CHR ''v'' then Inr (CHR 0x0B, s)
          else Inl BadParameter)"

definition perl_class :: "char \<Rightarrow> (bool \<times> ranges) option" where
  "perl_class c =
     (if c = CHR ''d'' then Some (False, [(48, 57)])
      else if c = CHR ''D'' then Some (True, [(48, 57)])
      else if c = CHR ''s'' then Some (False, [(9, 10), (12, 13), (32, 32)])
      else if c = CHR ''S'' then Some (True, [(9, 10), (12, 13), (32, 32)])
      else if c = CHR ''w'' then Some (False, word_ranges)
      else if c = CHR ''W'' then Some (True, word_ranges)
      else None)"

definition posix_ranges :: "string \<Rightarrow> ranges option" where
  "posix_ranges n = map_of
     [(''alnum'', [(48, 57), (65, 90), (97, 122)]), (''alpha'', [(65, 90), (97, 122)]),
      (''ascii'', [(0, 127)]), (''blank'', [(9, 9), (32, 32)]), (''cntrl'', [(0, 31), (127, 127)]),
      (''digit'', [(48, 57)]), (''graph'', [(33, 126)]), (''lower'', [(97, 122)]),
      (''print'', [(32, 126)]), (''punct'', [(33, 47), (58, 64), (91, 96), (123, 126)]),
      (''space'', [(9, 13), (32, 32)]), (''upper'', [(65, 90)]), (''word'', word_ranges),
      (''xdigit'', [(48, 57), (65, 70), (97, 102)])] n"

text \<open>The text before the first \<open>:]\<close> and what follows it.\<close>

fun until_class_end :: "string \<Rightarrow> (string \<times> string) option" where
  "until_class_end [] = None"
| "until_class_end [c] = None"
| "until_class_end (c # d # s) =
     (if c = CHR '':'' \<and> d = CHR '']'' then Some ([], s)
      else map_option (\<lambda>(n, u). (c # n, u)) (until_class_end (d # s)))"

definition parse_class_char :: "string \<Rightarrow> (char \<times> string) result" where
  "parse_class_char t =
     (case t of
        [] \<Rightarrow> Inl BadParameter
      | c # s \<Rightarrow> if c = CHR 0x5C then parse_escape s else Inr (c, s))"

text \<open>One element of a bracketed class.\<close>

definition class_item :: "string \<Rightarrow> ((bool \<times> ranges) \<times> string) result" where
  "class_item t =
     (let named = (if 2 < length t \<and> has_prefix t ''[:'' then until_class_end (drop 2 t) else None);
          perl = (case t of c # d # s \<Rightarrow> if c = CHR 0x5C then map_option (\<lambda>i. (i, s)) (perl_class d)
                                         else None
                  | _ \<Rightarrow> None)
      in case named of
           Some (n, u) \<Rightarrow>
             (let neg = has_prefix n ''^'';
                  nm = (if neg then drop 1 n else n)
              in case posix_ranges nm of
                   None \<Rightarrow> Inl BadParameter
                 | Some rs \<Rightarrow> Inr ((neg, rs), u))
         | None \<Rightarrow>
             (case perl of
                Some r \<Rightarrow> Inr r
              | None \<Rightarrow>
                  (case parse_class_char t of
                     Inl e \<Rightarrow> Inl e
                   | Inr (lo, u) \<Rightarrow>
                       if 2 \<le> length u \<and> u ! 0 = CHR ''-'' \<and> u ! 1 \<noteq> CHR '']'' then
                         (case parse_class_char (tl u) of
                            Inl e \<Rightarrow> Inl e
                          | Inr (hi, w) \<Rightarrow>
                              if ccode hi < ccode lo then Inl BadParameter
                              else Inr ((False, [(ccode lo, ccode hi)]), w))
                       else Inr ((False, [(ccode lo, ccode lo)]), u))))"

text \<open>The loop reads elements up to the closing bracket; each one consumes input.\<close>

function class_run :: "bool \<Rightarrow> (bool \<times> ranges) list \<Rightarrow> string \<Rightarrow>
    ((bool \<times> ranges) list \<times> string) result" where
  "class_run first its t =
     (if t \<noteq> [] \<and> hd t = CHR '']'' \<and> \<not> first then Inr (rev its, tl t)
      else case class_item t of
             Inl e \<Rightarrow> Inl e
           | Inr (it, u) \<Rightarrow>
               if length u < length t then class_run False (it # its) u else Inl BadParameter)"
  by pat_completeness auto
termination
  by (relation "measure (\<lambda>(first, its, t). length t)") auto

definition parse_class :: "re_state \<Rightarrow> string \<Rightarrow> (re_state \<times> string) result" where
  "parse_class st t =
     (let neg = (t \<noteq> [] \<and> hd t = CHR ''^'');
          u = (if neg then tl t else t)
      in case class_run True [] u of
           Inl e \<Rightarrow> Inl e
         | Inr (its, w) \<Rightarrow> Inr (push_re (RSet (fold_case (flags st)) neg its) st, w))"

section \<open>Repetition operators\<close>

fun lazy_suffix :: "string \<Rightarrow> bool \<times> string" where
  "lazy_suffix [] = (False, [])"
| "lazy_suffix (c # s) = (if c = CHR ''?'' then (True, s) else (False, c # s))"

fun repeat_quest :: "bool \<Rightarrow> nat \<Rightarrow> regex \<Rightarrow> regex" where
  "repeat_quest g 0 r = REmpty"
| "repeat_quest g (Suc n) r = RQuest g (RCat r (repeat_quest g n r))"

definition repeat_re :: "bool \<Rightarrow> nat \<Rightarrow> nat option \<Rightarrow> regex \<Rightarrow> regex" where
  "repeat_re g lo hi r =
     (case hi of
        None \<Rightarrow> cat_list (replicate lo r @ [RStar g r])
      | Some h \<Rightarrow> cat_list (replicate lo r @ [repeat_quest g (h - lo) r]))"

definition apply_repeat :: "(bool \<Rightarrow> regex \<Rightarrow> regex) \<Rightarrow> re_state \<Rightarrow> string \<Rightarrow>
    (re_state \<times> string) result" where
  "apply_repeat f st s =
     (let (lazy, u) = lazy_suffix s
      in if last_repeat st then Inl BadParameter
         else case cur st of
                [] \<Rightarrow> Inl BadParameter
              | r # rs \<Rightarrow>
                  Inr (st\<lparr>cur := f (lazy = non_greedy (flags st)) r # rs, last_repeat := True\<rparr>, u))"

fun digits_val :: "nat \<Rightarrow> string \<Rightarrow> nat \<times> string" where
  "digits_val v [] = (v, [])"
| "digits_val v (c # s) =
     (if is_digit c then digits_val (10 * v + (ccode c - 48)) s else (v, c # s))"

definition parse_int :: "string \<Rightarrow> (nat \<times> string) option" where
  "parse_int s =
     (case s of
        [] \<Rightarrow> None
      | c # t \<Rightarrow>
          if \<not> is_digit c then None
          else if c = CHR ''0'' \<and> t \<noteq> [] \<and> is_digit (hd t) then None
          else Some (digits_val 0 s))"

text \<open>\<open>{n}\<close>, \<open>{n,}\<close>, \<open>{n,m}\<close> after the brace; \<open>None\<close> when it is no counted
  repetition and the brace is a literal.\<close>

definition parse_repeat :: "string \<Rightarrow> (nat \<times> nat option \<times> string) option" where
  "parse_repeat s =
     (case parse_int s of
        None \<Rightarrow> None
      | Some (lo, t) \<Rightarrow>
          (case t of
             [] \<Rightarrow> None
           | c # u \<Rightarrow>
               if c = CHR ''}'' then Some (lo, Some lo, u)
               else if c \<noteq> CHR '','' then None
               else if u \<noteq> [] \<and> hd u = CHR ''}'' then Some (lo, None, tl u)
               else (case parse_int u of
                       Some (hi, w) \<Rightarrow>
                         (if w \<noteq> [] \<and> hd w = CHR ''}'' then Some (lo, Some hi, tl w) else None)
                     | None \<Rightarrow> None)))"

definition repeat_ok :: "nat \<Rightarrow> nat option \<Rightarrow> bool" where
  "repeat_ok lo hi = (lo \<le> 1000 \<and> (case hi of None \<Rightarrow> True | Some h \<Rightarrow> h \<le> 1000 \<and> lo \<le> h))"

section \<open>Groups and flags\<close>

text \<open>The flags of \<open>(?flags)\<close> and \<open>(?flags:\<close>; the result says whether a group opens.\<close>

fun parse_flags :: "re_flags \<Rightarrow> bool \<Rightarrow> bool \<Rightarrow> string \<Rightarrow> (re_flags \<times> bool \<times> string) option" where
  "parse_flags fl neg saw [] = None"
| "parse_flags fl neg saw (c # s) =
     (if c = CHR ''i'' then parse_flags (fl\<lparr>fold_case := \<not> neg\<rparr>) neg True s
      else if c = CHR ''m'' then parse_flags (fl\<lparr>multi_line := \<not> neg\<rparr>) neg True s
      else if c = CHR ''s'' then parse_flags (fl\<lparr>dot_nl := \<not> neg\<rparr>) neg True s
      else if c = CHR ''U'' then parse_flags (fl\<lparr>non_greedy := \<not> neg\<rparr>) neg True s
      else if c = CHR ''-'' then (if neg then None else parse_flags fl True False s)
      else if c = CHR '':'' \<or> c = CHR '')'' then
        (if neg \<and> \<not> saw then None else Some (fl, c = CHR '':'', s))
      else None)"

definition is_name_char :: "char \<Rightarrow> bool" where
  "is_name_char c = (is_alnum c \<or> c = CHR ''_'')"

definition parse_paren :: "re_state \<Rightarrow> string \<Rightarrow> (re_state \<times> string) result" where
  "parse_paren st s =
     (if has_prefix s ''?P<'' then
        (let n = takeWhile is_name_char (drop 3 s);
             u = drop (3 + length n) s
         in if n = [] \<or> u = [] \<or> hd u \<noteq> CHR ''>'' \<or> n \<in> fst ` set (names st) then Inl BadParameter
            else Inr (open_group (Some (Suc (ncap st))) (flags st)
                        (st\<lparr>ncap := Suc (ncap st), names := (n, Suc (ncap st)) # names st\<rparr>), tl u))
      else if has_prefix s ''?'' then
        (case parse_flags (flags st) False False (tl s) of
           None \<Rightarrow> Inl BadParameter
         | Some (fl, grp, u) \<Rightarrow>
             if grp then Inr (open_group None fl st, u) else Inr (st\<lparr>flags := fl\<rparr>, u))
      else
        Inr (open_group (Some (Suc (ncap st))) (flags st) (st\<lparr>ncap := Suc (ncap st)\<rparr>), s))"

text \<open>\<open>\Q...\E\<close>: the quoted text and what follows it.\<close>

fun quoted_text :: "string \<Rightarrow> string \<times> string" where
  "quoted_text [] = ([], [])"
| "quoted_text [c] = ([c], [])"
| "quoted_text (c # d # s) =
     (if c = CHR 0x5C \<and> d = CHR ''E'' then ([], s)
      else let (q, u) = quoted_text (d # s) in (c # q, u))"

definition parse_backslash :: "re_state \<Rightarrow> string \<Rightarrow> (re_state \<times> string) result" where
  "parse_backslash st s =
     (if s \<noteq> [] \<and> hd s = CHR ''A'' then Inr (push_re RBeginText st, tl s)
      else if s \<noteq> [] \<and> hd s = CHR ''b'' then Inr (push_re RWordB st, tl s)
      else if s \<noteq> [] \<and> hd s = CHR ''B'' then Inr (push_re RNoWordB st, tl s)
      else if s \<noteq> [] \<and> hd s = CHR ''z'' then Inr (push_re REndText st, tl s)
      else if s \<noteq> [] \<and> hd s = CHR ''Q'' then
        (let (q, u) = quoted_text (tl s) in Inr (fold push_lit q st, u))
      else
        (case (if s = [] then None else perl_class (hd s)) of
           Some it \<Rightarrow> Inr (push_re (RSet (fold_case (flags st)) False [it]) st, tl s)
         | None \<Rightarrow>
             (case parse_escape s of
                Inl e \<Rightarrow> Inl e
              | Inr (c, u) \<Rightarrow> Inr (push_lit c st, u))))"

section \<open>The parser loop\<close>

definition re_step :: "re_state \<Rightarrow> char \<Rightarrow> string \<Rightarrow> (re_state \<times> string) result" where
  "re_step st c s =
     (if c = CHR ''('' then parse_paren st s
      else if c = CHR ''|'' then
        Inr (st\<lparr>alts := cat_list (rev (cur st)) # alts st, cur := [], last_repeat := False\<rparr>, s)
      else if c = CHR '')'' then
        (case close_group st of Inl e \<Rightarrow> Inl e | Inr st' \<Rightarrow> Inr (st', s))
      else if c = CHR ''^'' then
        Inr (push_re (if multi_line (flags st) then RBeginLine else RBeginText) st, s)
      else if c = CHR ''$'' then
        Inr (push_re (if multi_line (flags st) then REndLine else REndText) st, s)
      else if c = CHR ''.'' then Inr (push_re (RAny (dot_nl (flags st))) st, s)
      else if c = CHR ''['' then parse_class st s
      else if c = CHR ''*'' then apply_repeat RStar st s
      else if c = CHR ''+'' then apply_repeat (\<lambda>g r. RCat r (RStar g r)) st s
      else if c = CHR ''?'' then apply_repeat RQuest st s
      else if c = CHR ''{'' then
        (case parse_repeat s of
           None \<Rightarrow> Inr (push_lit c st, s)
         | Some (lo, hi, u) \<Rightarrow>
             if repeat_ok lo hi then apply_repeat (\<lambda>g. repeat_re g lo hi) st u
             else Inl BadParameter)
      else if c = CHR 0x5C then parse_backslash st s
      else Inr (push_lit c st, s))"

text \<open>A step never returns more input than it was given, so the guard of the loop only
  serves its termination proof.\<close>

function re_run :: "re_state \<Rightarrow> string \<Rightarrow> re_state result" where
  "re_run st [] = (if frames st = [] then Inr st else Inl BadParameter)"
| "re_run st (c # s) =
     (case re_step st c s of
        Inl e \<Rightarrow> Inl e
      | Inr (st', s') \<Rightarrow> if length s' \<le> length s then re_run st' s' else Inl BadParameter)"
  by pat_completeness auto
termination
  by (relation "measure (\<lambda>(st, s). length s)") auto

record compiled =
  re_prog :: regex
  re_names :: "(string \<times> nat) list"

definition compile_regexp :: "string \<Rightarrow> compiled result" where
  "compile_regexp s =
     (case re_run init_re_state s of
        Inl e \<Rightarrow> Inl BadParameter
      | Inr st \<Rightarrow> Inr \<lparr>re_prog = group_body st, re_names = names st\<rparr>)"

section \<open>Quoting\<close>

definition is_meta :: "char \<Rightarrow> bool" where
  "is_meta c = (c = CHR 0x5C \<or> c \<in> set ''.+*?()|[]{}^$'')"

definition quote_char :: "char \<Rightarrow> string" where
  "quote_char c = (if is_meta c then [CHR 0x5C, c] else [c])"

definition QuoteMeta :: "string \<Rightarrow> string" where
  "QuoteMeta s = concat (map quote_char s)"

section \<open>Replacement\<close>

definition name_of :: "string \<Rightarrow> bool" where
  "name_of n = (n \<noteq> [] \<and> list_all is_name_char n)"

text \<open>The group a template name denotes; a numeral denotes the group of that number.\<close>

definition expand_name :: "(string \<times> nat) list \<Rightarrow> string \<Rightarrow> (nat \<times> string) list \<Rightarrow> string \<Rightarrow> string" where
  "expand_name nms whole cs n =
     (if list_all is_digit n \<and> \<not> (1 < length n \<and> hd n = CHR ''0'') then capture (fst (digits_val 0 n)) whole cs
      else case map_of nms n of None \<Rightarrow> [] | Some k \<Rightarrow> capture k whole cs)"

text \<open>\<open>Regexp.expand\<close>: \<open>$name\<close>, \<open>${name}\<close> and \<open>$$\<close>; a malformed reference is copied.\<close>

function expand_template :: "(string \<times> nat) list \<Rightarrow> string \<Rightarrow> (nat \<times> string) list \<Rightarrow> string \<Rightarrow> string" where
  "expand_template nms whole cs [] = []"
| "expand_template nms whole cs (c # s) =
     (if c \<noteq> CHR ''$'' then c # expand_template nms whole cs s
      else case s of
             [] \<Rightarrow> [c]
           | d # u \<Rightarrow>
               if d = CHR ''$'' then CHR ''$'' # expand_template nms whole cs u
               else if d = CHR ''{'' then
                 (let n = takeWhile is_name_char u; w = dropWhile is_name_char u
                  in if n \<noteq> [] \<and> w \<noteq> [] \<and> hd w = CHR ''}''
                     then expand_name nms whole cs n @ expand_template nms whole cs (tl w)
                     else c # expand_template nms whole cs s)
               else
                 (let n = takeWhile is_name_char s; w = dropWhile is_name_char s
                  in if n \<noteq> [] then expand_name nms whole cs n @ expand_template nms whole cs w
                     else c # expand_template nms whole cs s))"
  by pat_completeness auto
termination
  by (relation "measure (\<lambda>(nms, whole, cs, t). length t)")
     (auto simp: less_Suc_eq_le length_dropWhile_le
           intro: le_SucI le_trans [OF diff_le_self length_dropWhile_le])

text \<open>
  \<open>ReplaceAllString\<close>: leftmost matches, not overlapping; an empty match right after
  the previous match is skipped. \<open>after\<close> says that a match has just ended here. A
  match that leaves the input where it was makes the loop copy one character and go on.
\<close>

function replace_from :: "compiled \<Rightarrow> string \<Rightarrow> bool \<Rightarrow> char option \<Rightarrow> string \<Rightarrow> string" where
  "replace_from re tmpl after pv s =
     (case find_from (re_prog re) pv s of
        None \<Rightarrow> s
      | Some (skip, whole, cs, pv', s') \<Rightarrow>
          (let out = (if whole = [] \<and> skip = [] \<and> after then []
                      else expand_template (re_names re) whole cs tmpl)
           in if length s' < length s \<and> whole \<noteq> []
              then skip @ out @ replace_from re tmpl True pv' s'
              else (case s' of
                      [] \<Rightarrow> skip @ out
                    | c # t \<Rightarrow> if length t < length s
                                then skip @ out @ c # replace_from re tmpl False (Some c) t
                                else skip @ out)))"
  by pat_completeness auto
termination
  by (relation "measure (\<lambda>(re, tmpl, after, pv, s). length s)") auto

text \<open>These three unfold without end; they are evaluated and unfolded by hand.\<close>

declare find_from.simps [simp del] class_run.simps [simp del] replace_from.simps [simp del]

definition ReplaceAllString :: "compiled \<Rightarrow> string \<Rightarrow> string \<Rightarrow> string" where
  "ReplaceAllString re s tmpl = replace_from re tmpl False None s"

end
