(* ===== verification/Glob.thy ===== *)
theory Glob
  imports Regexp
begin

text \<open>
  \<open>lib/utils/replace.go\<close>: simplified wildcard expressions, the form in which labels,
  role mappings and matchers are written. An expression that starts with \<open>^\<close> and ends
  with \<open>$\<close> is a regular expression; any other is a glob, quoted and anchored. The
  main result is that the glob route, through \<open>QuoteMeta\<close>, the replacement of the quoted
  stars, the regular-expression parser and the matcher, is plain glob matching.
\<close>

section \<open>Definitions\<close>

text \<open>The package variables \<open>replaceWildcard\<close> and \<open>reExpansion\<close>, compiled once.\<close>

definition replaceWildcard :: compiled where
  "replaceWildcard =
     \<lparr>re_prog = RCat (RGroup 1 (RCat (RLit False (CHR 0x5C)) (RCat (RLit False CHR ''*'') REmpty))) REmpty,
      re_names = []\<rparr>"

definition reExpansion :: compiled where
  "reExpansion =
     (let cls = RSet False True [(False, [(36, 36)])]
      in \<lparr>re_prog = RCat (RLit False CHR ''$'') (RCat (RCat cls (RStar True cls)) REmpty),
          re_names = []\<rparr>)"

definition ContainsExpansion :: "string \<Rightarrow> bool" where
  "ContainsExpansion val = MatchString (re_prog reExpansion) val"

definition GlobToRegexp :: "string \<Rightarrow> string" where
  "GlobToRegexp inp = ReplaceAllString replaceWildcard (QuoteMeta inp) ''(.*)''"

definition anchored :: "string \<Rightarrow> string" where
  "anchored expression =
     (if \<not> has_prefix expression ''^'' \<or> \<not> has_suffix expression ''$''
      then ''^'' @ GlobToRegexp expression @ ''$'' else expression)"

definition ReplaceRegexpWithConfig :: "string \<Rightarrow> string \<Rightarrow> string \<Rightarrow> bool \<Rightarrow> string result" where
  "ReplaceRegexpWithConfig expression replaceWith inp ignoreCase =
     (let expr = (if ignoreCase then ''(?i)'' @ anchored expression else anchored expression)
      in case compile_regexp expr of
           Inl e \<Rightarrow> Inl BadParameter
         | Inr re \<Rightarrow>
             if \<not> MatchString (re_prog re) inp then Inl NotFound
             else Inr (ReplaceAllString re inp replaceWith))"

definition ReplaceRegexp :: "string \<Rightarrow> string \<Rightarrow> string \<Rightarrow> string result" where
  "ReplaceRegexp expression replaceWith inp =
     ReplaceRegexpWithConfig expression replaceWith inp False"

fun SliceMatchesRegex :: "string \<Rightarrow> string list \<Rightarrow> bool result" where
  "SliceMatchesRegex inp [] = Inr False"
| "SliceMatchesRegex inp (expression # expressions) =
     (case compile_regexp (anchored expression) of
        Inl e \<Rightarrow> Inl BadParameter
      | Inr re \<Rightarrow>
          if MatchString (re_prog re) inp then Inr True
          else SliceMatchesRegex inp expressions)"

section \<open>The specification of globs\<close>

text \<open>A star stands for any text without a newline, any other character for itself.\<close>

fun glob_match :: "string \<Rightarrow> string \<Rightarrow> bool" where
  "glob_match [] s = (s = [])"
| "glob_match (c # g) s =
     (if c = CHR ''*'' then
        (\<exists>k\<in>{0..length s}. newline \<notin> set (take k s) \<and> glob_match g (drop k s))
      else s \<noteq> [] \<and> hd s = c \<and> glob_match g (tl s))"

definition glob_char :: "char \<Rightarrow> string" where
  "glob_char c = (if c = CHR ''*'' then ''(.*)'' else quote_char c)"

definition is_glob :: "string \<Rightarrow> bool" where
  "is_glob e = (\<not> has_prefix e ''^'' \<or> \<not> has_suffix e ''$'')"

section \<open>What \<open>GlobToRegexp\<close> computes\<close>

lemma ccode_char [simp]: "ccode (CHR 0x5C) = 92" "ccode (CHR ''*'') = 42"
  by (simp_all add: ccode_def)

lemma wildcard_match:
  "match_at (re_prog replaceWildcard) (pv, s, []) =
     (case s of
        a # b # t \<Rightarrow> if a = CHR 0x5C \<and> b = CHR ''*'' then [(Some b, t, [(1, [a, b])])] else []
      | _ \<Rightarrow> [])"
  by (auto simp: replaceWildcard_def lit_matches_def split: list.splits)

lemma replaceWildcard_compiles:
  "compile_regexp [CHR ''('', CHR 0x5C, CHR 0x5C, CHR 0x5C, CHR ''*'', CHR '')''] = Inr replaceWildcard"
  by code_simp

lemma reExpansion_compiles:
  "compile_regexp [CHR 0x5C, CHR ''$'', CHR ''['', CHR ''^'', CHR 0x5C, CHR ''$'', CHR '']'', CHR ''+''] =
     Inr reExpansion"
  by code_simp

lemma find_wildcard_Nil: "find_from (re_prog replaceWildcard) pv [] = None"
  by (subst find_from.simps) (simp add: wildcard_match)

lemma find_wildcard_skip:
  assumes "c \<noteq> CHR 0x5C \<or> s = [] \<or> hd s \<noteq> CHR ''*''"
  shows "find_from (re_prog replaceWildcard) pv (c # s) =
    map_option (\<lambda>(skip, r). (c # skip, r)) (find_from (re_prog replaceWildcard) (Some c) s)"
  using assms by (subst find_from.simps) (auto simp: wildcard_match split: option.splits list.splits)

lemma find_wildcard_hit:
  "find_from (re_prog replaceWildcard) pv (CHR 0x5C # CHR ''*'' # s) =
     Some ([], [CHR 0x5C, CHR ''*''], [(1, [CHR 0x5C, CHR ''*''])], Some CHR ''*'', s)"
  by (subst find_from.simps) (simp add: wildcard_match)

lemma expand_plain: "CHR ''$'' \<notin> set t \<Longrightarrow> expand_template n w cs t = t"
  by (induction t) auto

lemma QuoteMeta_simps [simp]:
  "QuoteMeta [] = []" "QuoteMeta (c # g) = quote_char c @ QuoteMeta g"
  by (simp_all add: QuoteMeta_def)

lemma replace_wildcard_hit:
  "replace_from replaceWildcard ''(.*)'' a pv (CHR 0x5C # CHR ''*'' # s) =
     ''(.*)'' @ replace_from replaceWildcard ''(.*)'' True (Some CHR ''*'') s"
  by (subst replace_from.simps) (simp add: find_wildcard_hit expand_plain)

lemma find_wildcard_shorter:
  "find_from (re_prog replaceWildcard) pv s = Some (sk, w, cs, pv', s') \<Longrightarrow>
     w = [CHR 0x5C, CHR ''*''] \<and> length s' < length s"
proof (induction s arbitrary: pv sk)
  case Nil then show ?case by (simp add: find_wildcard_Nil)
next
  case (Cons c s)
  show ?case
  proof (cases "c \<noteq> CHR 0x5C \<or> s = [] \<or> hd s \<noteq> CHR ''*''")
    case True
    with Cons show ?thesis by (fastforce simp: find_wildcard_skip)
  next
    case False
    then obtain t where "s = CHR ''*'' # t" "c = CHR 0x5C" by (cases s) auto
    with Cons.prems show ?thesis by (auto simp: find_wildcard_hit)
  qed
qed

lemma replace_wildcard_skip:
  assumes "c \<noteq> CHR 0x5C \<or> s = [] \<or> hd s \<noteq> CHR ''*''"
  shows "replace_from replaceWildcard ''(.*)'' a pv (c # s) =
    c # replace_from replaceWildcard ''(.*)'' False (Some c) s"
proof (cases "find_from (re_prog replaceWildcard) (Some c) s")
  case None
  with assms show ?thesis
    by (simp add: replace_from.simps [of _ _ _ _ "c # s"] replace_from.simps [of _ _ _ _ s] find_wildcard_skip)
next
  case (Some x)
  obtain sk w cs pv' s' where x: "x = (sk, w, cs, pv', s')" by (cases x) auto
  with Some find_wildcard_shorter have w: "w = [CHR 0x5C, CHR ''*'']" "length s' < length s" by blast+
  from assms Some x w show ?thesis
    by (simp add: replace_from.simps [of _ _ _ _ "c # s"] replace_from.simps [of _ _ _ _ s] find_wildcard_skip)
qed

lemma replace_wildcard_quoted:
  "replace_from replaceWildcard ''(.*)'' a pv (QuoteMeta g) = concat (map glob_char g)"
proof (induction g arbitrary: a pv)
  case Nil
  then show ?case by (simp add: replace_from.simps [of _ _ _ _ "[]"] find_wildcard_Nil)
next
  case (Cons c g)
  have hdq: "QuoteMeta g = [] \<or> hd (QuoteMeta g) \<noteq> CHR ''*''"
    by (cases g) (auto simp: quote_char_def is_meta_def)
  consider "c = CHR ''*''" | "c \<noteq> CHR ''*''" "is_meta c" | "c \<noteq> CHR ''*''" "\<not> is_meta c" by blast
  then show ?case
  proof cases
    case 1
    then show ?thesis
      using Cons by (simp add: quote_char_def is_meta_def glob_char_def replace_wildcard_hit)
  next
    case 2
    then have "replace_from replaceWildcard ''(.*)'' a pv (CHR 0x5C # c # QuoteMeta g) =
        CHR 0x5C # c # replace_from replaceWildcard ''(.*)'' False (Some c) (QuoteMeta g)"
      using hdq by (simp add: replace_wildcard_skip)
    with 2 show ?thesis using Cons by (simp add: quote_char_def glob_char_def)
  next
    case 3
    then have "c \<noteq> CHR 0x5C" by (auto simp: is_meta_def)
    with 3 show ?thesis using Cons by (simp add: quote_char_def glob_char_def replace_wildcard_skip)
  qed
qed

lemma GlobToRegexp_eq: "GlobToRegexp g = concat (map glob_char g)"
  by (simp add: GlobToRegexp_def ReplaceAllString_def replace_wildcard_quoted)

section \<open>How the anchored glob parses and matches\<close>

definition glob_item :: "nat \<Rightarrow> char \<Rightarrow> regex" where
  "glob_item n c =
     (if c = CHR ''*'' then RGroup n (RCat (RStar True (RAny False)) REmpty) else RLit False c)"

fun glob_items :: "nat \<Rightarrow> string \<Rightarrow> regex list" where
  "glob_items n [] = []"
| "glob_items n (c # g) =
     (if c = CHR ''*'' then glob_item (Suc n) c # glob_items (Suc n) g
      else glob_item n c # glob_items n g)"

lemma default_flags_simps [simp]:
  "\<not> fold_case default_flags" "\<not> dot_nl default_flags" "\<not> multi_line default_flags"
  "\<not> non_greedy default_flags"
  by (simp_all add: default_flags_def)

lemma re_step_plain:
  "\<not> is_meta c \<Longrightarrow> re_step st c s = Inr (push_lit c st, s)"
  by (auto simp: re_step_def is_meta_def)

lemma is_meta_set: "is_meta c \<longleftrightarrow> c \<in> set ([CHR 0x5C] @ ''.+*?()|[]{}^$'')"
  by (simp add: is_meta_def)

lemma meta_not_alnum: "is_meta c \<Longrightarrow> \<not> is_alnum c"
  unfolding is_meta_set by (auto simp: is_alnum_def is_digit_def ccode_def)

lemma meta_no_perl_class: "is_meta c \<Longrightarrow> perl_class c = None"
  unfolding is_meta_set by (auto simp: perl_class_def)

lemma re_step_escaped:
  "is_meta c \<Longrightarrow> re_step st (CHR 0x5C) (c # s) = Inr (push_lit c st, s)"
proof -
  assume m: "is_meta c"
  then have "c \<noteq> CHR ''A'' \<and> c \<noteq> CHR ''b'' \<and> c \<noteq> CHR ''B'' \<and> c \<noteq> CHR ''z'' \<and> c \<noteq> CHR ''Q''"
    unfolding is_meta_set by auto
  with m show ?thesis
    by (simp add: re_step_def parse_backslash_def meta_no_perl_class parse_escape_def meta_not_alnum)
qed

lemma re_run_star:
  assumes "flags st = default_flags"
  shows "re_run st (''(.*)'' @ s) =
    re_run (push_re (RGroup (Suc (ncap st)) (RCat (RStar True (RAny False)) REmpty))
              (st\<lparr>ncap := Suc (ncap st)\<rparr>)) s"
  using assms
  by (cases st) (simp add: re_step_def parse_paren_def has_prefix_def open_group_def push_re_def apply_repeat_def
      close_group_def group_body_def cat_list_def)

lemma re_run_glob_char:
  assumes "flags st = default_flags"
  shows "re_run st (glob_char c @ s) =
    re_run (if c = CHR ''*'' then push_re (glob_item (Suc (ncap st)) c) (st\<lparr>ncap := Suc (ncap st)\<rparr>)
            else push_re (glob_item (ncap st) c) st) s"
proof (cases "c = CHR ''*''")
  case True
  then show ?thesis using re_run_star [OF assms] by (simp add: glob_char_def glob_item_def del: re_run.simps)
next
  case False
  then show ?thesis using assms
    by (auto simp: glob_char_def glob_item_def quote_char_def re_step_plain re_step_escaped push_lit_def)
qed

lemma re_run_glob:
  assumes "flags st = default_flags"
  shows "\<exists>st'. re_run st (concat (map glob_char g) @ s) = re_run st' s
     \<and> cur st' = rev (glob_items (ncap st) g) @ cur st \<and> flags st' = default_flags
     \<and> frames st' = frames st \<and> alts st' = alts st"
  using assms
proof (induction g arbitrary: st)
  case Nil
  then show ?case by (intro exI [of _ st]) simp
next
  case (Cons c g)
  let ?st = "if c = CHR ''*'' then push_re (glob_item (Suc (ncap st)) c) (st\<lparr>ncap := Suc (ncap st)\<rparr>)
            else push_re (glob_item (ncap st) c) st"
  have fl: "flags ?st = default_flags" using Cons.prems by (simp add: push_re_def)
  obtain st' where st': "re_run ?st (concat (map glob_char g) @ s) = re_run st' s"
    "cur st' = rev (glob_items (ncap ?st) g) @ cur ?st" "flags st' = default_flags"
     "frames st' = frames ?st" "alts st' = alts ?st"
    using Cons.IH [OF fl] by blast
  have "re_run st (concat (map glob_char (c # g)) @ s) = re_run ?st (concat (map glob_char g) @ s)"
    using re_run_glob_char [OF Cons.prems] by simp
  with st' show ?case by (intro exI [of _ st']) (simp add: push_re_def split: if_splits)
qed

lemma compile_glob:
  "\<exists>nms. compile_regexp (''^'' @ GlobToRegexp g @ ''$'') =
     Inr \<lparr>re_prog = cat_list (RBeginText # glob_items 0 g @ [REndText]), re_names = nms\<rparr>"
proof -
  let ?st = "push_re RBeginText init_re_state"
  have fl: "flags ?st = default_flags" "ncap ?st = 0" "cur ?st = [RBeginText]" "frames ?st = []" "alts ?st = []"
    by (simp_all add: push_re_def init_re_state_def)
  obtain st' where st': "re_run ?st (concat (map glob_char g) @ ''$'') = re_run st' ''$''"
    "cur st' = rev (glob_items 0 g) @ [RBeginText]" "flags st' = default_flags"
     "frames st' = []" "alts st' = []"
    using re_run_glob [OF fl(1), of g "''$''"] unfolding fl by blast
  have "re_run init_re_state (''^'' @ GlobToRegexp g @ ''$'') = re_run st' ''$''"
    unfolding GlobToRegexp_eq using st'(1)
    by (simp add: re_step_def init_re_state_def push_re_def)
  also have "\<dots> = Inr (push_re REndText st')"
    using st' by (simp add: re_step_def push_re_def)
  finally show ?thesis
    using st' by (simp add: compile_regexp_def group_body_def push_re_def)
qed

text \<open>What the compiled glob matches.\<close>

definition ends :: "regex \<Rightarrow> pos \<Rightarrow> string set" where
  "ends r p = (\<lambda>q. fst (snd q)) ` set (match_at r p)"

lemma star_any_match:
  "match_at (RStar True (RAny False)) (pv, [], cs) = [(pv, [], cs)]"
  "match_at (RStar True (RAny False)) (pv, c # s, cs) =
     (if c = newline then [] else match_at (RStar True (RAny False)) (Some c, s, cs)) @ [(pv, c # s, cs)]"
  by (simp_all add: match_at_star [of _ _ "(pv, _, cs)"])

lemma star_any_ends:
  "ends (RStar True (RAny False)) (pv, s, cs) =
     {drop k s |k. k \<le> length s \<and> newline \<notin> set (take k s)}"
proof (induction s arbitrary: pv)
  case Nil
  then show ?case by (auto simp: ends_def star_any_match)
next
  case (Cons c s)
  show ?case
  proof (cases "c = newline")
    case True
    then have "ends (RStar True (RAny False)) (pv, c # s, cs) = {c # s}"
      by (simp add: ends_def star_any_match)
    also have "\<dots> = {drop k (c # s) |k. k \<le> length (c # s) \<and> newline \<notin> set (take k (c # s))}"
      using True by (auto simp: take_Cons' split: if_splits)
    finally show ?thesis .
  next
    case False
    have "ends (RStar True (RAny False)) (pv, c # s, cs) =
        insert (c # s) (ends (RStar True (RAny False)) (Some c, s, cs))"
      using False by (simp add: ends_def star_any_match)
    also have "\<dots> = insert (drop 0 (c # s)) {drop (Suc k) (c # s) |k. k \<le> length s \<and> newline \<notin> set (take k s)}"
      by (simp add: Cons.IH)
    also have "\<dots> = {drop k (c # s) |k. k \<le> length (c # s) \<and> newline \<notin> set (take k (c # s))}"
    proof (intro set_eqI iffI, goal_cases)
      case (1 x)
      then consider "x = drop 0 (c # s)"
        | k where "x = drop (Suc k) (c # s)" "k \<le> length s" "newline \<notin> set (take k s)" by blast
      then show ?case
      proof cases
        case 1
        then show ?thesis by (intro CollectI exI [of _ 0]) simp
      next
        case (2 k)
        with False show ?thesis by (intro CollectI exI [of _ "Suc k"]) simp
      qed
    next
      case (2 x)
      then obtain k where "x = drop k (c # s)" "k \<le> length (c # s)" "newline \<notin> set (take k (c # s))" by blast
      with False show ?case by (cases k) auto
    qed
    finally show ?thesis .
  qed
qed

lemma match_glob_items:
  "match_at (cat_list (glob_items n g @ [REndText])) (pv, s, cs) \<noteq> [] \<longleftrightarrow> glob_match g s"
proof (induction g arbitrary: n pv s cs)
  case Nil
  then show ?case by (simp add: cat_list_def)
next
  case (Cons c g)
  let ?rest = "\<lambda>n. cat_list (glob_items n g @ [REndText])"
  show ?case
  proof (cases "c = CHR ''*''")
    case False
    then show ?thesis
      using Cons.IH by (cases s) (auto simp: cat_list_def glob_item_def lit_matches_def)
  next
    case True
    let ?star = "RStar True (RAny False)"
    have rest: "match_at (?rest m) (add_capture k p q) \<noteq> [] \<longleftrightarrow> glob_match g (fst (snd q))" for m k p q
      by (cases p; cases q) (simp add: Cons.IH)
    have "match_at (cat_list (glob_items n (c # g) @ [REndText])) (pv, s, cs) \<noteq> [] \<longleftrightarrow>
        (\<exists>q\<in>set (match_at ?star (pv, s, cs)).
           match_at (?rest (Suc n)) (add_capture (Suc n) (pv, s, cs) q) \<noteq> [])"
      using True by (simp add: cat_list_def glob_item_def)
    also have "\<dots> \<longleftrightarrow> (\<exists>q\<in>set (match_at ?star (pv, s, cs)). glob_match g (fst (snd q)))"
      by (simp add: rest)
    also have "\<dots> \<longleftrightarrow> (\<exists>t\<in>ends ?star (pv, s, cs). glob_match g t)"
      by (auto simp: ends_def)
    also have "\<dots> \<longleftrightarrow> glob_match (c # g) s"
      unfolding star_any_ends glob_match.simps True if_True by (auto simp: Bex_def)
    finally show ?thesis .
  qed
qed

lemma starts_prev: "(pv, t) \<in> set (starts pv0 s) \<Longrightarrow> pv = None \<Longrightarrow> pv0 = None \<and> t = s"
  by (induction pv0 s rule: starts.induct) auto

lemma MatchString_begin:
  "MatchString (cat_list (RBeginText # rs)) s \<longleftrightarrow> match_at (cat_list rs) (None, s, []) \<noteq> []"
proof -
  have "(None, s) \<in> set (starts None s)" by (cases s) auto
  then show ?thesis
    by (auto simp: MatchString_def cat_list_def dest: starts_prev intro!: bexI [of _ "(None, s)"] split: if_splits)
qed

lemma glob_MatchString:
  "is_glob g \<Longrightarrow> \<exists>re. compile_regexp (anchored g) = Inr re \<and>
     (\<forall>s. MatchString (re_prog re) s \<longleftrightarrow> glob_match g s)"
  using compile_glob [of g]
  by (auto simp: anchored_def is_glob_def MatchString_begin match_glob_items)

lemma SliceMatchesRegex_globs:
  "\<forall>e\<in>set es. is_glob e \<Longrightarrow> SliceMatchesRegex s es = Inr (\<exists>e\<in>set es. glob_match e s)"
proof (induction es)
  case (Cons e es)
  then obtain re where "compile_regexp (anchored e) = Inr re" "MatchString (re_prog re) s \<longleftrightarrow> glob_match e s"
    using glob_MatchString [of e] by auto
  with Cons show ?case by auto
qed simp

lemma glob_match_plain: "CHR ''*'' \<notin> set g \<Longrightarrow> glob_match g s \<longleftrightarrow> g = s"
proof (induction g arbitrary: s)
  case (Cons c g)
  then show ?case by (cases s) auto
qed auto

end
