(* ===== verification/Role_Types.thy ===== *)
theory Role_Types
  imports Glob "HOL-Library.Word"
begin

text \<open>
  \<open>api/types/role.go\<close> and the parts of \<open>api/types/resource.go\<close> a role uses: the role
  resource with its options and its allow and deny conditions, the accessors, and
  \<open>CheckAndSetDefaults\<close>. A Go map is the association list of its entries in the order one
  iteration visits them; a slice or map whose nil value the code distinguishes from an empty one is
  an \<open>option\<close> (\<open>None\<close> is nil), and \<open>elems\<close> reads it.
\<close>

section \<open>Data\<close>

type_synonym labels = "(string \<times> string list) list"
type_synonym traits = "(string \<times> string list) list"

definition elems :: "'a list option \<Rightarrow> 'a list" where
  "elems o1 = (case o1 of None \<Rightarrow> [] | Some xs \<Rightarrow> xs)"

lemma elems_simps [simp]: "elems None = []" "elems (Some xs) = xs"
  by (simp_all add: elems_def)

definition Wildcard :: string where
  "Wildcard = ''*''"

definition default_namespace :: string where
  "default_namespace = ''default''"

definition MaxCertDuration :: duration where
  "MaxCertDuration = 30 * 3600 * second_ns"

definition V3 :: string where
  "V3 = ''v3''"

definition V4 :: string where
  "V4 = ''v4''"

definition KindRole :: string where
  "KindRole = ''role''"

record metadata =
  md_Name :: string
  md_Namespace :: string
  md_Labels :: "(string \<times> string) list"
  md_Expires :: "time option"
  md_ID :: int

record claim_mapping =
  cm_Claim :: string
  cm_Value :: string
  cm_Roles :: "string list"

record access_review_threshold =
  th_Name :: string
  th_Filter :: string
  th_Approve :: "32 word"
  th_Deny :: "32 word"

record access_request_conditions =
  arc_Roles :: "string list"
  arc_ClaimsToRoles :: "claim_mapping list"
  arc_Annotations :: "(string \<times> string list) list"
  arc_Thresholds :: "access_review_threshold list"
  arc_SuggestedReviewers :: "string list"

record access_review_conditions =
  arv_Roles :: "string list option"
  arv_ClaimsToRoles :: "claim_mapping list option"
  arv_Where :: string

record impersonate_conditions =
  imp_Users :: "string list"
  imp_Roles :: "string list"
  imp_Where :: string

record rule =
  rule_Resources :: "string list"
  rule_Verbs :: "string list"
  rule_Where :: string
  rule_Actions :: "string list"

record role_conditions =
  cond_Logins :: "string list"
  cond_Namespaces :: "string list option"
  cond_NodeLabels :: "labels option"
  cond_Rules :: "rule list"
  cond_KubeGroups :: "string list"
  cond_Request :: "access_request_conditions option"
  cond_KubeUsers :: "string list"
  cond_AppLabels :: "labels option"
  cond_ClusterLabels :: "labels option"
  cond_KubernetesLabels :: "labels option"
  cond_DatabaseLabels :: "labels option"
  cond_DatabaseNames :: "string list"
  cond_DatabaseUsers :: "string list"
  cond_Impersonate :: "impersonate_conditions option"
  cond_ReviewRequests :: "access_review_conditions option"
  cond_AWSRoleARNs :: "string list"

record role_options =
  opt_ForwardAgent :: bool
  opt_MaxSessionTTL :: duration
  opt_PortForwarding :: "bool option"
  opt_CertificateFormat :: string
  opt_ClientIdleTimeout :: duration
  opt_DisconnectExpiredCert :: bool
  opt_BPF :: "string list"
  opt_PermitX11Forwarding :: bool
  opt_MaxConnections :: int
  opt_MaxSessions :: int
  opt_RequestAccess :: string
  opt_RequestPrompt :: string
  opt_RequireSessionMFA :: bool
  opt_Lock :: string

record role =
  role_Kind :: string
  role_SubKind :: string
  role_Version :: string
  role_Metadata :: metadata
  role_Options :: role_options
  role_Allow :: role_conditions
  role_Deny :: role_conditions

text \<open>The zero values of the structs.\<close>

definition no_conditions :: role_conditions where
  "no_conditions = \<lparr>cond_Logins = [], cond_Namespaces = None, cond_NodeLabels = None, cond_Rules = [],
     cond_KubeGroups = [], cond_Request = None, cond_KubeUsers = [], cond_AppLabels = None,
     cond_ClusterLabels = None, cond_KubernetesLabels = None, cond_DatabaseLabels = None,
     cond_DatabaseNames = [], cond_DatabaseUsers = [], cond_Impersonate = None,
     cond_ReviewRequests = None, cond_AWSRoleARNs = []\<rparr>"

definition no_options :: role_options where
  "no_options = \<lparr>opt_ForwardAgent = False, opt_MaxSessionTTL = 0, opt_PortForwarding = None,
     opt_CertificateFormat = [], opt_ClientIdleTimeout = 0, opt_DisconnectExpiredCert = False,
     opt_BPF = [], opt_PermitX11Forwarding = False, opt_MaxConnections = 0, opt_MaxSessions = 0,
     opt_RequestAccess = [], opt_RequestPrompt = [], opt_RequireSessionMFA = False, opt_Lock = []\<rparr>"

definition named_metadata :: "string \<Rightarrow> metadata" where
  "named_metadata name =
     \<lparr>md_Name = name, md_Namespace = [], md_Labels = [], md_Expires = None, md_ID = 0\<rparr>"

definition no_request_conditions :: access_request_conditions where
  "no_request_conditions = \<lparr>arc_Roles = [], arc_ClaimsToRoles = [], arc_Annotations = [],
     arc_Thresholds = [], arc_SuggestedReviewers = []\<rparr>"

definition no_review_conditions :: access_review_conditions where
  "no_review_conditions = \<lparr>arv_Roles = None, arv_ClaimsToRoles = None, arv_Where = []\<rparr>"

definition no_impersonate_conditions :: impersonate_conditions where
  "no_impersonate_conditions = \<lparr>imp_Users = [], imp_Roles = [], imp_Where = []\<rparr>"

text \<open>\<open>Allow\<close> and \<open>Deny\<close> are the two values of \<open>RoleConditionType\<close>.\<close>

type_synonym role_condition_type = bool

definition Allow :: role_condition_type where
  "Allow = True"

definition Deny :: role_condition_type where
  "Deny = False"

lemma all_conditions: "(\<forall>c. P c) \<longleftrightarrow> P Allow \<and> P Deny"
  unfolding Allow_def Deny_def by (metis (full_types))

lemma Allow_neq_Deny [simp]: "Allow \<noteq> Deny" "Deny \<noteq> Allow"
  by (simp_all add: Allow_def Deny_def)

lemma condition_type_cases: "rct = Allow \<or> rct = Deny"
  by (simp add: Allow_def Deny_def)

section \<open>Accessors\<close>

definition GetName :: "role \<Rightarrow> string" where
  "GetName r = md_Name (role_Metadata r)"

definition SetName :: "string \<Rightarrow> role \<Rightarrow> role" where
  "SetName s r = r\<lparr>role_Metadata := (role_Metadata r)\<lparr>md_Name := s\<rparr>\<rparr>"

definition SetResourceID :: "int \<Rightarrow> role \<Rightarrow> role" where
  "SetResourceID i r = r\<lparr>role_Metadata := (role_Metadata r)\<lparr>md_ID := i\<rparr>\<rparr>"

definition SetExpiry :: "time \<Rightarrow> role \<Rightarrow> role" where
  "SetExpiry t r = r\<lparr>role_Metadata := (role_Metadata r)\<lparr>md_Expires := Some t\<rparr>\<rparr>"

definition Expiry :: "role \<Rightarrow> time" where
  "Expiry r = (case md_Expires (role_Metadata r) of None \<Rightarrow> zero_time | Some t \<Rightarrow> t)"

definition GetOptions :: "role \<Rightarrow> role_options" where
  "GetOptions r = role_Options r"

definition SetOptions :: "role_options \<Rightarrow> role \<Rightarrow> role" where
  "SetOptions opts r = r\<lparr>role_Options := opts\<rparr>"

definition GetLogins :: "role_condition_type \<Rightarrow> role \<Rightarrow> string list" where
  "GetLogins rct r =
     (if rct = Allow then cond_Logins (role_Allow r) else cond_Logins (role_Deny r))"

definition SetLogins :: "role_condition_type \<Rightarrow> string list \<Rightarrow> role \<Rightarrow> role" where
  "SetLogins rct v r =
     (if rct = Allow then r\<lparr>role_Allow := (role_Allow r)\<lparr>cond_Logins := v\<rparr>\<rparr>
      else r\<lparr>role_Deny := (role_Deny r)\<lparr>cond_Logins := v\<rparr>\<rparr>)"

definition GetKubeGroups :: "role_condition_type \<Rightarrow> role \<Rightarrow> string list" where
  "GetKubeGroups rct r =
     (if rct = Allow then cond_KubeGroups (role_Allow r) else cond_KubeGroups (role_Deny r))"

definition SetKubeGroups :: "role_condition_type \<Rightarrow> string list \<Rightarrow> role \<Rightarrow> role" where
  "SetKubeGroups rct v r =
     (if rct = Allow then r\<lparr>role_Allow := (role_Allow r)\<lparr>cond_KubeGroups := v\<rparr>\<rparr>
      else r\<lparr>role_Deny := (role_Deny r)\<lparr>cond_KubeGroups := v\<rparr>\<rparr>)"

definition GetKubeUsers :: "role_condition_type \<Rightarrow> role \<Rightarrow> string list" where
  "GetKubeUsers rct r =
     (if rct = Allow then cond_KubeUsers (role_Allow r) else cond_KubeUsers (role_Deny r))"

definition SetKubeUsers :: "role_condition_type \<Rightarrow> string list \<Rightarrow> role \<Rightarrow> role" where
  "SetKubeUsers rct v r =
     (if rct = Allow then r\<lparr>role_Allow := (role_Allow r)\<lparr>cond_KubeUsers := v\<rparr>\<rparr>
      else r\<lparr>role_Deny := (role_Deny r)\<lparr>cond_KubeUsers := v\<rparr>\<rparr>)"

definition GetNodeLabels :: "role_condition_type \<Rightarrow> role \<Rightarrow> labels option" where
  "GetNodeLabels rct r =
     (if rct = Allow then cond_NodeLabels (role_Allow r) else cond_NodeLabels (role_Deny r))"

definition SetNodeLabels :: "role_condition_type \<Rightarrow> labels option \<Rightarrow> role \<Rightarrow> role" where
  "SetNodeLabels rct v r =
     (if rct = Allow then r\<lparr>role_Allow := (role_Allow r)\<lparr>cond_NodeLabels := v\<rparr>\<rparr>
      else r\<lparr>role_Deny := (role_Deny r)\<lparr>cond_NodeLabels := v\<rparr>\<rparr>)"

definition GetAppLabels :: "role_condition_type \<Rightarrow> role \<Rightarrow> labels option" where
  "GetAppLabels rct r =
     (if rct = Allow then cond_AppLabels (role_Allow r) else cond_AppLabels (role_Deny r))"

definition SetAppLabels :: "role_condition_type \<Rightarrow> labels option \<Rightarrow> role \<Rightarrow> role" where
  "SetAppLabels rct v r =
     (if rct = Allow then r\<lparr>role_Allow := (role_Allow r)\<lparr>cond_AppLabels := v\<rparr>\<rparr>
      else r\<lparr>role_Deny := (role_Deny r)\<lparr>cond_AppLabels := v\<rparr>\<rparr>)"

definition GetClusterLabels :: "role_condition_type \<Rightarrow> role \<Rightarrow> labels option" where
  "GetClusterLabels rct r =
     (if rct = Allow then cond_ClusterLabels (role_Allow r) else cond_ClusterLabels (role_Deny r))"

definition SetClusterLabels :: "role_condition_type \<Rightarrow> labels option \<Rightarrow> role \<Rightarrow> role" where
  "SetClusterLabels rct v r =
     (if rct = Allow then r\<lparr>role_Allow := (role_Allow r)\<lparr>cond_ClusterLabels := v\<rparr>\<rparr>
      else r\<lparr>role_Deny := (role_Deny r)\<lparr>cond_ClusterLabels := v\<rparr>\<rparr>)"

definition GetKubernetesLabels :: "role_condition_type \<Rightarrow> role \<Rightarrow> labels option" where
  "GetKubernetesLabels rct r =
     (if rct = Allow then cond_KubernetesLabels (role_Allow r) else cond_KubernetesLabels (role_Deny r))"

definition SetKubernetesLabels :: "role_condition_type \<Rightarrow> labels option \<Rightarrow> role \<Rightarrow> role" where
  "SetKubernetesLabels rct v r =
     (if rct = Allow then r\<lparr>role_Allow := (role_Allow r)\<lparr>cond_KubernetesLabels := v\<rparr>\<rparr>
      else r\<lparr>role_Deny := (role_Deny r)\<lparr>cond_KubernetesLabels := v\<rparr>\<rparr>)"

definition GetDatabaseLabels :: "role_condition_type \<Rightarrow> role \<Rightarrow> labels option" where
  "GetDatabaseLabels rct r =
     (if rct = Allow then cond_DatabaseLabels (role_Allow r) else cond_DatabaseLabels (role_Deny r))"

definition SetDatabaseLabels :: "role_condition_type \<Rightarrow> labels option \<Rightarrow> role \<Rightarrow> role" where
  "SetDatabaseLabels rct v r =
     (if rct = Allow then r\<lparr>role_Allow := (role_Allow r)\<lparr>cond_DatabaseLabels := v\<rparr>\<rparr>
      else r\<lparr>role_Deny := (role_Deny r)\<lparr>cond_DatabaseLabels := v\<rparr>\<rparr>)"

definition GetDatabaseNames :: "role_condition_type \<Rightarrow> role \<Rightarrow> string list" where
  "GetDatabaseNames rct r =
     (if rct = Allow then cond_DatabaseNames (role_Allow r) else cond_DatabaseNames (role_Deny r))"

definition SetDatabaseNames :: "role_condition_type \<Rightarrow> string list \<Rightarrow> role \<Rightarrow> role" where
  "SetDatabaseNames rct v r =
     (if rct = Allow then r\<lparr>role_Allow := (role_Allow r)\<lparr>cond_DatabaseNames := v\<rparr>\<rparr>
      else r\<lparr>role_Deny := (role_Deny r)\<lparr>cond_DatabaseNames := v\<rparr>\<rparr>)"

definition GetDatabaseUsers :: "role_condition_type \<Rightarrow> role \<Rightarrow> string list" where
  "GetDatabaseUsers rct r =
     (if rct = Allow then cond_DatabaseUsers (role_Allow r) else cond_DatabaseUsers (role_Deny r))"

definition SetDatabaseUsers :: "role_condition_type \<Rightarrow> string list \<Rightarrow> role \<Rightarrow> role" where
  "SetDatabaseUsers rct v r =
     (if rct = Allow then r\<lparr>role_Allow := (role_Allow r)\<lparr>cond_DatabaseUsers := v\<rparr>\<rparr>
      else r\<lparr>role_Deny := (role_Deny r)\<lparr>cond_DatabaseUsers := v\<rparr>\<rparr>)"

definition GetAWSRoleARNs :: "role_condition_type \<Rightarrow> role \<Rightarrow> string list" where
  "GetAWSRoleARNs rct r =
     (if rct = Allow then cond_AWSRoleARNs (role_Allow r) else cond_AWSRoleARNs (role_Deny r))"

definition SetAWSRoleARNs :: "role_condition_type \<Rightarrow> string list \<Rightarrow> role \<Rightarrow> role" where
  "SetAWSRoleARNs rct v r =
     (if rct = Allow then r\<lparr>role_Allow := (role_Allow r)\<lparr>cond_AWSRoleARNs := v\<rparr>\<rparr>
      else r\<lparr>role_Deny := (role_Deny r)\<lparr>cond_AWSRoleARNs := v\<rparr>\<rparr>)"

definition GetRules :: "role_condition_type \<Rightarrow> role \<Rightarrow> rule list" where
  "GetRules rct r =
     (if rct = Allow then cond_Rules (role_Allow r) else cond_Rules (role_Deny r))"

definition SetRules :: "role_condition_type \<Rightarrow> rule list \<Rightarrow> role \<Rightarrow> role" where
  "SetRules rct v r =
     (if rct = Allow then r\<lparr>role_Allow := (role_Allow r)\<lparr>cond_Rules := v\<rparr>\<rparr>
      else r\<lparr>role_Deny := (role_Deny r)\<lparr>cond_Rules := v\<rparr>\<rparr>)"

definition GetNamespaces :: "role_condition_type \<Rightarrow> role \<Rightarrow> string list" where
  "GetNamespaces rct r =
     elems (if rct = Allow then cond_Namespaces (role_Allow r) else cond_Namespaces (role_Deny r))"

definition SetNamespaces :: "role_condition_type \<Rightarrow> string list option \<Rightarrow> role \<Rightarrow> role" where
  "SetNamespaces rct v r =
     (if rct = Allow then r\<lparr>role_Allow := (role_Allow r)\<lparr>cond_Namespaces := v\<rparr>\<rparr>
      else r\<lparr>role_Deny := (role_Deny r)\<lparr>cond_Namespaces := v\<rparr>\<rparr>)"

definition GetAccessRequestConditions :: "role_condition_type \<Rightarrow> role \<Rightarrow> access_request_conditions" where
  "GetAccessRequestConditions rct r =
     (case (if rct = Allow then cond_Request (role_Allow r) else cond_Request (role_Deny r)) of
        None \<Rightarrow> no_request_conditions | Some c \<Rightarrow> c)"

definition SetAccessRequestConditions :: "role_condition_type \<Rightarrow> access_request_conditions \<Rightarrow> role \<Rightarrow> role" where
  "SetAccessRequestConditions rct c r =
     (if rct = Allow then r\<lparr>role_Allow := (role_Allow r)\<lparr>cond_Request := Some c\<rparr>\<rparr>
      else r\<lparr>role_Deny := (role_Deny r)\<lparr>cond_Request := Some c\<rparr>\<rparr>)"

definition GetAccessReviewConditions :: "role_condition_type \<Rightarrow> role \<Rightarrow> access_review_conditions" where
  "GetAccessReviewConditions rct r =
     (case (if rct = Allow then cond_ReviewRequests (role_Allow r) else cond_ReviewRequests (role_Deny r)) of
        None \<Rightarrow> no_review_conditions | Some c \<Rightarrow> c)"

definition SetAccessReviewConditions :: "role_condition_type \<Rightarrow> access_review_conditions \<Rightarrow> role \<Rightarrow> role" where
  "SetAccessReviewConditions rct c r =
     (if rct = Allow then r\<lparr>role_Allow := (role_Allow r)\<lparr>cond_ReviewRequests := Some c\<rparr>\<rparr>
      else r\<lparr>role_Deny := (role_Deny r)\<lparr>cond_ReviewRequests := Some c\<rparr>\<rparr>)"

definition GetImpersonateConditions :: "role_condition_type \<Rightarrow> role \<Rightarrow> impersonate_conditions" where
  "GetImpersonateConditions rct r =
     (case (if rct = Allow then cond_Impersonate (role_Allow r) else cond_Impersonate (role_Deny r)) of
        None \<Rightarrow> no_impersonate_conditions | Some c \<Rightarrow> c)"

definition SetImpersonateConditions :: "role_condition_type \<Rightarrow> impersonate_conditions \<Rightarrow> role \<Rightarrow> role" where
  "SetImpersonateConditions rct c r =
     (if rct = Allow then r\<lparr>role_Allow := (role_Allow r)\<lparr>cond_Impersonate := Some c\<rparr>\<rparr>
      else r\<lparr>role_Deny := (role_Deny r)\<lparr>cond_Impersonate := Some c\<rparr>\<rparr>)"

lemmas accessor_defs =
  GetName_def SetName_def GetOptions_def SetOptions_def
  GetLogins_def SetLogins_def GetKubeGroups_def SetKubeGroups_def
  GetKubeUsers_def SetKubeUsers_def GetNodeLabels_def SetNodeLabels_def
  GetAppLabels_def SetAppLabels_def GetClusterLabels_def SetClusterLabels_def
  GetKubernetesLabels_def SetKubernetesLabels_def GetDatabaseLabels_def SetDatabaseLabels_def
  GetDatabaseNames_def SetDatabaseNames_def GetDatabaseUsers_def SetDatabaseUsers_def
  GetAWSRoleARNs_def SetAWSRoleARNs_def GetRules_def SetRules_def
  GetNamespaces_def SetNamespaces_def GetAccessRequestConditions_def SetAccessRequestConditions_def
  GetAccessReviewConditions_def SetAccessReviewConditions_def GetImpersonateConditions_def SetImpersonateConditions_def

section \<open>Values\<close>

definition BoolDefaultTrue :: "bool option \<Rightarrow> bool" where
  "BoolDefaultTrue v = (case v of None \<Rightarrow> True | Some b \<Rightarrow> b)"

definition ProcessNamespace :: "string \<Rightarrow> string" where
  "ProcessNamespace namespace = (if namespace = [] then default_namespace else namespace)"

definition NewRule :: "string \<Rightarrow> string list \<Rightarrow> rule" where
  "NewRule resource verbs =
     \<lparr>rule_Resources = [resource], rule_Verbs = verbs, rule_Where = [], rule_Actions = []\<rparr>"

definition HasResource :: "rule \<Rightarrow> string \<Rightarrow> bool" where
  "HasResource r resource = (\<exists>x\<in>set (rule_Resources r). x = resource)"

definition VerbRead :: string where
  "VerbRead = ''read''"

definition VerbReadNoSecrets :: string where
  "VerbReadNoSecrets = ''readnosecrets''"

text \<open>A verb of the rule matches itself; \<open>read\<close> also grants \<open>readnosecrets\<close>.\<close>

fun has_verb_loop :: "string list \<Rightarrow> string \<Rightarrow> bool" where
  "has_verb_loop [] verb = False"
| "has_verb_loop (v # vs) verb =
     (if verb = VerbReadNoSecrets then
        (if v = VerbReadNoSecrets \<or> v = VerbRead then True else has_verb_loop vs verb)
      else if v = verb then True else has_verb_loop vs verb)"

definition HasVerb :: "rule \<Rightarrow> string \<Rightarrow> bool" where
  "HasVerb r verb = has_verb_loop (rule_Verbs r) verb"

definition ImpersonateConditions_IsEmpty :: "impersonate_conditions \<Rightarrow> bool" where
  "ImpersonateConditions_IsEmpty i = (imp_Users i = [] \<or> imp_Roles i = [])"

definition AccessReviewConditions_IsZero :: "access_review_conditions \<Rightarrow> bool" where
  "AccessReviewConditions_IsZero c =
     (arv_Roles c = None \<and> arv_ClaimsToRoles c = None \<and> arv_Where c = [])"

section \<open>Validation\<close>

definition LabelPattern :: string where
  "LabelPattern = ''^[a-zA-Z/.0-9_*-]+$''"

definition IsValidLabelKey :: "string \<Rightarrow> bool" where
  "IsValidLabelKey s =
     (case compile_regexp LabelPattern of Inl e \<Rightarrow> False | Inr re \<Rightarrow> MatchString (re_prog re) s)"

definition OriginLabel :: string where
  "OriginLabel = ''siriusec.dev/origin''"

definition OriginValues :: "string list" where
  "OriginValues = [''defaults'', ''config-file'', ''dynamic'']"

definition Origin :: "metadata \<Rightarrow> string" where
  "Origin m = (case map_of (md_Labels m) OriginLabel of None \<Rightarrow> [] | Some v \<Rightarrow> v)"

definition Metadata_CheckAndSetDefaults :: "metadata \<Rightarrow> metadata result" where
  "Metadata_CheckAndSetDefaults m =
     (if md_Name m = [] then Inl BadParameter
      else
        (let m1 = (if md_Namespace m = [] then m\<lparr>md_Namespace := default_namespace\<rparr> else m)
         in if \<not> (\<forall>(key, v)\<in>set (md_Labels m1). IsValidLabelKey key) then Inl BadParameter
            else if Origin m1 \<noteq> [] \<and> \<not> slice_contains OriginValues (Origin m1) then Inl BadParameter
            else Inr m1))"

definition Rule_CheckAndSetDefaults :: "rule \<Rightarrow> unit result" where
  "Rule_CheckAndSetDefaults r =
     (if rule_Resources r = [] then Inl BadParameter
      else if rule_Verbs r = [] then Inl BadParameter
      else Inr ())"

definition ImpersonateConditions_CheckAndSetDefaults :: "impersonate_conditions \<Rightarrow> unit result" where
  "ImpersonateConditions_CheckAndSetDefaults i =
     (if imp_Users i \<noteq> [] \<and> imp_Roles i = [] then Inl BadParameter
      else if imp_Users i = [] \<and> imp_Roles i \<noteq> [] then Inl BadParameter
      else Inr ())"

definition setStaticFields :: "role \<Rightarrow> role" where
  "setStaticFields r =
     (let r1 = r\<lparr>role_Kind := KindRole\<rparr>
      in if role_Version r1 \<noteq> V4 then r1\<lparr>role_Version := V3\<rparr> else r1)"

definition CertificateFormatStandard :: string where
  "CertificateFormatStandard = ''standard''"

definition EnhancedEvents :: "string list" where
  "EnhancedEvents = [''command'', ''network'']"

definition LockingModeStrict :: string where
  "LockingModeStrict = ''strict''"

definition LockingModeBestEffort :: string where
  "LockingModeBestEffort = ''best_effort''"

definition wildcard_labels :: labels where
  "wildcard_labels = [(Wildcard, [Wildcard])]"

text \<open>The defaults of the options and of the allow namespaces.\<close>

definition default_options :: "role_options \<Rightarrow> role_options" where
  "default_options o1 =
     (let o2 = (if opt_CertificateFormat o1 = [] then o1\<lparr>opt_CertificateFormat := CertificateFormatStandard\<rparr> else o1);
          o3 = (if opt_MaxSessionTTL o2 = 0 then o2\<lparr>opt_MaxSessionTTL := MaxCertDuration\<rparr> else o2);
          o4 = (if opt_PortForwarding o3 = None then o3\<lparr>opt_PortForwarding := Some True\<rparr> else o3)
      in if opt_BPF o4 = [] then o4\<lparr>opt_BPF := EnhancedEvents\<rparr> else o4)"

text \<open>The label defaults of a V3 role; a V4 role has none.\<close>

definition default_labels_v3 :: "role_conditions \<Rightarrow> role_conditions" where
  "default_labels_v3 a1 =
     (let a2 = (if cond_NodeLabels a1 = None
                then a1\<lparr>cond_NodeLabels := Some (if cond_Logins a1 = [] then [] else wildcard_labels)\<rparr>
                else a1);
          a3 = (if cond_AppLabels a2 = None then a2\<lparr>cond_AppLabels := Some wildcard_labels\<rparr> else a2);
          a4 = (if cond_KubernetesLabels a3 = None
                then a3\<lparr>cond_KubernetesLabels := Some wildcard_labels\<rparr> else a3)
      in if cond_DatabaseLabels a4 = None then a4\<lparr>cond_DatabaseLabels := Some wildcard_labels\<rparr> else a4)"

text \<open>\<open>selector *:<val> is not supported\<close>: a wildcard key needs the single value \<open>*\<close>.\<close>

definition labels_ok :: "labels option \<Rightarrow> bool" where
  "labels_ok ls =
     (\<forall>(key, val)\<in>set (elems ls). \<not> (key = Wildcard \<and> \<not> (length val = 1 \<and> hd val = Wildcard)))"

definition check_rules :: "rule list \<Rightarrow> unit result" where
  "check_rules rs =
     (if \<forall>r\<in>set rs. is_ok (Rule_CheckAndSetDefaults r) then Inr () else Inl BadParameter)"

definition check_role :: "role \<Rightarrow> unit result" where
  "check_role r =
     (let a = role_Allow r; d = role_Deny r
      in if Wildcard \<in> set (cond_Logins a) then Inl BadParameter
         else if Wildcard \<in> set (cond_AWSRoleARNs a) then Inl BadParameter
         else if \<not> labels_ok (cond_NodeLabels a) then Inl BadParameter
         else if \<not> labels_ok (cond_AppLabels a) then Inl BadParameter
         else if \<not> labels_ok (cond_KubernetesLabels a) then Inl BadParameter
         else if \<not> labels_ok (cond_DatabaseLabels a) then Inl BadParameter
         else if \<not> is_ok (check_rules (cond_Rules a)) then Inl BadParameter
         else if \<not> is_ok (check_rules (cond_Rules d)) then Inl BadParameter
         else if (case cond_Impersonate a of None \<Rightarrow> False
                  | Some i \<Rightarrow> \<not> is_ok (ImpersonateConditions_CheckAndSetDefaults i)) then Inl BadParameter
         else (case cond_Impersonate d of None \<Rightarrow> Inr ()
               | Some i \<Rightarrow>
                   if imp_Where i \<noteq> [] then Inl BadParameter
                   else ImpersonateConditions_CheckAndSetDefaults i))"

text \<open>The defaults set before validation: options, namespaces, V3 labels.\<close>

definition default_namespaces :: "role_conditions \<Rightarrow> role_conditions" where
  "default_namespaces a =
     (if cond_Namespaces a = None then a\<lparr>cond_Namespaces := Some [default_namespace]\<rparr> else a)"

definition set_defaults :: "role \<Rightarrow> role" where
  "set_defaults r =
     (let a = default_namespaces (role_Allow r)
      in r\<lparr>role_Options := default_options (role_Options r),
            role_Allow := (if role_Version r = V3 then default_labels_v3 a else a),
            role_Deny := default_namespaces (role_Deny r)\<rparr>)"

definition options_ok :: "role_options \<Rightarrow> bool" where
  "options_ok opts =
     (list_all (\<lambda>opt. opt \<in> {''command'', ''disk'', ''network''}) (opt_BPF opts) \<and>
      opt_Lock opts \<in> {[], LockingModeBestEffort, LockingModeStrict})"

definition fix_session_ttl :: "role \<Rightarrow> role" where
  "fix_session_ttl r =
     (if opt_MaxSessionTTL (role_Options r) \<le> 0
      then r\<lparr>role_Options := (role_Options r)\<lparr>opt_MaxSessionTTL := MaxCertDuration\<rparr>\<rparr> else r)"

definition CheckAndSetDefaults :: "role \<Rightarrow> role result" where
  "CheckAndSetDefaults r =
     (let r1 = setStaticFields r
      in case Metadata_CheckAndSetDefaults (role_Metadata r1) of
           Inl e \<Rightarrow> Inl e
         | Inr m \<Rightarrow>
             (let r2 = set_defaults (r1\<lparr>role_Metadata := m\<rparr>)
              in if role_Version r2 \<noteq> V3 \<and> role_Version r2 \<noteq> V4 then Inl BadParameter
                 else if \<not> options_ok (role_Options r2) then Inl BadParameter
                 else (let r3 = fix_session_ttl r2
                       in case check_role r3 of Inl e \<Rightarrow> Inl e | Inr _ \<Rightarrow> Inr r3)))"

definition NewRole :: "string \<Rightarrow> role_options \<Rightarrow> role_conditions \<Rightarrow> role_conditions \<Rightarrow> role result" where
  "NewRole name opts allow deny =
     CheckAndSetDefaults \<lparr>role_Kind = [], role_SubKind = [], role_Version = [],
       role_Metadata = named_metadata name, role_Options = opts, role_Allow = allow, role_Deny = deny\<rparr>"

text \<open>What a validated role looks like.\<close>

definition valid_role :: "role \<Rightarrow> bool" where
  "valid_role r \<longleftrightarrow>
     role_Kind r = KindRole \<and> role_Version r \<in> {V3, V4} \<and> GetName r \<noteq> [] \<and>
     md_Namespace (role_Metadata r) \<noteq> [] \<and>
     0 < opt_MaxSessionTTL (role_Options r) \<and> opt_CertificateFormat (role_Options r) \<noteq> [] \<and>
     opt_PortForwarding (role_Options r) \<noteq> None \<and> opt_BPF (role_Options r) \<noteq> [] \<and>
     cond_Namespaces (role_Allow r) \<noteq> None \<and> cond_Namespaces (role_Deny r) \<noteq> None \<and>
     Wildcard \<notin> set (GetLogins Allow r) \<and> check_role r = Inr ()"

section \<open>Validation is sound and idempotent\<close>

lemma Metadata_check_Inr:
  "Metadata_CheckAndSetDefaults m = Inr m' \<Longrightarrow>
     md_Name m' = md_Name m \<and> md_Name m' \<noteq> [] \<and> md_Namespace m' \<noteq> [] \<and>
     Metadata_CheckAndSetDefaults m' = Inr m'"
  unfolding Metadata_CheckAndSetDefaults_def Let_def
  by (auto simp: default_namespace_def Origin_def split: if_splits)

lemma default_options_fields:
  "opt_CertificateFormat (default_options o1) \<noteq> []" "opt_PortForwarding (default_options o1) \<noteq> None"
  "opt_BPF (default_options o1) \<noteq> []" "opt_MaxSessionTTL (default_options o1) \<noteq> 0"
  by (auto simp: default_options_def Let_def CertificateFormatStandard_def EnhancedEvents_def
      MaxCertDuration_def second_ns_def)

lemma default_options_same:
  "opt_CertificateFormat o1 \<noteq> [] \<Longrightarrow> opt_PortForwarding o1 \<noteq> None \<Longrightarrow> opt_BPF o1 \<noteq> [] \<Longrightarrow>
   opt_MaxSessionTTL o1 \<noteq> 0 \<Longrightarrow> default_options o1 = o1"
  by (simp add: default_options_def)

lemma default_labels_v3_fields:
  "cond_NodeLabels (default_labels_v3 a) \<noteq> None" "cond_AppLabels (default_labels_v3 a) \<noteq> None"
  "cond_KubernetesLabels (default_labels_v3 a) \<noteq> None" "cond_DatabaseLabels (default_labels_v3 a) \<noteq> None"
  "cond_Namespaces (default_labels_v3 a) = cond_Namespaces a"
  by (auto simp: default_labels_v3_def Let_def)

lemma default_labels_v3_same:
  "cond_NodeLabels a \<noteq> None \<Longrightarrow> cond_AppLabels a \<noteq> None \<Longrightarrow> cond_KubernetesLabels a \<noteq> None \<Longrightarrow>
   cond_DatabaseLabels a \<noteq> None \<Longrightarrow> default_labels_v3 a = a"
  by (simp add: default_labels_v3_def Let_def)

lemma default_namespaces_fields [simp]:
  "cond_Namespaces (default_namespaces a) \<noteq> None"
  "cond_Namespaces a \<noteq> None \<Longrightarrow> default_namespaces a = a"
  by (auto simp: default_namespaces_def)

lemma setStaticFields_fields [simp]:
  "role_Kind (setStaticFields r) = KindRole"
  "role_Version (setStaticFields r) = (if role_Version r = V4 then V4 else V3)"
  "role_Metadata (setStaticFields r) = role_Metadata r"
  "role_Options (setStaticFields r) = role_Options r"
  "role_Allow (setStaticFields r) = role_Allow r" "role_Deny (setStaticFields r) = role_Deny r"
  by (simp_all add: setStaticFields_def Let_def)

lemma setStaticFields_same:
  "role_Kind r = KindRole \<Longrightarrow> role_Version r \<in> {V3, V4} \<Longrightarrow> setStaticFields r = r"
  by (cases r) (auto simp: setStaticFields_def Let_def)

text \<open>The normal form that defaulting produces.\<close>

definition defaulted :: "role \<Rightarrow> bool" where
  "defaulted r \<longleftrightarrow> opt_CertificateFormat (role_Options r) \<noteq> [] \<and>
     opt_PortForwarding (role_Options r) \<noteq> None \<and> opt_BPF (role_Options r) \<noteq> [] \<and>
     opt_MaxSessionTTL (role_Options r) \<noteq> 0 \<and>
     cond_Namespaces (role_Allow r) \<noteq> None \<and> cond_Namespaces (role_Deny r) \<noteq> None \<and>
     (role_Version r = V3 \<longrightarrow> cond_NodeLabels (role_Allow r) \<noteq> None \<and> cond_AppLabels (role_Allow r) \<noteq> None \<and>
        cond_KubernetesLabels (role_Allow r) \<noteq> None \<and> cond_DatabaseLabels (role_Allow r) \<noteq> None)"

lemma set_defaults_defaulted: "defaulted (set_defaults r)"
  using default_options_fields [of "role_Options r"] default_labels_v3_fields [of "default_namespaces (role_Allow r)"]
    default_namespaces_fields(1) [of "role_Allow r"] default_namespaces_fields(1) [of "role_Deny r"]
  by (simp add: defaulted_def set_defaults_def Let_def del: default_namespaces_fields)

lemma set_defaults_same: "defaulted r \<Longrightarrow> set_defaults r = r"
  by (cases r) (simp add: defaulted_def set_defaults_def Let_def default_options_same default_labels_v3_same)

lemma set_defaults_fields [simp]:
  "role_Kind (set_defaults r) = role_Kind r" "role_Version (set_defaults r) = role_Version r"
  "role_Metadata (set_defaults r) = role_Metadata r"
  by (simp_all add: set_defaults_def Let_def)

lemma fix_session_ttl_fields [simp]:
  "role_Kind (fix_session_ttl r) = role_Kind r" "role_Version (fix_session_ttl r) = role_Version r"
  "role_Metadata (fix_session_ttl r) = role_Metadata r"
  "0 < opt_MaxSessionTTL (role_Options (fix_session_ttl r))"
  "options_ok (role_Options (fix_session_ttl r)) = options_ok (role_Options r)"
  "defaulted r \<Longrightarrow> defaulted (fix_session_ttl r)"
  by (auto simp: fix_session_ttl_def MaxCertDuration_def second_ns_def options_ok_def defaulted_def)

lemma guarded_Inr:
  "(if \<not> P then Inl e else (case (c :: unit result) of Inl x \<Rightarrow> Inl x | Inr _ \<Rightarrow> Inr s)) = Inr t
     \<longleftrightarrow> t = s \<and> P \<and> c = Inr ()"
  by (cases c) auto

lemma CheckAndSetDefaults_Inr_iff:
  "CheckAndSetDefaults r = Inr r' \<longleftrightarrow>
     (\<exists>m. Metadata_CheckAndSetDefaults (role_Metadata r) = Inr m \<and>
        r' = fix_session_ttl (set_defaults ((setStaticFields r)\<lparr>role_Metadata := m\<rparr>)) \<and>
        options_ok (role_Options r') \<and> check_role r' = Inr ())"
proof (cases "Metadata_CheckAndSetDefaults (role_Metadata r)")
  case (Inl e)
  then show ?thesis by (simp add: CheckAndSetDefaults_def)
next
  case (Inr m)
  define s where "s = fix_session_ttl (set_defaults ((setStaticFields r)\<lparr>role_Metadata := m\<rparr>))"
  have "CheckAndSetDefaults r =
     (if \<not> options_ok (role_Options s) then Inl BadParameter
      else case check_role s of Inl e \<Rightarrow> Inl e | Inr _ \<Rightarrow> Inr s)"
    unfolding s_def using Inr by (simp add: CheckAndSetDefaults_def Let_def)
  then have "CheckAndSetDefaults r = Inr r' \<longleftrightarrow>
      r' = s \<and> options_ok (role_Options r') \<and> check_role r' = Inr ()"
    by (simp only: guarded_Inr) blast
  then show ?thesis unfolding s_def using Inr by simp
qed

lemma CheckAndSetDefaults_normal:
  assumes "CheckAndSetDefaults r = Inr r'"
  shows "role_Kind r' = KindRole" "role_Version r' = (if role_Version r = V4 then V4 else V3)"
    "Metadata_CheckAndSetDefaults (role_Metadata r) = Inr (role_Metadata r')"
    "defaulted r'" "0 < opt_MaxSessionTTL (role_Options r')" "options_ok (role_Options r')"
    "check_role r' = Inr ()"
  using assms by (auto simp: CheckAndSetDefaults_Inr_iff set_defaults_defaulted)

lemma CheckAndSetDefaults_valid: "CheckAndSetDefaults r = Inr r' \<Longrightarrow> valid_role r'"
  using CheckAndSetDefaults_normal [of r r'] Metadata_check_Inr [of "role_Metadata r" "role_Metadata r'"]
  by (auto simp: valid_role_def defaulted_def GetName_def GetLogins_def check_role_def Let_def split: if_splits)

lemma CheckAndSetDefaults_idem:
  assumes "CheckAndSetDefaults r = Inr r'"
  shows "CheckAndSetDefaults r' = Inr r'"
proof -
  note n = CheckAndSetDefaults_normal [OF assms]
  have "setStaticFields r' = r'" using n(1,2) by (simp add: setStaticFields_same)
  moreover have "set_defaults r' = r'" using n(4) by (rule set_defaults_same)
  moreover have "fix_session_ttl r' = r'" using n(5) by (simp add: fix_session_ttl_def)
  moreover have "Metadata_CheckAndSetDefaults (role_Metadata r') = Inr (role_Metadata r')"
    using Metadata_check_Inr [OF n(3)] by simp
  ultimately show ?thesis
    using n(6,7) by (simp add: CheckAndSetDefaults_Inr_iff)
qed

lemma has_verb_loop_iff:
  "has_verb_loop vs verb \<longleftrightarrow> verb \<in> set vs \<or> (verb = VerbReadNoSecrets \<and> VerbRead \<in> set vs)"
  by (induction vs) auto

lemma HasVerb_iff:
  "HasVerb r verb \<longleftrightarrow> verb \<in> set (rule_Verbs r) \<or>
     (verb = VerbReadNoSecrets \<and> VerbRead \<in> set (rule_Verbs r))"
  by (simp add: HasVerb_def has_verb_loop_iff)

end
