(* ===== verification/Matching.thy ===== *)
theory Matching
  imports Role_Types "HOL-Library.AList"
begin

text \<open>
  The matchers of \<open>lib/services/role.go\<close>: selectors of a role condition against
  namespaces, logins, database names and labels, and the \<open>RoleMatcher\<close> values a caller
  supplies; and \<open>CombineLabels\<close> of \<open>api/types/server.go\<close>. The explanatory
  message a matcher returns is not modelled.
\<close>

section \<open>Selectors\<close>

definition MatchNamespace :: "string list \<Rightarrow> string \<Rightarrow> bool" where
  "MatchNamespace selectors namespace = (\<exists>n\<in>set selectors. n = namespace \<or> n = Wildcard)"

definition MatchLogin :: "string list \<Rightarrow> string \<Rightarrow> bool" where
  "MatchLogin selectors login = (\<exists>l\<in>set selectors. l = login)"

definition MatchAWSRoleARN :: "string list \<Rightarrow> string \<Rightarrow> bool" where
  "MatchAWSRoleARN selectors roleARN = (\<exists>l\<in>set selectors. l = roleARN)"

definition MatchDatabaseName :: "string list \<Rightarrow> string \<Rightarrow> bool" where
  "MatchDatabaseName selectors name = (\<exists>n\<in>set selectors. n = name \<or> n = Wildcard)"

definition MatchDatabaseUser :: "string list \<Rightarrow> string \<Rightarrow> bool" where
  "MatchDatabaseUser selectors user = (\<exists>u\<in>set selectors. u = user \<or> u = Wildcard)"

text \<open>The full match: every key of the selector, in the order the iteration visits them.\<close>

fun match_labels_loop :: "labels \<Rightarrow> (string \<times> string) list \<Rightarrow> bool result" where
  "match_labels_loop [] target = Inr True"
| "match_labels_loop ((key, selectorValues) # rest) target =
     (case map_of target key of
        None \<Rightarrow> Inr False
      | Some targetVal \<Rightarrow>
          if \<not> slice_contains selectorValues Wildcard then
            (case SliceMatchesRegex targetVal selectorValues of
               Inl e \<Rightarrow> Inl e
             | Inr result \<Rightarrow>
                 if \<not> result then Inr False else match_labels_loop rest target)
          else match_labels_loop rest target)"

definition MatchLabels :: "labels \<Rightarrow> (string \<times> string) list \<Rightarrow> bool result" where
  "MatchLabels selector target =
     (if selector = [] then Inr False
      else
        (let selectorValues = (case map_of selector Wildcard of None \<Rightarrow> [] | Some vs \<Rightarrow> vs)
         in if length selectorValues = 1 \<and> hd selectorValues = Wildcard then Inr True
            else match_labels_loop selector target))"

section \<open>Role matchers\<close>

datatype role_matcher =
    AWSRoleARNMatcher string
  | DatabaseLabelsMatcher "(string \<times> string) list"
  | DatabaseUserMatcher string
  | DatabaseNameMatcher string

fun matcher_Match :: "role_matcher \<Rightarrow> role \<Rightarrow> role_condition_type \<Rightarrow> bool result" where
  "matcher_Match (AWSRoleARNMatcher arn) role1 condition =
     Inr (MatchAWSRoleARN (GetAWSRoleARNs condition role1) arn)"
| "matcher_Match (DatabaseLabelsMatcher ls) role1 condition =
     MatchLabels (elems (GetDatabaseLabels condition role1)) ls"
| "matcher_Match (DatabaseUserMatcher user) role1 condition =
     Inr (MatchDatabaseUser (GetDatabaseUsers condition role1) user)"
| "matcher_Match (DatabaseNameMatcher name) role1 condition =
     Inr (MatchDatabaseName (GetDatabaseNames condition role1) name)"

definition MatchAll :: "role_matcher list \<Rightarrow> role \<Rightarrow> role_condition_type \<Rightarrow> bool result" where
  "MatchAll m role1 condition = all_res (\<lambda>matcher. matcher_Match matcher role1 condition) m"

definition MatchAny :: "role_matcher list \<Rightarrow> role \<Rightarrow> role_condition_type \<Rightarrow> bool result" where
  "MatchAny m role1 condition = ex_res (\<lambda>matcher. matcher_Match matcher role1 condition) m"

section \<open>Labels of the targets\<close>

record command_label =
  cl_Period :: duration
  cl_Command :: "string list"
  cl_Result :: string

definition CombineLabels :: "(string \<times> string) list \<Rightarrow> (string \<times> command_label) list \<Rightarrow>
    (string \<times> string) list" where
  "CombineLabels static dynamic =
     foldl (\<lambda>m (key, cmd). AList.update key (cl_Result cmd) m)
       (foldl (\<lambda>m (key, v). AList.update key v m) [] static) dynamic"

section \<open>What label matching decides\<close>

text \<open>A pattern is valid when its regular expression compiles; every glob is.\<close>

definition valid_pattern :: "string \<Rightarrow> bool" where
  "valid_pattern p = is_ok (compile_regexp (anchored p))"

definition pattern_matches :: "string \<Rightarrow> string \<Rightarrow> bool" where
  "pattern_matches p s =
     (case compile_regexp (anchored p) of Inl e \<Rightarrow> False | Inr re \<Rightarrow> MatchString (re_prog re) s)"

definition valid_labels :: "labels \<Rightarrow> bool" where
  "valid_labels ls = (\<forall>(k, vs)\<in>set ls. \<forall>v\<in>set vs. valid_pattern v)"

text \<open>The specification: a selector entry is met by a target that has the key with a value one of
  the patterns matches.\<close>

definition entry_matches :: "(string \<times> string) list \<Rightarrow> string \<times> string list \<Rightarrow> bool" where
  "entry_matches target = (\<lambda>(key, vs).
     (case map_of target key of
        None \<Rightarrow> False
      | Some tv \<Rightarrow> Wildcard \<in> set vs \<or> (\<exists>v\<in>set vs. pattern_matches v tv)))"

lemma SliceMatchesRegex_valid:
  "\<forall>v\<in>set vs. valid_pattern v \<Longrightarrow>
     SliceMatchesRegex s vs = Inr (\<exists>v\<in>set vs. pattern_matches v s)"
  by (induction vs) (auto simp: valid_pattern_def is_ok_iff pattern_matches_def)

lemma glob_valid [simp]: "is_glob p \<Longrightarrow> valid_pattern p"
  using glob_MatchString [of p] by (auto simp: valid_pattern_def)

lemma glob_pattern_matches [simp]:
  assumes "is_glob p"
  shows "pattern_matches p s \<longleftrightarrow> glob_match p s"
proof -
  obtain re where re: "compile_regexp (anchored p) = Inr re"
    and m: "\<forall>s. MatchString (re_prog re) s \<longleftrightarrow> glob_match p s"
    using glob_MatchString [OF assms] by blast
  show ?thesis using m [rule_format, of s] by (simp only: pattern_matches_def re sum.case)
qed

lemma match_labels_loop_valid:
  "valid_labels ls \<Longrightarrow> match_labels_loop ls target = Inr (\<forall>e\<in>set ls. entry_matches target e)"
proof (induction ls)
  case (Cons e ls)
  obtain key vs where e: "e = (key, vs)" by (cases e)
  from Cons have IH: "match_labels_loop ls target = Inr (\<forall>e\<in>set ls. entry_matches target e)"
    and v: "\<forall>v\<in>set vs. valid_pattern v"
    by (simp_all add: valid_labels_def e)
  show ?case
    by (cases "map_of target key")
       (simp_all add: e IH SliceMatchesRegex_valid [OF v] entry_matches_def slice_contains_def)
qed simp

lemma MatchLabels_valid:
  assumes "valid_labels sel"
  shows "MatchLabels sel target =
    Inr (sel \<noteq> [] \<and> (map_of sel Wildcard = Some [Wildcard] \<or> (\<forall>e\<in>set sel. entry_matches target e)))"
proof -
  have one: "length vs = 1 \<and> hd vs = Wildcard \<longleftrightarrow> vs = [Wildcard]" for vs :: "string list"
    by (cases vs) auto
  show ?thesis
    unfolding MatchLabels_def Let_def one
    using assms by (auto simp: match_labels_loop_valid split: option.splits)
qed

text \<open>Go visits a map's entries in any order; the decision does not depend on it.\<close>

lemma MatchLabels_order:
  assumes "valid_labels sel" and "distinct (map fst sel)" and "mset sel = mset sel'"
  shows "MatchLabels sel target = MatchLabels sel' target"
proof -
  from assms(3) have s: "set sel = set sel'" by (rule mset_eq_setD)
  with assms(1) have v: "valid_labels sel'" by (simp add: valid_labels_def)
  have "distinct (map fst sel')"
    using assms(2) assms(3) by (metis mset_map mset_eq_imp_distinct_iff)
  then have "map_of sel = map_of sel'"
    using assms(2) s map_of_inject_set by blast
  moreover have "sel = [] \<longleftrightarrow> sel' = []" using s by (metis set_empty)
  ultimately show ?thesis using s by (simp add: MatchLabels_valid assms(1) v)
qed

lemma match_labels_loop_ok: "valid_labels ls \<Longrightarrow> is_ok (match_labels_loop ls target)"
  by (simp add: match_labels_loop_valid)

text \<open>Dynamic labels override static ones of the same key.\<close>

lemma map_of_foldl_update:
  "map_of (foldl (\<lambda>m (key, v). AList.update key (f v) m) m0 xs) =
     map_of m0 ++ map_of (map (\<lambda>(k, v). (k, f v)) (rev xs))"
proof (induction xs rule: rev_induct)
  case (snoc p xs)
  obtain a b where p: "p = (a, b)" by (cases p)
  let ?M = "map_of (map (\<lambda>(k, v). (k, f v)) (rev xs))"
  have "map_of (foldl (\<lambda>m (key, v). AList.update key (f v) m) m0 (xs @ [p])) =
      (map_of m0 ++ ?M)(a \<mapsto> f b)"
    by (simp add: p update_conv' snoc.IH)
  also have "\<dots> = map_of m0 ++ ?M(a \<mapsto> f b)" by simp
  finally show ?case by (simp add: p fun_upd_def)
qed simp

lemma CombineLabels_lookup:
  assumes "distinct (map fst static)" and "distinct (map fst dynamic)"
  shows "map_of (CombineLabels static dynamic) key =
    (case map_of dynamic key of Some cmd \<Rightarrow> Some (cl_Result cmd) | None \<Rightarrow> map_of static key)"
proof -
  have "map_of (CombineLabels static dynamic) =
      map_of (rev static) ++ map_of (map (\<lambda>(k, v). (k, cl_Result v)) (rev dynamic))"
    unfolding CombineLabels_def map_of_foldl_update [where f = cl_Result]
    using map_of_foldl_update [where f = "\<lambda>v. v" and xs = static and ?m0.0 = "[]"]
    by (simp add: case_prod_unfold)
  moreover have "map_of (rev static) = map_of static"
    using assms(1) by (simp add: map_of_inject_set rev_map [symmetric])
  moreover have "map_of (map (\<lambda>(k, v). (k, cl_Result v)) (rev dynamic)) key =
      map_option cl_Result (map_of (rev dynamic) key)"
    by (simp add: map_of_map)
  moreover have "map_of (rev dynamic) = map_of dynamic"
    using assms(2) by (simp add: map_of_inject_set rev_map [symmetric])
  ultimately show ?thesis by (simp add: map_add_def split: option.splits)
qed

section \<open>What the selectors select, once their patterns compile\<close>

definition selects :: "labels option \<Rightarrow> (string \<times> string) list \<Rightarrow> bool" where
  "selects ls target =
     (elems ls \<noteq> [] \<and> (map_of (elems ls) Wildcard = Some [Wildcard] \<or> (\<forall>e\<in>set (elems ls). entry_matches target e)))"

lemma MatchLabels_selects: "valid_labels (elems ls) \<Longrightarrow> MatchLabels (elems ls) target = Inr (selects ls target)"
  by (simp add: MatchLabels_valid selects_def)

fun matcher_selects :: "role_condition_type \<Rightarrow> role \<Rightarrow> role_matcher \<Rightarrow> bool" where
  "matcher_selects c r (AWSRoleARNMatcher arn) = MatchAWSRoleARN (GetAWSRoleARNs c r) arn"
| "matcher_selects c r (DatabaseLabelsMatcher ls) = selects (GetDatabaseLabels c r) ls"
| "matcher_selects c r (DatabaseUserMatcher user) = MatchDatabaseUser (GetDatabaseUsers c r) user"
| "matcher_selects c r (DatabaseNameMatcher name) = MatchDatabaseName (GetDatabaseNames c r) name"

text \<open>Every pattern of the selector that \<open>get1\<close> reads compiles, in every role.\<close>

definition compiles :: "(role_condition_type \<Rightarrow> role \<Rightarrow> labels option) \<Rightarrow> role list \<Rightarrow> bool" where
  "compiles get1 rs = (\<forall>r\<in>set rs. valid_labels (elems (get1 Allow r)) \<and> valid_labels (elems (get1 Deny r)))"

lemma compilesD: "compiles get1 rs \<Longrightarrow> r \<in> set rs \<Longrightarrow> valid_labels (elems (get1 c r))"
  by (cases c) (auto simp: compiles_def Allow_def Deny_def)

lemma matcher_total:
  "compiles GetDatabaseLabels rs \<Longrightarrow> r \<in> set rs \<Longrightarrow> matcher_Match m r c = Inr (matcher_selects c r m)"
  by (cases m) (auto simp: MatchLabels_selects compilesD)

lemma MatchAny_total:
  "compiles GetDatabaseLabels rs \<Longrightarrow> r \<in> set rs \<Longrightarrow> MatchAny ms r c = Inr (\<exists>m\<in>set ms. matcher_selects c r m)"
  unfolding MatchAny_def by (rule ex_res_total) (simp add: matcher_total)

lemma MatchAll_total:
  "compiles GetDatabaseLabels rs \<Longrightarrow> r \<in> set rs \<Longrightarrow> MatchAll ms r c = Inr (\<forall>m\<in>set ms. matcher_selects c r m)"
  unfolding MatchAll_def by (rule all_res_total) (simp add: matcher_total)

end
