(* ===== verification/Access.thy ===== *)
theory Access
  imports Matching
begin

text \<open>
  The access decisions of \<open>lib/services/role.go\<close> on a role set: servers, applications,
  Kubernetes clusters, databases and remote clusters. The four that take MFA parameters share one
  contract, the locale \<open>access_decision\<close>: the deny rules of every role come before the allow
  rules, and a matching allow rule may still ask for MFA. It is interpreted on each of the four
  checks; the properties rest on its facts.
\<close>

section \<open>The targets and the MFA parameters\<close>

record access_mfa_params =
  AlwaysRequired :: bool
  Verified :: bool

record server =
  srv_Namespace :: string
  srv_Labels :: "(string \<times> string) list"
  srv_CmdLabels :: "(string \<times> command_label) list"

definition GetAllLabels :: "server \<Rightarrow> (string \<times> string) list" where
  "GetAllLabels s = CombineLabels (srv_Labels s) (srv_CmdLabels s)"

text \<open>An application or a Kubernetes cluster: its static and dynamic labels.\<close>

record labeled_target =
  tgt_StaticLabels :: "(string \<times> string) list"
  tgt_DynamicLabels :: "(string \<times> command_label) list"

definition target_labels :: "labeled_target \<Rightarrow> (string \<times> string) list" where
  "target_labels t = CombineLabels (tgt_StaticLabels t) (tgt_DynamicLabels t)"

record database_server =
  db_Namespace :: string

section \<open>Servers\<close>

fun server_deny_loop :: "role list \<Rightarrow> string \<Rightarrow> server \<Rightarrow> bool result" where
  "server_deny_loop [] login s = Inr False"
| "server_deny_loop (role1 # rest) login s =
     (let matchNamespace = MatchNamespace (GetNamespaces Deny role1) (srv_Namespace s)
      in case MatchLabels (elems (GetNodeLabels Deny role1)) (GetAllLabels s) of
           Inl e \<Rightarrow> Inl e
         | Inr matchLabels \<Rightarrow>
             (let matchLogin = MatchLogin (GetLogins Deny role1) login
              in if matchNamespace \<and> (matchLabels \<or> matchLogin) then Inr True
                 else server_deny_loop rest login s))"

fun server_allow_loop :: "bool \<Rightarrow> role list \<Rightarrow> string \<Rightarrow> server \<Rightarrow> access_mfa_params \<Rightarrow> unit result" where
  "server_allow_loop allowed [] login s mfa = (if allowed then Inr () else Inl AccessDenied)"
| "server_allow_loop allowed (role1 # rest) login s mfa =
     (let matchNamespace = MatchNamespace (GetNamespaces Allow role1) (srv_Namespace s)
      in case MatchLabels (elems (GetNodeLabels Allow role1)) (GetAllLabels s) of
           Inl e \<Rightarrow> Inl e
         | Inr matchLabels \<Rightarrow>
             (let matchLogin = MatchLogin (GetLogins Allow role1) login
              in if matchNamespace \<and> matchLabels \<and> matchLogin then
                   (if Verified mfa then Inr ()
                    else if opt_RequireSessionMFA (GetOptions role1) then Inl SessionMFARequired
                    else server_allow_loop True rest login s mfa)
                 else server_allow_loop allowed rest login s mfa))"

definition CheckAccessToServer :: "role list \<Rightarrow> string \<Rightarrow> server \<Rightarrow> access_mfa_params \<Rightarrow> unit result" where
  "CheckAccessToServer rs login s mfa =
     (if AlwaysRequired mfa \<and> \<not> Verified mfa then Inl SessionMFARequired
      else case server_deny_loop rs login s of
             Inl e \<Rightarrow> Inl e
           | Inr denied \<Rightarrow>
               if denied then Inl AccessDenied else server_allow_loop False rs login s mfa)"

section \<open>Applications\<close>

fun app_deny_loop :: "role list \<Rightarrow> string \<Rightarrow> labeled_target \<Rightarrow> role_matcher list \<Rightarrow> bool result" where
  "app_deny_loop [] namespace app matchers = Inr False"
| "app_deny_loop (role1 # rest) namespace app matchers =
     (let matchNamespace = MatchNamespace (GetNamespaces Deny role1) namespace
      in case MatchLabels (elems (GetAppLabels Deny role1)) (target_labels app) of
           Inl e \<Rightarrow> Inl e
         | Inr matchLabels \<Rightarrow>
             (case MatchAny matchers role1 Deny of
                Inl e \<Rightarrow> Inl e
              | Inr matchMatchers \<Rightarrow>
                  if matchNamespace \<and> (matchLabels \<or> matchMatchers) then Inr True
                  else app_deny_loop rest namespace app matchers))"

fun app_allow_loop :: "bool \<Rightarrow> role list \<Rightarrow> string \<Rightarrow> labeled_target \<Rightarrow> access_mfa_params \<Rightarrow>
    role_matcher list \<Rightarrow> unit result" where
  "app_allow_loop allowed [] namespace app mfa matchers = (if allowed then Inr () else Inl AccessDenied)"
| "app_allow_loop allowed (role1 # rest) namespace app mfa matchers =
     (let matchNamespace = MatchNamespace (GetNamespaces Allow role1) namespace
      in case MatchLabels (elems (GetAppLabels Allow role1)) (target_labels app) of
           Inl e \<Rightarrow> Inl e
         | Inr matchLabels \<Rightarrow>
             (case MatchAll matchers role1 Allow of
                Inl e \<Rightarrow> Inl e
              | Inr matchMatchers \<Rightarrow>
                  if matchNamespace \<and> matchLabels \<and> matchMatchers then
                    (if Verified mfa then Inr ()
                     else if opt_RequireSessionMFA (GetOptions role1) then Inl SessionMFARequired
                     else app_allow_loop True rest namespace app mfa matchers)
                  else app_allow_loop allowed rest namespace app mfa matchers))"

definition CheckAccessToApp :: "role list \<Rightarrow> string \<Rightarrow> labeled_target \<Rightarrow> access_mfa_params \<Rightarrow>
    role_matcher list \<Rightarrow> unit result" where
  "CheckAccessToApp rs namespace app mfa matchers =
     (if AlwaysRequired mfa \<and> \<not> Verified mfa then Inl SessionMFARequired
      else case app_deny_loop rs namespace app matchers of
             Inl e \<Rightarrow> Inl e
           | Inr denied \<Rightarrow>
               if denied then Inl AccessDenied
               else app_allow_loop False rs namespace app mfa matchers)"

section \<open>Kubernetes clusters\<close>

fun kube_deny_loop :: "role list \<Rightarrow> string \<Rightarrow> labeled_target \<Rightarrow> bool result" where
  "kube_deny_loop [] namespace kube = Inr False"
| "kube_deny_loop (role1 # rest) namespace kube =
     (let matchNamespace = MatchNamespace (GetNamespaces Deny role1) namespace
      in case MatchLabels (elems (GetKubernetesLabels Deny role1)) (target_labels kube) of
           Inl e \<Rightarrow> Inl e
         | Inr matchLabels \<Rightarrow>
             if matchNamespace \<and> matchLabels then Inr True else kube_deny_loop rest namespace kube)"

fun kube_allow_loop :: "bool \<Rightarrow> role list \<Rightarrow> string \<Rightarrow> labeled_target \<Rightarrow> access_mfa_params \<Rightarrow> unit result" where
  "kube_allow_loop allowed [] namespace kube mfa = (if allowed then Inr () else Inl AccessDenied)"
| "kube_allow_loop allowed (role1 # rest) namespace kube mfa =
     (let matchNamespace = MatchNamespace (GetNamespaces Allow role1) namespace
      in case MatchLabels (elems (GetKubernetesLabels Allow role1)) (target_labels kube) of
           Inl e \<Rightarrow> Inl e
         | Inr matchLabels \<Rightarrow>
             if matchNamespace \<and> matchLabels then
               (if Verified mfa then Inr ()
                else if opt_RequireSessionMFA (GetOptions role1) then Inl SessionMFARequired
                else kube_allow_loop True rest namespace kube mfa)
             else kube_allow_loop allowed rest namespace kube mfa)"

definition CheckAccessToKubernetes :: "role list \<Rightarrow> string \<Rightarrow> labeled_target \<Rightarrow> access_mfa_params \<Rightarrow>
    unit result" where
  "CheckAccessToKubernetes rs namespace kube mfa =
     (if AlwaysRequired mfa \<and> \<not> Verified mfa then Inl SessionMFARequired
      else case kube_deny_loop rs namespace kube of
             Inl e \<Rightarrow> Inl e
           | Inr denied \<Rightarrow>
               if denied then Inl AccessDenied else kube_allow_loop False rs namespace kube mfa)"

section \<open>Databases\<close>

fun database_deny_loop :: "role list \<Rightarrow> database_server \<Rightarrow> role_matcher list \<Rightarrow> bool result" where
  "database_deny_loop [] srv matchers = Inr False"
| "database_deny_loop (role1 # rest) srv matchers =
     (if MatchNamespace (GetNamespaces Deny role1) (db_Namespace srv) then
        (case MatchAny matchers role1 Deny of
           Inl e \<Rightarrow> Inl e
         | Inr match \<Rightarrow> if match then Inr True else database_deny_loop rest srv matchers)
      else database_deny_loop rest srv matchers)"

fun database_allow_loop :: "bool \<Rightarrow> role list \<Rightarrow> database_server \<Rightarrow> access_mfa_params \<Rightarrow>
    role_matcher list \<Rightarrow> unit result" where
  "database_allow_loop allowed [] srv mfa matchers = (if allowed then Inr () else Inl AccessDenied)"
| "database_allow_loop allowed (role1 # rest) srv mfa matchers =
     (if MatchNamespace (GetNamespaces Allow role1) (db_Namespace srv) then
        (case MatchAll matchers role1 Allow of
           Inl e \<Rightarrow> Inl e
         | Inr match \<Rightarrow>
             if match then
               (if Verified mfa then Inr ()
                else if opt_RequireSessionMFA (GetOptions role1) then Inl SessionMFARequired
                else database_allow_loop True rest srv mfa matchers)
             else database_allow_loop allowed rest srv mfa matchers)
      else database_allow_loop allowed rest srv mfa matchers)"

definition CheckAccessToDatabase :: "role list \<Rightarrow> database_server \<Rightarrow> access_mfa_params \<Rightarrow>
    role_matcher list \<Rightarrow> unit result" where
  "CheckAccessToDatabase rs srv mfa matchers =
     (if AlwaysRequired mfa \<and> \<not> Verified mfa then Inl SessionMFARequired
      else case database_deny_loop rs srv matchers of
             Inl e \<Rightarrow> Inl e
           | Inr denied \<Rightarrow>
               if denied then Inl AccessDenied else database_allow_loop False rs srv mfa matchers)"

section \<open>Remote clusters\<close>

definition uses_cluster_labels :: "role list \<Rightarrow> bool" where
  "uses_cluster_labels rs =
     (\<exists>r\<in>set rs. elems (GetClusterLabels Allow r) \<noteq> [] \<or> elems (GetClusterLabels Deny r) \<noteq> [])"

definition CheckAccessToRemoteCluster :: "role list \<Rightarrow> (string \<times> string) list \<Rightarrow> unit result" where
  "CheckAccessToRemoteCluster rs rcLabels =
     (if rs = [] then Inl AccessDenied
      else if \<not> uses_cluster_labels rs \<and> rcLabels = [] then Inr ()
      else case ex_res (\<lambda>r. MatchLabels (elems (GetClusterLabels Deny r)) rcLabels) rs of
             Inl e \<Rightarrow> Inl e
           | Inr denied \<Rightarrow>
               if denied then Inl AccessDenied
               else case ex_res (\<lambda>r. MatchLabels (elems (GetClusterLabels Allow r)) rcLabels) rs of
                      Inl e \<Rightarrow> Inl e
                    | Inr matched \<Rightarrow> if matched then Inr () else Inl AccessDenied)"

section \<open>The contract of an access decision\<close>

text \<open>The allow phase over any per-role matcher.\<close>

fun allow_phase :: "(role \<Rightarrow> bool result) \<Rightarrow> bool \<Rightarrow> bool \<Rightarrow> role list \<Rightarrow> unit result" where
  "allow_phase allow verified allowed [] = (if allowed then Inr () else Inl AccessDenied)"
| "allow_phase allow verified allowed (r # rs) =
     (case allow r of
        Inl e \<Rightarrow> Inl e
      | Inr match \<Rightarrow>
          if match then
            (if verified then Inr ()
             else if opt_RequireSessionMFA (GetOptions r) then Inl SessionMFARequired
             else allow_phase allow verified True rs)
          else allow_phase allow verified allowed rs)"

text \<open>The decision over per-role deny and allow matchers that cannot fail.\<close>

definition decides :: "(role \<Rightarrow> bool) \<Rightarrow> (role \<Rightarrow> bool) \<Rightarrow> role set \<Rightarrow> access_mfa_params \<Rightarrow> bool" where
  "decides deny allow R mfa \<longleftrightarrow>
     (AlwaysRequired mfa \<longrightarrow> Verified mfa) \<and> (\<forall>r\<in>R. \<not> deny r) \<and> (\<exists>r\<in>R. allow r) \<and>
     (Verified mfa \<or> (\<forall>r\<in>R. allow r \<longrightarrow> \<not> opt_RequireSessionMFA (GetOptions r)))"

lemma allow_phase_verified:
  "allow_phase allow True False rs = Inr () \<longleftrightarrow> ex_res allow rs = Inr True"
  by (induction rs) (auto split: sum.splits)

lemma allow_phase_unverified:
  "allow_phase allow False allowed rs = Inr () \<longleftrightarrow>
     (allowed \<or> (\<exists>r\<in>set rs. allow r = Inr True)) \<and>
     (\<forall>r\<in>set rs. is_ok (allow r)) \<and>
     (\<forall>r\<in>set rs. allow r = Inr True \<longrightarrow> \<not> opt_RequireSessionMFA (GetOptions r))"
  by (induction rs arbitrary: allowed) (auto split: sum.splits)

lemma allow_phase_error:
  "allow_phase allow verified allowed rs = Inl e \<Longrightarrow>
     e = AccessDenied \<or> e = SessionMFARequired \<or> (\<exists>r\<in>set rs. allow r = Inl e)"
  by (induction rs arbitrary: allowed) (auto split: sum.splits if_splits)

lemma allow_phase_total:
  assumes "\<forall>r\<in>set rs. allow r = Inr (p r)"
  shows "allow_phase allow v False rs = Inr () \<longleftrightarrow>
    (\<exists>r\<in>set rs. p r) \<and> (v \<or> (\<forall>r\<in>set rs. p r \<longrightarrow> \<not> opt_RequireSessionMFA (GetOptions r)))"
proof (cases v)
  case True
  with ex_res_total [OF assms] show ?thesis by (simp add: allow_phase_verified)
next
  case False
  with assms show ?thesis by (simp add: allow_phase_unverified)
qed

locale access_decision =
  fixes deny allow :: "role \<Rightarrow> bool result"
    and check :: "role list \<Rightarrow> access_mfa_params \<Rightarrow> unit result"
  assumes check_mfa: "AlwaysRequired m \<Longrightarrow> \<not> Verified m \<Longrightarrow> check rs m = Inl SessionMFARequired"
    and check_phases: "\<not> (AlwaysRequired m \<and> \<not> Verified m) \<Longrightarrow>
      check rs m = (case ex_res deny rs of
                      Inl e \<Rightarrow> Inl e
                    | Inr denied \<Rightarrow>
                        if denied then Inl AccessDenied else allow_phase allow (Verified m) False rs)"
begin

lemma granted_iff:
  "check rs m = Inr () \<longleftrightarrow>
     (AlwaysRequired m \<longrightarrow> Verified m) \<and> (\<forall>r\<in>set rs. deny r = Inr False) \<and>
     allow_phase allow (Verified m) False rs = Inr ()"
  by (cases "AlwaysRequired m \<and> \<not> Verified m")
     (auto simp: check_mfa check_phases ex_res_False_iff [symmetric] split: sum.splits if_splits)

lemma deny_wins: "check rs m = Inr () \<Longrightarrow> r \<in> set rs \<Longrightarrow> deny r = Inr False"
  by (simp add: granted_iff)

lemma needs_allow: "check rs m = Inr () \<Longrightarrow> \<exists>r\<in>set rs. allow r = Inr True"
  by (cases "Verified m")
     (auto simp: granted_iff allow_phase_verified allow_phase_unverified dest: ex_res_TrueD)

lemma needs_mfa:
  "check rs m = Inr () \<Longrightarrow> \<not> Verified m \<Longrightarrow> r \<in> set rs \<Longrightarrow> allow r = Inr True \<Longrightarrow>
     \<not> opt_RequireSessionMFA (GetOptions r)"
  by (auto simp: granted_iff allow_phase_unverified)

lemma verifying_keeps_access:
  assumes "check rs m = Inr ()" and "\<forall>r\<in>set rs. is_ok (allow r)"
  shows "check rs (m\<lparr>Verified := True\<rparr>) = Inr ()"
proof -
  have p: "\<forall>r\<in>set rs. allow r = Inr (allow r = Inr True)"
    using assms(2) by (auto simp: is_ok_iff)
  have "allow_phase allow True False rs = Inr ()"
    using needs_allow [OF assms(1)] by (simp add: allow_phase_total [OF p])
  with assms(1) show ?thesis by (simp add: granted_iff)
qed

lemma decides_total:
  assumes "\<forall>r\<in>set rs. deny r = Inr (d r)" and "\<forall>r\<in>set rs. allow r = Inr (a r)"
  shows "check rs m = Inr () \<longleftrightarrow> decides d a (set rs) m"
  using assms by (auto simp: granted_iff allow_phase_total [OF assms(2)] decides_def)

lemma empty_set_denied: "check [] m \<noteq> Inr ()"
  by (simp add: granted_iff)

end

section \<open>The four checks meet the contract\<close>

definition server_deny :: "string \<Rightarrow> server \<Rightarrow> role \<Rightarrow> bool result" where
  "server_deny login s r =
     (case MatchLabels (elems (GetNodeLabels Deny r)) (GetAllLabels s) of
        Inl e \<Rightarrow> Inl e
      | Inr ml \<Rightarrow> Inr (MatchNamespace (GetNamespaces Deny r) (srv_Namespace s) \<and>
                        (ml \<or> MatchLogin (GetLogins Deny r) login)))"

definition server_allow :: "string \<Rightarrow> server \<Rightarrow> role \<Rightarrow> bool result" where
  "server_allow login s r =
     (case MatchLabels (elems (GetNodeLabels Allow r)) (GetAllLabels s) of
        Inl e \<Rightarrow> Inl e
      | Inr ml \<Rightarrow> Inr (MatchNamespace (GetNamespaces Allow r) (srv_Namespace s) \<and> ml \<and>
                        MatchLogin (GetLogins Allow r) login))"

definition app_deny :: "string \<Rightarrow> labeled_target \<Rightarrow> role_matcher list \<Rightarrow> role \<Rightarrow> bool result" where
  "app_deny ns app ms r =
     (case MatchLabels (elems (GetAppLabels Deny r)) (target_labels app) of
        Inl e \<Rightarrow> Inl e
      | Inr ml \<Rightarrow> (case MatchAny ms r Deny of
                     Inl e \<Rightarrow> Inl e
                   | Inr mm \<Rightarrow> Inr (MatchNamespace (GetNamespaces Deny r) ns \<and> (ml \<or> mm))))"

definition app_allow :: "string \<Rightarrow> labeled_target \<Rightarrow> role_matcher list \<Rightarrow> role \<Rightarrow> bool result" where
  "app_allow ns app ms r =
     (case MatchLabels (elems (GetAppLabels Allow r)) (target_labels app) of
        Inl e \<Rightarrow> Inl e
      | Inr ml \<Rightarrow> (case MatchAll ms r Allow of
                     Inl e \<Rightarrow> Inl e
                   | Inr mm \<Rightarrow> Inr (MatchNamespace (GetNamespaces Allow r) ns \<and> ml \<and> mm)))"

definition kube_deny :: "string \<Rightarrow> labeled_target \<Rightarrow> role \<Rightarrow> bool result" where
  "kube_deny ns kube r =
     (case MatchLabels (elems (GetKubernetesLabels Deny r)) (target_labels kube) of
        Inl e \<Rightarrow> Inl e
      | Inr ml \<Rightarrow> Inr (MatchNamespace (GetNamespaces Deny r) ns \<and> ml))"

definition kube_allow :: "string \<Rightarrow> labeled_target \<Rightarrow> role \<Rightarrow> bool result" where
  "kube_allow ns kube r =
     (case MatchLabels (elems (GetKubernetesLabels Allow r)) (target_labels kube) of
        Inl e \<Rightarrow> Inl e
      | Inr ml \<Rightarrow> Inr (MatchNamespace (GetNamespaces Allow r) ns \<and> ml))"

definition database_deny :: "database_server \<Rightarrow> role_matcher list \<Rightarrow> role \<Rightarrow> bool result" where
  "database_deny srv ms r =
     (if MatchNamespace (GetNamespaces Deny r) (db_Namespace srv) then MatchAny ms r Deny else Inr False)"

definition database_allow :: "database_server \<Rightarrow> role_matcher list \<Rightarrow> role \<Rightarrow> bool result" where
  "database_allow srv ms r =
     (if MatchNamespace (GetNamespaces Allow r) (db_Namespace srv) then MatchAll ms r Allow else Inr False)"

lemma server_deny_phase: "server_deny_loop rs login s = ex_res (server_deny login s) rs"
  by (induction rs) (auto simp: server_deny_def Let_def split: sum.split)

lemma server_allow_phase:
  "server_allow_loop allowed rs login s mfa = allow_phase (server_allow login s) (Verified mfa) allowed rs"
  by (induction rs arbitrary: allowed) (auto simp: server_allow_def Let_def split: sum.split)

lemma app_deny_phase: "app_deny_loop rs ns app ms = ex_res (app_deny ns app ms) rs"
  by (induction rs) (auto simp: app_deny_def Let_def split: sum.split)

lemma app_allow_phase:
  "app_allow_loop allowed rs ns app mfa ms = allow_phase (app_allow ns app ms) (Verified mfa) allowed rs"
  by (induction rs arbitrary: allowed) (auto simp: app_allow_def Let_def split: sum.split)

lemma kube_deny_phase: "kube_deny_loop rs ns kube = ex_res (kube_deny ns kube) rs"
  by (induction rs) (auto simp: kube_deny_def Let_def split: sum.split)

lemma kube_allow_phase:
  "kube_allow_loop allowed rs ns kube mfa = allow_phase (kube_allow ns kube) (Verified mfa) allowed rs"
  by (induction rs arbitrary: allowed) (auto simp: kube_allow_def Let_def split: sum.split)

lemma database_deny_phase: "database_deny_loop rs srv ms = ex_res (database_deny srv ms) rs"
  by (induction rs) (auto simp: database_deny_def Let_def split: sum.split)

lemma database_allow_phase:
  "database_allow_loop allowed rs srv mfa ms = allow_phase (database_allow srv ms) (Verified mfa) allowed rs"
  by (induction rs arbitrary: allowed) (auto simp: database_allow_def Let_def split: sum.split)

interpretation server: access_decision "server_deny login s" "server_allow login s"
  "\<lambda>rs mfa. CheckAccessToServer rs login s mfa" for login s
  by unfold_locales (auto simp: CheckAccessToServer_def server_deny_phase server_allow_phase split: sum.split)

interpretation app: access_decision "app_deny ns a ms" "app_allow ns a ms"
  "\<lambda>rs mfa. CheckAccessToApp rs ns a mfa ms" for ns a ms
  by unfold_locales (auto simp: CheckAccessToApp_def app_deny_phase app_allow_phase split: sum.split)

interpretation kube: access_decision "kube_deny ns k" "kube_allow ns k"
  "\<lambda>rs mfa. CheckAccessToKubernetes rs ns k mfa" for ns k
  by unfold_locales (auto simp: CheckAccessToKubernetes_def kube_deny_phase kube_allow_phase split: sum.split)

interpretation database: access_decision "database_deny srv ms" "database_allow srv ms"
  "\<lambda>rs mfa. CheckAccessToDatabase rs srv mfa ms" for srv ms
  by unfold_locales (auto simp: CheckAccessToDatabase_def database_deny_phase database_allow_phase split: sum.split)

section \<open>Checks of all deny rules before all allow rules\<close>

text \<open>The contract of the checks without MFA, outside the cases \<open>exempt\<close> decides on its own.\<close>

locale deny_then_allow =
  fixes deny allow :: "role \<Rightarrow> bool result"
    and exempt :: "role list \<Rightarrow> bool"
    and check :: "role list \<Rightarrow> unit result"
  assumes check_phases: "\<not> exempt rs \<Longrightarrow>
      check rs = (case ex_res deny rs of
                    Inl e \<Rightarrow> Inl e
                  | Inr denied \<Rightarrow>
                      if denied then Inl AccessDenied
                      else case ex_res allow rs of
                             Inl e \<Rightarrow> Inl e
                           | Inr matched \<Rightarrow> if matched then Inr () else Inl AccessDenied)"
begin

lemma granted_iff:
  "\<not> exempt rs \<Longrightarrow> check rs = Inr () \<longleftrightarrow> (\<forall>r\<in>set rs. deny r = Inr False) \<and> ex_res allow rs = Inr True"
  by (auto simp: check_phases ex_res_False_iff [symmetric] split: sum.splits)

lemma deny_wins: "\<not> exempt rs \<Longrightarrow> check rs = Inr () \<Longrightarrow> r \<in> set rs \<Longrightarrow> deny r = Inr False"
  by (simp add: granted_iff)

lemma needs_allow: "\<not> exempt rs \<Longrightarrow> check rs = Inr () \<Longrightarrow> \<exists>r\<in>set rs. allow r = Inr True"
  by (auto simp: granted_iff dest: ex_res_TrueD)

lemma decides_total:
  assumes "\<not> exempt rs" "\<forall>r\<in>set rs. deny r = Inr (d r)" "\<forall>r\<in>set rs. allow r = Inr (a r)"
  shows "check rs = (if (\<forall>r\<in>set rs. \<not> d r) \<and> (\<exists>r\<in>set rs. a r) then Inr () else Inl AccessDenied)"
  by (auto simp: check_phases [OF assms(1)] ex_res_total [OF assms(2)] ex_res_total [OF assms(3)])

lemma more_roles:
  assumes "\<not> exempt rs" "\<not> exempt (rs @ rs')" "check rs = Inr ()" "\<forall>r\<in>set rs'. deny r = Inr False"
  shows "check (rs @ rs') = Inr ()"
proof -
  have "ex_res allow (rs @ rs') = Inr True" if "ex_res allow rs = Inr True"
    using that by (induction rs) (auto split: sum.splits if_splits)
  with assms show ?thesis by (auto simp: granted_iff)
qed

end

definition cluster_matches :: "role_condition_type \<Rightarrow> (string \<times> string) list \<Rightarrow> role \<Rightarrow> bool result" where
  "cluster_matches rct rcLabels r = MatchLabels (elems (GetClusterLabels rct r)) rcLabels"

definition unlabeled :: "(string \<times> string) list \<Rightarrow> role list \<Rightarrow> bool" where
  "unlabeled rcLabels rs = (\<not> uses_cluster_labels rs \<and> rcLabels = [])"

interpretation cluster: deny_then_allow "cluster_matches Deny ls" "cluster_matches Allow ls" "unlabeled ls"
  "\<lambda>rs. CheckAccessToRemoteCluster rs ls" for ls
  by unfold_locales (auto simp: CheckAccessToRemoteCluster_def unlabeled_def cluster_matches_def [abs_def] split: sum.split)

context access_decision
begin

lemma allow_phase_asks:
  "allow_phase allow False allowed rs = Inl SessionMFARequired \<Longrightarrow> \<forall>r\<in>set rs. is_ok (allow r) \<Longrightarrow>
     \<exists>r\<in>set rs. allow r = Inr True"
  by (induction rs arbitrary: allowed) (auto split: sum.splits if_splits)

text \<open>A check that asks for a factor, other than because every session needs one, grants access once
  the factor is verified.\<close>

lemma mfa_request_sound:
  assumes "check rs m = Inl SessionMFARequired" "\<not> AlwaysRequired m"
    "\<forall>r\<in>set rs. is_ok (deny r)" "\<forall>r\<in>set rs. is_ok (allow r)"
  shows "check rs (m\<lparr>Verified := True\<rparr>) = Inr ()"
proof -
  have e: "check rs m = (case ex_res deny rs of Inl e \<Rightarrow> Inl e
      | Inr denied \<Rightarrow> if denied then Inl AccessDenied else allow_phase allow (Verified m) False rs)"
    using assms(2) by (simp add: check_phases)
  from assms(3) obtain b where b: "ex_res deny rs = Inr b"
    using ex_res_InlD [of deny rs] by (cases "ex_res deny rs") (auto simp: is_ok_def)
  with e assms(1) have nb: "\<not> b" and p: "allow_phase allow (Verified m) False rs = Inl SessionMFARequired"
    by (auto split: if_splits)
  have "allow_phase allow True False rs \<noteq> Inl SessionMFARequired"
    using assms(4) by (induction rs) (auto simp: is_ok_def split: sum.splits)
  with p have "\<not> Verified m" by metis
  with p have "\<exists>r\<in>set rs. allow r = Inr True" using allow_phase_asks [OF _ assms(4)] by simp
  then have "ex_res allow rs = Inr True"
    using ex_res_False_iff [of allow rs] ex_res_InlD [of allow rs] assms(4)
    by (cases "ex_res allow rs") (auto simp: is_ok_def)
  then show ?thesis using b nb by (simp add: check_phases allow_phase_verified)
qed

end

lemma server_total:
  assumes "compiles GetNodeLabels rs" "r \<in> set rs"
  shows "server_deny login s r = Inr (MatchNamespace (GetNamespaces Deny r) (srv_Namespace s) \<and>
      (selects (GetNodeLabels Deny r) (GetAllLabels s) \<or> MatchLogin (GetLogins Deny r) login))"
    "server_allow login s r = Inr (MatchNamespace (GetNamespaces Allow r) (srv_Namespace s) \<and>
      selects (GetNodeLabels Allow r) (GetAllLabels s) \<and> MatchLogin (GetLogins Allow r) login)"
  using compilesD [OF assms] by (simp_all add: server_deny_def server_allow_def MatchLabels_selects)

lemma app_total:
  assumes "compiles GetAppLabels rs" "compiles GetDatabaseLabels rs" "r \<in> set rs"
  shows "app_deny ns a ms r = Inr (MatchNamespace (GetNamespaces Deny r) ns \<and>
      (selects (GetAppLabels Deny r) (target_labels a) \<or> (\<exists>m\<in>set ms. matcher_selects Deny r m)))"
    "app_allow ns a ms r = Inr (MatchNamespace (GetNamespaces Allow r) ns \<and>
      selects (GetAppLabels Allow r) (target_labels a) \<and> (\<forall>m\<in>set ms. matcher_selects Allow r m))"
  using compilesD [OF assms(1,3)] MatchAny_total [OF assms(2,3)] MatchAll_total [OF assms(2,3)]
  by (simp_all add: app_deny_def app_allow_def MatchLabels_selects)

lemma kube_total:
  assumes "compiles GetKubernetesLabels rs" "r \<in> set rs"
  shows "kube_deny ns k r = Inr (MatchNamespace (GetNamespaces Deny r) ns \<and>
      selects (GetKubernetesLabels Deny r) (target_labels k))"
    "kube_allow ns k r = Inr (MatchNamespace (GetNamespaces Allow r) ns \<and>
      selects (GetKubernetesLabels Allow r) (target_labels k))"
  using compilesD [OF assms] by (simp_all add: kube_deny_def kube_allow_def MatchLabels_selects)

lemma database_total:
  assumes "compiles GetDatabaseLabels rs" "r \<in> set rs"
  shows "database_deny srv ms r = Inr (MatchNamespace (GetNamespaces Deny r) (db_Namespace srv) \<and>
      (\<exists>m\<in>set ms. matcher_selects Deny r m))"
    "database_allow srv ms r = Inr (MatchNamespace (GetNamespaces Allow r) (db_Namespace srv) \<and>
      (\<forall>m\<in>set ms. matcher_selects Allow r m))"
  using MatchAny_total [OF assms] MatchAll_total [OF assms]
  by (simp_all add: database_deny_def database_allow_def)

lemma cluster_total:
  assumes "compiles GetClusterLabels rs" "r \<in> set rs"
  shows "cluster_matches c ls r = Inr (selects (GetClusterLabels c r) ls)"
  using compilesD [OF assms] by (simp add: cluster_matches_def MatchLabels_selects)

end
