(* ===== verification/Rules.thy ===== *)
theory Rules
  imports Access
begin

text \<open>
  The resource rules of \<open>lib/services/role.go\<close>: the score that orders rules by how specific they
  are, \<open>MakeRuleSet\<close>, \<open>RuleSet.Match\<close> with its \<open>where\<close> and \<open>actions\<close>
  expressions, and \<open>CheckAccessToRule\<close>. The expressions are parsed by the vendored package
  \<open>predicate\<close>, so the two parsers are arguments; running the functions of the actions is
  the log of the actions run, in order. The checks that look at all deny rules and then at all allow
  rules share the locale \<open>deny_then_allow\<close>.
\<close>

section \<open>Scores\<close>

definition ruleScore :: "rule \<Rightarrow> int" where
  "ruleScore r =
     (let score1 = (if slice_contains (rule_Resources r) Wildcard then - 4
                    else if length (rule_Resources r) = 1 then 2 else 0);
          score2 = (if slice_contains (rule_Verbs r) Wildcard then score1 - 2 else score1);
          score3 = (if rule_Where r \<noteq> [] then score2 + 8 else score2)
      in if rule_Actions r \<noteq> [] then score3 + 8 else score3)"

definition CompareRuleScore :: "rule \<Rightarrow> rule \<Rightarrow> bool" where
  "CompareRuleScore r o1 = (ruleScore r > ruleScore o1)"

section \<open>Rule sets\<close>

type_synonym rule_set = "(string \<times> rule list) list"

definition rules_of :: "rule_set \<Rightarrow> string \<Rightarrow> rule list" where
  "rules_of set1 resource = (case map_of set1 resource of None \<Rightarrow> [] | Some rs \<Rightarrow> rs)"

text \<open>The rules of every resource in the order they are appended, then sorted. \<open>sort.Slice\<close> keeps
  the order of equal elements on the short slices a role has; \<open>sort_key\<close> is stable.\<close>

definition group_rules :: "rule list \<Rightarrow> rule_set" where
  "group_rules rules =
     foldl (\<lambda>set1 rule1.
        foldl (\<lambda>set2 resource. AList.update resource (rules_of set2 resource @ [rule1]) set2)
          set1 (rule_Resources rule1)) [] rules"

definition MakeRuleSet :: "rule list \<Rightarrow> rule_set" where
  "MakeRuleSet rules =
     map (\<lambda>(resource, rs). (resource, sort_key (\<lambda>r. - ruleScore r) rs)) (group_rules rules)"

definition Slice :: "rule_set \<Rightarrow> rule list" where
  "Slice set1 = concat (map snd set1)"

section \<open>Matching a rule\<close>

datatype predicate_value = BoolPredicate bool | OtherValue

type_synonym predicate_parser = "string \<Rightarrow> predicate_value result"

definition matchesWhere :: "rule \<Rightarrow> predicate_parser \<Rightarrow> bool result" where
  "matchesWhere r parser =
     (if rule_Where r = [] then Inr True
      else case parser (rule_Where r) of
             Inl e \<Rightarrow> Inl e
           | Inr ifn \<Rightarrow> (case ifn of BoolPredicate b \<Rightarrow> Inr b | OtherValue \<Rightarrow> Inl BadParameter))"

text \<open>The actions run so far, and the outcome.\<close>

type_synonym 'a logged = "string list \<times> 'a result"

fun process_actions_loop :: "string list \<Rightarrow> predicate_parser \<Rightarrow> string list \<Rightarrow> unit logged" where
  "process_actions_loop [] parser log = (log, Inr ())"
| "process_actions_loop (action # rest) parser log =
     (case parser action of
        Inl e \<Rightarrow> (log, Inl e)
      | Inr ifn \<Rightarrow>
          (case ifn of
             BoolPredicate b \<Rightarrow> process_actions_loop rest parser (log @ [action])
           | OtherValue \<Rightarrow> (log, Inl BadParameter)))"

definition processActions :: "rule \<Rightarrow> predicate_parser \<Rightarrow> string list \<Rightarrow> unit logged" where
  "processActions r parser log = process_actions_loop (rule_Actions r) parser log"

fun match_rules :: "predicate_parser \<Rightarrow> predicate_parser \<Rightarrow> string \<Rightarrow> rule list \<Rightarrow> string list \<Rightarrow>
    bool logged" where
  "match_rules whereParser actionsParser verb [] log = (log, Inr False)"
| "match_rules whereParser actionsParser verb (rule1 # rest) log =
     (case matchesWhere rule1 whereParser of
        Inl e \<Rightarrow> (log, Inl e)
      | Inr match \<Rightarrow>
          if match \<and> (HasVerb rule1 Wildcard \<or> HasVerb rule1 verb) then
            (case processActions rule1 actionsParser log of
               (log1, Inl e) \<Rightarrow> (log1, Inl e)
             | (log1, Inr _) \<Rightarrow> (log1, Inr True))
          else match_rules whereParser actionsParser verb rest log)"

definition RuleSet_Match :: "rule_set \<Rightarrow> predicate_parser \<Rightarrow> predicate_parser \<Rightarrow> string \<Rightarrow> string \<Rightarrow>
    string list \<Rightarrow> bool logged" where
  "RuleSet_Match set1 whereParser actionsParser resource verb log =
     (if set1 = [] then (log, Inr False)
      else case match_rules whereParser actionsParser verb (rules_of set1 resource) log of
             (log1, Inl e) \<Rightarrow> (log1, Inl e)
           | (log1, Inr match) \<Rightarrow>
               if match then (log1, Inr True)
               else match_rules whereParser actionsParser verb (rules_of set1 Wildcard) log1)"

section \<open>Access to a rule\<close>

fun rule_phase :: "role_condition_type \<Rightarrow> role list \<Rightarrow> predicate_parser \<Rightarrow> predicate_parser \<Rightarrow> string \<Rightarrow>
    string \<Rightarrow> string \<Rightarrow> string list \<Rightarrow> bool logged" where
  "rule_phase rct [] whereParser actionsParser namespace resource verb log = (log, Inr False)"
| "rule_phase rct (role1 # rest) whereParser actionsParser namespace resource verb log =
     (if MatchNamespace (GetNamespaces rct role1) (ProcessNamespace namespace) then
        (case RuleSet_Match (MakeRuleSet (GetRules rct role1)) whereParser actionsParser resource verb log of
           (log1, Inl e) \<Rightarrow> (log1, Inl e)
         | (log1, Inr matched) \<Rightarrow>
             if matched then (log1, Inr True)
             else rule_phase rct rest whereParser actionsParser namespace resource verb log1)
      else rule_phase rct rest whereParser actionsParser namespace resource verb log)"

definition CheckAccessToRule :: "role list \<Rightarrow> predicate_parser result \<Rightarrow> predicate_parser result \<Rightarrow>
    string \<Rightarrow> string \<Rightarrow> string \<Rightarrow> unit logged" where
  "CheckAccessToRule rs newWhereParser newActionsParser namespace resource verb =
     (case newWhereParser of
        Inl e \<Rightarrow> ([], Inl e)
      | Inr whereParser \<Rightarrow>
          (case newActionsParser of
             Inl e \<Rightarrow> ([], Inl e)
           | Inr actionsParser \<Rightarrow>
               (case rule_phase Deny rs whereParser actionsParser namespace resource verb [] of
                  (log1, Inl e) \<Rightarrow> (log1, Inl e)
                | (log1, Inr denied) \<Rightarrow>
                    if denied then (log1, Inl AccessDenied)
                    else
                      (case rule_phase Allow rs whereParser actionsParser namespace resource verb log1 of
                         (log2, Inl e) \<Rightarrow> (log2, Inl e)
                       | (log2, Inr match) \<Rightarrow>
                           if match then (log2, Inr ()) else (log2, Inl AccessDenied)))))"

section \<open>Scores order rules by how specific they are\<close>

lemma ruleScore_bounds: "- 6 \<le> ruleScore r" "ruleScore r \<le> 18"
  by (simp_all add: ruleScore_def Let_def)

definition plain_rule :: "rule \<Rightarrow> bool" where
  "plain_rule r = (rule_Where r = [] \<and> rule_Actions r = [])"

lemma ruleScore_plain: "plain_rule r \<Longrightarrow> ruleScore r \<le> 2"
  by (simp add: ruleScore_def Let_def plain_rule_def)

lemma ruleScore_not_plain: "\<not> plain_rule r \<Longrightarrow> 2 \<le> ruleScore r"
  by (auto simp: ruleScore_def Let_def plain_rule_def)

lemma ruleScore_tie:
  "\<not> plain_rule r \<Longrightarrow> ruleScore r = 2 \<longleftrightarrow>
     Wildcard \<in> set (rule_Resources r) \<and> Wildcard \<in> set (rule_Verbs r) \<and>
     (rule_Where r = [] \<or> rule_Actions r = [])"
  by (auto simp: ruleScore_def Let_def plain_rule_def slice_contains_def)

lemma ruleScore_plain_top:
  "plain_rule r \<Longrightarrow> ruleScore r = 2 \<longleftrightarrow>
     length (rule_Resources r) = 1 \<and> Wildcard \<notin> set (rule_Resources r) \<and> Wildcard \<notin> set (rule_Verbs r)"
  by (auto simp: ruleScore_def Let_def plain_rule_def slice_contains_def)

section \<open>What a rule set holds\<close>

lemma rules_of_update:
  "rules_of (AList.update k v m) k' = (if k' = k then v else rules_of m k')"
  by (simp add: rules_of_def update_conv')

lemma add_resources:
  "set (rules_of (foldl (\<lambda>set2 resource. AList.update resource (rules_of set2 resource @ [r]) set2) m ks) k) =
     set (rules_of m k) \<union> (if k \<in> set ks then {r} else {})"
  by (induction ks arbitrary: m) (auto simp: rules_of_update)

lemma group_rules_from:
  "set (rules_of (foldl (\<lambda>set1 rule1.
        foldl (\<lambda>set2 resource. AList.update resource (rules_of set2 resource @ [rule1]) set2)
          set1 (rule_Resources rule1)) m rules) k) =
     set (rules_of m k) \<union> {r \<in> set rules. k \<in> set (rule_Resources r)}"
  by (induction rules arbitrary: m) (auto simp: add_resources)

lemma group_rules_set: "set (rules_of (group_rules rules) k) = {r \<in> set rules. k \<in> set (rule_Resources r)}"
  by (simp add: group_rules_def group_rules_from) (simp add: rules_of_def)

lemma rules_of_map: "f [] = [] \<Longrightarrow> rules_of (map (\<lambda>(k, v). (k, f v)) m) k = f (rules_of m k)"
  by (induction m) (auto simp: rules_of_def)

lemma rules_of_MakeRuleSet:
  "rules_of (MakeRuleSet rules) k = sort_key (\<lambda>r. - ruleScore r) (rules_of (group_rules rules) k)"
  unfolding MakeRuleSet_def by (rule rules_of_map) simp

lemma MakeRuleSet_set:
  "set (rules_of (MakeRuleSet rules) k) = {r \<in> set rules. k \<in> set (rule_Resources r)}"
  by (simp add: rules_of_MakeRuleSet group_rules_set)

lemma MakeRuleSet_sorted:
  "sorted_wrt (\<lambda>r r'. \<not> CompareRuleScore r' r) (rules_of (MakeRuleSet rules) k)"
proof -
  have "sorted (map (\<lambda>r. - ruleScore r) (rules_of (MakeRuleSet rules) k))"
    by (simp add: rules_of_MakeRuleSet)
  then show ?thesis
    by (simp add: sorted_map CompareRuleScore_def not_less)
qed

lemma rules_of_Nil [simp]: "rules_of [] k = []"
  by (simp add: rules_of_def)

section \<open>What matching decides\<close>

text \<open>The decision of a match, when no expression fails.\<close>

definition rule_applies :: "predicate_parser \<Rightarrow> string \<Rightarrow> rule \<Rightarrow> bool" where
  "rule_applies whereParser verb r =
     (matchesWhere r whereParser = Inr True \<and> (HasVerb r Wildcard \<or> HasVerb r verb))"

definition rule_evaluates :: "predicate_parser \<Rightarrow> predicate_parser \<Rightarrow> rule \<Rightarrow> bool" where
  "rule_evaluates whereParser actionsParser r =
     (is_ok (matchesWhere r whereParser) \<and>
      (\<forall>a\<in>set (rule_Actions r). \<exists>b. actionsParser a = Inr (BoolPredicate b)))"

definition covers :: "string \<Rightarrow> rule \<Rightarrow> bool" where
  "covers resource r = (resource \<in> set (rule_Resources r) \<or> Wildcard \<in> set (rule_Resources r))"

lemma process_actions_loop_ok:
  "\<forall>a\<in>set as. \<exists>b. p a = Inr (BoolPredicate b) \<Longrightarrow> process_actions_loop as p log = (log @ as, Inr ())"
  by (induction as arbitrary: log) auto

lemma match_rules_ok:
  assumes "\<forall>r\<in>set rs. rule_evaluates wp ap r"
  shows "match_rules wp ap verb rs log =
    (case find (rule_applies wp verb) rs of
       None \<Rightarrow> (log, Inr False) | Some r \<Rightarrow> (log @ rule_Actions r, Inr True))"
  using assms
proof (induction rs)
  case (Cons r rs)
  then obtain b where b: "matchesWhere r wp = Inr b"
    and a: "\<forall>a\<in>set (rule_Actions r). \<exists>b. ap a = Inr (BoolPredicate b)"
    by (auto simp: rule_evaluates_def is_ok_iff)
  from Cons show ?case
    by (auto simp: b rule_applies_def processActions_def process_actions_loop_ok [OF a])
qed simp

lemma find_None_set: "find P xs = None \<longleftrightarrow> (\<forall>x\<in>set xs. \<not> P x)"
  by (induction xs) auto

lemma find_Some_set: "find P xs = Some x \<Longrightarrow> x \<in> set xs \<and> P x"
  by (induction xs) (auto split: if_splits)

lemma find_sorted_wrt:
  "sorted_wrt R xs \<Longrightarrow> find P xs = Some x \<Longrightarrow> y \<in> set xs \<Longrightarrow> P y \<Longrightarrow> y = x \<or> R x y"
  by (induction xs) (auto split: if_splits)

lemma MakeRuleSet_Nil: "MakeRuleSet rules = [] \<Longrightarrow> r \<in> set rules \<Longrightarrow> rule_Resources r = []"
  using MakeRuleSet_set [of rules] by (cases "rule_Resources r") (fastforce dest!: spec)+

lemma RuleSet_Match_ok:
  assumes "\<forall>r\<in>set rules. rule_evaluates wp ap r"
  shows "snd (RuleSet_Match (MakeRuleSet rules) wp ap resource verb log) =
    Inr (\<exists>r\<in>set rules. covers resource r \<and> rule_applies wp verb r)"
proof -
  let ?f = "\<lambda>k. find (rule_applies wp verb) (rules_of (MakeRuleSet rules) k)"
  have ev: "\<forall>r\<in>set (rules_of (MakeRuleSet rules) k). rule_evaluates wp ap r" for k
    using assms by (auto simp: MakeRuleSet_set)
  have iff: "?f k \<noteq> None \<longleftrightarrow> (\<exists>r\<in>set rules. k \<in> set (rule_Resources r) \<and> rule_applies wp verb r)" for k
    unfolding find_None_set MakeRuleSet_set by auto
  show ?thesis
  proof (cases "MakeRuleSet rules = []")
    case True
    then show ?thesis using MakeRuleSet_Nil [OF True]
      by (fastforce simp: RuleSet_Match_def covers_def)
  next
    case False
    then have "snd (RuleSet_Match (MakeRuleSet rules) wp ap resource verb log) =
        Inr (?f resource \<noteq> None \<or> ?f Wildcard \<noteq> None)"
      by (simp add: RuleSet_Match_def match_rules_ok [OF ev] del: not_None_eq split: option.split)
    then show ?thesis unfolding iff by (auto simp: covers_def)
  qed
qed

text \<open>Of the rules for the resource that apply, the actions of a most specific one are run.\<close>

lemma RuleSet_Match_specific:
  assumes ev: "\<forall>r\<in>set rules. rule_evaluates wp ap r"
    and r: "r \<in> set rules" "resource \<in> set (rule_Resources r)" "rule_applies wp verb r"
  shows "\<exists>r'\<in>set rules. resource \<in> set (rule_Resources r') \<and> rule_applies wp verb r' \<and>
     ruleScore r \<le> ruleScore r' \<and>
     RuleSet_Match (MakeRuleSet rules) wp ap resource verb log = (log @ rule_Actions r', Inr True)"
proof -
  let ?rs = "rules_of (MakeRuleSet rules) resource"
  have ev': "\<forall>r\<in>set ?rs. rule_evaluates wp ap r" using ev by (auto simp: MakeRuleSet_set)
  have mem: "r \<in> set ?rs" using r by (simp add: MakeRuleSet_set)
  then have "find (rule_applies wp verb) ?rs \<noteq> None" using r(3) by (auto simp: find_None_set)
  then obtain r' where f: "find (rule_applies wp verb) ?rs = Some r'" by blast
  note s = find_Some_set [OF f]
  have "ruleScore r \<le> ruleScore r'"
    using find_sorted_wrt [OF MakeRuleSet_sorted f mem r(3)] by (auto simp: CompareRuleScore_def)
  moreover have "MakeRuleSet rules \<noteq> []" using mem by auto
  then have "RuleSet_Match (MakeRuleSet rules) wp ap resource verb log = (log @ rule_Actions r', Inr True)"
    by (simp add: RuleSet_Match_def match_rules_ok [OF ev'] f)
  ultimately show ?thesis using s by (auto simp: MakeRuleSet_set)
qed

section \<open>Rule access meets the contract\<close>

definition rule_decision :: "role_condition_type \<Rightarrow> predicate_parser \<Rightarrow> predicate_parser \<Rightarrow> string \<Rightarrow> string \<Rightarrow>
    string \<Rightarrow> role \<Rightarrow> bool result" where
  "rule_decision rct wp ap namespace resource verb r =
     (if MatchNamespace (GetNamespaces rct r) (ProcessNamespace namespace)
      then snd (RuleSet_Match (MakeRuleSet (GetRules rct r)) wp ap resource verb []) else Inr False)"

lemma process_actions_loop_log:
  "snd (process_actions_loop as p log) = snd (process_actions_loop as p log')"
  by (induction as arbitrary: log log') (auto split: sum.split predicate_value.split)

lemma match_rules_log: "snd (match_rules wp ap verb rs log) = snd (match_rules wp ap verb rs log')"
proof (induction rs)
  case (Cons r rs)
  have "snd (processActions r ap log) = snd (processActions r ap log')"
    unfolding processActions_def by (rule process_actions_loop_log)
  with Cons show ?case by (auto split: sum.split prod.split)
qed simp

lemma RuleSet_Match_log:
  "snd (RuleSet_Match s wp ap resource verb log) = snd (RuleSet_Match s wp ap resource verb log')"
proof -
  have "snd (match_rules wp ap verb (rules_of s resource) log) =
        snd (match_rules wp ap verb (rules_of s resource) log')" by (rule match_rules_log)
  moreover have "\<And>l l'. snd (match_rules wp ap verb (rules_of s Wildcard) l) =
        snd (match_rules wp ap verb (rules_of s Wildcard) l')" by (rule match_rules_log)
  ultimately show ?thesis
    by (auto simp: RuleSet_Match_def split: sum.split prod.split)
qed

lemma rule_phase_decision:
  "snd (rule_phase rct rs wp ap namespace resource verb log) =
     ex_res (rule_decision rct wp ap namespace resource verb) rs"
proof (induction rs arbitrary: log)
  case (Cons r rs)
  have "snd (RuleSet_Match (MakeRuleSet (GetRules rct r)) wp ap resource verb log) =
        snd (RuleSet_Match (MakeRuleSet (GetRules rct r)) wp ap resource verb [])"
    by (rule RuleSet_Match_log)
  with Cons show ?case
    by (auto simp: rule_decision_def split: sum.split prod.split)
qed simp

lemma rule_phase_pair:
  "\<exists>log1. rule_phase rct rs wp ap namespace resource verb log =
     (log1, ex_res (rule_decision rct wp ap namespace resource verb) rs)"
  unfolding rule_phase_decision [of rct rs wp ap namespace resource verb log, symmetric]
  by (metis prod.collapse)

lemma CheckAccessToRule_decision:
  "snd (CheckAccessToRule rs (Inr wp) (Inr ap) namespace resource verb) =
     (case ex_res (rule_decision Deny wp ap namespace resource verb) rs of
        Inl e \<Rightarrow> Inl e
      | Inr denied \<Rightarrow>
          if denied then Inl AccessDenied
          else case ex_res (rule_decision Allow wp ap namespace resource verb) rs of
                 Inl e \<Rightarrow> Inl e
               | Inr matched \<Rightarrow> if matched then Inr () else Inl AccessDenied)"
proof -
  obtain l1 where 1: "rule_phase Deny rs wp ap namespace resource verb [] =
     (l1, ex_res (rule_decision Deny wp ap namespace resource verb) rs)"
    using rule_phase_pair by blast
  obtain l2 where 2: "rule_phase Allow rs wp ap namespace resource verb l1 =
     (l2, ex_res (rule_decision Allow wp ap namespace resource verb) rs)"
    using rule_phase_pair by blast
  show ?thesis
    by (simp add: CheckAccessToRule_def 1 2 split: sum.split)
qed

interpretation rule: deny_then_allow
  "rule_decision Deny wp ap namespace resource verb" "rule_decision Allow wp ap namespace resource verb"
  "\<lambda>rs. False" "\<lambda>rs. snd (CheckAccessToRule rs (Inr wp) (Inr ap) namespace resource verb)"
  for wp ap namespace resource verb
  by unfold_locales (rule CheckAccessToRule_decision)

text \<open>What a role's rules say, when their expressions evaluate.\<close>

definition role_rule_applies :: "role_condition_type \<Rightarrow> predicate_parser \<Rightarrow> string \<Rightarrow> string \<Rightarrow> string \<Rightarrow>
    role \<Rightarrow> bool" where
  "role_rule_applies rct wp namespace resource verb r =
     (MatchNamespace (GetNamespaces rct r) (ProcessNamespace namespace) \<and>
      (\<exists>ru\<in>set (GetRules rct r). covers resource ru \<and> rule_applies wp verb ru))"

lemma rule_decision_ok:
  "\<forall>ru\<in>set (GetRules rct r). rule_evaluates wp ap ru \<Longrightarrow>
   rule_decision rct wp ap namespace resource verb r = Inr (role_rule_applies rct wp namespace resource verb r)"
  by (simp add: rule_decision_def role_rule_applies_def RuleSet_Match_ok)

lemma CheckAccessToRule_evaluates:
  assumes "\<forall>r\<in>set rs. \<forall>ru\<in>set (GetRules Allow r) \<union> set (GetRules Deny r). rule_evaluates wp ap ru"
  shows "snd (CheckAccessToRule rs (Inr wp) (Inr ap) namespace resource verb) =
     (if (\<forall>r\<in>set rs. \<not> role_rule_applies Deny wp namespace resource verb r) \<and>
         (\<exists>r\<in>set rs. role_rule_applies Allow wp namespace resource verb r)
      then Inr () else Inl AccessDenied)"
  by (rule rule.decides_total) (use assms in \<open>auto intro!: rule_decision_ok\<close>)

end
