(* ===== verification/RoleSets.thy ===== *)
theory RoleSets
  imports Rules
begin

text \<open>
  The operations of \<open>RoleSet\<close> in \<open>lib/services/role.go\<close> beside the access checks: the
  implicit role, the limits a role set imposes, what it lets a user request for a TTL, the options
  it combines, and \<open>DowngradeRoleToV3\<close>. A Go map used as a set is the list of its keys in the
  order they were inserted; the properties speak of its elements only. A fresh UUID is an argument.
\<close>

section \<open>Role sets\<close>

definition DefaultImplicitRole :: string where
  "DefaultImplicitRole = ''default-implicit-role''"

definition RoleNop :: string where
  "RoleNop = ''Nop''"

definition RW :: "string list" where
  "RW = [''list'', ''create'', ''read'', ''update'', ''delete'']"

definition RO :: "string list" where
  "RO = [''list'', ''read'']"

definition ReadNoSecrets :: "string list" where
  "ReadNoSecrets = [''list'', ''readnosecrets'']"

definition DefaultImplicitRules :: "rule list" where
  "DefaultImplicitRules =
     [NewRule ''node'' RO, NewRule ''proxy'' RO, NewRule ''auth_server'' RO, NewRule ''tunnel'' RO,
      NewRule ''cert_authority'' ReadNoSecrets, NewRule ''cluster_auth_preference'' RO,
      NewRule ''cluster_name'' RO, NewRule ''ssh_session'' RO, NewRule ''app_server'' RO,
      NewRule ''remote_cluster'' RO, NewRule ''kube_service'' RO, NewRule ''db_server'' RO]"

definition MaxDuration :: duration where
  "MaxDuration = 2 ^ 63 - 1"

definition NewImplicitRole :: role where
  "NewImplicitRole =
     \<lparr>role_Kind = KindRole, role_SubKind = [], role_Version = V3,
      role_Metadata = (named_metadata DefaultImplicitRole)\<lparr>md_Namespace := default_namespace\<rparr>,
      role_Options = no_options\<lparr>opt_MaxSessionTTL := MaxDuration, opt_PortForwarding := Some False\<rparr>,
      role_Allow = no_conditions\<lparr>cond_Namespaces := Some [default_namespace],
                                 cond_Rules := DefaultImplicitRules\<rparr>,
      role_Deny = no_conditions\<rparr>"

definition NewRoleSet :: "role list \<Rightarrow> role list" where
  "NewRoleSet roles =
     (if length roles = 1 \<and> GetName (hd roles) = RoleNop then roles else roles @ [NewImplicitRole])"

definition FromSpec :: "string \<Rightarrow> role_options \<Rightarrow> role_conditions \<Rightarrow> role_conditions \<Rightarrow> role list result" where
  "FromSpec name opts allow deny =
     (case NewRole name opts allow deny of Inl e \<Rightarrow> Inl e | Inr r \<Rightarrow> Inr (NewRoleSet [r]))"

definition RoleNames :: "role list \<Rightarrow> string list" where
  "RoleNames rs = map GetName (filter (\<lambda>r. GetName r \<noteq> DefaultImplicitRole) rs)"

definition HasRole :: "role list \<Rightarrow> string \<Rightarrow> bool" where
  "HasRole rs name = (\<exists>r\<in>set rs. GetName r = name)"

definition WithoutImplicit :: "role list \<Rightarrow> role list" where
  "WithoutImplicit rs = filter (\<lambda>r. GetName r \<noteq> DefaultImplicitRole) rs"

section \<open>Limits\<close>

fun AdjustSessionTTL :: "role list \<Rightarrow> duration \<Rightarrow> duration" where
  "AdjustSessionTTL [] ttl = ttl"
| "AdjustSessionTTL (role1 # rest) ttl =
     (let maxSessionTTL = opt_MaxSessionTTL (GetOptions role1)
      in AdjustSessionTTL rest (if maxSessionTTL \<noteq> 0 \<and> ttl > maxSessionTTL then maxSessionTTL else ttl))"

fun smallest_loop :: "int list \<Rightarrow> int \<Rightarrow> int" where
  "smallest_loop [] mcs = mcs"
| "smallest_loop (m # rest) mcs =
     smallest_loop rest (if m \<noteq> 0 \<and> (m < mcs \<or> mcs = 0) then m else mcs)"

definition MaxConnections :: "role list \<Rightarrow> int" where
  "MaxConnections rs = smallest_loop (map (\<lambda>r. opt_MaxConnections (GetOptions r)) rs) 0"

definition MaxSessions :: "role list \<Rightarrow> int" where
  "MaxSessions rs = smallest_loop (map (\<lambda>r. opt_MaxSessions (GetOptions r)) rs) 0"

fun idle_timeout_loop :: "role list \<Rightarrow> duration \<Rightarrow> duration" where
  "idle_timeout_loop [] timeout = timeout"
| "idle_timeout_loop (role1 # rest) timeout =
     (let roleTimeout = opt_ClientIdleTimeout (GetOptions role1)
      in if roleTimeout \<le> 0 then idle_timeout_loop rest timeout
         else if timeout = 0 then idle_timeout_loop rest roleTimeout
         else if roleTimeout < timeout then idle_timeout_loop rest roleTimeout
         else idle_timeout_loop rest timeout)"

definition AdjustClientIdleTimeout :: "role list \<Rightarrow> duration \<Rightarrow> duration" where
  "AdjustClientIdleTimeout rs timeout = idle_timeout_loop rs (if timeout < 0 then 0 else timeout)"

fun AdjustDisconnectExpiredCert :: "role list \<Rightarrow> bool \<Rightarrow> bool" where
  "AdjustDisconnectExpiredCert [] disconnect = disconnect"
| "AdjustDisconnectExpiredCert (role1 # rest) disconnect =
     AdjustDisconnectExpiredCert rest
       (if opt_DisconnectExpiredCert (GetOptions role1) then True else disconnect)"

section \<open>What may be requested for a TTL\<close>

definition insert_keys :: "string list \<Rightarrow> string list \<Rightarrow> string list" where
  "insert_keys m ks = foldl (\<lambda>m k. if k \<in> set m then m else m @ [k]) m ks"

definition delete_keys :: "string list \<Rightarrow> string list \<Rightarrow> string list" where
  "delete_keys m ks = foldl (\<lambda>m k. removeAll k m) m ks"

definition ttl_in_scope :: "duration \<Rightarrow> bool \<Rightarrow> role \<Rightarrow> bool" where
  "ttl_in_scope ttl overrideTTL r =
     (let maxSessionTTL = opt_MaxSessionTTL (GetOptions r)
      in overrideTTL \<or> (ttl \<le> maxSessionTTL \<and> maxSessionTTL \<noteq> 0))"

text \<open>The values one accessor allows in the roles the TTL is in scope of, less the values it denies
  in any role.\<close>

definition requestable :: "(role_condition_type \<Rightarrow> role \<Rightarrow> string list) \<Rightarrow> role list \<Rightarrow> duration \<Rightarrow> bool \<Rightarrow>
    string list" where
  "requestable get1 rs ttl overrideTTL =
     foldl (\<lambda>m r. delete_keys m (get1 Deny r))
       (foldl (\<lambda>m r. if ttl_in_scope ttl overrideTTL r then insert_keys m (get1 Allow r) else m) [] rs) rs"

definition matched_ttl :: "role list \<Rightarrow> duration \<Rightarrow> bool \<Rightarrow> bool" where
  "matched_ttl rs ttl overrideTTL = (\<exists>r\<in>set rs. ttl_in_scope ttl overrideTTL r)"

definition CheckKubeGroupsAndUsers :: "role list \<Rightarrow> duration \<Rightarrow> bool \<Rightarrow>
    (string list \<times> string list) result" where
  "CheckKubeGroupsAndUsers rs ttl overrideTTL =
     (let groups = requestable GetKubeGroups rs ttl overrideTTL;
          users = requestable GetKubeUsers rs ttl overrideTTL
      in if \<not> matched_ttl rs ttl overrideTTL then Inl AccessDenied
         else if groups = [] \<and> users = [] then Inl NotFound
         else Inr (groups, users))"

definition CheckDatabaseNamesAndUsers :: "role list \<Rightarrow> duration \<Rightarrow> bool \<Rightarrow>
    (string list \<times> string list) result" where
  "CheckDatabaseNamesAndUsers rs ttl overrideTTL =
     (let names = requestable GetDatabaseNames rs ttl overrideTTL;
          users = requestable GetDatabaseUsers rs ttl overrideTTL
      in if \<not> matched_ttl rs ttl overrideTTL then Inl AccessDenied
         else if names = [] \<and> users = [] then Inl NotFound
         else Inr (names, users))"

definition CheckAWSRoleARNs :: "role list \<Rightarrow> duration \<Rightarrow> bool \<Rightarrow> string list result" where
  "CheckAWSRoleARNs rs ttl overrideTTL =
     (let arns = requestable GetAWSRoleARNs rs ttl overrideTTL
      in if \<not> matched_ttl rs ttl overrideTTL then Inl AccessDenied
         else if arns = [] then Inl NotFound
         else Inr arns)"

fun logins_for_ttl_loop :: "role list \<Rightarrow> duration \<Rightarrow> string list \<Rightarrow> bool \<Rightarrow> string list \<times> bool" where
  "logins_for_ttl_loop [] ttl logins matchedTTL = (logins, matchedTTL)"
| "logins_for_ttl_loop (role1 # rest) ttl logins matchedTTL =
     (let maxSessionTTL = opt_MaxSessionTTL (GetOptions role1)
      in if ttl \<le> maxSessionTTL \<and> maxSessionTTL \<noteq> 0
         then logins_for_ttl_loop rest ttl (logins @ GetLogins Allow role1) True
         else logins_for_ttl_loop rest ttl logins matchedTTL)"

definition GetLoginsForTTL :: "role list \<Rightarrow> duration \<Rightarrow> string list \<times> bool" where
  "GetLoginsForTTL rs ttl =
     (let (logins, matchedTTL) = logins_for_ttl_loop rs ttl [] False in (Deduplicate logins, matchedTTL))"

definition hasPossibleLogins :: "role list \<Rightarrow> bool" where
  "hasPossibleLogins rs =
     (\<exists>r\<in>set rs. GetName r \<noteq> DefaultImplicitRole \<and> GetLogins Allow r \<noteq> [])"

definition nologin :: "string \<Rightarrow> string" where
  "nologin uuid = ''-siriusec-nologin-'' @ uuid"

definition CheckLoginDuration :: "string \<Rightarrow> role list \<Rightarrow> duration \<Rightarrow> string list result" where
  "CheckLoginDuration uuid rs ttl =
     (let (logins, matchedTTL) = GetLoginsForTTL rs ttl
      in if \<not> matchedTTL then Inl AccessDenied
         else
           (let logins1 = (if logins = [] \<and> \<not> hasPossibleLogins rs then [nologin uuid] else logins)
            in if logins1 = [] then Inl AccessDenied else Inr logins1))"

section \<open>Combined options\<close>

definition CanImpersonateSomeone :: "role list \<Rightarrow> bool" where
  "CanImpersonateSomeone rs =
     (\<exists>r\<in>set rs. \<not> ImpersonateConditions_IsEmpty (GetImpersonateConditions Allow r))"

fun locking_mode_loop :: "role list \<Rightarrow> string \<Rightarrow> string" where
  "locking_mode_loop [] mode = mode"
| "locking_mode_loop (role1 # rest) mode =
     (let lock1 = opt_Lock (GetOptions role1)
      in if lock1 = LockingModeStrict then LockingModeStrict
         else locking_mode_loop rest (if lock1 \<noteq> [] then lock1 else mode))"

definition LockingMode :: "role list \<Rightarrow> string \<Rightarrow> string" where
  "LockingMode rs defaultMode = locking_mode_loop rs defaultMode"

definition CanForwardAgents :: "role list \<Rightarrow> bool" where
  "CanForwardAgents rs = (\<exists>r\<in>set rs. opt_ForwardAgent (GetOptions r))"

definition CanPortForward :: "role list \<Rightarrow> bool" where
  "CanPortForward rs = (\<exists>r\<in>set rs. BoolDefaultTrue (opt_PortForwarding (GetOptions r)))"

definition MaybeCanReviewRequests :: "role list \<Rightarrow> bool" where
  "MaybeCanReviewRequests rs =
     (\<exists>r\<in>set rs. \<not> AccessReviewConditions_IsZero (GetAccessReviewConditions Allow r))"

definition PermitX11Forwarding :: "role list \<Rightarrow> bool" where
  "PermitX11Forwarding rs = (\<exists>r\<in>set rs. opt_PermitX11Forwarding (GetOptions r))"

definition CertificateFormatOldSSH :: string where
  "CertificateFormatOldSSH = ''oldssh''"

definition certificatePriority :: "string \<Rightarrow> int" where
  "certificatePriority s =
     (if s = CertificateFormatOldSSH then 0 else if s = CertificateFormatStandard then 1 else 2)"

definition CertificateFormat :: "role list \<Rightarrow> string" where
  "CertificateFormat rs =
     (let formats = filter (\<lambda>f. f \<noteq> []) (map (\<lambda>r. opt_CertificateFormat (GetOptions r)) rs)
      in if formats = [] then CertificateFormatStandard else hd (sort_key certificatePriority formats))"

definition EnhancedRecordingSet :: "role list \<Rightarrow> (string \<times> bool) list" where
  "EnhancedRecordingSet rs =
     foldl (\<lambda>m r. foldl (\<lambda>m opt. AList.update opt True m) m (opt_BPF (GetOptions r))) [] rs"

definition CheckAgentForward :: "role list \<Rightarrow> string \<Rightarrow> unit result" where
  "CheckAgentForward rs login =
     (if \<exists>r\<in>set rs. \<exists>l\<in>set (GetLogins Allow r). opt_ForwardAgent (GetOptions r) \<and> l = login
      then Inr () else Inl AccessDenied)"

section \<open>Downgrade to V3\<close>

definition no_labels_key :: string where
  "no_labels_key = ''__siriusec_no_labels''"

definition placeholder :: "string \<Rightarrow> labels option \<Rightarrow> labels option" where
  "placeholder labelVal ls = (if elems ls = [] then Some [(no_labels_key, [labelVal])] else ls)"

definition DowngradeRoleToV3 :: "string \<Rightarrow> role \<Rightarrow> role result" where
  "DowngradeRoleToV3 uuid r =
     (if role_Version r = V3 then Inr r
      else if role_Version r = V4 then
        Inr (r\<lparr>role_Version := V3,
               role_Allow := (role_Allow r)
                 \<lparr>cond_NodeLabels := placeholder uuid (cond_NodeLabels (role_Allow r)),
                  cond_AppLabels := placeholder uuid (cond_AppLabels (role_Allow r)),
                  cond_KubernetesLabels := placeholder uuid (cond_KubernetesLabels (role_Allow r)),
                  cond_DatabaseLabels := placeholder uuid (cond_DatabaseLabels (role_Allow r))\<rparr>\<rparr>)
      else Inl BadParameter)"

section \<open>Limits are the strictest of the set\<close>

text \<open>The least non-zero member, zero (no limit) when there is none.\<close>

definition strictest :: "int set \<Rightarrow> int" where
  "strictest S = (if S - {0} = {} then 0 else Min (S - {0}))"

lemma strictest_insert:
  assumes "finite S" "m \<noteq> 0"
  shows "strictest (insert m S) = (if strictest S = 0 \<or> m < strictest S then m else strictest S)"
proof (cases "S - {0} = {}")
  case True
  then have "insert m S - {0} = {m}" using assms by auto
  then show ?thesis using True by (simp add: strictest_def)
next
  case False
  then have "Min (S - {0}) \<in> S - {0}" using assms(1) by (intro Min_in) auto
  then have nz: "Min (S - {0}) \<noteq> 0" by simp
  have "insert m S - {0} = insert m (S - {0})" using assms(2) by auto
  then have "strictest (insert m S) = min m (Min (S - {0}))"
    using False assms(1) by (simp add: strictest_def)
  moreover have "strictest S = Min (S - {0})" using False by (simp add: strictest_def)
  ultimately show ?thesis using nz by (simp add: min_def)
qed

lemma strictest_zero [simp]: "strictest (insert 0 S) = strictest S" "strictest {} = 0"
  by (simp_all add: strictest_def)

lemma smallest_loop_strictest:
  "smallest_loop ms mcs = strictest (insert mcs (set ms))"
proof (induction ms arbitrary: mcs)
  case Nil
  then show ?case by (cases "mcs = 0") (simp_all add: strictest_insert)
next
  case (Cons m ms)
  show ?case
  proof (cases "m = 0")
    case True
    with Cons show ?thesis by (simp add: insert_commute)
  next
    case m: False
    show ?thesis
    proof (cases "mcs = 0")
      case True
      with Cons m show ?thesis by simp
    next
      case False
      with Cons m show ?thesis by (auto simp: strictest_insert insert_commute [of mcs m])
    qed
  qed
qed

lemma strictest_cases:
  assumes "finite S"
  shows "strictest S = 0 \<and> S - {0} = {} \<or>
     strictest S \<in> S - {0} \<and> (\<forall>m\<in>S - {0}. strictest S \<le> m)"
proof (cases "S - {0} = {}")
  case False
  then have "Min (S - {0}) \<in> S - {0}" using assms by (intro Min_in) simp_all
  moreover have "\<forall>m\<in>S - {0}. Min (S - {0}) \<le> m" using assms by simp
  moreover have "strictest S = Min (S - {0})" using False by (simp add: strictest_def)
  ultimately show ?thesis by simp
qed (simp add: strictest_def)

lemma MaxConnections_strictest:
  "MaxConnections rs = strictest ((\<lambda>r. opt_MaxConnections (GetOptions r)) ` set rs)"
  by (simp add: MaxConnections_def smallest_loop_strictest)

lemma MaxSessions_strictest:
  "MaxSessions rs = strictest ((\<lambda>r. opt_MaxSessions (GetOptions r)) ` set rs)"
  by (simp add: MaxSessions_def smallest_loop_strictest)

lemma Min_insert_two:
  "finite S \<Longrightarrow> Min (insert a (insert b S)) = Min (insert (min a b) (S :: int set))"
  by (cases "S = {}") (simp_all add: min.assoc)

lemma AdjustSessionTTL_Min:
  "AdjustSessionTTL rs ttl =
     Min (insert ttl ((\<lambda>r. opt_MaxSessionTTL (GetOptions r)) ` set rs - {0}))"
proof (induction rs arbitrary: ttl)
  case (Cons r rs)
  let ?m = "opt_MaxSessionTTL (GetOptions r)" and ?S = "(\<lambda>r. opt_MaxSessionTTL (GetOptions r)) ` set rs - {0}"
  show ?case
  proof (cases "?m = 0")
    case True
    with Cons show ?thesis by simp
  next
    case False
    then have "insert ?m ((\<lambda>r. opt_MaxSessionTTL (GetOptions r)) ` set rs) - {0} = insert ?m ?S" by auto
    moreover have "Min (insert ttl (insert ?m ?S)) = Min (insert (min ttl ?m) ?S)"
      by (rule Min_insert_two) simp
    ultimately show ?thesis using Cons False by (simp add: min_def)
  qed
qed simp

definition idle_limits :: "role list \<Rightarrow> int set" where
  "idle_limits rs = {t. 0 < t \<and> (\<exists>r\<in>set rs. t = opt_ClientIdleTimeout (GetOptions r))}"

lemma idle_limits_simps:
  "idle_limits [] = {}"
  "idle_limits (r # rs) = (if opt_ClientIdleTimeout (GetOptions r) \<le> 0 then idle_limits rs
     else insert (opt_ClientIdleTimeout (GetOptions r)) (idle_limits rs))"
  by (auto simp: idle_limits_def)

lemma finite_idle_limits: "finite (idle_limits rs)"
  by (induction rs) (simp_all add: idle_limits_simps)

lemma idle_timeout_loop_strictest:
  "idle_timeout_loop rs t = strictest (insert t (idle_limits rs))"
proof (induction rs arbitrary: t)
  case Nil
  then show ?case by (cases "t = 0") (simp_all add: strictest_insert idle_limits_simps)
next
  case (Cons r rs)
  let ?m = "opt_ClientIdleTimeout (GetOptions r)"
  show ?case
  proof (cases "?m \<le> 0")
    case True
    with Cons show ?thesis by (simp add: idle_limits_simps)
  next
    case m: False
    show ?thesis
    proof (cases "t = 0")
      case True
      with Cons m show ?thesis by (simp add: idle_limits_simps)
    next
      case False
      with Cons m show ?thesis
        by (auto simp: strictest_insert finite_idle_limits idle_limits_simps insert_commute [of t ?m] Let_def)
    qed
  qed
qed

lemma AdjustDisconnectExpiredCert_iff:
  "AdjustDisconnectExpiredCert rs d \<longleftrightarrow> d \<or> (\<exists>r\<in>set rs. opt_DisconnectExpiredCert (GetOptions r))"
  by (induction rs arbitrary: d) auto

section \<open>What a TTL lets a user request\<close>

lemma set_insert_keys [simp]: "set (insert_keys m ks) = set m \<union> set ks"
  unfolding insert_keys_def by (induction ks arbitrary: m) auto

lemma set_delete_keys [simp]: "set (delete_keys m ks) = set m - set ks"
  unfolding delete_keys_def by (induction ks arbitrary: m) auto

lemma set_requestable:
  "set (requestable get1 rs ttl overrideTTL) =
     (\<Union>r\<in>{r \<in> set rs. ttl_in_scope ttl overrideTTL r}. set (get1 Allow r)) -
     (\<Union>r\<in>set rs. set (get1 Deny r))"
proof -
  have "set (foldl (\<lambda>m r. if ttl_in_scope ttl overrideTTL r then insert_keys m (get1 Allow r) else m) m rs) =
      set m \<union> (\<Union>r\<in>{r \<in> set rs. ttl_in_scope ttl overrideTTL r}. set (get1 Allow r))" for m
    by (induction rs arbitrary: m) auto
  moreover have "set (foldl (\<lambda>m r. delete_keys m (get1 Deny r)) m rs) =
      set m - (\<Union>r\<in>set rs. set (get1 Deny r))" for m
    by (induction rs arbitrary: m) auto
  ultimately show ?thesis by (simp add: requestable_def)
qed

lemma logins_for_ttl_loop_eq:
  "logins_for_ttl_loop rs ttl logins m =
     (logins @ concat (map (GetLogins Allow) (filter (ttl_in_scope ttl False) rs)),
      m \<or> (\<exists>r\<in>set rs. ttl_in_scope ttl False r))"
  by (induction rs arbitrary: logins m) (auto simp: ttl_in_scope_def Let_def)

lemma GetLoginsForTTL_eq:
  "GetLoginsForTTL rs ttl =
     (Deduplicate (concat (map (GetLogins Allow) (filter (ttl_in_scope ttl False) rs))),
      matched_ttl rs ttl False)"
  by (simp add: GetLoginsForTTL_def logins_for_ttl_loop_eq matched_ttl_def)

lemma CheckLoginDuration_cases:
  "CheckLoginDuration uuid rs ttl =
     (let logins = Deduplicate (concat (map (GetLogins Allow) (filter (ttl_in_scope ttl False) rs)))
      in if \<not> matched_ttl rs ttl False then Inl AccessDenied
         else if logins \<noteq> [] then Inr logins
         else if hasPossibleLogins rs then Inl AccessDenied
         else Inr [nologin uuid])"
  unfolding CheckLoginDuration_def GetLoginsForTTL_eq Let_def
  by (simp del: Deduplicate_eq_Nil)

section \<open>Combined options\<close>

lemma locking_mode_strict_iff:
  "locking_mode_loop rs mode = LockingModeStrict \<longleftrightarrow>
     (\<exists>r\<in>set rs. opt_Lock (GetOptions r) = LockingModeStrict) \<or>
     (mode = LockingModeStrict \<and> (\<forall>r\<in>set rs. opt_Lock (GetOptions r) = []))"
  by (induction rs arbitrary: mode) (auto simp: Let_def LockingModeStrict_def)

lemma CertificateFormat_least:
  assumes "r \<in> set rs" "opt_CertificateFormat (GetOptions r) \<noteq> []"
  shows "certificatePriority (CertificateFormat rs) \<le> certificatePriority (opt_CertificateFormat (GetOptions r))"
proof -
  define fs where "fs = filter (\<lambda>f. f \<noteq> []) (map (\<lambda>r. opt_CertificateFormat (GetOptions r)) rs)"
  have f: "opt_CertificateFormat (GetOptions r) \<in> set fs" using assms by (auto simp: fs_def)
  then obtain g gs where g: "sort_key certificatePriority fs = g # gs"
    by (metis list.exhaust list.set_cases list.simps(15) set_sort empty_iff list.set(1))
  have "sorted (map certificatePriority (g # gs))" by (metis g sorted_sort_key)
  moreover have "opt_CertificateFormat (GetOptions r) \<in> set (g # gs)" using f by (metis g set_sort)
  ultimately have "certificatePriority g \<le> certificatePriority (opt_CertificateFormat (GetOptions r))"
    by auto
  moreover have "fs \<noteq> []" using f by auto
  ultimately show ?thesis by (simp add: CertificateFormat_def fs_def [symmetric] g)
qed

lemma CertificateFormat_from:
  "CertificateFormat rs = CertificateFormatStandard \<or>
     (\<exists>r\<in>set rs. CertificateFormat rs = opt_CertificateFormat (GetOptions r))"
proof -
  define fs where "fs = filter (\<lambda>f. f \<noteq> []) (map (\<lambda>r. opt_CertificateFormat (GetOptions r)) rs)"
  have "hd (sort_key certificatePriority fs) \<in> set fs" if "fs \<noteq> []"
    using that by (metis hd_in_set set_sort set_empty)
  then show ?thesis by (auto simp: CertificateFormat_def Let_def fs_def [symmetric]) (auto simp: fs_def)
qed

lemma EnhancedRecordingSet_iff:
  "map_of (EnhancedRecordingSet rs) ev = (if \<exists>r\<in>set rs. ev \<in> set (opt_BPF (GetOptions r)) then Some True else None)"
proof -
  have 1: "map_of (foldl (\<lambda>m opt. AList.update opt True m) m opts) ev =
      (if ev \<in> set opts then Some True else map_of m ev)" for m opts
    by (induction opts arbitrary: m) (auto simp: update_conv')
  have "map_of (foldl (\<lambda>m r. foldl (\<lambda>m opt. AList.update opt True m) m (opt_BPF (GetOptions r))) m rs) ev =
      (if \<exists>r\<in>set rs. ev \<in> set (opt_BPF (GetOptions r)) then Some True else map_of m ev)" for m
    by (induction rs arbitrary: m) (auto simp: 1)
  then show ?thesis by (simp add: EnhancedRecordingSet_def)
qed

section \<open>A downgraded role grants no more\<close>

text \<open>A selector of the placeholder matches no target without its key, as the empty selector does.\<close>

lemma MatchLabels_placeholder:
  "map_of target no_labels_key = None \<Longrightarrow>
     MatchLabels (elems (placeholder labelVal ls)) target = MatchLabels (elems ls) target"
  by (simp add: placeholder_def MatchLabels_def no_labels_key_def Wildcard_def Let_def)

lemma placeholder_Some: "placeholder labelVal ls = None \<Longrightarrow> False"
  by (cases ls) (auto simp: placeholder_def split: if_splits)

lemma default_labels_v3_id:
  "cond_NodeLabels a = Some w \<Longrightarrow> cond_AppLabels a = Some x \<Longrightarrow> cond_KubernetesLabels a = Some y \<Longrightarrow>
   cond_DatabaseLabels a = Some z \<Longrightarrow> default_labels_v3 a = a"
  by (simp add: default_labels_v3_def Let_def)

lemma CheckAndSetDefaults_allow:
  assumes "CheckAndSetDefaults r = Inr r'"
  shows "role_Allow r' = (if role_Version r = V4 then default_namespaces (role_Allow r)
                          else default_labels_v3 (default_namespaces (role_Allow r)))"
    "role_Deny r' = default_namespaces (role_Deny r)"
  using assms by (auto simp: CheckAndSetDefaults_Inr_iff fix_session_ttl_def set_defaults_def Let_def V3_def V4_def)

lemma default_namespaces_labels [simp]:
  "cond_NodeLabels (default_namespaces a) = cond_NodeLabels a"
  "cond_AppLabels (default_namespaces a) = cond_AppLabels a"
  "cond_KubernetesLabels (default_namespaces a) = cond_KubernetesLabels a"
  "cond_DatabaseLabels (default_namespaces a) = cond_DatabaseLabels a"
  by (simp_all add: default_namespaces_def)

lemma downgrade_labels:
  assumes "role_Version r = V4" "DowngradeRoleToV3 uuid r = Inr d" "CheckAndSetDefaults d = Inr d'"
  shows "GetNodeLabels Allow d' = placeholder uuid (GetNodeLabels Allow r)"
    "GetAppLabels Allow d' = placeholder uuid (GetAppLabels Allow r)"
    "GetKubernetesLabels Allow d' = placeholder uuid (GetKubernetesLabels Allow r)"
    "GetDatabaseLabels Allow d' = placeholder uuid (GetDatabaseLabels Allow r)"
proof -
  let ?a = "role_Allow r" and ?da = "default_namespaces (role_Allow d)"
  have v: "V4 \<noteq> V3" by (simp add: V3_def V4_def)
  have d: "role_Version d = V3" "cond_NodeLabels ?da = placeholder uuid (cond_NodeLabels ?a)"
    "cond_AppLabels ?da = placeholder uuid (cond_AppLabels ?a)"
    "cond_KubernetesLabels ?da = placeholder uuid (cond_KubernetesLabels ?a)"
    "cond_DatabaseLabels ?da = placeholder uuid (cond_DatabaseLabels ?a)"
    using assms(1,2) v by (auto simp: DowngradeRoleToV3_def)
  obtain w x y z where "placeholder uuid (cond_NodeLabels ?a) = Some w"
    "placeholder uuid (cond_AppLabels ?a) = Some x"
    "placeholder uuid (cond_KubernetesLabels ?a) = Some y"
    "placeholder uuid (cond_DatabaseLabels ?a) = Some z"
    using placeholder_Some by (metis option.exhaust)
  then have "default_labels_v3 ?da = ?da" using d by (intro default_labels_v3_id) simp_all
  then have "role_Allow d' = ?da"
    using CheckAndSetDefaults_allow(1) [OF assms(3)] d(1) v by simp
  then show "GetNodeLabels Allow d' = placeholder uuid (GetNodeLabels Allow r)"
    "GetAppLabels Allow d' = placeholder uuid (GetAppLabels Allow r)"
    "GetKubernetesLabels Allow d' = placeholder uuid (GetKubernetesLabels Allow r)"
    "GetDatabaseLabels Allow d' = placeholder uuid (GetDatabaseLabels Allow r)"
    using d by (simp_all add: GetNodeLabels_def GetAppLabels_def GetKubernetesLabels_def GetDatabaseLabels_def)
qed

end
