(* ===== verification/Go_Expr.thy ===== *)
theory Go_Expr
  imports Regexp
begin

text \<open>
  What \<open>lib/utils/parse/parse.go\<close> uses of Go's \<open>go/parser\<close> and \<open>strconv\<close>:
  \<open>ParseExpr\<close> on primary expressions (identifiers, decimal and string literals, parentheses,
  selectors, indices and calls) and \<open>Unquote\<close> of string literals. An expression of any other
  form is reported as not parsing; where Go parses it (an operator, a slice, a conversion, a comment, a
  call with an ellipsis), \<open>walk\<close> refuses its node, except that it looks through the ellipsis. Strings are
  ASCII, so an escape that denotes a larger rune is refused.
\<close>

section \<open>Syntax trees and tokens\<close>

datatype go_expr =
    Ident string
  | IntLit string
  | StringLit string
  | ParenExpr go_expr
  | SelectorExpr go_expr string
  | IndexExpr go_expr go_expr
  | CallExpr go_expr "go_expr list"

datatype token = TIdent string | TInt string | TString string | TPunct char | TSemi

definition is_letter :: "char \<Rightarrow> bool" where
  "is_letter c = (c = CHR ''_'' \<or> (is_alnum c \<and> \<not> is_digit c))"

definition go_keywords :: "string list" where
  "go_keywords = [''break'', ''case'', ''chan'', ''const'', ''continue'', ''default'', ''defer'',
     ''else'', ''fallthrough'', ''for'', ''func'', ''go'', ''goto'', ''if'', ''import'',
     ''interface'', ''map'', ''package'', ''range'', ''return'', ''select'', ''struct'', ''switch'',
     ''type'', ''var'']"

definition quote :: char where
  "quote = CHR 0x22"

definition backquote :: char where
  "backquote = CHR 0x60"

text \<open>The escapes of a double-quoted literal: the character and the rest after it.\<close>

definition unescape :: "string \<Rightarrow> (char \<times> string) option" where
  "unescape s =
     (case s of
        [] \<Rightarrow> None
      | c # t \<Rightarrow>
          if c = CHR ''a'' then Some (CHR 0x07, t)
          else if c = CHR ''b'' then Some (CHR 0x08, t)
          else if c = CHR ''f'' then Some (CHR 0x0C, t)
          else if c = CHR ''n'' then Some (CHR 0x0A, t)
          else if c = CHR ''r'' then Some (CHR 0x0D, t)
          else if c = CHR ''t'' then Some (CHR 0x09, t)
          else if c = CHR ''v'' then Some (CHR 0x0B, t)
          else if c = CHR 0x5C \<or> c = quote then Some (c, t)
          else if c = CHR ''x'' then
            (case t of
               h1 # h2 # u \<Rightarrow>
                 (case (hex_val h1, hex_val h2) of
                    (Some a, Some b) \<Rightarrow> if 16 * a + b < 128 then Some (char_of (16 * a + b), u) else None
                  | _ \<Rightarrow> None)
             | _ \<Rightarrow> None)
          else if is_octal c then
            (case t of
               d1 # d2 # u \<Rightarrow>
                 if is_octal d1 \<and> is_octal d2 then
                   (let v = 64 * (ccode c - 48) + 8 * (ccode d1 - 48) + (ccode d2 - 48)
                    in if v < 128 then Some (char_of v, u) else None)
                 else None
             | _ \<Rightarrow> None)
          else if c = CHR ''u'' then
            (case t of
               h1 # h2 # h3 # h4 # u \<Rightarrow>
                 (case (hex_val h1, hex_val h2, hex_val h3, hex_val h4) of
                    (Some 0, Some 0, Some a, Some b) \<Rightarrow>
                      if 16 * a + b < 128 then Some (char_of (16 * a + b), u) else None
                  | _ \<Rightarrow> None)
             | _ \<Rightarrow> None)
          else None)"

text \<open>A string literal after its opening quote: its unquoted value and the rest.\<close>

function scan_string :: "string \<Rightarrow> (string \<times> string) option" where
  "scan_string [] = None"
| "scan_string (c # s) =
     (if c = quote then Some ([], s)
      else if c = CHR 0x0A then None
      else if c = CHR 0x5C then
        (case unescape s of
           None \<Rightarrow> None
         | Some (d, t) \<Rightarrow>
             if length t < length s
             then (case scan_string t of None \<Rightarrow> None | Some (v, r) \<Rightarrow> Some (d # v, r)) else None)
      else (case scan_string s of None \<Rightarrow> None | Some (v, r) \<Rightarrow> Some (c # v, r)))"
  by pat_completeness auto
termination
  by (relation "measure length") auto

fun scan_raw :: "string \<Rightarrow> (string \<times> string) option" where
  "scan_raw [] = None"
| "scan_raw (c # s) =
     (if c = backquote then Some ([], s)
      else case scan_raw s of
             None \<Rightarrow> None
           | Some (v, r) \<Rightarrow> Some (if c = CHR 0x0D then v else c # v, r))"

text \<open>The tokens; a newline after a token that can end an expression is a semicolon.\<close>

definition can_end :: "token list \<Rightarrow> bool" where
  "can_end prev =
     (case prev of
        [] \<Rightarrow> False
      | t # _ \<Rightarrow>
          (case t of
             TPunct c \<Rightarrow> c = CHR '')'' \<or> c = CHR '']''
           | TSemi \<Rightarrow> False
           | _ \<Rightarrow> True))"

definition scan_literal :: "token list \<Rightarrow> char \<Rightarrow> string \<Rightarrow> (token \<times> string) option" where
  "scan_literal prev c s =
     (if is_letter c then
        (let n = c # takeWhile (\<lambda>d. is_letter d \<or> is_digit d) s
         in if n \<in> set go_keywords then None
            else Some (TIdent n, dropWhile (\<lambda>d. is_letter d \<or> is_digit d) s))
      else if is_digit c then
        (let n = c # takeWhile is_digit s; r = dropWhile is_digit s
         in if (c = CHR ''0'' \<and> length n > 1) \<or> (r \<noteq> [] \<and> (is_letter (hd r) \<or> hd r = CHR ''.''))
            then None else Some (TInt n, r))
      else if c = quote then map_option (\<lambda>(v, r). (TString v, r)) (scan_string s)
      else if c = backquote then map_option (\<lambda>(v, r). (TString v, r)) (scan_raw s)
      else if c \<in> set ''()[],'' then Some (TPunct c, s)
      else if c = CHR ''.'' \<and> \<not> (s \<noteq> [] \<and> is_digit (hd s)) then Some (TPunct c, s)
      else None)"

function scan_tokens :: "token list \<Rightarrow> string \<Rightarrow> token list option" where
  "scan_tokens prev [] = Some (rev prev)"
| "scan_tokens prev (c # s) =
     (if c = CHR 0x0A then scan_tokens (if can_end prev then TSemi # prev else prev) s
      else if c = CHR '' '' \<or> c = CHR 0x09 \<or> c = CHR 0x0D then scan_tokens prev s
      else case scan_literal prev c s of
             None \<Rightarrow> None
           | Some (t, r) \<Rightarrow> if length r \<le> length s then scan_tokens (t # prev) r else None)"
  by pat_completeness auto
termination
  by (relation "measure (\<lambda>(prev, s). length s)") auto

section \<open>Parsing\<close>

text \<open>Every call consumes a token, except that an argument list starts an expression, so twice the
  number of tokens is fuel enough.\<close>

fun p_expr :: "nat \<Rightarrow> token list \<Rightarrow> (go_expr \<times> token list) option"
and p_suffix :: "nat \<Rightarrow> go_expr \<Rightarrow> token list \<Rightarrow> (go_expr \<times> token list) option"
and p_args :: "nat \<Rightarrow> token list \<Rightarrow> (go_expr list \<times> token list) option" where
  "p_expr 0 ts = None"
| "p_expr (Suc n) ts =
     (case ts of
        TIdent x # r \<Rightarrow> p_suffix n (Ident x) r
      | TInt x # r \<Rightarrow> p_suffix n (IntLit x) r
      | TString x # r \<Rightarrow> p_suffix n (StringLit x) r
      | TPunct c # r \<Rightarrow>
          if c = CHR ''('' then
            (case p_expr n r of
               Some (e, TPunct d # r') \<Rightarrow>
                 if d = CHR '')'' then p_suffix n (ParenExpr e) r' else None
             | _ \<Rightarrow> None)
          else None
      | _ \<Rightarrow> None)"
| "p_suffix 0 e ts = None"
| "p_suffix (Suc n) e ts =
     (case ts of
        TPunct c # r \<Rightarrow>
          if c = CHR ''.'' then
            (case r of TIdent x # r' \<Rightarrow> p_suffix n (SelectorExpr e x) r' | _ \<Rightarrow> None)
          else if c = CHR ''['' then
            (case p_expr n r of
               Some (i, TPunct d # r') \<Rightarrow>
                 if d = CHR '']'' then p_suffix n (IndexExpr e i) r' else None
             | _ \<Rightarrow> None)
          else if c = CHR ''('' then
            (case p_args n r of
               Some (as, r') \<Rightarrow> p_suffix n (CallExpr e as) r'
             | None \<Rightarrow> None)
          else Some (e, ts)
      | _ \<Rightarrow> Some (e, ts))"
| "p_args 0 ts = None"
| "p_args (Suc n) ts =
     (case ts of
        TPunct c # r \<Rightarrow>
          if c = CHR '')'' then Some ([], r)
          else
            (case p_expr n ts of
               Some (e, TPunct d # r') \<Rightarrow>
                 if d = CHR '')'' then Some ([e], r')
                 else if d = CHR '','' then map_option (\<lambda>(es, r''). (e # es, r'')) (p_args n r')
                 else None
             | _ \<Rightarrow> None)
      | _ \<Rightarrow>
          (case p_expr n ts of
             Some (e, TPunct d # r') \<Rightarrow>
               if d = CHR '')'' then Some ([e], r')
               else if d = CHR '','' then map_option (\<lambda>(es, r''). (e # es, r'')) (p_args n r')
               else None
           | _ \<Rightarrow> None))"

definition ParseExpr :: "string \<Rightarrow> go_expr option" where
  "ParseExpr s =
     (case scan_tokens [] s of
        None \<Rightarrow> None
      | Some ts \<Rightarrow>
          (case p_expr (2 * length ts + 2) ts of
             Some (e, []) \<Rightarrow> Some e
           | Some (e, [TSemi]) \<Rightarrow> Some e
           | _ \<Rightarrow> None))"

end
