(* ===== verification/Expression.thy ===== *)
theory Expression
  imports RoleSets Go_Expr
begin

text \<open>
  \<open>lib/utils/parse/parse.go\<close>: the templates \<open>{{namespace.variable}}\<close> of a role
  (\<open>NewExpression\<close>, \<open>Interpolate\<close>) and the matchers of impersonation and of access requests
  (\<open>NewMatcher\<close>, \<open>NewAnyMatcher\<close>). The address parser of \<open>net/mail\<close> is the argument
  \<open>parse_address\<close>: the address of a mailbox, or an error.
\<close>

section \<open>Data\<close>

datatype transformer =
    EmailLocalTransformer
  | RegexpReplaceTransformer compiled string

record expression =
  ex_namespace :: string
  ex_variable :: string
  ex_prefix :: string
  ex_suffix :: string
  ex_transform :: "transformer option"

text \<open>A \<open>Matcher\<close> value; the inner matcher of \<open>prefixSuffixMatcher\<close> may be nil.\<close>

datatype matcher =
    RegexpMatcher compiled
  | NotMatcher matcher
  | PrefixSuffixMatcher string string "matcher option"
  | AnyMatcher "matcher list"
  | LiteralMatcher string

record walk_result =
  wr_parts :: "string list"
  wr_transform :: "transformer option"
  wr_match :: "matcher option"

definition no_result :: walk_result where
  "no_result = \<lparr>wr_parts = [], wr_transform = None, wr_match = None\<rparr>"

definition LiteralNamespace :: string where
  "LiteralNamespace = ''literal''"

definition EmailNamespace :: string where
  "EmailNamespace = ''email''"

definition RegexpNamespace :: string where
  "RegexpNamespace = ''regexp''"

section \<open>Matching\<close>

text \<open>\<open>None\<close> is the panic of a call on a nil matcher.\<close>

fun Match :: "matcher \<Rightarrow> string \<Rightarrow> bool option"
and match_any :: "matcher list \<Rightarrow> string \<Rightarrow> bool option" where
  "Match (RegexpMatcher re) inp = Some (MatchString (re_prog re) inp)"
| "Match (NotMatcher m) inp = map_option Not (Match m inp)"
| "Match (PrefixSuffixMatcher prefix suffix m) inp =
     (if \<not> has_prefix inp prefix \<or> \<not> has_suffix inp suffix then Some False
      else case m of
             None \<Rightarrow> None
           | Some m1 \<Rightarrow> Match m1 (trim_suffix (trim_prefix inp prefix) suffix))"
| "Match (AnyMatcher ms) inp = match_any ms inp"
| "Match (LiteralMatcher v) inp = Some (v = inp)"
| "match_any [] inp = Some False"
| "match_any (m # ms) inp =
     (case Match m inp of
        None \<Rightarrow> None
      | Some b \<Rightarrow> if b then Some True else match_any ms inp)"

section \<open>Walking a syntax tree\<close>

definition newRegexpMatcher :: "string \<Rightarrow> bool \<Rightarrow> matcher result" where
  "newRegexpMatcher raw escape =
     (case compile_regexp (if escape then anchored raw else raw) of
        Inl e \<Rightarrow> Inl BadParameter
      | Inr re \<Rightarrow> Inr (RegexpMatcher re))"

definition newRegexpReplaceTransformer :: "string \<Rightarrow> string \<Rightarrow> transformer result" where
  "newRegexpReplaceTransformer expression1 replacement =
     (case compile_regexp expression1 of
        Inl e \<Rightarrow> Inl BadParameter
      | Inr re \<Rightarrow> Inr (RegexpReplaceTransformer re replacement))"

definition getBasicString :: "go_expr \<Rightarrow> string option" where
  "getBasicString arg = (case arg of StringLit s \<Rightarrow> Some s | _ \<Rightarrow> None)"

definition maxASTDepth :: nat where
  "maxASTDepth = 1000"

lemma size_hd_args: "args \<noteq> [] \<Longrightarrow> size (hd args) < Suc (Suc (size_list size (args :: go_expr list)))"
  by (cases args) auto

function walk :: "go_expr \<Rightarrow> nat \<Rightarrow> walk_result result" where
  "walk (Ident name) depth =
     (if depth > maxASTDepth then Inl LimitExceeded else Inr (no_result\<lparr>wr_parts := [name]\<rparr>))"
| "walk (IntLit v) depth =
     (if depth > maxASTDepth then Inl LimitExceeded else Inr (no_result\<lparr>wr_parts := [v]\<rparr>))"
| "walk (StringLit v) depth =
     (if depth > maxASTDepth then Inl LimitExceeded else Inr (no_result\<lparr>wr_parts := [v]\<rparr>))"
| "walk (ParenExpr e) depth =
     (if depth > maxASTDepth then Inl LimitExceeded else Inl BadParameter)"
| "walk (SelectorExpr x sel) depth =
     (if depth > maxASTDepth then Inl LimitExceeded
      else case walk x (depth + 1) of
             Inl e \<Rightarrow> Inl e
           | Inr ret \<Rightarrow>
               (case walk (Ident sel) (depth + 1) of
                  Inl e \<Rightarrow> Inl e
                | Inr ret2 \<Rightarrow> Inr (no_result\<lparr>wr_parts := wr_parts ret @ wr_parts ret2\<rparr>)))"
| "walk (IndexExpr x i) depth =
     (if depth > maxASTDepth then Inl LimitExceeded
      else case walk x (depth + 1) of
             Inl e \<Rightarrow> Inl e
           | Inr ret \<Rightarrow>
               (case walk i (depth + 1) of
                  Inl e \<Rightarrow> Inl e
                | Inr ret2 \<Rightarrow> Inr (no_result\<lparr>wr_parts := wr_parts ret @ wr_parts ret2\<rparr>)))"
| "walk (CallExpr f args) depth =
     (if depth > maxASTDepth then Inl LimitExceeded
      else case f of
        SelectorExpr (Ident namespace) fn \<Rightarrow>
          if namespace = EmailNamespace then
            (if fn \<noteq> ''local'' then Inl BadParameter
             else if length args \<noteq> 1 then Inl BadParameter
             else case walk (hd args) (depth + 1) of
                    Inl e \<Rightarrow> Inl e
                  | Inr ret \<Rightarrow>
                      Inr (no_result\<lparr>wr_transform := Some EmailLocalTransformer,
                                     wr_parts := wr_parts ret\<rparr>))
          else if namespace = RegexpNamespace then
            (if fn = ''match'' \<or> fn = ''not_match'' then
               (if length args \<noteq> 1 then Inl BadParameter
                else case getBasicString (hd args) of
                       None \<Rightarrow> Inl BadParameter
                     | Some re \<Rightarrow>
                         (case newRegexpMatcher re False of
                            Inl e \<Rightarrow> Inl e
                          | Inr m \<Rightarrow>
                              Inr (no_result\<lparr>wr_match := Some (if fn = ''not_match'' then NotMatcher m else m)\<rparr>)))
             else if fn = ''replace'' then
               (if length args \<noteq> 3 then Inl BadParameter
                else case walk (hd args) (depth + 1) of
                       Inl e \<Rightarrow> Inl e
                     | Inr ret \<Rightarrow>
                         (case getBasicString (args ! 1) of
                            None \<Rightarrow> Inl BadParameter
                          | Some expression1 \<Rightarrow>
                              (case getBasicString (args ! 2) of
                                 None \<Rightarrow> Inl BadParameter
                               | Some replacement \<Rightarrow>
                                   (case newRegexpReplaceTransformer expression1 replacement of
                                      Inl e \<Rightarrow> Inl e
                                    | Inr tr \<Rightarrow>
                                        Inr (no_result\<lparr>wr_parts := wr_parts ret, wr_transform := Some tr\<rparr>)))))
             else Inl BadParameter)
          else Inl BadParameter
      | _ \<Rightarrow> Inl BadParameter)"
  by pat_completeness auto
termination
  by (relation "measure (\<lambda>(e, d). size e)") (auto intro!: size_hd_args)

section \<open>Templates\<close>

text \<open>The package variable \<open>reVariable\<close>: prefix, expression in double braces, suffix, none of
  them with a brace.\<close>

definition reVariable_source :: string where
  "reVariable_source =
     ''^(?P<prefix>[^}{]*)'' @ ''{{(?P<expression>'' @ [CHR 0x5C] @ ''s*[^}{]*'' @ [CHR 0x5C] @ ''s*)}}'' @
     ''(?P<suffix>[^}{]*)$''"

definition no_brace :: regex where
  "no_brace = RSet False True [(False, [(125, 125)]), (False, [(123, 123)])]"

definition space_class :: regex where
  "space_class = RSet False False [(False, [(9, 10), (12, 13), (32, 32)])]"

definition reVariable :: compiled where
  "reVariable =
     \<lparr>re_prog = cat_list [RBeginText, RGroup 1 (cat_list [RStar True no_brace]),
        RLit False CHR ''{'', RLit False CHR ''{'',
        RGroup 2 (cat_list [RStar True space_class, RStar True no_brace, RStar True space_class]),
        RLit False CHR ''}'', RLit False CHR ''}'',
        RGroup 3 (cat_list [RStar True no_brace]), REndText],
      re_names = [(''suffix'', 3), (''expression'', 2), (''prefix'', 1)]\<rparr>"

text \<open>The three submatches, when the template matches.\<close>

definition template_match :: "string \<Rightarrow> (string \<times> string \<times> string) option" where
  "template_match s =
     (case find_from (re_prog reVariable) None s of
        None \<Rightarrow> None
      | Some (skip, whole, cs, pv, rest) \<Rightarrow> Some (capture 1 whole cs, capture 2 whole cs, capture 3 whole cs))"

definition is_space :: "char \<Rightarrow> bool" where
  "is_space c = (c = CHR '' '' \<or> (9 \<le> ccode c \<and> ccode c \<le> 13))"

definition trim_left :: "string \<Rightarrow> string" where
  "trim_left s = dropWhile is_space s"

definition trim_right :: "string \<Rightarrow> string" where
  "trim_right s = rev (dropWhile is_space (rev s))"

definition has_brackets :: "string \<Rightarrow> bool" where
  "has_brackets s = (has_infix s ''{{'' \<or> has_infix s ''}}'')"

definition NewExpression :: "string \<Rightarrow> expression result" where
  "NewExpression variable =
     (case template_match variable of
        None \<Rightarrow>
          if has_brackets variable then Inl BadParameter
          else Inr \<lparr>ex_namespace = LiteralNamespace, ex_variable = variable, ex_prefix = [],
                    ex_suffix = [], ex_transform = None\<rparr>
      | Some (prefix, expr1, suffix) \<Rightarrow>
          (case ParseExpr expr1 of
             None \<Rightarrow> Inl NotFound
           | Some e \<Rightarrow>
               (case walk e 0 of
                  Inl err \<Rightarrow> Inl err
                | Inr res \<Rightarrow>
                    if length (wr_parts res) \<noteq> 2 then Inl NotFound
                    else if wr_match res \<noteq> None then Inl NotFound
                    else Inr \<lparr>ex_namespace = wr_parts res ! 0, ex_variable = wr_parts res ! 1,
                              ex_prefix = trim_left prefix, ex_suffix = trim_right suffix,
                              ex_transform = wr_transform res\<rparr>)))"

definition NewMatcher :: "string \<Rightarrow> matcher result" where
  "NewMatcher value =
     (case template_match value of
        None \<Rightarrow> if has_brackets value then Inl BadParameter else newRegexpMatcher value True
      | Some (prefix, expr1, suffix) \<Rightarrow>
          (case ParseExpr expr1 of
             None \<Rightarrow> Inl BadParameter
           | Some e \<Rightarrow>
               (case walk e 0 of
                  Inl err \<Rightarrow> Inl err
                | Inr res \<Rightarrow>
                    if wr_transform res \<noteq> None \<or> wr_parts res \<noteq> [] then Inl BadParameter
                    else Inr (PrefixSuffixMatcher prefix suffix (wr_match res)))))"

definition NewAnyMatcher :: "string list \<Rightarrow> matcher result" where
  "NewAnyMatcher inp = (case map_res NewMatcher inp of Inl e \<Rightarrow> Inl e | Inr ms \<Rightarrow> Inr (AnyMatcher ms))"

section \<open>Interpolation\<close>

type_synonym address_parser = "string \<Rightarrow> string result"

definition email_local :: "address_parser \<Rightarrow> string \<Rightarrow> string result" where
  "email_local parse_address inp =
     (if inp = [] then Inl BadParameter
      else case parse_address inp of
             Inl e \<Rightarrow> Inl BadParameter
           | Inr addr \<Rightarrow>
               if CHR ''@'' \<notin> set addr then Inl BadParameter
               else Inr (takeWhile (\<lambda>c. c \<noteq> CHR ''@'') addr))"

fun transform :: "address_parser \<Rightarrow> transformer \<Rightarrow> string \<Rightarrow> string result" where
  "transform parse_address EmailLocalTransformer inp = email_local parse_address inp"
| "transform parse_address (RegexpReplaceTransformer re replacement) inp =
     (if \<not> MatchString (re_prog re) inp then Inr [] else Inr (ReplaceAllString re inp replacement))"

fun interpolate_loop :: "address_parser \<Rightarrow> expression \<Rightarrow> string list \<Rightarrow> string list result" where
  "interpolate_loop parse_address p [] = Inr []"
| "interpolate_loop parse_address p (val # rest) =
     (case (case ex_transform p of None \<Rightarrow> Inr val | Some t \<Rightarrow> transform parse_address t val) of
        Inl e \<Rightarrow> Inl e
      | Inr val1 \<Rightarrow>
          (case interpolate_loop parse_address p rest of
             Inl e \<Rightarrow> Inl e
           | Inr out \<Rightarrow> Inr (if val1 \<noteq> [] then (ex_prefix p @ val1 @ ex_suffix p) # out else out)))"

definition Interpolate :: "address_parser \<Rightarrow> expression \<Rightarrow> (string \<times> string list) list \<Rightarrow> string list result" where
  "Interpolate parse_address p traits =
     (if ex_namespace p = LiteralNamespace then Inr [ex_variable p]
      else case map_of traits (ex_variable p) of
             None \<Rightarrow> Inl NotFound
           | Some values \<Rightarrow> interpolate_loop parse_address p values)"

lemma reVariable_compiles: "compile_regexp reVariable_source = Inr reVariable"
  by code_simp

section \<open>Text without braces is literal\<close>

text \<open>A literal character every match of the expression consumes.\<close>

fun needs :: "char \<Rightarrow> regex \<Rightarrow> bool" where
  "needs c (RLit f d) = (\<not> f \<and> d = c)"
| "needs c (RCat a b) = (needs c a \<or> needs c b)"
| "needs c (RAlt a b) = (needs c a \<and> needs c b)"
| "needs c (RGroup n a) = needs c a"
| "needs c r = False"

lemma eat_set: "q \<in> set (eat P p) \<Longrightarrow> set (fst (snd q)) \<subseteq> set (fst (snd p))"
  by (cases "(P, p)" rule: eat.cases) (auto split: if_splits)

lemma add_capture_rest [simp]: "fst (snd (add_capture n p q)) = fst (snd q)"
  by (cases "(n, p, q)" rule: add_capture.cases) simp

lemma match_at_set: "q \<in> set (match_at r p) \<Longrightarrow> set (fst (snd q)) \<subseteq> set (fst (snd p))"
proof (induction r p arbitrary: q rule: match_at.induct)
  case (11 a b p)
  then obtain q' where "q' \<in> set (match_at a p)" "q \<in> set (match_at b q')" by auto
  with "11.IH" show ?case by blast
next
  case (12 a b p)
  then show ?case by (simp only: match_at.simps set_append) blast
next
  case (13 g a p)
  then have "q = p \<or> q \<in> set (match_at a p)" by (auto split: if_splits)
  with "13.IH" show ?case by blast
next
  case (14 n a p)
  then obtain q' where "q' \<in> set (match_at a p)" "q = add_capture n p q'" by auto
  with "14.IH" show ?case by simp
next
  case (15 g a p)
  have "q = p \<or> (\<exists>q'\<in>set (match_at a p). length (fst (snd q')) < length (fst (snd p)) \<and>
      q \<in> set (match_at (RStar g a) q'))"
    using "15.prems" by (subst (asm) match_at_star) (auto simp: Let_def split: if_splits)
  with "15.IH" show ?case by blast
qed (simp_all add: eat_set split: if_splits)

lemma match_at_needs:
  "needs c r \<Longrightarrow> q \<in> set (match_at r p) \<Longrightarrow> c \<in> set (fst (snd p))"
proof (induction c r arbitrary: p q rule: needs.induct)
  case (1 c f d)
  then show ?case
    by (cases "(lit_matches f d, p)" rule: eat.cases) (auto simp: lit_matches_def split: if_splits)
next
  case (2 c a b)
  then obtain q' where q': "q' \<in> set (match_at a p)" "q \<in> set (match_at b q')" by auto
  have "needs c a \<or> needs c b" using "2.prems"(1) by simp
  then show ?case using "2.IH" q' match_at_set [OF q'(1)] by blast
qed auto

lemma find_from_needs: "needs c r \<Longrightarrow> c \<notin> set s \<Longrightarrow> find_from r pv s = None"
proof (induction s arbitrary: pv)
  case Nil
  then have "match_at r (pv, [], []) = []"
    using match_at_needs [of c r _ "(pv, [], [])"] by (cases "match_at r (pv, [], [])") auto
  then show ?case by (simp add: find_from.simps)
next
  case (Cons d s)
  then have "match_at r (pv, d # s, []) = []"
    using match_at_needs [of c r _ "(pv, d # s, [])"] by (cases "match_at r (pv, d # s, [])") auto
  with Cons show ?case by (simp add: find_from.simps [of r pv])
qed

definition plain_text :: "string \<Rightarrow> bool" where
  "plain_text s = (CHR ''{'' \<notin> set s \<and> CHR ''}'' \<notin> set s)"

lemma template_match_plain: "CHR ''{'' \<notin> set s \<Longrightarrow> template_match s = None"
  by (simp add: template_match_def find_from_needs [of "CHR ''{''"] reVariable_def cat_list_def)

lemma has_infix_head: "has_infix s (c # p) \<Longrightarrow> c \<in> set s"
  by (induction s) (auto simp: has_prefix_def)

lemma has_brackets_plain: "plain_text s \<Longrightarrow> \<not> has_brackets s"
  by (auto simp: has_brackets_def plain_text_def dest: has_infix_head)

lemma NewExpression_plain:
  "plain_text s \<Longrightarrow> NewExpression s =
     Inr \<lparr>ex_namespace = LiteralNamespace, ex_variable = s, ex_prefix = [], ex_suffix = [], ex_transform = None\<rparr>"
  using template_match_plain has_brackets_plain by (simp add: NewExpression_def plain_text_def)

lemma NewMatcher_plain: "plain_text s \<Longrightarrow> NewMatcher s = newRegexpMatcher s True"
  using template_match_plain has_brackets_plain by (simp add: NewMatcher_def plain_text_def)

text \<open>A plain glob compiles to a matcher of that glob, and never panics.\<close>

lemma NewMatcher_glob:
  assumes "plain_text g" "is_glob g"
  shows "\<exists>m. NewMatcher g = Inr m \<and> (\<forall>s. Match m s = Some (glob_match g s))"
  using glob_MatchString [OF assms(2)] by (auto simp: NewMatcher_plain [OF assms(1)] newRegexpMatcher_def)

lemma NewAnyMatcher_globs:
  assumes "\<forall>g\<in>set gs. plain_text g \<and> is_glob g"
  shows "\<exists>m. NewAnyMatcher gs = Inr m \<and> (\<forall>s. Match m s = Some (\<exists>g\<in>set gs. glob_match g s))"
proof -
  have "\<exists>ms. map_res NewMatcher gs = Inr ms \<and> (\<forall>s. match_any ms s = Some (\<exists>g\<in>set gs. glob_match g s))"
    using assms
  proof (induction gs)
    case (Cons g gs)
    then obtain m ms where "NewMatcher g = Inr m" "\<forall>s. Match m s = Some (glob_match g s)"
      "map_res NewMatcher gs = Inr ms" "\<forall>s. match_any ms s = Some (\<exists>g\<in>set gs. glob_match g s)"
      using NewMatcher_glob [of g] by auto
    then show ?case by auto
  qed simp
  then show ?thesis by (auto simp: NewAnyMatcher_def)
qed

text \<open>Without a transform, every value is a value of the trait between prefix and suffix.\<close>

lemma interpolate_loop_plain:
  "ex_transform p = None \<Longrightarrow>
     interpolate_loop parse_address p vs = Inr (map (\<lambda>v. ex_prefix p @ v @ ex_suffix p) (filter (\<lambda>v. v \<noteq> []) vs))"
  by (induction vs) auto

end
