(* ===== verification/Traits.thy ===== *)
theory Traits
  imports Expression RoleSets
begin

text \<open>
  User traits and roles: \<open>ApplyValueTraits\<close>, \<open>ApplyTraits\<close>, \<open>FetchRoles\<close>,
  \<open>ValidateRole\<close> and the impersonation checks of \<open>lib/services/role.go\<close>, and the mapping of
  traits to roles of \<open>lib/services/traits.go\<close>. The role store is a function from names to roles;
  the vendored \<open>predicate\<close> parsers are arguments.
\<close>

section \<open>Values\<close>

definition TraitInternalPrefix :: string where
  "TraitInternalPrefix = ''internal''"

definition internal_traits :: "string list" where
  "internal_traits = [''logins'', ''kubernetes_groups'', ''kubernetes_users'', ''db_names'', ''db_users'']"

definition ApplyValueTraits :: "address_parser \<Rightarrow> string \<Rightarrow> traits \<Rightarrow> string list result" where
  "ApplyValueTraits pa val traits =
     (case NewExpression val of
        Inl e \<Rightarrow> Inl e
      | Inr variable \<Rightarrow>
          if ex_namespace variable = TraitInternalPrefix \<and> ex_variable variable \<notin> set internal_traits
          then Inl BadParameter
          else (case Interpolate pa variable traits of
                  Inl e \<Rightarrow> Inl NotFound
                | Inr interpolated \<Rightarrow> if interpolated = [] then Inl NotFound else Inr interpolated))"

definition is_control :: "char \<Rightarrow> bool" where
  "is_control c = (ccode c < 32 \<or> (127 \<le> ccode c \<and> ccode c < 160))"

definition IsValidUnixUser :: "string \<Rightarrow> bool" where
  "IsValidUnixUser u =
     (\<not> (length u > 32 \<or> u = [] \<or> hd u = CHR ''-'') \<and> \<not> (CHR '':'' \<in> set u \<or> CHR ''/'' \<in> set u) \<and>
      (\<forall>r\<in>set u. \<not> (is_space r \<or> is_control r)))"

text \<open>The loop of \<open>ApplyTraits\<close> over one list: a value that does not interpolate is skipped.\<close>

fun apply_values :: "address_parser \<Rightarrow> traits \<Rightarrow> string list \<Rightarrow> string list" where
  "apply_values pa traits [] = []"
| "apply_values pa traits (v # vs) =
     (case ApplyValueTraits pa v traits of
        Inl e \<Rightarrow> apply_values pa traits vs
      | Inr values \<Rightarrow> values @ apply_values pa traits vs)"

fun label_values :: "address_parser \<Rightarrow> traits \<Rightarrow> string list \<Rightarrow> string list" where
  "label_values pa traits [] = []"
| "label_values pa traits (v # vs) =
     (case ApplyValueTraits pa v traits of
        Inl e \<Rightarrow> [] # label_values pa traits vs
      | Inr values \<Rightarrow> values @ label_values pa traits vs)"

fun labels_traits_loop :: "address_parser \<Rightarrow> traits \<Rightarrow> labels \<Rightarrow> labels \<Rightarrow> labels" where
  "labels_traits_loop pa traits outLabels [] = outLabels"
| "labels_traits_loop pa traits outLabels ((key, vals) # rest) =
     (let keyVars = (case ApplyValueTraits pa key traits of Inl e \<Rightarrow> [[]] | Inr ks \<Rightarrow> ks)
      in labels_traits_loop pa traits
           (AList.update (hd keyVars) (Deduplicate (label_values pa traits vals)) outLabels) rest)"

definition applyLabelsTraits :: "address_parser \<Rightarrow> labels \<Rightarrow> traits \<Rightarrow> labels" where
  "applyLabelsTraits pa inLabels traits = labels_traits_loop pa traits [] inLabels"

section \<open>Roles\<close>

definition apply_labels :: "address_parser \<Rightarrow> traits \<Rightarrow> (role_condition_type \<Rightarrow> role \<Rightarrow> labels option) \<Rightarrow>
    (role_condition_type \<Rightarrow> labels option \<Rightarrow> role \<Rightarrow> role) \<Rightarrow> role_condition_type \<Rightarrow> role \<Rightarrow> role" where
  "apply_labels pa traits get1 set1 condition r =
     (case get1 condition r of
        None \<Rightarrow> r
      | Some inLabels \<Rightarrow> set1 condition (Some (applyLabelsTraits pa inLabels traits)) r)"

definition apply_list :: "address_parser \<Rightarrow> traits \<Rightarrow> (role_condition_type \<Rightarrow> role \<Rightarrow> string list) \<Rightarrow>
    (role_condition_type \<Rightarrow> string list \<Rightarrow> role \<Rightarrow> role) \<Rightarrow> role_condition_type \<Rightarrow> role \<Rightarrow> role" where
  "apply_list pa traits get1 set1 condition r =
     set1 condition (Deduplicate (apply_values pa traits (get1 condition r))) r"

definition apply_impersonate :: "address_parser \<Rightarrow> traits \<Rightarrow> role_condition_type \<Rightarrow> role \<Rightarrow> role" where
  "apply_impersonate pa traits condition r =
     (let inCond = GetImpersonateConditions condition r
      in SetImpersonateConditions condition
           \<lparr>imp_Users = Deduplicate (apply_values pa traits (imp_Users inCond)),
            imp_Roles = Deduplicate (apply_values pa traits (imp_Roles inCond)),
            imp_Where = imp_Where inCond\<rparr> r)"

definition apply_condition :: "address_parser \<Rightarrow> traits \<Rightarrow> role_condition_type \<Rightarrow> role \<Rightarrow> role" where
  "apply_condition pa traits condition r0 =
     (let r1 = SetLogins condition
                 (Deduplicate (filter IsValidUnixUser (apply_values pa traits (GetLogins condition r0)))) r0;
          r2 = apply_list pa traits GetAWSRoleARNs SetAWSRoleARNs condition r1;
          r3 = apply_list pa traits GetKubeGroups SetKubeGroups condition r2;
          r4 = apply_list pa traits GetKubeUsers SetKubeUsers condition r3;
          r5 = apply_list pa traits GetDatabaseNames SetDatabaseNames condition r4;
          r6 = apply_list pa traits GetDatabaseUsers SetDatabaseUsers condition r5;
          r7 = apply_labels pa traits GetNodeLabels SetNodeLabels condition r6;
          r8 = apply_labels pa traits GetClusterLabels SetClusterLabels condition r7;
          r9 = apply_labels pa traits GetKubernetesLabels SetKubernetesLabels condition r8;
          r10 = apply_labels pa traits GetAppLabels SetAppLabels condition r9;
          r11 = apply_labels pa traits GetDatabaseLabels SetDatabaseLabels condition r10
      in apply_impersonate pa traits condition r11)"

definition ApplyTraits :: "address_parser \<Rightarrow> role \<Rightarrow> traits \<Rightarrow> role" where
  "ApplyTraits pa r traits = apply_condition pa traits Deny (apply_condition pa traits Allow r)"

definition validateRule :: "predicate_parser result \<Rightarrow> predicate_parser result \<Rightarrow> rule \<Rightarrow> unit result" where
  "validateRule newWhereParser newActionsParser r =
     (case (if rule_Where r \<noteq> [] then
              (case newWhereParser of
                 Inl e \<Rightarrow> Inl e
               | Inr parser \<Rightarrow> (case parser (rule_Where r) of Inl e \<Rightarrow> Inl BadParameter | Inr _ \<Rightarrow> Inr ()))
            else Inr ()) of
        Inl e \<Rightarrow> Inl e
      | Inr _ \<Rightarrow>
          if rule_Actions r \<noteq> [] then
            (case newActionsParser of
               Inl e \<Rightarrow> Inl e
             | Inr parser \<Rightarrow>
                 if \<forall>a\<in>set (rule_Actions r). is_ok (parser a) then Inr () else Inl BadParameter)
          else Inr ())"

fun validate_rules :: "predicate_parser result \<Rightarrow> predicate_parser result \<Rightarrow> rule list \<Rightarrow> unit result" where
  "validate_rules wp ap [] = Inr ()"
| "validate_rules wp ap (r # rs) =
     (case validateRule wp ap r of Inl e \<Rightarrow> Inl e | Inr _ \<Rightarrow> validate_rules wp ap rs)"

definition login_ok :: "string \<Rightarrow> bool" where
  "login_ok login = (has_brackets login \<longrightarrow> is_ok (NewExpression login))"

definition ValidateRole :: "predicate_parser result \<Rightarrow> predicate_parser result \<Rightarrow> role \<Rightarrow> role result" where
  "ValidateRole wp ap r =
     (case CheckAndSetDefaults r of
        Inl e \<Rightarrow> Inl e
      | Inr r1 \<Rightarrow>
          if \<exists>login\<in>set (GetLogins Allow r1 @ GetLogins Deny r1). \<not> login_ok login then Inl BadParameter
          else (case validate_rules wp ap (GetRules Allow r1 @ GetRules Deny r1) of
                  Inl e \<Rightarrow> Inl e
                | Inr _ \<Rightarrow> Inr r1))"

section \<open>Fetching the roles of a user\<close>

definition FetchRoleList :: "address_parser \<Rightarrow> string list \<Rightarrow> (string \<Rightarrow> role result) \<Rightarrow> traits \<Rightarrow>
    role list result" where
  "FetchRoleList pa roleNames GetRole traits =
     map_res (\<lambda>name. case GetRole name of Inl e \<Rightarrow> Inl e | Inr r \<Rightarrow> Inr (ApplyTraits pa r traits)) roleNames"

definition FetchRoles :: "address_parser \<Rightarrow> string list \<Rightarrow> (string \<Rightarrow> role result) \<Rightarrow> traits \<Rightarrow>
    role list result" where
  "FetchRoles pa roleNames GetRole traits =
     (case FetchRoleList pa roleNames GetRole traits of
        Inl e \<Rightarrow> Inl e
      | Inr roles \<Rightarrow> Inr (NewRoleSet roles))"

record identity =
  id_Username :: string
  id_Groups :: "string list"
  id_Traits :: traits

definition missingIdentity :: "identity \<Rightarrow> bool" where
  "missingIdentity i = (id_Groups i = [] \<or> id_Traits i = [])"

definition ExtractFromIdentity :: "(string \<Rightarrow> (string list \<times> traits) result) \<Rightarrow> identity \<Rightarrow>
    (string list \<times> traits) result" where
  "ExtractFromIdentity GetUser i =
     (if missingIdentity i then GetUser (id_Username i) else Inr (id_Groups i, id_Traits i))"

section \<open>Impersonation\<close>

definition matchesImpersonateWhere :: "impersonate_conditions \<Rightarrow> predicate_parser \<Rightarrow> bool result" where
  "matchesImpersonateWhere cond parser =
     (if imp_Where cond = [] then Inr True
      else case parser (imp_Where cond) of
             Inl e \<Rightarrow> Inl e
           | Inr ifn \<Rightarrow> (case ifn of BoolPredicate b \<Rightarrow> Inr b | OtherValue \<Rightarrow> Inl BadParameter))"

text \<open>A matcher that panics has no result; here the panic is the error \<open>Unclassified\<close>.\<close>

definition run_match :: "matcher \<Rightarrow> string \<Rightarrow> bool result" where
  "run_match m s = (case Match m s of None \<Rightarrow> Inl Unclassified | Some b \<Rightarrow> Inr b)"

fun impersonate_roles_loop :: "matcher \<Rightarrow> impersonate_conditions \<Rightarrow> (role \<Rightarrow> predicate_parser) \<Rightarrow> role list \<Rightarrow>
    bool result" where
  "impersonate_roles_loop anyRole cond whereParser [] = Inr True"
| "impersonate_roles_loop anyRole cond whereParser (r # rs) =
     (case run_match anyRole (GetName r) of
        Inl e \<Rightarrow> Inl e
      | Inr b \<Rightarrow>
          if \<not> b then Inr False
          else (case matchesImpersonateWhere cond (whereParser r) of
                  Inl e \<Rightarrow> Inl e
                | Inr match \<Rightarrow>
                    if \<not> match then Inr False else impersonate_roles_loop anyRole cond whereParser rs))"

definition matchAllowImpersonateCondition :: "(role \<Rightarrow> predicate_parser) \<Rightarrow> impersonate_conditions \<Rightarrow>
    string \<Rightarrow> role list \<Rightarrow> bool result" where
  "matchAllowImpersonateCondition whereParser cond impersonateUser impersonateRoles =
     (if imp_Users cond = [] \<and> imp_Roles cond = [] then Inr False
      else if imp_Users cond = [] \<or> imp_Roles cond = [] then Inl BadParameter
      else case NewAnyMatcher (imp_Users cond) of
             Inl e \<Rightarrow> Inl e
           | Inr anyUser \<Rightarrow>
               (case run_match anyUser impersonateUser of
                  Inl e \<Rightarrow> Inl e
                | Inr b \<Rightarrow>
                    if \<not> b then Inr False
                    else (case NewAnyMatcher (imp_Roles cond) of
                            Inl e \<Rightarrow> Inl e
                          | Inr anyRole \<Rightarrow>
                              impersonate_roles_loop anyRole cond whereParser impersonateRoles)))"

definition matchDenyImpersonateCondition :: "impersonate_conditions \<Rightarrow> string \<Rightarrow> role list \<Rightarrow> bool result" where
  "matchDenyImpersonateCondition cond impersonateUser impersonateRoles =
     (if imp_Users cond = [] \<and> imp_Roles cond = [] then Inr False
      else if imp_Users cond = [] \<or> imp_Roles cond = [] then Inl BadParameter
      else case NewAnyMatcher (imp_Users cond) of
             Inl e \<Rightarrow> Inl e
           | Inr anyUser \<Rightarrow>
               (case run_match anyUser impersonateUser of
                  Inl e \<Rightarrow> Inl e
                | Inr b \<Rightarrow>
                    if b then Inr True
                    else (case NewAnyMatcher (imp_Roles cond) of
                            Inl e \<Rightarrow> Inl e
                          | Inr anyRole \<Rightarrow> ex_res (\<lambda>r. run_match anyRole (GetName r)) impersonateRoles)))"

definition CheckImpersonate :: "(role \<Rightarrow> predicate_parser) result \<Rightarrow> role list \<Rightarrow> string \<Rightarrow> role list \<Rightarrow>
    unit result" where
  "CheckImpersonate newWhereParser rs impersonateUser impersonateRoles =
     (case newWhereParser of
        Inl e \<Rightarrow> Inl e
      | Inr whereParser \<Rightarrow>
          (case ex_res (\<lambda>r. matchDenyImpersonateCondition (GetImpersonateConditions Deny r)
                              impersonateUser impersonateRoles) rs of
             Inl e \<Rightarrow> Inl e
           | Inr denied \<Rightarrow>
               if denied then Inl AccessDenied
               else (case ex_res (\<lambda>r. matchAllowImpersonateCondition whereParser
                                  (GetImpersonateConditions Allow r) impersonateUser impersonateRoles) rs of
                       Inl e \<Rightarrow> Inl e
                     | Inr matched \<Rightarrow> if matched then Inr () else Inl AccessDenied)))"

section \<open>Traits to roles\<close>

text \<open>\<open>collect\<close> is called with each role in order: the list of calls, and the warnings.\<close>

record trait_mapping =
  tm_Trait :: string
  tm_Value :: string
  tm_Roles :: "string list"

type_synonym collected = "(string \<times> bool) list \<times> string list"

fun roles_for_value :: "string \<Rightarrow> string \<Rightarrow> string list \<Rightarrow> collected \<Rightarrow> collected" where
  "roles_for_value value traitValue [] st = st"
| "roles_for_value value traitValue (role1 # rest) st =
     (case ReplaceRegexpWithConfig value role1 traitValue True of
        Inl e \<Rightarrow> st
      | Inr outRole \<Rightarrow>
          if outRole = [] then roles_for_value value traitValue rest st
          else (case ReplaceRegexpWithConfig value role1 traitValue False of
                  Inl e \<Rightarrow> roles_for_value value traitValue rest (fst st, snd st @ [traitValue])
                | Inr _ \<Rightarrow> roles_for_value value traitValue rest (fst st @ [(outRole, outRole \<noteq> role1)], snd st)))"

definition traitsToRoles :: "trait_mapping list \<Rightarrow> traits \<Rightarrow> collected" where
  "traitsToRoles ms traits =
     foldl (\<lambda>st mapping.
        foldl (\<lambda>st (traitName, traitValues).
           if traitName \<noteq> tm_Trait mapping then st
           else foldl (\<lambda>st traitValue. roles_for_value (tm_Value mapping) traitValue (tm_Roles mapping) st)
                  st traitValues) st traits) ([], []) ms"

definition TraitsToRoles :: "trait_mapping list \<Rightarrow> traits \<Rightarrow> string list \<times> string list" where
  "TraitsToRoles ms traits =
     (let (roles, warnings) = traitsToRoles ms traits in (warnings, Deduplicate (map fst roles)))"

fun collect_matchers :: "(string \<times> bool) list \<Rightarrow> matcher list result" where
  "collect_matchers [] = Inr []"
| "collect_matchers ((role1, expanded) # rest) =
     (case (if expanded \<or> ContainsExpansion role1 then Inr (LiteralMatcher role1) else NewMatcher role1) of
        Inl e \<Rightarrow> Inl e
      | Inr m \<Rightarrow> (case collect_matchers rest of Inl e \<Rightarrow> Inl e | Inr ms \<Rightarrow> Inr (m # ms)))"

definition TraitsToRoleMatchers :: "trait_mapping list \<Rightarrow> traits \<Rightarrow> matcher list result" where
  "TraitsToRoleMatchers ms traits = collect_matchers (fst (traitsToRoles ms traits))"

section \<open>Interpolated values\<close>

lemma ApplyValueTraits_nonempty: "ApplyValueTraits pa val traits = Inr vs \<Longrightarrow> vs \<noteq> []"
  by (auto simp: ApplyValueTraits_def split: sum.splits if_splits)

lemma ApplyValueTraits_plain [simp]: "plain_text s \<Longrightarrow> ApplyValueTraits pa s traits = Inr [s]"
  by (simp add: ApplyValueTraits_def NewExpression_plain Interpolate_def LiteralNamespace_def
      TraitInternalPrefix_def)

lemma ApplyValueTraits_errors:
  "ApplyValueTraits pa val traits = Inl e \<Longrightarrow>
     e = NotFound \<or> e = BadParameter \<or> NewExpression val = Inl e"
  by (auto simp: ApplyValueTraits_def split: sum.splits if_splits)

text \<open>Where an interpolated value comes from, when the template has no transform.\<close>

lemma ApplyValueTraits_source:
  assumes "ApplyValueTraits pa val traits = Inr vs" "v \<in> set vs" "NewExpression val = Inr p"
    "ex_transform p = None"
  shows "ex_namespace p = LiteralNamespace \<and> v = ex_variable p \<or>
    (\<exists>ts t. map_of traits (ex_variable p) = Some ts \<and> t \<in> set ts \<and> t \<noteq> [] \<and>
       v = ex_prefix p @ t @ ex_suffix p)"
  using assms
  by (auto simp: ApplyValueTraits_def Interpolate_def interpolate_loop_plain split: if_splits option.splits)

lemma apply_values_plain: "\<forall>v\<in>set vs. plain_text v \<Longrightarrow> apply_values pa traits vs = vs"
  by (induction vs) auto

lemma set_apply_values:
  "set (apply_values pa traits vs) = (\<Union>v\<in>set vs. \<Union>ws\<in>{ws. ApplyValueTraits pa v traits = Inr ws}. set ws)"
  by (induction vs) (auto split: sum.split)

section \<open>What \<open>ApplyTraits\<close> changes\<close>

text \<open>What traits do to one side of a role.\<close>

definition interpolated_labels :: "address_parser \<Rightarrow> traits \<Rightarrow> labels option \<Rightarrow> labels option" where
  "interpolated_labels pa traits ls = map_option (\<lambda>l. applyLabelsTraits pa l traits) ls"

definition interpolated_list :: "address_parser \<Rightarrow> traits \<Rightarrow> string list \<Rightarrow> string list" where
  "interpolated_list pa traits vs = Deduplicate (apply_values pa traits vs)"

definition interpolated_impersonate :: "address_parser \<Rightarrow> traits \<Rightarrow> impersonate_conditions option \<Rightarrow>
    impersonate_conditions option" where
  "interpolated_impersonate pa traits o1 =
     (let c = (case o1 of None \<Rightarrow> no_impersonate_conditions | Some c \<Rightarrow> c)
      in Some \<lparr>imp_Users = interpolated_list pa traits (imp_Users c),
               imp_Roles = interpolated_list pa traits (imp_Roles c), imp_Where = imp_Where c\<rparr>)"

definition interpolated :: "address_parser \<Rightarrow> traits \<Rightarrow> role_conditions \<Rightarrow> role_conditions" where
  "interpolated pa traits c = c
     \<lparr>cond_Logins := Deduplicate (filter IsValidUnixUser (apply_values pa traits (cond_Logins c))),
      cond_AWSRoleARNs := interpolated_list pa traits (cond_AWSRoleARNs c),
      cond_KubeGroups := interpolated_list pa traits (cond_KubeGroups c),
      cond_KubeUsers := interpolated_list pa traits (cond_KubeUsers c),
      cond_DatabaseNames := interpolated_list pa traits (cond_DatabaseNames c),
      cond_DatabaseUsers := interpolated_list pa traits (cond_DatabaseUsers c),
      cond_NodeLabels := interpolated_labels pa traits (cond_NodeLabels c),
      cond_ClusterLabels := interpolated_labels pa traits (cond_ClusterLabels c),
      cond_KubernetesLabels := interpolated_labels pa traits (cond_KubernetesLabels c),
      cond_AppLabels := interpolated_labels pa traits (cond_AppLabels c),
      cond_DatabaseLabels := interpolated_labels pa traits (cond_DatabaseLabels c),
      cond_Impersonate := interpolated_impersonate pa traits (cond_Impersonate c)\<rparr>"

lemma apply_labels_allow:
  "apply_labels pa tr GetNodeLabels SetNodeLabels Allow r =
     r\<lparr>role_Allow := (role_Allow r)\<lparr>cond_NodeLabels := interpolated_labels pa tr (cond_NodeLabels (role_Allow r))\<rparr>\<rparr>"
  "apply_labels pa tr GetClusterLabels SetClusterLabels Allow r =
     r\<lparr>role_Allow := (role_Allow r)\<lparr>cond_ClusterLabels := interpolated_labels pa tr (cond_ClusterLabels (role_Allow r))\<rparr>\<rparr>"
  "apply_labels pa tr GetKubernetesLabels SetKubernetesLabels Allow r =
     r\<lparr>role_Allow := (role_Allow r)\<lparr>cond_KubernetesLabels := interpolated_labels pa tr (cond_KubernetesLabels (role_Allow r))\<rparr>\<rparr>"
  "apply_labels pa tr GetAppLabels SetAppLabels Allow r =
     r\<lparr>role_Allow := (role_Allow r)\<lparr>cond_AppLabels := interpolated_labels pa tr (cond_AppLabels (role_Allow r))\<rparr>\<rparr>"
  "apply_labels pa tr GetDatabaseLabels SetDatabaseLabels Allow r =
     r\<lparr>role_Allow := (role_Allow r)\<lparr>cond_DatabaseLabels := interpolated_labels pa tr (cond_DatabaseLabels (role_Allow r))\<rparr>\<rparr>"
  by (auto simp: apply_labels_def accessor_defs interpolated_labels_def split: option.split)

lemma apply_labels_deny:
  "apply_labels pa tr GetNodeLabels SetNodeLabels Deny r =
     r\<lparr>role_Deny := (role_Deny r)\<lparr>cond_NodeLabels := interpolated_labels pa tr (cond_NodeLabels (role_Deny r))\<rparr>\<rparr>"
  "apply_labels pa tr GetClusterLabels SetClusterLabels Deny r =
     r\<lparr>role_Deny := (role_Deny r)\<lparr>cond_ClusterLabels := interpolated_labels pa tr (cond_ClusterLabels (role_Deny r))\<rparr>\<rparr>"
  "apply_labels pa tr GetKubernetesLabels SetKubernetesLabels Deny r =
     r\<lparr>role_Deny := (role_Deny r)\<lparr>cond_KubernetesLabels := interpolated_labels pa tr (cond_KubernetesLabels (role_Deny r))\<rparr>\<rparr>"
  "apply_labels pa tr GetAppLabels SetAppLabels Deny r =
     r\<lparr>role_Deny := (role_Deny r)\<lparr>cond_AppLabels := interpolated_labels pa tr (cond_AppLabels (role_Deny r))\<rparr>\<rparr>"
  "apply_labels pa tr GetDatabaseLabels SetDatabaseLabels Deny r =
     r\<lparr>role_Deny := (role_Deny r)\<lparr>cond_DatabaseLabels := interpolated_labels pa tr (cond_DatabaseLabels (role_Deny r))\<rparr>\<rparr>"
  by (auto simp: apply_labels_def accessor_defs interpolated_labels_def split: option.split)

lemma apply_impersonate_eq:
  "apply_impersonate pa tr Allow r =
     r\<lparr>role_Allow := (role_Allow r)\<lparr>cond_Impersonate := interpolated_impersonate pa tr (cond_Impersonate (role_Allow r))\<rparr>\<rparr>"
  "apply_impersonate pa tr Deny r =
     r\<lparr>role_Deny := (role_Deny r)\<lparr>cond_Impersonate := interpolated_impersonate pa tr (cond_Impersonate (role_Deny r))\<rparr>\<rparr>"
  by (simp_all add: apply_impersonate_def accessor_defs interpolated_impersonate_def interpolated_list_def Let_def)

lemma apply_list_allow:
  "apply_list pa tr GetAWSRoleARNs SetAWSRoleARNs Allow r =
     r\<lparr>role_Allow := (role_Allow r)\<lparr>cond_AWSRoleARNs := interpolated_list pa tr (cond_AWSRoleARNs (role_Allow r))\<rparr>\<rparr>"
  "apply_list pa tr GetKubeGroups SetKubeGroups Allow r =
     r\<lparr>role_Allow := (role_Allow r)\<lparr>cond_KubeGroups := interpolated_list pa tr (cond_KubeGroups (role_Allow r))\<rparr>\<rparr>"
  "apply_list pa tr GetKubeUsers SetKubeUsers Allow r =
     r\<lparr>role_Allow := (role_Allow r)\<lparr>cond_KubeUsers := interpolated_list pa tr (cond_KubeUsers (role_Allow r))\<rparr>\<rparr>"
  "apply_list pa tr GetDatabaseNames SetDatabaseNames Allow r =
     r\<lparr>role_Allow := (role_Allow r)\<lparr>cond_DatabaseNames := interpolated_list pa tr (cond_DatabaseNames (role_Allow r))\<rparr>\<rparr>"
  "apply_list pa tr GetDatabaseUsers SetDatabaseUsers Allow r =
     r\<lparr>role_Allow := (role_Allow r)\<lparr>cond_DatabaseUsers := interpolated_list pa tr (cond_DatabaseUsers (role_Allow r))\<rparr>\<rparr>"
  by (simp_all add: apply_list_def accessor_defs interpolated_list_def)

lemma SetGetLogins_allow:
  "SetLogins Allow (f (GetLogins Allow r)) r =
     r\<lparr>role_Allow := (role_Allow r)\<lparr>cond_Logins := f (cond_Logins (role_Allow r))\<rparr>\<rparr>"
  by (simp add: accessor_defs)

lemma apply_condition_allow:
  "apply_condition pa tr Allow r = r\<lparr>role_Allow := interpolated pa tr (role_Allow r)\<rparr>"
  unfolding apply_condition_def Let_def
    SetGetLogins_allow [of "\<lambda>ls. Deduplicate (filter IsValidUnixUser (apply_values pa tr ls))"]
  by (simp add: apply_list_allow apply_labels_allow apply_impersonate_eq interpolated_def)

lemma apply_list_deny:
  "apply_list pa tr GetAWSRoleARNs SetAWSRoleARNs Deny r =
     r\<lparr>role_Deny := (role_Deny r)\<lparr>cond_AWSRoleARNs := interpolated_list pa tr (cond_AWSRoleARNs (role_Deny r))\<rparr>\<rparr>"
  "apply_list pa tr GetKubeGroups SetKubeGroups Deny r =
     r\<lparr>role_Deny := (role_Deny r)\<lparr>cond_KubeGroups := interpolated_list pa tr (cond_KubeGroups (role_Deny r))\<rparr>\<rparr>"
  "apply_list pa tr GetKubeUsers SetKubeUsers Deny r =
     r\<lparr>role_Deny := (role_Deny r)\<lparr>cond_KubeUsers := interpolated_list pa tr (cond_KubeUsers (role_Deny r))\<rparr>\<rparr>"
  "apply_list pa tr GetDatabaseNames SetDatabaseNames Deny r =
     r\<lparr>role_Deny := (role_Deny r)\<lparr>cond_DatabaseNames := interpolated_list pa tr (cond_DatabaseNames (role_Deny r))\<rparr>\<rparr>"
  "apply_list pa tr GetDatabaseUsers SetDatabaseUsers Deny r =
     r\<lparr>role_Deny := (role_Deny r)\<lparr>cond_DatabaseUsers := interpolated_list pa tr (cond_DatabaseUsers (role_Deny r))\<rparr>\<rparr>"
  by (simp_all add: apply_list_def accessor_defs interpolated_list_def)

lemma SetGetLogins_deny:
  "SetLogins Deny (f (GetLogins Deny r)) r =
     r\<lparr>role_Deny := (role_Deny r)\<lparr>cond_Logins := f (cond_Logins (role_Deny r))\<rparr>\<rparr>"
  by (simp add: accessor_defs)

lemma apply_condition_deny:
  "apply_condition pa tr Deny r = r\<lparr>role_Deny := interpolated pa tr (role_Deny r)\<rparr>"
  unfolding apply_condition_def Let_def
    SetGetLogins_deny [of "\<lambda>ls. Deduplicate (filter IsValidUnixUser (apply_values pa tr ls))"]
  by (simp add: apply_list_deny apply_labels_deny apply_impersonate_eq interpolated_def)

lemma ApplyTraits_eq:
  "ApplyTraits pa r tr = r\<lparr>role_Allow := interpolated pa tr (role_Allow r),
                           role_Deny := interpolated pa tr (role_Deny r)\<rparr>"
  by (simp add: ApplyTraits_def apply_condition_allow apply_condition_deny)

lemma ApplyTraits_name [simp]: "GetName (ApplyTraits pa r tr) = GetName r"
  by (simp add: ApplyTraits_eq GetName_def)

lemma ApplyTraits_frame [simp]:
  "GetRules c (ApplyTraits pa r tr) = GetRules c r" "GetNamespaces c (ApplyTraits pa r tr) = GetNamespaces c r"
  "GetOptions (ApplyTraits pa r tr) = GetOptions r"
  "GetAccessRequestConditions c (ApplyTraits pa r tr) = GetAccessRequestConditions c r"
  "GetAccessReviewConditions c (ApplyTraits pa r tr) = GetAccessReviewConditions c r"
  by (simp_all add: ApplyTraits_eq accessor_defs interpolated_def)

lemma ApplyTraits_logins:
  "set (GetLogins c (ApplyTraits pa r tr)) =
     {l. IsValidUnixUser l \<and> (\<exists>v\<in>set (GetLogins c r). \<exists>vs. ApplyValueTraits pa v tr = Inr vs \<and> l \<in> set vs)}"
  by (auto simp: ApplyTraits_eq GetLogins_def interpolated_def set_apply_values)

lemma ApplyTraits_kube_groups:
  "set (GetKubeGroups c (ApplyTraits pa r tr)) =
     {g. \<exists>v\<in>set (GetKubeGroups c r). \<exists>vs. ApplyValueTraits pa v tr = Inr vs \<and> g \<in> set vs}"
  by (auto simp: ApplyTraits_eq GetKubeGroups_def interpolated_def interpolated_list_def set_apply_values)

text \<open>A role without templates keeps its lists, less repetitions and invalid logins.\<close>

lemma ApplyTraits_plain_lists:
  "\<forall>v\<in>set (GetLogins c r). plain_text v \<Longrightarrow>
     GetLogins c (ApplyTraits pa r tr) = Deduplicate (filter IsValidUnixUser (GetLogins c r))"
  "\<forall>v\<in>set (GetKubeGroups c r). plain_text v \<Longrightarrow>
     GetKubeGroups c (ApplyTraits pa r tr) = Deduplicate (GetKubeGroups c r)"
  "\<forall>v\<in>set (GetKubeUsers c r). plain_text v \<Longrightarrow>
     GetKubeUsers c (ApplyTraits pa r tr) = Deduplicate (GetKubeUsers c r)"
  "\<forall>v\<in>set (GetDatabaseNames c r). plain_text v \<Longrightarrow>
     GetDatabaseNames c (ApplyTraits pa r tr) = Deduplicate (GetDatabaseNames c r)"
  "\<forall>v\<in>set (GetDatabaseUsers c r). plain_text v \<Longrightarrow>
     GetDatabaseUsers c (ApplyTraits pa r tr) = Deduplicate (GetDatabaseUsers c r)"
  "\<forall>v\<in>set (GetAWSRoleARNs c r). plain_text v \<Longrightarrow>
     GetAWSRoleARNs c (ApplyTraits pa r tr) = Deduplicate (GetAWSRoleARNs c r)"
  by (simp_all add: ApplyTraits_eq accessor_defs interpolated_def interpolated_list_def apply_values_plain
      split: if_splits)

lemma label_values_plain: "\<forall>v\<in>set vs. plain_text v \<Longrightarrow> label_values pa tr vs = vs"
  by (induction vs) auto

definition plain_labels :: "labels \<Rightarrow> bool" where
  "plain_labels ls = (\<forall>(k, vs)\<in>set ls. plain_text k \<and> (\<forall>v\<in>set vs. plain_text v))"

text \<open>Labels without templates keep their keys, and the values of each key but for repetitions.\<close>

lemma labels_traits_loop_plain:
  "plain_labels ls \<Longrightarrow> distinct (map fst ls) \<Longrightarrow>
     map_of (labels_traits_loop pa tr out ls) k =
       (case map_of ls k of None \<Rightarrow> map_of out k | Some vs \<Rightarrow> Some (Deduplicate vs))"
proof (induction ls arbitrary: out)
  case (Cons e ls)
  obtain key vs where e: "e = (key, vs)" by (cases e)
  have p: "plain_text key" "label_values pa tr vs = vs" "plain_labels ls"
    using Cons.prems(1) by (auto simp: e plain_labels_def label_values_plain)
  have d: "map_of ls key = None" "distinct (map fst ls)"
    using Cons.prems(2) by (simp_all add: e map_of_eq_None_iff)
  show ?case
    using Cons.IH [OF p(3) d(2)] p(1,2) d(1)
    by (cases "k = key") (simp_all add: e update_conv' split: option.split)
qed simp

lemma applyLabelsTraits_plain:
  "plain_labels ls \<Longrightarrow> distinct (map fst ls) \<Longrightarrow>
     map_of (applyLabelsTraits pa ls tr) k = map_option Deduplicate (map_of ls k)"
  by (simp add: applyLabelsTraits_def labels_traits_loop_plain split: option.split)

section \<open>Fetched roles\<close>

lemma FetchRoleList_names:
  assumes "\<forall>n\<in>set ns. \<forall>r. GetRole n = Inr r \<longrightarrow> GetName r = n"
    and "FetchRoleList pa ns GetRole tr = Inr rs"
  shows "map GetName rs = ns"
  using assms unfolding FetchRoleList_def
  by (induction ns arbitrary: rs) (auto split: sum.splits)

lemma FetchRoleList_members:
  "FetchRoleList pa ns GetRole tr = Inr rs \<Longrightarrow> r \<in> set rs \<Longrightarrow>
     \<exists>n\<in>set ns. \<exists>r0. GetRole n = Inr r0 \<and> r = ApplyTraits pa r0 tr"
  unfolding FetchRoleList_def
  by (induction ns arbitrary: rs) (auto split: sum.splits)

lemma FetchRoleList_error:
  "FetchRoleList pa ns GetRole tr = Inl e \<Longrightarrow> \<exists>n\<in>set ns. GetRole n = Inl e"
  unfolding FetchRoleList_def
  by (induction ns) (auto split: sum.splits)

section \<open>Impersonation meets the contract\<close>

interpretation impersonate: deny_then_allow
  "\<lambda>r. matchDenyImpersonateCondition (GetImpersonateConditions Deny r) user roles"
  "\<lambda>r. matchAllowImpersonateCondition wp (GetImpersonateConditions Allow r) user roles"
  "\<lambda>rs. False" "\<lambda>rs. CheckImpersonate (Inr wp) rs user roles" for wp user roles
  by unfold_locales (simp add: CheckImpersonate_def)

text \<open>What impersonation conditions of plain globs decide; the \<open>where\<close> clause is a function of
  the role.\<close>

definition plain_conditions :: "impersonate_conditions \<Rightarrow> bool" where
  "plain_conditions c = (\<forall>g\<in>set (imp_Users c) \<union> set (imp_Roles c). plain_text g \<and> is_glob g)"

definition globs_match :: "string list \<Rightarrow> string \<Rightarrow> bool" where
  "globs_match gs s = (\<exists>g\<in>set gs. glob_match g s)"

lemma run_globs:
  assumes "\<forall>g\<in>set gs. plain_text g \<and> is_glob g"
  obtains m where "NewAnyMatcher gs = Inr m" "\<And>s. run_match m s = Inr (globs_match gs s)"
  using NewAnyMatcher_globs [OF assms] by (auto simp: run_match_def globs_match_def)

lemma matchDenyImpersonate_globs:
  assumes "plain_conditions c" "imp_Users c = [] \<longleftrightarrow> imp_Roles c = []"
  shows "matchDenyImpersonateCondition c user roles =
    Inr (globs_match (imp_Users c) user \<or> (\<exists>r\<in>set roles. globs_match (imp_Roles c) (GetName r)))"
proof -
  obtain mu where u: "NewAnyMatcher (imp_Users c) = Inr mu" "\<And>s. run_match mu s = Inr (globs_match (imp_Users c) s)"
    using run_globs [of "imp_Users c"] assms(1) by (auto simp: plain_conditions_def)
  obtain mr where r: "NewAnyMatcher (imp_Roles c) = Inr mr" "\<And>s. run_match mr s = Inr (globs_match (imp_Roles c) s)"
    using run_globs [of "imp_Roles c"] assms(1) by (auto simp: plain_conditions_def)
  have ex: "ex_res (\<lambda>r. Inr (globs_match (imp_Roles c) (GetName r))) roles =
      Inr (\<exists>r\<in>set roles. globs_match (imp_Roles c) (GetName r))"
    by (rule ex_res_total) simp
  have e: "globs_match [] s = False" for s by (simp add: globs_match_def)
  show ?thesis
    using assms(2) by (cases "imp_Users c = []") (simp_all add: matchDenyImpersonateCondition_def u r ex e)
qed

lemma impersonate_roles_loop_globs:
  assumes "\<And>s. run_match m s = Inr (p s)" "\<forall>r\<in>set roles. matchesImpersonateWhere c (wp r) = Inr (w r)"
  shows "impersonate_roles_loop m c wp roles = Inr (\<forall>r\<in>set roles. p (GetName r) \<and> w r)"
  using assms(2) by (induction roles) (simp_all add: assms(1))

lemma matchAllowImpersonate_globs:
  assumes "plain_conditions c" "imp_Users c = [] \<longleftrightarrow> imp_Roles c = []"
    "\<forall>r\<in>set roles. matchesImpersonateWhere c (wp r) = Inr (w r)"
  shows "matchAllowImpersonateCondition wp c user roles =
    Inr (globs_match (imp_Users c) user \<and> (\<forall>r\<in>set roles. globs_match (imp_Roles c) (GetName r) \<and> w r))"
proof -
  obtain mu where u: "NewAnyMatcher (imp_Users c) = Inr mu" "\<And>s. run_match mu s = Inr (globs_match (imp_Users c) s)"
    using run_globs [of "imp_Users c"] assms(1) by (auto simp: plain_conditions_def)
  obtain mr where r: "NewAnyMatcher (imp_Roles c) = Inr mr" "\<And>s. run_match mr s = Inr (globs_match (imp_Roles c) s)"
    using run_globs [of "imp_Roles c"] assms(1) by (auto simp: plain_conditions_def)
  note loop = impersonate_roles_loop_globs [where m = mr, OF r(2) assms(3)]
  have e: "globs_match [] s = False" for s by (simp add: globs_match_def)
  show ?thesis
    using assms(2) by (cases "imp_Users c = []") (simp_all add: matchAllowImpersonateCondition_def u r loop e)
qed

lemma CheckAndSetDefaults_impersonate:
  assumes "CheckAndSetDefaults r = Inr r'"
  shows "imp_Users (GetImpersonateConditions c r') = [] \<longleftrightarrow> imp_Roles (GetImpersonateConditions c r') = []"
  using CheckAndSetDefaults_normal(7) [OF assms] condition_type_cases [of c]
  by (auto simp: check_role_def Let_def GetImpersonateConditions_def no_impersonate_conditions_def
        ImpersonateConditions_CheckAndSetDefaults_def is_ok_iff split: if_splits option.splits)

end
