(* ===== verification/Presets.thy ===== *)
theory Presets
  imports Traits
begin

text \<open>
  The roles \<open>lib/services/role.go\<close> builds itself: the presets \<open>admin\<close>, \<open>editor\<close> and
  \<open>viewer\<close>, the roles of a user and of a certificate authority, and the roles of the open-source
  migration. Every preset passes its own validation, so the ignored error of \<open>types.NewRole\<close> never
  occurs; what the presets let their holders do is computed by the model of \<open>CheckAccessToRule\<close>.
\<close>

section \<open>The parts they share\<close>

definition preset_options :: "bool \<Rightarrow> string list \<Rightarrow> role_options" where
  "preset_options forward bpf = no_options
     \<lparr>opt_CertificateFormat := CertificateFormatStandard, opt_MaxSessionTTL := MaxCertDuration,
      opt_PortForwarding := Some forward, opt_ForwardAgent := forward, opt_BPF := bpf\<rparr>"

definition preset_conditions :: "rule list \<Rightarrow> role_conditions" where
  "preset_conditions rules = no_conditions
     \<lparr>cond_Namespaces := Some [default_namespace], cond_NodeLabels := Some wildcard_labels,
      cond_AppLabels := Some wildcard_labels, cond_KubernetesLabels := Some wildcard_labels,
      cond_DatabaseLabels := Some wildcard_labels, cond_Rules := rules\<rparr>"

definition with_internal_traits :: "string list \<Rightarrow> role \<Rightarrow> role" where
  "with_internal_traits logins r =
     SetKubeGroups Allow [''{{internal.kubernetes_groups}}'']
       (SetKubeUsers Allow [''{{internal.kubernetes_users}}''] (SetLogins Allow logins r))"

definition on_role :: "(role \<Rightarrow> role) \<Rightarrow> role result \<Rightarrow> role result" where
  "on_role f x = (case x of Inl e \<Rightarrow> Inl e | Inr r \<Rightarrow> Inr (f r))"

definition CRUL :: "string list" where
  "CRUL = [''list'', ''read'', ''create'', ''update'']"

section \<open>The roles\<close>

definition getExtendedAdminUserRules :: "bool \<Rightarrow> rule list" where
  "getExtendedAdminUserRules cloud =
     [NewRule ''role'' RW, NewRule ''auth_connector'' RW, NewRule ''session'' RO,
      NewRule ''trusted_cluster'' RW, NewRule ''event'' RO, NewRule ''user'' RW, NewRule ''token'' RW,
      NewRule ''lock'' RW, NewRule ''cluster_config'' [''read'', ''update''],
      NewRule ''access_request'' CRUL] @ (if cloud then [NewRule ''billing'' RW] else [])"

definition NewAdminRole :: "bool \<Rightarrow> role result" where
  "NewAdminRole cloud =
     on_role (with_internal_traits [''{{internal.logins}}'', ''root''])
       (NewRole ''admin'' (preset_options True EnhancedEvents)
          ((preset_conditions (getExtendedAdminUserRules cloud))
             \<lparr>cond_DatabaseNames := [''{{internal.db_names}}''],
              cond_DatabaseUsers := [''{{internal.db_users}}'']\<rparr>) no_conditions)"

definition editor_rules :: "rule list" where
  "editor_rules =
     [NewRule ''role'' CRUL, NewRule ''auth_connector'' CRUL, NewRule ''session'' RO,
      NewRule ''trusted_cluster'' CRUL, NewRule ''event'' RO, NewRule ''user'' CRUL,
      NewRule ''token'' [''list'', ''read'', ''create''], NewRule ''cluster_config'' [''read'', ''update''],
      NewRule ''access_request'' CRUL, NewRule ''lock'' CRUL]"

definition NewEditorRole :: "role result" where
  "NewEditorRole =
     on_role (with_internal_traits [''{{internal.logins}}'', ''root''])
       (NewRole ''editor'' (preset_options True []) (preset_conditions editor_rules) no_conditions)"

definition viewer_rules :: "rule list" where
  "viewer_rules =
     [NewRule ''role'' RO, NewRule ''auth_connector'' RO, NewRule ''session'' RO,
      NewRule ''trusted_cluster'' RO, NewRule ''event'' RO, NewRule ''user'' RO, NewRule ''token'' RO,
      NewRule ''cluster_config'' [''read''], NewRule ''access_request'' [''list'', ''read''],
      NewRule ''lock'' RO]"

definition NewViewerRole :: "role result" where
  "NewViewerRole =
     on_role (with_internal_traits [''{{internal.logins}}'', ''root''])
       (NewRole ''viewer'' (preset_options False []) (preset_conditions viewer_rules) no_conditions)"

definition RoleNameForUser :: "string \<Rightarrow> string" where
  "RoleNameForUser name = ''user:'' @ name"

definition RoleForUser :: "string \<Rightarrow> role result" where
  "RoleForUser name =
     NewRole (RoleNameForUser name) (preset_options True EnhancedEvents)
       (preset_conditions
          [NewRule ''role'' RW, NewRule ''auth_connector'' RW, NewRule ''session'' RO,
           NewRule ''trusted_cluster'' RW, NewRule ''event'' RO, NewRule ''cluster_auth_preference'' RW,
           NewRule ''cluster_networking_config'' RW, NewRule ''session_recording_config'' RW,
           NewRule ''lock'' RW]) no_conditions"

definition NewDowngradedOSSAdminRole :: role where
  "NewDowngradedOSSAdminRole =
     with_internal_traits [''{{internal.logins}}'']
       \<lparr>role_Kind = KindRole, role_SubKind = [], role_Version = V3,
        role_Metadata = (named_metadata ''admin'')\<lparr>md_Namespace := default_namespace,
                          md_Labels := [(''migrate-v6.0'', ''true'')]\<rparr>,
        role_Options = preset_options True EnhancedEvents,
        role_Allow = (preset_conditions [NewRule ''event'' RO, NewRule ''session'' RO])
                        \<lparr>cond_DatabaseNames := [''{{internal.db_names}}''],
                         cond_DatabaseUsers := [''{{internal.db_users}}'']\<rparr>,
        role_Deny = no_conditions\<rparr>"

definition NewOSSGithubRole :: "string \<Rightarrow> string list \<Rightarrow> string list \<Rightarrow> string list \<Rightarrow> role result" where
  "NewOSSGithubRole uuid logins kubeUsers kubeGroups =
     on_role (\<lambda>r. SetKubeGroups Allow kubeGroups (SetKubeUsers Allow kubeUsers (SetLogins Allow logins r)))
       (NewRole (''github-'' @ uuid) (preset_options True EnhancedEvents)
          ((preset_conditions [NewRule ''event'' RO])
             \<lparr>cond_DatabaseNames := [''{{internal.db_names}}''],
              cond_DatabaseUsers := [''{{internal.db_users}}'']\<rparr>) no_conditions)"

definition RoleNameForCertAuthority :: "string \<Rightarrow> string" where
  "RoleNameForCertAuthority name = ''ca:'' @ name"

definition DefaultCertAuthorityRules :: "rule list" where
  "DefaultCertAuthorityRules =
     [NewRule ''session'' RO, NewRule ''node'' RO, NewRule ''auth_server'' RO, NewRule ''tunnel'' RO,
      NewRule ''cert_authority'' ReadNoSecrets]"

definition RoleForCertAuthority :: "string \<Rightarrow> role result" where
  "RoleForCertAuthority clusterName =
     NewRole (RoleNameForCertAuthority clusterName) (no_options\<lparr>opt_MaxSessionTTL := MaxCertDuration\<rparr>)
       (preset_conditions DefaultCertAuthorityRules) no_conditions"

section \<open>They are valid\<close>

lemma NewRole_plain:
  assumes "name \<noteq> []" "options_ok (default_options opts)" "opt_MaxSessionTTL opts = MaxCertDuration"
    "\<forall>r\<in>set rules. rule_Resources r \<noteq> [] \<and> rule_Verbs r \<noteq> []"
    "allow = (preset_conditions rules)\<lparr>cond_DatabaseNames := ns, cond_DatabaseUsers := us\<rparr>"
  shows "NewRole name opts allow no_conditions =
    Inr \<lparr>role_Kind = KindRole, role_SubKind = [], role_Version = V3,
         role_Metadata = (named_metadata name)\<lparr>md_Namespace := default_namespace\<rparr>,
         role_Options = default_options opts, role_Allow = allow,
         role_Deny = no_conditions\<lparr>cond_Namespaces := Some [default_namespace]\<rparr>\<rparr>"
proof -
  have ttl: "opt_MaxSessionTTL (default_options opts) = MaxCertDuration" "0 < MaxCertDuration"
    using assms(3) by (simp_all add: default_options_def Let_def MaxCertDuration_def second_ns_def)
  have rules: "check_rules rules = Inr ()" "check_rules [] = Inr ()"
    using assms(4) by (auto simp: check_rules_def Rule_CheckAndSetDefaults_def)
  show ?thesis
    using assms(1,2,4,5) ttl rules
    by (simp add: NewRole_def CheckAndSetDefaults_def setStaticFields_def Let_def named_metadata_def
        Metadata_CheckAndSetDefaults_def Origin_def set_defaults_def fix_session_ttl_def check_role_def
        preset_conditions_def no_conditions_def default_namespaces_def default_labels_v3_def labels_ok_def
        wildcard_labels_def Wildcard_def V3_def V4_def)
qed

lemma preset_conditions_same:
  "preset_conditions rules = (preset_conditions rules)\<lparr>cond_DatabaseNames := [], cond_DatabaseUsers := []\<rparr>"
  by (simp add: preset_conditions_def no_conditions_def)

lemma preset_options_ok [simp]:
  "options_ok (default_options (preset_options f EnhancedEvents))" "options_ok (default_options (preset_options f []))"
  "opt_MaxSessionTTL (preset_options f bpf) = MaxCertDuration"
  by (simp_all add: options_ok_def default_options_def preset_options_def no_options_def EnhancedEvents_def Let_def
      CertificateFormatStandard_def MaxCertDuration_def second_ns_def)

text \<open>The rules and namespaces of the presets.\<close>

lemma on_role_Inr: "on_role f x = Inr r' \<longleftrightarrow> (\<exists>r. x = Inr r \<and> r' = f r)"
  by (cases x) (auto simp: on_role_def)

lemma with_internal_traits_frame [simp]:
  "GetRules c (with_internal_traits ls r) = GetRules c r"
  "GetNamespaces c (with_internal_traits ls r) = GetNamespaces c r"
  "GetName (with_internal_traits ls r) = GetName r"
  by (simp_all add: with_internal_traits_def accessor_defs)

lemma NewRole_preset:
  assumes "name \<noteq> []" "options_ok (default_options opts)" "opt_MaxSessionTTL opts = MaxCertDuration"
    "\<forall>r\<in>set rules. rule_Resources r \<noteq> [] \<and> rule_Verbs r \<noteq> []"
  shows "\<exists>r. NewRole name opts (preset_conditions rules) no_conditions = Inr r \<and> GetName r = name \<and>
     GetRules Allow r = rules \<and> GetRules Deny r = [] \<and> GetNamespaces Allow r = [default_namespace]"
  unfolding NewRole_plain [OF assms preset_conditions_same]
  by (simp add: accessor_defs preset_conditions_def no_conditions_def named_metadata_def elems_def)

lemma NewAdminRole_ok:
  "\<exists>r. NewAdminRole cloud = Inr r \<and> GetName r = ''admin'' \<and>
     GetRules Allow r = getExtendedAdminUserRules cloud \<and> GetRules Deny r = [] \<and>
     GetNamespaces Allow r = [default_namespace]"
  unfolding NewAdminRole_def
  by (subst NewRole_plain [OF _ _ _ _ refl])
     (auto simp: getExtendedAdminUserRules_def NewRule_def RW_def RO_def CRUL_def on_role_def
        accessor_defs preset_conditions_def no_conditions_def with_internal_traits_def named_metadata_def elems_def)

lemma NewEditorRole_ok:
  "\<exists>r. NewEditorRole = Inr r \<and> GetName r = ''editor'' \<and> GetRules Allow r = editor_rules \<and> GetRules Deny r = [] \<and>
     GetNamespaces Allow r = [default_namespace]"
proof -
  have "\<forall>r\<in>set editor_rules. rule_Resources r \<noteq> [] \<and> rule_Verbs r \<noteq> []"
    by (auto simp: editor_rules_def NewRule_def RW_def RO_def CRUL_def)
  from NewRole_preset [OF _ _ _ this, of "''editor''" "preset_options True []"]
  show ?thesis by (auto simp: NewEditorRole_def on_role_def)
qed

lemma NewViewerRole_ok:
  "\<exists>r. NewViewerRole = Inr r \<and> GetName r = ''viewer'' \<and> GetRules Allow r = viewer_rules \<and> GetRules Deny r = [] \<and>
     GetNamespaces Allow r = [default_namespace]"
proof -
  have "\<forall>r\<in>set viewer_rules. rule_Resources r \<noteq> [] \<and> rule_Verbs r \<noteq> []"
    by (auto simp: viewer_rules_def NewRule_def RO_def)
  from NewRole_preset [OF _ _ _ this, of "''viewer''" "preset_options False []"]
  show ?thesis by (auto simp: NewViewerRole_def on_role_def)
qed

section \<open>What they let their holders do\<close>

text \<open>Rules without expressions evaluate under every parser.\<close>

lemma plain_rule_evaluates: "plain_rule r \<Longrightarrow> rule_evaluates wp ap r"
  by (simp add: plain_rule_def rule_evaluates_def matchesWhere_def)

lemma plain_rule_applies: "plain_rule r \<Longrightarrow> rule_applies wp verb r \<longleftrightarrow> HasVerb r Wildcard \<or> HasVerb r verb"
  by (simp add: plain_rule_def rule_applies_def matchesWhere_def)

lemma NewRule_plain [simp]: "plain_rule (NewRule res verbs)"
  by (simp add: NewRule_def plain_rule_def)

lemma NewRule_simps [simp]:
  "HasVerb (NewRule res verbs) v \<longleftrightarrow> v \<in> set verbs \<or> (v = VerbReadNoSecrets \<and> VerbRead \<in> set verbs)"
  "covers r (NewRule res verbs) \<longleftrightarrow> r = res \<or> res = Wildcard"
  by (auto simp: HasVerb_iff NewRule_def covers_def)

definition grants :: "rule list \<Rightarrow> string \<Rightarrow> string \<Rightarrow> bool" where
  "grants rules resource verb = (\<exists>ru\<in>set rules. covers resource ru \<and> (HasVerb ru Wildcard \<or> HasVerb ru verb))"

lemma implicit_rules_plain: "\<forall>ru\<in>set DefaultImplicitRules. plain_rule ru"
  by (simp add: DefaultImplicitRules_def)

lemma NewImplicitRole_simps [simp]:
  "GetRules Allow NewImplicitRole = DefaultImplicitRules" "GetRules Deny NewImplicitRole = []"
  "GetName NewImplicitRole = DefaultImplicitRole"
  by (simp_all add: NewImplicitRole_def accessor_defs no_conditions_def named_metadata_def)

text \<open>A user whose one role has plain allow rules, no deny rule and the default namespace can do there what
  those rules and the implicit ones grant, and nothing else.\<close>

lemma preset_access:
  assumes "GetName r \<noteq> RoleNop" "GetRules Deny r = []" "\<forall>ru\<in>set (GetRules Allow r). plain_rule ru"
    "GetNamespaces Allow r = [default_namespace]"
  shows "snd (CheckAccessToRule (NewRoleSet [ApplyTraits pa r tr]) (Inr wp) (Inr ap) namespace resource verb) = Inr ()
    \<longleftrightarrow> ProcessNamespace namespace = default_namespace \<and>
        (grants (GetRules Allow r) resource verb \<or> grants DefaultImplicitRules resource verb)"
proof -
  let ?rs = "NewRoleSet [ApplyTraits pa r tr]"
  have rs: "set ?rs = {ApplyTraits pa r tr, NewImplicitRole}"
    using assms(1) by (auto simp: NewRoleSet_def)
  have ns: "GetNamespaces Allow NewImplicitRole = [default_namespace]" "default_namespace \<noteq> Wildcard"
    by (simp_all add: NewImplicitRole_def accessor_defs elems_def default_namespace_def Wildcard_def)
  have "\<forall>x\<in>set ?rs. \<forall>ru\<in>set (GetRules Allow x) \<union> set (GetRules Deny x). rule_evaluates wp ap ru"
    using assms(2,3) implicit_rules_plain by (auto simp: rs intro: plain_rule_evaluates)
  from CheckAccessToRule_evaluates [OF this, of namespace resource verb]
  show ?thesis
    using assms(2-4) implicit_rules_plain ns
    by (auto simp: rs role_rule_applies_def grants_def plain_rule_applies MatchNamespace_def)
qed

end
