(* ===== verification/Requests.thy ===== *)
theory Requests
  imports Role_Types "HOL-Library.List_Lexorder" "HOL-Library.Char_ord" "HOL-Library.AList"
begin

text \<open>
  Access requests, \<open>api/types/access_request.go\<close>: the request and its reviews, the request state
  machine of \<open>SetState\<close>, the accessors, validation and the filters. Indexes into the threshold
  list and review counts are 32-bit words, as in the protocol messages. A map is the association list of
  its entries; strings are ordered by their bytes.
\<close>

section \<open>Data\<close>

datatype request_state = StateNone | StatePending | StateApproved | StateDenied

record access_review =
  rev_Author :: string
  rev_Roles :: "string list"
  rev_ProposedState :: request_state
  rev_Reason :: string
  rev_Created :: time
  rev_Annotations :: "(string \<times> string list) list"
  rev_ThresholdIndexes :: "32 word list"

type_synonym index_sets = "32 word list list"

record access_request =
  ar_Kind :: string
  ar_SubKind :: string
  ar_Version :: string
  ar_Metadata :: metadata
  ar_User :: string
  ar_Roles :: "string list"
  ar_State :: request_state
  ar_Created :: time
  ar_Expires :: time
  ar_RequestReason :: string
  ar_ResolveReason :: string
  ar_ResolveAnnotations :: "(string \<times> string list) list"
  ar_SystemAnnotations :: "(string \<times> string list) list"
  ar_Thresholds :: "access_review_threshold list"
  ar_RoleThresholdMapping :: "(string \<times> index_sets) list"
  ar_Reviews :: "access_review list"
  ar_SuggestedReviewers :: "string list"

definition IsNone :: "request_state \<Rightarrow> bool" where
  "IsNone s = (s = StateNone)"

definition IsPending :: "request_state \<Rightarrow> bool" where
  "IsPending s = (s = StatePending)"

definition IsApproved :: "request_state \<Rightarrow> bool" where
  "IsApproved s = (s = StateApproved)"

definition IsDenied :: "request_state \<Rightarrow> bool" where
  "IsDenied s = (s = StateDenied)"

definition IsResolved :: "request_state \<Rightarrow> bool" where
  "IsResolved s = (IsApproved s \<or> IsDenied s)"

lemmas state_defs = IsNone_def IsPending_def IsApproved_def IsDenied_def IsResolved_def

text \<open>The name of a state, and its parser.\<close>

fun state_string :: "request_state \<Rightarrow> string" where
  "state_string StateNone = ''NONE''"
| "state_string StatePending = ''PENDING''"
| "state_string StateApproved = ''APPROVED''"
| "state_string StateDenied = ''DENIED''"

definition stateVariants :: "request_state list" where
  "stateVariants = [StateNone, StatePending, StateApproved, StateDenied]"

definition Parse :: "string \<Rightarrow> request_state result" where
  "Parse val =
     (case find (\<lambda>state. state_string state = val) stateVariants of
        None \<Rightarrow> Inl BadParameter
      | Some state \<Rightarrow> Inr state)"

section \<open>Operations\<close>

definition SetState :: "request_state \<Rightarrow> access_request \<Rightarrow> access_request result" where
  "SetState state r =
     (if IsDenied (ar_State r) then
        (if IsDenied state then Inr r else Inl BadParameter)
      else Inr (r\<lparr>ar_State := state\<rparr>))"

definition request_name :: "access_request \<Rightarrow> string" where
  "request_name r = md_Name (ar_Metadata r)"

definition request_SetExpiry :: "time \<Rightarrow> access_request \<Rightarrow> access_request" where
  "request_SetExpiry t r = r\<lparr>ar_Metadata := (ar_Metadata r)\<lparr>md_Expires := Some t\<rparr>\<rparr>"

definition GetOriginalRoles :: "access_request \<Rightarrow> string list" where
  "GetOriginalRoles r =
     (let l = length (ar_RoleThresholdMapping r)
      in if l = 0 \<or> l = length (ar_Roles r) then ar_Roles r
         else sort (map fst (ar_RoleThresholdMapping r)))"

fun resolve_time_loop :: "access_review list \<Rightarrow> time \<Rightarrow> time" where
  "resolve_time_loop [] resolveTime = resolveTime"
| "resolve_time_loop (review # rest) resolveTime =
     (if rev_ProposedState review = StateApproved \<or> rev_ProposedState review = StateDenied then
        (if is_zero_time resolveTime \<or> rev_Created review > resolveTime
         then resolve_time_loop rest (rev_Created review) else resolve_time_loop rest resolveTime)
      else resolve_time_loop rest resolveTime)"

definition GetResolveTime :: "access_request \<Rightarrow> time" where
  "GetResolveTime r = resolve_time_loop (ar_Reviews r) zero_time"

definition request_CheckAndSetDefaults :: "access_request \<Rightarrow> access_request result" where
  "request_CheckAndSetDefaults r0 =
     (let r1 = r0\<lparr>ar_Kind := ''access_request'', ar_Version := V3\<rparr>
      in case Metadata_CheckAndSetDefaults (ar_Metadata r1) of
           Inl e \<Rightarrow> Inl e
         | Inr m \<Rightarrow>
             (let r2 = r1\<lparr>ar_Metadata := m\<rparr>;
                  r3 = (if IsNone (ar_State r2) then r2\<lparr>ar_State := StatePending\<rparr> else r2)
              in if IsPending (ar_State r3) \<and> ar_ResolveReason r3 \<noteq> [] then Inl BadParameter
                 else if IsPending (ar_State r3) \<and> ar_ResolveAnnotations r3 \<noteq> [] then Inl BadParameter
                 else if ar_User r3 = [] then Inl BadParameter
                 else if ar_Roles r3 = [] then Inl BadParameter
                 else Inr (r3\<lparr>ar_Roles := sort (Deduplicate (ar_Roles r3))\<rparr>)))"

definition types_NewAccessRequest :: "string \<Rightarrow> string \<Rightarrow> string list \<Rightarrow> access_request result" where
  "types_NewAccessRequest name user roles =
     request_CheckAndSetDefaults
       \<lparr>ar_Kind = [], ar_SubKind = [], ar_Version = [], ar_Metadata = named_metadata name,
        ar_User = user, ar_Roles = roles, ar_State = StateNone, ar_Created = zero_time,
        ar_Expires = zero_time, ar_RequestReason = [], ar_ResolveReason = [], ar_ResolveAnnotations = [],
        ar_SystemAnnotations = [], ar_Thresholds = [], ar_RoleThresholdMapping = [], ar_Reviews = [],
        ar_SuggestedReviewers = []\<rparr>"

text \<open>\<open>ValidateAccessRequest\<close> and \<open>NewAccessRequest\<close> of \<open>lib/services\<close>: the vendored UUID
  parser and a fresh UUID are arguments.\<close>

definition ValidateAccessRequest :: "(string \<Rightarrow> bool) \<Rightarrow> access_request \<Rightarrow> access_request result" where
  "ValidateAccessRequest is_uuid ar =
     (case request_CheckAndSetDefaults ar of
        Inl e \<Rightarrow> Inl e
      | Inr ar1 \<Rightarrow> if \<not> is_uuid (request_name ar1) then Inl BadParameter else Inr ar1)"

definition NewAccessRequest :: "(string \<Rightarrow> bool) \<Rightarrow> string \<Rightarrow> string \<Rightarrow> string list \<Rightarrow> access_request result" where
  "NewAccessRequest is_uuid uuid user roles =
     (case types_NewAccessRequest uuid user roles of
        Inl e \<Rightarrow> Inl e
      | Inr req \<Rightarrow> ValidateAccessRequest is_uuid req)"

definition RequestIDs_Check :: "(string \<Rightarrow> bool) \<Rightarrow> string list \<Rightarrow> unit result" where
  "RequestIDs_Check is_uuid ids = (if \<forall>i\<in>set ids. is_uuid i then Inr () else Inl BadParameter)"

section \<open>Updates, strategies and filters\<close>

record access_request_update =
  upd_RequestID :: string
  upd_State :: request_state
  upd_Reason :: string
  upd_Annotations :: "(string \<times> string list) list"
  upd_Roles :: "string list"

definition update_Check :: "access_request_update \<Rightarrow> unit result" where
  "update_Check u =
     (if upd_RequestID u = [] then Inl BadParameter
      else if IsNone (upd_State u) then Inl BadParameter
      else if length (upd_Roles u) > 0 \<and> \<not> IsApproved (upd_State u) then Inl BadParameter
      else Inr ())"

record access_review_submission =
  sub_RequestID :: string
  sub_Review :: access_review

definition submission_Check :: "access_review_submission \<Rightarrow> unit result" where
  "submission_Check s =
     (if sub_RequestID s = [] then Inl BadParameter
      else if rev_Author (sub_Review s) = [] then Inl BadParameter else Inr ())"

definition RequestStrategyReason :: string where
  "RequestStrategyReason = ''reason''"

definition RequestStrategyAlways :: string where
  "RequestStrategyAlways = ''always''"

definition ShouldAutoRequest :: "string \<Rightarrow> bool" where
  "ShouldAutoRequest s = (s = RequestStrategyReason \<or> s = RequestStrategyAlways)"

definition RequireReason :: "string \<Rightarrow> bool" where
  "RequireReason s = (s = RequestStrategyReason)"

record access_request_filter =
  flt_ID :: string
  flt_User :: string
  flt_State :: request_state

definition IntoMap :: "access_request_filter \<Rightarrow> (string \<times> string) list" where
  "IntoMap f =
     (let m0 = [];
          m1 = (if flt_ID f \<noteq> [] then AList.update ''id'' (flt_ID f) m0 else m0);
          m2 = (if flt_User f \<noteq> [] then AList.update ''user'' (flt_User f) m1 else m1)
      in if \<not> IsNone (flt_State f) then AList.update ''state'' (state_string (flt_State f)) m2 else m2)"

fun FromMap :: "access_request_filter \<Rightarrow> (string \<times> string) list \<Rightarrow> access_request_filter result" where
  "FromMap f [] = Inr f"
| "FromMap f ((key, val) # rest) =
     (if key = ''id'' then FromMap (f\<lparr>flt_ID := val\<rparr>) rest
      else if key = ''user'' then FromMap (f\<lparr>flt_User := val\<rparr>) rest
      else if key = ''state'' then
        (case Parse val of Inl e \<Rightarrow> Inl e | Inr s \<Rightarrow> FromMap (f\<lparr>flt_State := s\<rparr>) rest)
      else Inl BadParameter)"

definition filter_Match :: "access_request_filter \<Rightarrow> access_request \<Rightarrow> bool" where
  "filter_Match f req =
     (if flt_ID f \<noteq> [] \<and> request_name req \<noteq> flt_ID f then False
      else if flt_User f \<noteq> [] \<and> ar_User req \<noteq> flt_User f then False
      else if \<not> IsNone (flt_State f) \<and> ar_State req \<noteq> flt_State f then False
      else True)"

section \<open>Facts\<close>

lemma Parse_state_string [simp]: "Parse (state_string s) = Inr s"
  by (cases s) (simp_all add: Parse_def stateVariants_def)

lemma Parse_Inr: "Parse val = Inr s \<Longrightarrow> state_string s = val"
  by (auto simp: Parse_def stateVariants_def split: if_splits option.splits)

lemma FromMap_IntoMap:
  "FromMap \<lparr>flt_ID = [], flt_User = [], flt_State = StateNone\<rparr> (IntoMap f) = Inr f"
  by (cases f) (simp add: IntoMap_def Let_def IsNone_def)

lemma SetState_denied_final:
  "SetState s r = Inr r' \<Longrightarrow> ar_State r = StateDenied \<Longrightarrow> r' = r"
  by (auto simp: SetState_def IsDenied_def split: if_splits)

lemma SetState_Inr: "ar_State r \<noteq> StateDenied \<Longrightarrow> SetState s r = Inr (r\<lparr>ar_State := s\<rparr>)"
  by (simp add: SetState_def IsDenied_def)

definition valid_request :: "access_request \<Rightarrow> bool" where
  "valid_request r \<longleftrightarrow> request_name r \<noteq> [] \<and> ar_User r \<noteq> [] \<and> ar_Roles r \<noteq> [] \<and>
     sorted (ar_Roles r) \<and> distinct (ar_Roles r) \<and> ar_State r \<noteq> StateNone \<and>
     (ar_State r = StatePending \<longrightarrow> ar_ResolveReason r = [] \<and> ar_ResolveAnnotations r = [])"

lemma request_check_Inr:
  "request_CheckAndSetDefaults r = Inr r' \<longleftrightarrow>
     (\<exists>m. Metadata_CheckAndSetDefaults (ar_Metadata r) = Inr m \<and>
        r' = r\<lparr>ar_Kind := ''access_request'', ar_Version := V3, ar_Metadata := m,
               ar_State := (if ar_State r = StateNone then StatePending else ar_State r),
               ar_Roles := sort (Deduplicate (ar_Roles r))\<rparr> \<and>
        (ar_State r \<in> {StateNone, StatePending} \<longrightarrow> ar_ResolveReason r = [] \<and> ar_ResolveAnnotations r = []) \<and>
        ar_User r \<noteq> [] \<and> ar_Roles r \<noteq> [])"
  by (cases "Metadata_CheckAndSetDefaults (ar_Metadata r)")
     (auto simp: request_CheckAndSetDefaults_def Let_def state_defs split: if_splits)

lemma sort_eq_Nil [simp]: "sort xs = [] \<longleftrightarrow> xs = []"
  by (metis length_0_conv length_sort)

lemma request_check_valid: "request_CheckAndSetDefaults r = Inr r' \<Longrightarrow> valid_request r'"
  using Metadata_check_Inr [of "ar_Metadata r"]
  by (auto simp: request_check_Inr valid_request_def request_name_def split: if_splits)

lemma Deduplicate_distinct: "distinct xs \<Longrightarrow> Deduplicate xs = xs"
proof -
  have "distinct xs \<Longrightarrow> set xs \<inter> set seen = {} \<Longrightarrow> dedup_from seen xs = xs" for seen
    by (induction xs arbitrary: seen) auto
  then show "distinct xs \<Longrightarrow> Deduplicate xs = xs" by (simp add: Deduplicate_def)
qed

lemma request_check_idem:
  assumes "request_CheckAndSetDefaults r = Inr r'"
  shows "request_CheckAndSetDefaults r' = Inr r'"
proof -
  have v: "valid_request r'" using assms by (rule request_check_valid)
  have "Metadata_CheckAndSetDefaults (ar_Metadata r') = Inr (ar_Metadata r')"
    using assms Metadata_check_Inr [of "ar_Metadata r"] by (auto simp: request_check_Inr)
  moreover have "ar_Kind r' = ''access_request''" "ar_Version r' = V3"
    using assms by (auto simp: request_check_Inr)
  moreover have "sort (Deduplicate (ar_Roles r')) = ar_Roles r'"
    using v by (simp add: valid_request_def Deduplicate_distinct sorted_sort_id)
  ultimately show ?thesis
    using v by (cases r') (auto simp: request_check_Inr valid_request_def)
qed

end
