(* ===== verification/Reviews.thy ===== *)
theory Reviews
  imports Requests Rules
begin

text \<open>
  Access reviews, \<open>lib/services/access_request.go\<close>: \<open>ApplyAccessReview\<close> with its
  compatibility checks, the thresholds a review counts towards, and the resolution the reviews of a
  request reach. The parser of threshold filters, built by the vendored \<open>predicate\<close> package from
  the review and the request, is an argument. The specification counts reviews with natural numbers;
  the code counts in 32-bit words.
\<close>

section \<open>Checks of a review\<close>

definition checkReviewCompat :: "access_request \<Rightarrow> access_review \<Rightarrow> unit result" where
  "checkReviewCompat req rev1 =
     (if \<not> IsApproved (rev_ProposedState rev1) \<and> \<not> IsDenied (rev_ProposedState rev1) then Inl BadParameter
      else if ar_Thresholds req = [] then Inl BadParameter
      else if \<exists>existing\<in>set (ar_Reviews req). rev_Author existing = rev_Author rev1 then Inl AccessDenied
      else
        (let rtm = ar_RoleThresholdMapping req
         in if rev_Roles rev1 \<noteq> [] \<and> length (rev_Roles rev1) \<noteq> length rtm then Inl NotImplemented
            else if rev_Annotations rev1 \<noteq> [] then Inl NotImplemented
            else if \<exists>role1\<in>set (rev_Roles rev1). map_of rtm role1 = None then Inl BadParameter
            else Inr ()))"

type_synonym filter_parser = "access_request \<Rightarrow> access_review \<Rightarrow> predicate_parser result"

definition accessReviewThresholdMatchesFilter :: "access_review_threshold \<Rightarrow> predicate_parser \<Rightarrow>
    bool result" where
  "accessReviewThresholdMatchesFilter t parser =
     (if th_Filter t = [] then Inr True
      else case parser (th_Filter t) of
             Inl e \<Rightarrow> Inl e
           | Inr ifn \<Rightarrow> (case ifn of BoolPredicate b \<Rightarrow> Inr b | OtherValue \<Rightarrow> Inl BadParameter))"

fun collect_indexes_loop :: "predicate_parser \<Rightarrow> nat \<Rightarrow> access_review_threshold list \<Rightarrow> 32 word list result" where
  "collect_indexes_loop parser i [] = Inr []"
| "collect_indexes_loop parser i (t # ts) =
     (case accessReviewThresholdMatchesFilter t parser of
        Inl e \<Rightarrow> Inl e
      | Inr match \<Rightarrow>
          if \<not> match then collect_indexes_loop parser (Suc i) ts
          else
            (let tid = (of_nat i :: 32 word)
             in if unat tid \<noteq> i then Inl Unclassified
                else case collect_indexes_loop parser (Suc i) ts of
                       Inl e \<Rightarrow> Inl e
                     | Inr tids \<Rightarrow> Inr (tid # tids)))"

definition collectReviewThresholdIndexes :: "filter_parser \<Rightarrow> access_request \<Rightarrow> access_review \<Rightarrow>
    32 word list result" where
  "collectReviewThresholdIndexes newThresholdFilterParser req rev1 =
     (case newThresholdFilterParser req rev1 of
        Inl e \<Rightarrow> Inl e
      | Inr parser \<Rightarrow> collect_indexes_loop parser 0 (ar_Thresholds req))"

section \<open>The resolution\<close>

type_synonym review_counts = "(32 word \<times> 32 word) list"

fun count_indexes :: "nat \<Rightarrow> request_state \<Rightarrow> 32 word list \<Rightarrow> review_counts \<Rightarrow> review_counts result" where
  "count_indexes n proposed [] counts = Inr counts"
| "count_indexes n proposed (tid # tids) counts =
     (let idx = unat tid
      in if n \<le> idx then Inl Unclassified
         else
           (let (approval, denial) = counts ! idx
            in if IsApproved proposed then
                 count_indexes n proposed tids (counts[idx := (approval + 1, denial)])
               else if IsDenied proposed then
                 count_indexes n proposed tids (counts[idx := (approval, denial + 1)])
               else Inl BadParameter))"

definition denial_reached :: "access_review_threshold list \<Rightarrow> review_counts \<Rightarrow> bool" where
  "denial_reached thresholds counts =
     (\<exists>i\<in>{0..<length thresholds}.
        snd (counts ! i) \<ge> th_Deny (thresholds ! i) \<and> th_Deny (thresholds ! i) \<noteq> 0)"

definition set_reached :: "access_review_threshold list \<Rightarrow> review_counts \<Rightarrow> 32 word list \<Rightarrow> bool result" where
  "set_reached thresholds counts tset =
     ex_res (\<lambda>tid. let idx = unat tid
                   in if length thresholds \<le> idx then Inl Unclassified
                      else (let t = thresholds ! idx
                            in Inr (fst (counts ! idx) \<ge> th_Approve t \<and> th_Approve t \<noteq> 0))) tset"

text \<open>The roles in the order the iteration visits them; the Boolean says that none was left unmet.\<close>

fun check_role_approvals :: "access_review_threshold list \<Rightarrow> review_counts \<Rightarrow> (string \<times> index_sets) list \<Rightarrow>
    string list \<Rightarrow> (string list \<times> bool) result" where
  "check_role_approvals thresholds counts [] approved = Inr (approved, True)"
| "check_role_approvals thresholds counts ((role1, sets) # rest) approved =
     (if role1 \<in> set approved then check_role_approvals thresholds counts rest approved
      else case all_res (set_reached thresholds counts) sets of
             Inl e \<Rightarrow> Inl e
           | Inr met \<Rightarrow>
               if met then check_role_approvals thresholds counts rest (approved @ [role1])
               else Inr (approved, False))"

fun process_reviews :: "access_review_threshold list \<Rightarrow> (string \<times> index_sets) list \<Rightarrow> access_review \<Rightarrow>
    string list \<Rightarrow> review_counts \<Rightarrow> access_review list \<Rightarrow> (access_review \<times> bool \<times> string list) result" where
  "process_reviews thresholds rtm lastReview approved counts [] = Inr (lastReview, False, approved)"
| "process_reviews thresholds rtm lastReview approved counts (rev1 # rest) =
     (case count_indexes (length thresholds) (rev_ProposedState rev1) (rev_ThresholdIndexes rev1) counts of
        Inl e \<Rightarrow> Inl e
      | Inr counts1 \<Rightarrow>
          if denial_reached thresholds counts1 then Inr (rev1, True, approved)
          else
            (case check_role_approvals thresholds counts1 rtm approved of
               Inl e \<Rightarrow> Inl e
             | Inr (approved1, complete) \<Rightarrow>
                 if complete then Inr (rev1, False, approved1)
                 else process_reviews thresholds rtm rev1 approved1 counts1 rest))"

record request_resolution =
  res_state :: request_state
  res_reason :: string

definition calculateReviewBasedResolution :: "access_request \<Rightarrow> request_resolution option result" where
  "calculateReviewBasedResolution req =
     (let thresholds = ar_Thresholds req; reviews = ar_Reviews req; rtm = ar_RoleThresholdMapping req
      in if thresholds = [] \<or> reviews = [] then Inr None
         else case process_reviews thresholds rtm (hd reviews) [] (replicate (length thresholds) (0, 0)) reviews of
                Inl e \<Rightarrow> Inl e
              | Inr (lastReview, denied, approved) \<Rightarrow>
                  if IsApproved (rev_ProposedState lastReview) then
                    (if length approved \<noteq> length rtm then Inr None
                     else Inr (Some \<lparr>res_state = rev_ProposedState lastReview,
                                     res_reason = rev_Reason lastReview\<rparr>))
                  else if IsDenied (rev_ProposedState lastReview) then
                    (if \<not> denied then Inr None
                     else Inr (Some \<lparr>res_state = rev_ProposedState lastReview,
                                     res_reason = rev_Reason lastReview\<rparr>))
                  else Inl BadParameter)"

text \<open>The end of \<open>ApplyAccessReview\<close>: a pending request takes the state its reviews resolve
  to.\<close>

definition settle_request :: "access_request \<Rightarrow> access_request result" where
  "settle_request req =
     (if \<not> IsPending (ar_State req) then Inr req
      else case calculateReviewBasedResolution req of
             Inl e \<Rightarrow> Inl e
           | Inr None \<Rightarrow> Inr req
           | Inr (Some res) \<Rightarrow>
               (let req2 = (case SetState (res_state res) req of Inl e \<Rightarrow> req | Inr r \<Rightarrow> r);
                    req3 = req2\<lparr>ar_ResolveReason := res_reason res\<rparr>
                in Inr (request_SetExpiry (ar_Expires req3) req3)))"

text \<open>The request after the review; the callers drop the request when there is an error.\<close>

definition ApplyAccessReview :: "filter_parser \<Rightarrow> access_request \<Rightarrow> access_review \<Rightarrow> string \<Rightarrow>
    access_request result" where
  "ApplyAccessReview newThresholdFilterParser req rev0 author =
     (if rev_Author rev0 \<noteq> author then Inl BadParameter
      else
        (let rev1 = rev0\<lparr>rev_Roles := sort (Deduplicate (rev_Roles rev0))\<rparr>
         in case checkReviewCompat req rev1 of
              Inl e \<Rightarrow> Inl e
            | Inr _ \<Rightarrow>
                (case collectReviewThresholdIndexes newThresholdFilterParser req rev1 of
                   Inl e \<Rightarrow> Inl e
                 | Inr tids \<Rightarrow>
                     settle_request
                       (req\<lparr>ar_Reviews := ar_Reviews req @ [rev1\<lparr>rev_ThresholdIndexes := tids\<rparr>]\<rparr>))))"

section \<open>The specification\<close>

text \<open>The approvals and denials a threshold has gathered.\<close>

definition votes :: "request_state \<Rightarrow> nat \<Rightarrow> access_review list \<Rightarrow> nat" where
  "votes st i revs =
     sum_list (map (\<lambda>rev1. if rev_ProposedState rev1 = st
                           then count_list (map unat (rev_ThresholdIndexes rev1)) i else 0) revs)"

definition hits_denial :: "access_review_threshold list \<Rightarrow> access_review list \<Rightarrow> bool" where
  "hits_denial thresholds revs \<longleftrightarrow>
     (\<exists>i<length thresholds. th_Deny (thresholds ! i) \<noteq> 0 \<and>
        unat (th_Deny (thresholds ! i)) \<le> votes StateDenied i revs)"

definition set_hit :: "access_review_threshold list \<Rightarrow> access_review list \<Rightarrow> 32 word list \<Rightarrow> bool" where
  "set_hit thresholds revs tset \<longleftrightarrow>
     (\<exists>tid\<in>set tset. th_Approve (thresholds ! unat tid) \<noteq> 0 \<and>
        unat (th_Approve (thresholds ! unat tid)) \<le> votes StateApproved (unat tid) revs)"

definition hits_approval :: "access_review_threshold list \<Rightarrow> (string \<times> index_sets) list \<Rightarrow>
    access_review list \<Rightarrow> bool" where
  "hits_approval thresholds rtm revs \<longleftrightarrow> (\<forall>(role1, sets)\<in>set rtm. \<forall>s\<in>set sets. set_hit thresholds revs s)"

text \<open>The first review at which a denial or the approval of every role is reached.\<close>

fun first_trigger :: "access_review_threshold list \<Rightarrow> (string \<times> index_sets) list \<Rightarrow> access_review list \<Rightarrow>
    access_review list \<Rightarrow> access_review option" where
  "first_trigger thresholds rtm seen [] = None"
| "first_trigger thresholds rtm seen (rev1 # rest) =
     (if hits_denial thresholds (seen @ [rev1]) \<or> hits_approval thresholds rtm (seen @ [rev1])
      then Some rev1 else first_trigger thresholds rtm (seen @ [rev1]) rest)"

section \<open>Counting\<close>

definition vote_counts :: "nat \<Rightarrow> (nat \<Rightarrow> nat) \<Rightarrow> (nat \<Rightarrow> nat) \<Rightarrow> review_counts" where
  "vote_counts n a d = map (\<lambda>i. (of_nat (a i), of_nat (d i))) [0..<n]"

definition added :: "request_state \<Rightarrow> request_state \<Rightarrow> 32 word list \<Rightarrow> nat \<Rightarrow> nat" where
  "added st proposed tids i = (if proposed = st then count_list (map unat tids) i else 0)"

lemma vote_counts_simps [simp]:
  "length (vote_counts n a d) = n"
  "i < n \<Longrightarrow> vote_counts n a d ! i = (of_nat (a i), of_nat (d i))"
  by (simp_all add: vote_counts_def)

lemma vote_counts_update:
  "i < n \<Longrightarrow> (vote_counts n a d)[i := (of_nat x, of_nat y)] = vote_counts n (a(i := x)) (d(i := y))"
  by (rule nth_equalityI) (auto simp: nth_list_update)

lemma count_indexes_votes:
  assumes "proposed \<in> {StateApproved, StateDenied}" "\<forall>tid\<in>set tids. unat tid < n"
  shows "count_indexes n proposed tids (vote_counts n a d) =
    Inr (vote_counts n (\<lambda>i. a i + added StateApproved proposed tids i)
                       (\<lambda>i. d i + added StateDenied proposed tids i))"
  using assms(2)
proof (induction tids arbitrary: a d)
  case Nil
  then show ?case by (simp add: added_def cong: if_cong)
next
  case (Cons tid tids)
  let ?i = "unat tid"
  have i: "?i < n" and IH: "\<forall>tid\<in>set tids. unat tid < n" using Cons.prems by auto
  show ?case
  proof (cases "proposed = StateApproved")
    case True
    have "(vote_counts n a d)[?i := (of_nat (a ?i) + 1, of_nat (d ?i))] = vote_counts n (a(?i := Suc (a ?i))) d"
      using vote_counts_update [OF i, of a d "Suc (a ?i)" "d ?i"] by (simp add: add.commute)
    then have "count_indexes n proposed (tid # tids) (vote_counts n a d) =
        count_indexes n proposed tids (vote_counts n (a(?i := Suc (a ?i))) d)"
      using i True by (simp add: state_defs Let_def)
    also have "\<dots> = Inr (vote_counts n (\<lambda>j. a j + added StateApproved proposed (tid # tids) j)
                       (\<lambda>j. d j + added StateDenied proposed (tid # tids) j))"
      unfolding Cons.IH [OF IH] using True by (auto simp: added_def vote_counts_def)
    finally show ?thesis .
  next
    case False
    then have p: "proposed = StateDenied" using assms(1) by simp
    have "(vote_counts n a d)[?i := (of_nat (a ?i), of_nat (d ?i) + 1)] = vote_counts n a (d(?i := Suc (d ?i)))"
      using vote_counts_update [OF i, of a d "a ?i" "Suc (d ?i)"] by (simp add: add.commute)
    then have "count_indexes n proposed (tid # tids) (vote_counts n a d) =
        count_indexes n proposed tids (vote_counts n a (d(?i := Suc (d ?i))))"
      using i p by (simp add: state_defs Let_def)
    also have "\<dots> = Inr (vote_counts n (\<lambda>j. a j + added StateApproved proposed (tid # tids) j)
                       (\<lambda>j. d j + added StateDenied proposed (tid # tids) j))"
      unfolding Cons.IH [OF IH] using p by (auto simp: added_def vote_counts_def)
    finally show ?thesis .
  qed
qed

definition tally :: "nat \<Rightarrow> access_review list \<Rightarrow> review_counts" where
  "tally n revs = vote_counts n (\<lambda>i. votes StateApproved i revs) (\<lambda>i. votes StateDenied i revs)"

lemma votes_snoc [simp]:
  "votes st i (revs @ [rev1]) = votes st i revs + added st (rev_ProposedState rev1) (rev_ThresholdIndexes rev1) i"
  by (simp add: votes_def added_def)

lemma votes_Nil [simp]: "votes st i [] = 0"
  by (simp add: votes_def)

lemma votes_append: "votes st i (xs @ ys) = votes st i xs + votes st i ys"
  by (simp add: votes_def)

lemma tally_Nil: "tally n [] = replicate n (0, 0)"
  by (simp add: tally_def vote_counts_def map_replicate_const)

definition review_ok :: "nat \<Rightarrow> access_review \<Rightarrow> bool" where
  "review_ok n rev1 \<longleftrightarrow> rev_ProposedState rev1 \<in> {StateApproved, StateDenied} \<and>
     (\<forall>tid\<in>set (rev_ThresholdIndexes rev1). unat tid < n)"

lemma count_indexes_tally:
  "review_ok n rev1 \<Longrightarrow>
     count_indexes n (rev_ProposedState rev1) (rev_ThresholdIndexes rev1) (tally n revs) =
       Inr (tally n (revs @ [rev1]))"
  unfolding tally_def votes_snoc review_ok_def by (rule count_indexes_votes) auto

text \<open>The word comparisons are the comparisons of the counts, as long as no count wraps.\<close>

lemma le_of_nat_word: "x \<le> (of_nat k :: 32 word) \<Longrightarrow> unat x \<le> k"
  by (simp add: word_le_nat_alt unat_of_nat)

lemma of_nat_word_le: "unat (x :: 32 word) \<le> k \<Longrightarrow> k < 2 ^ 32 \<Longrightarrow> x \<le> of_nat k"
  by (simp add: word_le_nat_alt unat_of_nat)

definition counts_fit :: "nat \<Rightarrow> access_review list \<Rightarrow> bool" where
  "counts_fit n revs \<longleftrightarrow> (\<forall>i<n. \<forall>st. votes st i revs < 2 ^ 32)"

lemma denial_reached_tally:
  assumes "counts_fit (length thresholds) revs"
  shows "denial_reached thresholds (tally (length thresholds) revs) \<longleftrightarrow> hits_denial thresholds revs"
proof -
  have "th_Deny (thresholds ! i) \<le> (of_nat (votes StateDenied i revs) :: 32 word) \<longleftrightarrow>
      unat (th_Deny (thresholds ! i)) \<le> votes StateDenied i revs" if "i < length thresholds" for i
    using assms that le_of_nat_word of_nat_word_le by (auto simp: counts_fit_def)
  then show ?thesis
    by (auto simp: denial_reached_def hits_denial_def tally_def)
qed

lemma set_reached_tally:
  assumes "counts_fit (length thresholds) revs" "\<forall>tid\<in>set tset. unat tid < length thresholds"
  shows "set_reached thresholds (tally (length thresholds) revs) tset = Inr (set_hit thresholds revs tset)"
proof -
  have "th_Approve (thresholds ! i) \<le> (of_nat (votes StateApproved i revs) :: 32 word) \<longleftrightarrow>
      unat (th_Approve (thresholds ! i)) \<le> votes StateApproved i revs" if "i < length thresholds" for i
    using assms(1) that le_of_nat_word of_nat_word_le by (auto simp: counts_fit_def)
  then show ?thesis
    unfolding set_reached_def set_hit_def
    by (subst ex_res_total) (use assms(2) in \<open>auto simp: tally_def Let_def\<close>)
qed

section \<open>Processing reviews finds the first trigger\<close>

definition sets_ok :: "nat \<Rightarrow> (string \<times> index_sets) list \<Rightarrow> bool" where
  "sets_ok n rtm \<longleftrightarrow> (\<forall>(role1, sets)\<in>set rtm. \<forall>s\<in>set sets. \<forall>tid\<in>set s. unat tid < n)"

definition met_roles :: "access_review_threshold list \<Rightarrow> (string \<times> index_sets) list \<Rightarrow> access_review list \<Rightarrow>
    string set" where
  "met_roles thresholds rtm revs = fst ` {e \<in> set rtm. \<forall>s\<in>set (snd e). set_hit thresholds revs s}"

lemma votes_mono: "votes st i revs \<le> votes st i (revs @ later)"
  by (simp add: votes_append)

lemma set_hit_mono: "set_hit thresholds revs s \<Longrightarrow> set_hit thresholds (revs @ later) s"
  unfolding set_hit_def using votes_mono le_trans by blast

lemma met_roles_mono: "met_roles thresholds rtm revs \<subseteq> met_roles thresholds rtm (revs @ later)"
  by (auto simp: met_roles_def set_hit_mono)

lemma hits_approval_met:
  "distinct (map fst rtm) \<Longrightarrow>
     hits_approval thresholds rtm revs \<longleftrightarrow> fst ` set rtm \<subseteq> met_roles thresholds rtm revs"
proof (intro iffI subsetI)
  fix role1
  assume "hits_approval thresholds rtm revs" "role1 \<in> fst ` set rtm"
  then show "role1 \<in> met_roles thresholds rtm revs"
    by (force simp: hits_approval_def met_roles_def)
next
  assume d: "distinct (map fst rtm)" and sub: "fst ` set rtm \<subseteq> met_roles thresholds rtm revs"
  have "\<forall>s\<in>set sets. set_hit thresholds revs s" if e: "(role1, sets) \<in> set rtm" for role1 sets
  proof -
    have "role1 \<in> met_roles thresholds rtm revs" using sub e by force
    then obtain sets' where s': "(role1, sets') \<in> set rtm" "\<forall>s\<in>set sets'. set_hit thresholds revs s"
      by (auto simp: met_roles_def)
    have "sets' = sets" using eq_key_imp_eq_value [OF d s'(1) e] .
    with s'(2) show ?thesis by simp
  qed
  then show "hits_approval thresholds rtm revs" by (auto simp: hits_approval_def)
qed

definition approvals_checked :: "access_review_threshold list \<Rightarrow> access_review list \<Rightarrow>
    (string \<times> index_sets) list \<Rightarrow> string list \<Rightarrow> string list \<times> bool \<Rightarrow> bool" where
  "approvals_checked thresholds revs rtm approved = (\<lambda>(approved1, complete).
     distinct approved1 \<and> set approved \<subseteq> set approved1 \<and>
     set approved1 \<subseteq> set approved \<union> met_roles thresholds rtm revs \<and>
     (complete \<longleftrightarrow> fst ` set rtm \<subseteq> set approved1) \<and>
     (complete \<longleftrightarrow> fst ` set rtm \<subseteq> set approved \<union> met_roles thresholds rtm revs))"

lemma met_roles_Cons:
  "met_roles thresholds ((role1, sets) # rtm) revs =
      (if \<forall>s\<in>set sets. set_hit thresholds revs s then insert role1 (met_roles thresholds rtm revs)
       else met_roles thresholds rtm revs)"
  by (force simp: met_roles_def)

lemma check_role_approvals_spec:
  assumes "counts_fit (length thresholds) revs" "sets_ok (length thresholds) rtm"
    "distinct (map fst rtm)" "distinct approved"
  shows "\<exists>res. check_role_approvals thresholds (tally (length thresholds) revs) rtm approved = Inr res \<and>
    approvals_checked thresholds revs rtm approved res"
  using assms(2-4)
proof (induction rtm arbitrary: approved)
  case Nil
  then show ?case by (simp add: met_roles_def approvals_checked_def)
next
  case (Cons e rtm)
  obtain role1 sets where e: "e = (role1, sets)" by (cases e)
  let ?M = "met_roles thresholds rtm revs" and ?K = "fst ` set rtm"
  let ?hit = "\<forall>s\<in>set sets. set_hit thresholds revs s"
  have ok: "sets_ok (length thresholds) rtm" "distinct (map fst rtm)" "role1 \<notin> ?K"
    using Cons.prems by (auto simp: e sets_ok_def)
  have sets: "all_res (set_reached thresholds (tally (length thresholds) revs)) sets = Inr ?hit"
    by (rule all_res_total) (use Cons.prems(1) in \<open>auto simp: e sets_ok_def intro!: set_reached_tally [OF assms(1)]\<close>)
  have notin: "role1 \<notin> ?M" using ok(3) by (auto simp: met_roles_def)
  consider "role1 \<in> set approved" | "role1 \<notin> set approved" ?hit | "role1 \<notin> set approved" "\<not> ?hit" by blast
  then show ?case
  proof cases
    case 1
    obtain ap c where r:
      "check_role_approvals thresholds (tally (length thresholds) revs) rtm approved = Inr (ap, c)"
      "approvals_checked thresholds revs rtm approved (ap, c)"
      using Cons.IH [OF ok(1,2) Cons.prems(3)] by force
    have m: "set approved \<union> met_roles thresholds (e # rtm) revs = set approved \<union> ?M"
      unfolding e met_roles_Cons using 1 by auto
    have "role1 \<in> set ap" using 1 r(2) by (auto simp: approvals_checked_def)
    then have "approvals_checked thresholds revs (e # rtm) approved (ap, c)"
      using 1 r(2) unfolding approvals_checked_def prod.case m by (simp add: e) metis
    with 1 r(1) show ?thesis by (simp add: e)
  next
    case 2
    have "distinct (approved @ [role1])" using Cons.prems(3) 2(1) by simp
    from Cons.IH [OF ok(1,2) this] obtain ap c where r:
      "check_role_approvals thresholds (tally (length thresholds) revs) rtm (approved @ [role1]) = Inr (ap, c)"
      "approvals_checked thresholds revs rtm (approved @ [role1]) (ap, c)"
      by force
    have m: "met_roles thresholds (e # rtm) revs = insert role1 ?M" using 2(2) by (simp add: e met_roles_Cons)
    have "approvals_checked thresholds revs (e # rtm) approved (ap, c)"
      using r(2) unfolding approvals_checked_def m prod.case by (simp add: e) metis
    moreover have "check_role_approvals thresholds (tally (length thresholds) revs) (e # rtm) approved = Inr (ap, c)"
      using 2 sets r(1) by (simp add: e)
    ultimately show ?thesis by blast
  next
    case 3
    have "all_res (set_reached thresholds (tally (length thresholds) revs)) sets = Inr False"
      unfolding sets using 3(2) by blast
    with 3(1) have "check_role_approvals thresholds (tally (length thresholds) revs) (e # rtm) approved =
        Inr (approved, False)"
      by (simp add: e)
    moreover have m: "met_roles thresholds (e # rtm) revs = ?M" using 3(2) by (simp only: e met_roles_Cons if_False)
    have "approvals_checked thresholds revs (e # rtm) approved (approved, False)"
      unfolding approvals_checked_def m using 3(1) notin Cons.prems(3) by (simp add: e)
    ultimately show ?thesis by blast
  qed
qed

lemma length_less_keys:
  assumes "distinct approved" "set approved \<subseteq> fst ` set rtm" "\<not> fst ` set rtm \<subseteq> set approved"
  shows "length approved < length rtm"
proof -
  have "set approved \<subset> fst ` set rtm" using assms by auto
  then have "card (set approved) < card (fst ` set rtm)" by (intro psubset_card_mono) auto
  also have "\<dots> \<le> length rtm" by (metis card_length length_map set_map)
  finally show ?thesis using assms(1) by (simp add: distinct_card)
qed

definition request_ok :: "access_review_threshold list \<Rightarrow> (string \<times> index_sets) list \<Rightarrow> bool" where
  "request_ok thresholds rtm \<longleftrightarrow> thresholds \<noteq> [] \<and> sets_ok (length thresholds) rtm \<and> distinct (map fst rtm) \<and>
     (\<exists>(role1, sets)\<in>set rtm. sets \<noteq> [])"

lemma counts_fit_prefix: "counts_fit n (xs @ ys) \<Longrightarrow> counts_fit n xs"
  unfolding counts_fit_def votes_append by (meson add_lessD1)

definition outcome_ok :: "access_review_threshold list \<Rightarrow> (string \<times> index_sets) list \<Rightarrow> access_review list \<Rightarrow>
    access_review list \<Rightarrow> access_review \<Rightarrow> access_review \<times> bool \<times> string list \<Rightarrow> bool" where
  "outcome_ok thresholds rtm seen rest lastReview = (\<lambda>(lastRev, denied, approved1).
     (case first_trigger thresholds rtm seen rest of
       None \<Rightarrow> lastRev = last (lastReview # rest) \<and> \<not> denied \<and> length approved1 < length rtm
     | Some rev1 \<Rightarrow> lastRev = rev1 \<and>
         (\<exists>ys zs. rest = ys @ rev1 # zs \<and> first_trigger thresholds rtm seen ys = None \<and>
            denied = hits_denial thresholds (seen @ ys @ [rev1]) \<and>
            (\<not> denied \<longrightarrow> hits_approval thresholds rtm (seen @ ys @ [rev1]) \<and>
               length approved1 = length rtm))))"

lemma outcome_okI:
  assumes "first_trigger thresholds rtm seen rest = Some rev1" "rest = ys @ rev1 # zs"
    "first_trigger thresholds rtm seen ys = None" "denied = hits_denial thresholds (seen @ ys @ [rev1])"
    "\<not> denied \<longrightarrow> hits_approval thresholds rtm (seen @ ys @ [rev1]) \<and> length approved1 = length rtm"
  shows "outcome_ok thresholds rtm seen rest lastReview (rev1, denied, approved1)"
  unfolding outcome_ok_def assms(1) prod.case option.case using assms(2-) by blast

lemma process_reviews_trigger:
  assumes "request_ok thresholds rtm" "\<forall>rev1\<in>set rest. review_ok (length thresholds) rev1"
    "counts_fit (length thresholds) (seen @ rest)"
    "distinct approved" "set approved \<subseteq> met_roles thresholds rtm seen" "length approved < length rtm"
  shows "\<exists>out. process_reviews thresholds rtm lastReview approved (tally (length thresholds) seen) rest = Inr out \<and>
    outcome_ok thresholds rtm seen rest lastReview out"
  using assms(2-)
proof (induction rest arbitrary: seen approved lastReview)
  case (Cons rev1 rest)
  let ?n = "length thresholds"
  have d: "distinct (map fst rtm)" "sets_ok ?n rtm" using assms(1) by (simp_all add: request_ok_def)
  have fit: "counts_fit ?n (seen @ [rev1])" using Cons.prems(2) counts_fit_prefix [of ?n "seen @ [rev1]" rest] by simp
  have count: "count_indexes ?n (rev_ProposedState rev1) (rev_ThresholdIndexes rev1) (tally ?n seen) =
      Inr (tally ?n (seen @ [rev1]))"
    using Cons.prems(1) by (intro count_indexes_tally) simp
  note den = denial_reached_tally [OF fit]
  show ?case
  proof (cases "hits_denial thresholds (seen @ [rev1])")
    case True
    then have "process_reviews thresholds rtm lastReview approved (tally ?n seen) (rev1 # rest) =
        Inr (rev1, True, approved)" "first_trigger thresholds rtm seen (rev1 # rest) = Some rev1"
      by (simp_all add: count den)
    moreover from this have "outcome_ok thresholds rtm seen (rev1 # rest) lastReview (rev1, True, approved)"
      using True by (intro outcome_okI [where ys = "[]" and zs = rest]) simp_all
    ultimately show ?thesis by blast
  next
    case nd: False
    obtain res where res:
      "check_role_approvals thresholds (tally ?n (seen @ [rev1])) rtm approved = Inr res"
      "approvals_checked thresholds (seen @ [rev1]) rtm approved res"
      using check_role_approvals_spec [OF fit d(2,1) Cons.prems(3)] by blast
    obtain approved1 complete where p: "res = (approved1, complete)" by (cases res)
    have c: "check_role_approvals thresholds (tally ?n (seen @ [rev1])) rtm approved = Inr (approved1, complete)"
      "distinct approved1" "set approved \<subseteq> set approved1"
      "set approved1 \<subseteq> set approved \<union> met_roles thresholds rtm (seen @ [rev1])"
      "complete \<longleftrightarrow> fst ` set rtm \<subseteq> set approved1"
      "complete \<longleftrightarrow> fst ` set rtm \<subseteq> set approved \<union> met_roles thresholds rtm (seen @ [rev1])"
      using res unfolding approvals_checked_def p prod.case by blast+
    have met: "set approved1 \<subseteq> met_roles thresholds rtm (seen @ [rev1])"
      using c(4) Cons.prems(4) met_roles_mono [of thresholds rtm seen "[rev1]"] by blast
    then have keys: "set approved1 \<subseteq> fst ` set rtm" by (auto simp: met_roles_def)
    have ap: "complete \<longleftrightarrow> hits_approval thresholds rtm (seen @ [rev1])"
      unfolding c(6) hits_approval_met [OF d(1)]
      using Cons.prems(4) met_roles_mono [of thresholds rtm seen "[rev1]"] by blast
    show ?thesis
    proof (cases complete)
      case True
      then have "set approved1 = set (map fst rtm)" using c(5) keys by auto
      then have "length approved1 = length rtm"
        by (metis c(2) d(1) distinct_card length_map)
      moreover have *: "process_reviews thresholds rtm lastReview approved (tally ?n seen) (rev1 # rest) =
          Inr (rev1, False, approved1)" "first_trigger thresholds rtm seen (rev1 # rest) = Some rev1"
        using True ap nd c(1) by (simp_all add: count den)
      ultimately have "outcome_ok thresholds rtm seen (rev1 # rest) lastReview (rev1, False, approved1)"
        using True ap nd by (intro outcome_okI [where ys = "[]" and zs = rest]) simp_all
      with * show ?thesis by blast
    next
      case False
      then have len: "length approved1 < length rtm" using length_less_keys [OF c(2) keys] c(5) by blast
      have "\<forall>rev1\<in>set rest. review_ok ?n rev1" "counts_fit ?n ((seen @ [rev1]) @ rest)"
        using Cons.prems(1,2) by simp_all
      note IH = Cons.IH [OF this c(2) met len, of rev1]
      have step: "process_reviews thresholds rtm lastReview approved (tally ?n seen) (rev1 # rest) =
          process_reviews thresholds rtm rev1 approved1 (tally ?n (seen @ [rev1])) rest"
        using False c(1) nd by (simp add: count den)
      have ft: "first_trigger thresholds rtm seen (rev1 # ys) = first_trigger thresholds rtm (seen @ [rev1]) ys" for ys
        using False ap nd by simp
      obtain out where out:
        "process_reviews thresholds rtm rev1 approved1 (tally ?n (seen @ [rev1])) rest = Inr out"
        "outcome_ok thresholds rtm (seen @ [rev1]) rest rev1 out"
        using IH by blast
      obtain lastRev dn ap1 where o3: "out = (lastRev, dn, ap1)" by (cases out)
      have "outcome_ok thresholds rtm seen (rev1 # rest) lastReview out"
      proof (cases "first_trigger thresholds rtm (seen @ [rev1]) rest")
        case None
        with out(2) show ?thesis unfolding outcome_ok_def ft by (simp add: o3)
      next
        case (Some t)
        with out(2) obtain ys zs where r: "lastRev = t" "rest = ys @ t # zs"
          "first_trigger thresholds rtm (seen @ [rev1]) ys = None"
          "dn = hits_denial thresholds ((seen @ [rev1]) @ ys @ [t])"
          "\<not> dn \<longrightarrow> hits_approval thresholds rtm ((seen @ [rev1]) @ ys @ [t]) \<and> length ap1 = length rtm"
          unfolding outcome_ok_def o3 by auto
        show ?thesis unfolding o3 r(1)
          by (rule outcome_okI [where ys = "rev1 # ys" and zs = zs]) (use Some r ft in simp_all)
      qed
      with out(1) show ?thesis unfolding step by blast
    qed
  qed
qed (simp add: outcome_ok_def)

lemma first_trigger_None_hits:
  "first_trigger thresholds rtm seen ys = None \<Longrightarrow> ys \<noteq> [] \<Longrightarrow>
     \<not> hits_denial thresholds (seen @ ys) \<and> \<not> hits_approval thresholds rtm (seen @ ys)"
proof (induction ys arbitrary: seen)
  case (Cons r ys)
  then show ?case using Cons.IH [of "seen @ [r]"] by (cases "ys = []") (auto split: if_splits)
qed simp

lemma no_hits_Nil:
  "\<not> hits_denial thresholds []" "request_ok thresholds rtm \<Longrightarrow> \<not> hits_approval thresholds rtm []"
proof -
  show "\<not> hits_denial thresholds []"
    by (auto simp: hits_denial_def unat_eq_0)
  have "\<not> set_hit thresholds [] s" for s by (auto simp: set_hit_def unat_eq_0)
  then show "request_ok thresholds rtm \<Longrightarrow> \<not> hits_approval thresholds rtm []"
    by (fastforce simp: request_ok_def hits_approval_def neq_Nil_conv)
qed

lemma hits_denial_by_denial:
  "hits_denial thresholds (ys @ [r]) \<Longrightarrow> \<not> hits_denial thresholds ys \<Longrightarrow> rev_ProposedState r = StateDenied"
  by (rule ccontr) (auto simp: hits_denial_def added_def)

lemma hits_approval_by_approval:
  "hits_approval thresholds rtm (ys @ [r]) \<Longrightarrow> \<not> hits_approval thresholds rtm ys \<Longrightarrow>
     rev_ProposedState r = StateApproved"
  by (rule ccontr) (auto simp: hits_approval_def set_hit_def added_def)

definition resolution_of :: "access_review \<Rightarrow> request_resolution" where
  "resolution_of r = \<lparr>res_state = rev_ProposedState r, res_reason = rev_Reason r\<rparr>"

definition reviews_ok :: "access_request \<Rightarrow> bool" where
  "reviews_ok req \<longleftrightarrow> request_ok (ar_Thresholds req) (ar_RoleThresholdMapping req) \<and>
     (\<forall>r\<in>set (ar_Reviews req). review_ok (length (ar_Thresholds req)) r) \<and>
     counts_fit (length (ar_Thresholds req)) (ar_Reviews req)"

definition trigger :: "access_request \<Rightarrow> access_review option" where
  "trigger req = first_trigger (ar_Thresholds req) (ar_RoleThresholdMapping req) [] (ar_Reviews req)"

lemma trigger_cases:
  assumes "request_ok thresholds rtm" "first_trigger thresholds rtm [] ys = None"
  shows "hits_denial thresholds (ys @ [r]) \<Longrightarrow> rev_ProposedState r = StateDenied"
    "hits_approval thresholds rtm (ys @ [r]) \<Longrightarrow> rev_ProposedState r = StateApproved"
proof -
  have "\<not> hits_denial thresholds ys \<and> \<not> hits_approval thresholds rtm ys"
    using first_trigger_None_hits [OF assms(2)] no_hits_Nil assms(1) by (cases "ys = []") auto
  then show "hits_denial thresholds (ys @ [r]) \<Longrightarrow> rev_ProposedState r = StateDenied"
    "hits_approval thresholds rtm (ys @ [r]) \<Longrightarrow> rev_ProposedState r = StateApproved"
    using hits_denial_by_denial hits_approval_by_approval by blast+
qed

lemma calculateReviewBasedResolution_trigger:
  assumes "reviews_ok req"
  shows "calculateReviewBasedResolution req = Inr (map_option resolution_of (trigger req))"
proof (cases "ar_Reviews req = []")
  case True
  then show ?thesis by (simp add: calculateReviewBasedResolution_def trigger_def)
next
  case False
  let ?t = "ar_Thresholds req" and ?m = "ar_RoleThresholdMapping req" and ?rs = "ar_Reviews req"
  have ok: "request_ok ?t ?m" "\<forall>r\<in>set ?rs. review_ok (length ?t) r" "counts_fit (length ?t) ([] @ ?rs)"
    using assms by (simp_all add: reviews_ok_def)
  have "length ([] :: string list) < length ?m" using ok(1) by (auto simp: request_ok_def)
  with process_reviews_trigger [OF ok, of "[]" "hd ?rs"]
  obtain lastRev denied approved where p:
    "process_reviews ?t ?m (hd ?rs) [] (replicate (length ?t) (0, 0)) ?rs = Inr (lastRev, denied, approved)"
    "outcome_ok ?t ?m [] ?rs (hd ?rs) (lastRev, denied, approved)"
    by (auto simp: tally_Nil)
  have t: "?t \<noteq> []" using ok(1) by (simp add: request_ok_def)
  show ?thesis
  proof (cases "trigger req")
    case None
    then have l: "lastRev = last ?rs" "\<not> denied" "length approved < length ?m"
      using p(2) False by (simp_all add: outcome_ok_def trigger_def)
    have "rev_ProposedState (last ?rs) \<in> {StateApproved, StateDenied}"
      using ok(2) False by (simp add: review_ok_def)
    with l None p(1) t False show ?thesis
      by (auto simp: calculateReviewBasedResolution_def state_defs)
  next
    case (Some r)
    then obtain ys where r: "lastRev = r" "first_trigger ?t ?m [] ys = None"
      "denied = hits_denial ?t (ys @ [r])"
      "\<not> denied \<longrightarrow> hits_approval ?t ?m (ys @ [r]) \<and> length approved = length ?m"
      using p(2) by (auto simp: outcome_ok_def trigger_def)
    show ?thesis
    proof (cases denied)
      case True
      with trigger_cases(1) [OF ok(1) r(2), of r] r(3) have "rev_ProposedState r = StateDenied" by simp
      with True r(1) Some p(1) t False show ?thesis
        by (simp add: calculateReviewBasedResolution_def state_defs resolution_of_def)
    next
      case nd: False
      with trigger_cases(2) [OF ok(1) r(2), of r] r(4) have "rev_ProposedState r = StateApproved" by simp
      with nd r Some p(1) t False show ?thesis
        by (simp add: calculateReviewBasedResolution_def state_defs resolution_of_def)
    qed
  qed
qed

text \<open>What a resolution means: some prefix of the reviews reached it.\<close>

lemma first_trigger_Some:
  "first_trigger thresholds rtm seen rest = Some r \<Longrightarrow>
     \<exists>ys zs. rest = ys @ r # zs \<and> first_trigger thresholds rtm seen ys = None \<and>
       (hits_denial thresholds (seen @ ys @ [r]) \<or> hits_approval thresholds rtm (seen @ ys @ [r]))"
proof (induction rest arbitrary: seen)
  case (Cons x rest)
  show ?case
  proof (cases "hits_denial thresholds (seen @ [x]) \<or> hits_approval thresholds rtm (seen @ [x])")
    case True
    with Cons.prems have "r = x" by simp
    with True show ?thesis by (intro exI [of _ "[]"] exI [of _ rest]) simp
  next
    case False
    with Cons.prems have "first_trigger thresholds rtm (seen @ [x]) rest = Some r" by simp
    from Cons.IH [OF this] obtain ys zs where "rest = ys @ r # zs"
      "first_trigger thresholds rtm (seen @ [x]) ys = None"
      "hits_denial thresholds ((seen @ [x]) @ ys @ [r]) \<or> hits_approval thresholds rtm ((seen @ [x]) @ ys @ [r])"
      by blast
    with False show ?thesis by (intro exI [of _ "x # ys"] exI [of _ zs]) simp
  qed
qed simp

lemma hits_mono:
  "hits_denial thresholds revs \<Longrightarrow> hits_denial thresholds (revs @ later)"
  "hits_approval thresholds rtm revs \<Longrightarrow> hits_approval thresholds rtm (revs @ later)"
  using votes_mono le_trans by (unfold hits_denial_def, blast) (auto simp: hits_approval_def set_hit_mono split: prod.splits)

section \<open>Reviewing a request\<close>

lemma collect_indexes_range:
  "collect_indexes_loop parser i ts = Inr tids \<Longrightarrow>
     distinct (map unat tids) \<and> (\<forall>tid\<in>set tids. i \<le> unat tid \<and> unat tid < i + length ts)"
proof (induction ts arbitrary: i tids)
  case (Cons t ts)
  then obtain match where m: "accessReviewThresholdMatchesFilter t parser = Inr match"
    by (auto split: sum.splits)
  show ?case
  proof (cases match)
    case False
    with Cons.prems m have "collect_indexes_loop parser (Suc i) ts = Inr tids" by simp
    from Cons.IH [OF this] show ?thesis by force
  next
    case True
    with Cons.prems m obtain tids' where t: "unat (of_nat i :: 32 word) = i"
      "collect_indexes_loop parser (Suc i) ts = Inr tids'" "tids = of_nat i # tids'"
      by (auto simp: Let_def split: sum.splits if_splits)
    from Cons.IH [OF t(2)] t(1) show ?thesis by (force simp: t(3))
  qed
qed simp

lemma ApplyAccessReview_Inr:
  assumes "ApplyAccessReview tp req rev0 author = Inr req'"
  obtains rev1 where
    "rev_Author rev1 = author" "rev_ProposedState rev1 = rev_ProposedState rev0"
    "author \<notin> rev_Author ` set (ar_Reviews req)"
    "distinct (map unat (rev_ThresholdIndexes rev1))" "review_ok (length (ar_Thresholds req)) rev1"
    "settle_request (req\<lparr>ar_Reviews := ar_Reviews req @ [rev1]\<rparr>) = Inr req'"
proof -
  let ?rev = "rev0\<lparr>rev_Roles := sort (Deduplicate (rev_Roles rev0))\<rparr>"
  have a: "rev_Author rev0 = author" and compat: "checkReviewCompat req ?rev = Inr ()"
    using assms by (auto simp: ApplyAccessReview_def Let_def split: if_splits sum.splits)
  obtain tids where t: "collectReviewThresholdIndexes tp req ?rev = Inr tids"
    using assms a compat by (auto simp: ApplyAccessReview_def Let_def split: sum.splits)
  have st: "rev_ProposedState rev0 \<in> {StateApproved, StateDenied}"
    and fresh: "author \<notin> rev_Author ` set (ar_Reviews req)"
    using compat a by (auto simp: checkReviewCompat_def state_defs split: if_splits)
  have range: "distinct (map unat tids)" "\<forall>tid\<in>set tids. unat tid < length (ar_Thresholds req)"
    using t collect_indexes_range [of _ 0 "ar_Thresholds req" tids]
    by (auto simp: collectReviewThresholdIndexes_def split: sum.splits)
  have "settle_request (req\<lparr>ar_Reviews := ar_Reviews req @ [?rev\<lparr>rev_ThresholdIndexes := tids\<rparr>]\<rparr>) = Inr req'"
    using assms a compat t by (simp add: ApplyAccessReview_def)
  with a st fresh range show ?thesis
    by (intro that [of "?rev\<lparr>rev_ThresholdIndexes := tids\<rparr>"]) (simp_all add: review_ok_def)
qed

lemma settle_request_resolved: "ar_State req \<noteq> StatePending \<Longrightarrow> settle_request req = Inr req"
  by (simp add: settle_request_def IsPending_def)

lemma settle_request_pending:
  "ar_State req = StatePending \<Longrightarrow> reviews_ok req \<Longrightarrow>
     settle_request req = Inr (case trigger req of
       None \<Rightarrow> req
     | Some r \<Rightarrow> request_SetExpiry (ar_Expires req)
                   (req\<lparr>ar_State := rev_ProposedState r, ar_ResolveReason := rev_Reason r\<rparr>))"
  by (simp add: settle_request_def state_defs calculateReviewBasedResolution_trigger SetState_def
      resolution_of_def Let_def split: option.split)

text \<open>Votes of distinct authors.\<close>

definition voters :: "request_state \<Rightarrow> nat \<Rightarrow> access_review list \<Rightarrow> string set" where
  "voters st i revs = rev_Author ` {r \<in> set revs. rev_ProposedState r = st \<and> i \<in> unat ` set (rev_ThresholdIndexes r)}"

lemma count_list_distinct: "distinct xs \<Longrightarrow> count_list xs x = (if x \<in> set xs then 1 else 0)"
  by (induction xs) auto

lemma votes_voters:
  "distinct (map rev_Author revs) \<Longrightarrow> \<forall>r\<in>set revs. distinct (map unat (rev_ThresholdIndexes r)) \<Longrightarrow>
     votes st i revs = card (voters st i revs)"
proof (induction revs)
  case Nil
  then show ?case by (simp add: voters_def)
next
  case (Cons r revs)
  let ?v = "rev_ProposedState r = st \<and> i \<in> unat ` set (rev_ThresholdIndexes r)"
  have v: "voters st i (r # revs) = (if ?v then insert (rev_Author r) (voters st i revs) else voters st i revs)"
    by (auto simp: voters_def)
  have fresh: "rev_Author r \<notin> voters st i revs" using Cons.prems(1) by (auto simp: voters_def)
  have fin: "finite (voters st i revs)" by (simp add: voters_def)
  have "votes st i (r # revs) = (if ?v then 1 else 0) + votes st i revs"
    using Cons.prems(2) by (auto simp: votes_def count_list_distinct)
  then show ?case using Cons fresh fin by (simp add: v)
qed

lemma votes_le_length:
  "\<forall>r\<in>set revs. distinct (map unat (rev_ThresholdIndexes r)) \<Longrightarrow> votes st i revs \<le> length revs"
  by (induction revs) (auto simp: votes_def count_list_distinct)

section \<open>The life of a request under review\<close>

text \<open>The state of the request is what its first triggering review proposed.\<close>

definition reviewed_state :: "access_request \<Rightarrow> request_state" where
  "reviewed_state req = (case trigger req of None \<Rightarrow> StatePending | Some r \<Rightarrow> rev_ProposedState r)"

definition review_inv :: "access_request \<Rightarrow> bool" where
  "review_inv req \<longleftrightarrow> request_ok (ar_Thresholds req) (ar_RoleThresholdMapping req) \<and>
     distinct (map rev_Author (ar_Reviews req)) \<and>
     (\<forall>r\<in>set (ar_Reviews req). review_ok (length (ar_Thresholds req)) r \<and>
        distinct (map unat (rev_ThresholdIndexes r))) \<and>
     ar_State req = reviewed_state req"

lemma review_inv_ok: "review_inv req \<Longrightarrow> length (ar_Reviews req) < 2 ^ 32 \<Longrightarrow> reviews_ok req"
  unfolding review_inv_def reviews_ok_def counts_fit_def using votes_le_length le_less_trans by blast

lemma first_trigger_snoc:
  "first_trigger thresholds rtm seen (xs @ [r]) =
     (case first_trigger thresholds rtm seen xs of
        Some t \<Rightarrow> Some t
      | None \<Rightarrow> if hits_denial thresholds (seen @ xs @ [r]) \<or> hits_approval thresholds rtm (seen @ xs @ [r])
                then Some r else None)"
  by (induction xs arbitrary: seen) auto

lemma trigger_state: "review_inv req \<Longrightarrow> trigger req = Some r \<Longrightarrow> rev_ProposedState r \<noteq> StatePending"
  using first_trigger_Some [of _ _ "[]" "ar_Reviews req" r]
  by (fastforce simp: review_inv_def trigger_def review_ok_def)

lemma ApplyAccessReview_inv:
  assumes inv: "review_inv req" and len: "length (ar_Reviews req) + 1 < 2 ^ 32"
    and app: "ApplyAccessReview tp req rev0 author = Inr req'"
  shows "review_inv req'"
proof -
  from app obtain rev1 where r: "rev_Author rev1 = author" "author \<notin> rev_Author ` set (ar_Reviews req)"
    "distinct (map unat (rev_ThresholdIndexes rev1))" "review_ok (length (ar_Thresholds req)) rev1"
    and settle: "settle_request (req\<lparr>ar_Reviews := ar_Reviews req @ [rev1]\<rparr>) = Inr req'"
    by (rule ApplyAccessReview_Inr)
  let ?req1 = "req\<lparr>ar_Reviews := ar_Reviews req @ [rev1]\<rparr>"
  have wf: "request_ok (ar_Thresholds ?req1) (ar_RoleThresholdMapping ?req1)"
    "distinct (map rev_Author (ar_Reviews ?req1))"
    "\<forall>r\<in>set (ar_Reviews ?req1). review_ok (length (ar_Thresholds ?req1)) r \<and>
        distinct (map unat (rev_ThresholdIndexes r))"
    using inv r by (auto simp: review_inv_def)
  have "votes st i (ar_Reviews ?req1) < 2 ^ 32" for st i
    using votes_le_length [of "ar_Reviews ?req1" st i] wf(3) len by simp
  then have ok1: "reviews_ok ?req1" using wf by (simp add: reviews_ok_def counts_fit_def)
  have "ar_State req' = reviewed_state ?req1 \<and> ar_Thresholds req' = ar_Thresholds req \<and>
    ar_RoleThresholdMapping req' = ar_RoleThresholdMapping req \<and> ar_Reviews req' = ar_Reviews ?req1"
  proof (cases "ar_State req = StatePending")
    case True
    then show ?thesis
      using settle settle_request_pending [OF _ ok1]
      by (auto simp: reviewed_state_def request_SetExpiry_def split: option.splits)
  next
    case False
    then obtain t where t: "trigger req = Some t" "ar_State req = rev_ProposedState t"
      using inv by (auto simp: review_inv_def reviewed_state_def split: option.splits)
    then have "trigger ?req1 = Some t" by (simp add: trigger_def first_trigger_snoc)
    with False t settle settle_request_resolved [of ?req1] show ?thesis
      by (auto simp: reviewed_state_def)
  qed
  then show ?thesis using wf by (simp add: review_inv_def reviewed_state_def trigger_def)
qed

section \<open>What a resolution takes\<close>

definition quorum :: "access_request \<Rightarrow> bool" where
  "quorum req \<longleftrightarrow> (\<forall>(role1, sets)\<in>set (ar_RoleThresholdMapping req). \<forall>s\<in>set sets. \<exists>tid\<in>set s.
     th_Approve (ar_Thresholds req ! unat tid) \<noteq> 0 \<and>
     unat (th_Approve (ar_Thresholds req ! unat tid)) \<le> card (voters StateApproved (unat tid) (ar_Reviews req)))"

definition veto :: "access_request \<Rightarrow> bool" where
  "veto req \<longleftrightarrow> (\<exists>i<length (ar_Thresholds req). th_Deny (ar_Thresholds req ! i) \<noteq> 0 \<and>
     unat (th_Deny (ar_Thresholds req ! i)) \<le> card (voters StateDenied i (ar_Reviews req)))"

lemma review_inv_votes:
  "review_inv req \<Longrightarrow> votes st i (ar_Reviews req) = card (voters st i (ar_Reviews req))"
  unfolding review_inv_def by (rule votes_voters) auto

lemma quorum_hits: "review_inv req \<Longrightarrow>
    quorum req \<longleftrightarrow> hits_approval (ar_Thresholds req) (ar_RoleThresholdMapping req) (ar_Reviews req)"
  by (simp add: quorum_def hits_approval_def set_hit_def review_inv_votes)

lemma veto_hits: "review_inv req \<Longrightarrow> veto req \<longleftrightarrow> hits_denial (ar_Thresholds req) (ar_Reviews req)"
  by (simp add: veto_def hits_denial_def review_inv_votes)

lemma review_inv_resolved:
  assumes inv: "review_inv req"
  shows "ar_State req = StateApproved \<Longrightarrow> quorum req" "ar_State req = StateDenied \<Longrightarrow> veto req"
    "ar_State req \<noteq> StateNone"
    "ar_State req = StatePending \<Longrightarrow> \<not> quorum req \<and> \<not> veto req"
proof -
  let ?t = "ar_Thresholds req" and ?m = "ar_RoleThresholdMapping req" and ?rs = "ar_Reviews req"
  have ok: "request_ok ?t ?m" and st: "ar_State req = reviewed_state req"
    using inv by (simp_all add: review_inv_def)
  show "ar_State req = StatePending \<Longrightarrow> \<not> quorum req \<and> \<not> veto req"
  proof -
    assume "ar_State req = StatePending"
    then have "trigger req = None" using st trigger_state [OF inv] by (auto simp: reviewed_state_def split: option.splits)
    then have "\<not> hits_denial ?t ?rs \<and> \<not> hits_approval ?t ?m ?rs"
      using first_trigger_None_hits [of ?t ?m "[]" ?rs] no_hits_Nil ok by (cases "?rs = []") (auto simp: trigger_def)
    then show ?thesis by (simp add: quorum_hits [OF inv] veto_hits [OF inv])
  qed
  have run: "rev_ProposedState r = StateApproved \<and> quorum req \<or> rev_ProposedState r = StateDenied \<and> veto req"
    if tr: "trigger req = Some r" for r
  proof -
    obtain ys zs where s: "?rs = ys @ r # zs" "first_trigger ?t ?m [] ys = None"
      "hits_denial ?t (ys @ [r]) \<or> hits_approval ?t ?m (ys @ [r])"
      using first_trigger_Some [OF tr [unfolded trigger_def]] by auto
    have "?rs = (ys @ [r]) @ zs" using s(1) by simp
    then show ?thesis
      using s(3) trigger_cases [OF ok s(2), of r] hits_mono [of ?t _ zs] hits_mono(2) [of ?t ?m _ zs]
      unfolding quorum_hits [OF inv] veto_hits [OF inv] by metis
  qed
  show "ar_State req = StateApproved \<Longrightarrow> quorum req" "ar_State req = StateDenied \<Longrightarrow> veto req"
    "ar_State req \<noteq> StateNone"
    using st run by (auto simp: reviewed_state_def split: option.splits)
qed

text \<open>Runs of reviews, whatever their authors propose.\<close>

inductive review_run :: "filter_parser \<Rightarrow> access_request \<Rightarrow> access_request \<Rightarrow> bool" for tp where
  run_start: "review_run tp req req"
| run_review: "review_run tp req req1 \<Longrightarrow> ApplyAccessReview tp req1 rev1 author = Inr req2 \<Longrightarrow>
    review_run tp req req2"

lemma settle_request_reviews:
  assumes "settle_request req = Inr req'"
  shows "ar_Reviews req' = ar_Reviews req"
proof (cases "ar_State req = StatePending")
  case True
  with assms obtain res where "calculateReviewBasedResolution req = Inr res"
    by (auto simp: settle_request_def IsPending_def split: sum.splits)
  with assms True show ?thesis
    by (cases res) (auto simp: settle_request_def IsPending_def SetState_def IsDenied_def Let_def request_SetExpiry_def)
qed (use assms settle_request_resolved in auto)

lemma ApplyAccessReview_grows:
  "ApplyAccessReview tp req rev0 author = Inr req' \<Longrightarrow>
     \<exists>rev1. ar_Reviews req' = ar_Reviews req @ [rev1] \<and> rev_Author rev1 = author \<and>
       author \<notin> rev_Author ` set (ar_Reviews req)"
proof (elim ApplyAccessReview_Inr)
  fix rev1
  assume a: "rev_Author rev1 = author" "author \<notin> rev_Author ` set (ar_Reviews req)"
    and s: "settle_request (req\<lparr>ar_Reviews := ar_Reviews req @ [rev1]\<rparr>) = Inr req'"
  from settle_request_reviews [OF s] have "ar_Reviews req' = ar_Reviews req @ [rev1]" by simp
  with a show ?thesis by blast
qed

lemma review_run_inv:
  "review_run tp req req' \<Longrightarrow> review_inv req \<Longrightarrow> length (ar_Reviews req') < 2 ^ 32 \<Longrightarrow> review_inv req'"
proof (induction rule: review_run.induct)
  case (run_review req req1 rev1 author req2)
  obtain r where "ar_Reviews req2 = ar_Reviews req1 @ [r]"
    using ApplyAccessReview_grows [OF run_review.hyps(2)] by blast
  then have len: "length (ar_Reviews req1) + 1 < 2 ^ 32" using run_review.prems(2) by (simp only: length_append) simp
  then have "review_inv req1" by (intro run_review.IH run_review.prems(1)) simp
  from ApplyAccessReview_inv [OF this len run_review.hyps(2)] show ?case .
qed simp

lemma ApplyAccessReview_final:
  assumes "ApplyAccessReview tp req rev0 author = Inr req'" "ar_State req \<noteq> StatePending"
  shows "ar_State req' = ar_State req" "ar_ResolveReason req' = ar_ResolveReason req"
  using assms by (auto elim!: ApplyAccessReview_Inr simp: settle_request_def IsPending_def)

lemma review_run_final:
  "review_run tp req req' \<Longrightarrow> ar_State req \<noteq> StatePending \<Longrightarrow>
     ar_State req' = ar_State req \<and> ar_ResolveReason req' = ar_ResolveReason req"
proof (induction rule: review_run.induct)
  case (run_review req req1 rev1 author req2)
  then show ?case using ApplyAccessReview_final [OF run_review.hyps(2)] by simp
qed simp

end
