(* ===== verification/Request_Validator.thy ===== *)
theory Request_Validator
  imports Reviews Traits
begin

text \<open>
  Who may request which roles and who may review the request, \<open>lib/services/access_request.go\<close>:
  \<open>RequestValidator\<close> with its thresholds, annotations and wildcard expansion, and
  \<open>ReviewPermissionChecker\<close>. The user and role store is a record of functions; the parser of
  review predicates is an argument. A matcher that panics makes the operation fail with
  \<open>Unclassified\<close>.
\<close>

section \<open>Users and stores\<close>

record user =
  user_Name :: string
  user_Roles :: "string list"
  user_Traits :: traits

record role_getter =
  get_User :: "string \<Rightarrow> user result"
  get_Role :: "string \<Rightarrow> role result"
  get_Roles :: "role list result"

definition GetTraitMappings :: "claim_mapping list \<Rightarrow> trait_mapping list" where
  "GetTraitMappings cms =
     map (\<lambda>m. \<lparr>tm_Trait = cm_Claim m, tm_Value = cm_Value m, tm_Roles = cm_Roles m\<rparr>) cms"

definition appendRoleMatchers :: "matcher list \<Rightarrow> string list \<Rightarrow> claim_mapping list \<Rightarrow> traits \<Rightarrow>
    matcher list result" where
  "appendRoleMatchers matchers roles cms traits =
     (case map_res NewMatcher roles of
        Inl e \<Rightarrow> Inl e
      | Inr new \<Rightarrow>
          (case TraitsToRoleMatchers (GetTraitMappings cms) traits of
             Inl e \<Rightarrow> Inl e
           | Inr ms \<Rightarrow> Inr (matchers @ new @ ms)))"

fun applied_values :: "address_parser \<Rightarrow> traits \<Rightarrow> string list \<Rightarrow> string list \<Rightarrow> string list" where
  "applied_values pa traits allVals [] = allVals"
| "applied_values pa traits allVals (v # vs) =
     (case ApplyValueTraits pa v traits of
        Inl e \<Rightarrow> applied_values pa traits allVals vs
      | Inr applied \<Rightarrow> applied_values pa traits (allVals @ applied) vs)"

definition annotation_at :: "(string \<times> string list) list \<Rightarrow> string \<Rightarrow> string list" where
  "annotation_at m k = (case map_of m k of None \<Rightarrow> [] | Some vs \<Rightarrow> vs)"

fun insertAnnotations :: "address_parser \<Rightarrow> traits \<Rightarrow> (string \<times> string list) list \<Rightarrow>
    (string \<times> string list) list \<Rightarrow> (string \<times> string list) list" where
  "insertAnnotations pa traits annotations [] = annotations"
| "insertAnnotations pa traits annotations ((key, vals) # rest) =
     insertAnnotations pa traits
       (AList.update key (applied_values pa traits (annotation_at annotations key) vals) annotations) rest"

section \<open>Review permissions\<close>

record review_checker =
  rc_User :: user
  rc_AllowReview :: "(string \<times> matcher list) list"
  rc_DenyReview :: "(string \<times> matcher list) list"

definition HasAllowDirectives :: "review_checker \<Rightarrow> bool" where
  "HasAllowDirectives c = (\<exists>(expr, ms)\<in>set (rc_AllowReview c). length ms > 0)"

definition EvalBoolPredicate :: "predicate_parser \<Rightarrow> string \<Rightarrow> bool result" where
  "EvalBoolPredicate parser expr =
     (case parser expr of
        Inl e \<Rightarrow> Inl e
      | Inr ifn \<Rightarrow> (case ifn of BoolPredicate b \<Rightarrow> Inr b | OtherValue \<Rightarrow> Inl BadParameter))"

definition any_match :: "matcher list \<Rightarrow> string \<Rightarrow> bool result" where
  "any_match ms role1 = ex_res (\<lambda>m. run_match m role1) ms"

text \<open>The denial rules: is there one that applies and matches a requested role?\<close>

fun review_denied :: "predicate_parser \<Rightarrow> string list \<Rightarrow> (string \<times> matcher list) list \<Rightarrow> bool result" where
  "review_denied parser roles [] = Inr False"
| "review_denied parser roles ((expr, denyMatchers) # rest) =
     (case (if expr \<noteq> [] then EvalBoolPredicate parser expr else Inr True) of
        Inl e \<Rightarrow> Inl e
      | Inr match \<Rightarrow>
          if \<not> match then review_denied parser roles rest
          else (case ex_res (any_match denyMatchers) roles of
                  Inl e \<Rightarrow> Inl e
                | Inr denied \<Rightarrow> if denied then Inr True else review_denied parser roles rest))"

fun unmatched_roles :: "matcher list \<Rightarrow> string list \<Rightarrow> string list result" where
  "unmatched_roles ms [] = Inr []"
| "unmatched_roles ms (r # rs) =
     (case any_match ms r of
        Inl e \<Rightarrow> Inl e
      | Inr b \<Rightarrow>
          (case unmatched_roles ms rs of
             Inl e \<Rightarrow> Inl e
           | Inr u \<Rightarrow> Inr (if b then u else r # u)))"

text \<open>The roles that still need an allow rule after all of them, or after the one that leaves none.\<close>

fun review_needs_allow :: "predicate_parser \<Rightarrow> string list \<Rightarrow> (string \<times> matcher list) list \<Rightarrow>
    string list result" where
  "review_needs_allow parser needsAllow [] = Inr needsAllow"
| "review_needs_allow parser needsAllow ((expr, allowMatchers) # rest) =
     (case (if expr \<noteq> [] then EvalBoolPredicate parser expr else Inr True) of
        Inl e \<Rightarrow> Inl e
      | Inr match \<Rightarrow>
          if \<not> match then review_needs_allow parser needsAllow rest
          else (case unmatched_roles allowMatchers needsAllow of
                  Inl e \<Rightarrow> Inl e
                | Inr u \<Rightarrow> if u = [] then Inr [] else review_needs_allow parser u rest))"

definition CanReviewRequest :: "(review_checker \<Rightarrow> access_request \<Rightarrow> predicate_parser result) \<Rightarrow>
    review_checker \<Rightarrow> access_request \<Rightarrow> bool result" where
  "CanReviewRequest newParser c req =
     (if user_Name (rc_User c) = ar_User req then Inr False
      else
        (let requestedRoles = GetOriginalRoles req
         in case newParser c req of
              Inl e \<Rightarrow> Inl e
            | Inr parser \<Rightarrow>
                (case review_denied parser requestedRoles (rc_DenyReview c) of
                   Inl e \<Rightarrow> Inl e
                 | Inr denied \<Rightarrow>
                     if denied then Inr False
                     else (case review_needs_allow parser requestedRoles (rc_AllowReview c) of
                             Inl e \<Rightarrow> Inl e
                           | Inr needsAllow \<Rightarrow> Inr (needsAllow = [])))))"

definition matchers_at :: "(string \<times> matcher list) list \<Rightarrow> string \<Rightarrow> matcher list" where
  "matchers_at m k = (case map_of m k of None \<Rightarrow> [] | Some ms \<Rightarrow> ms)"

definition checker_push :: "review_checker \<Rightarrow> role \<Rightarrow> review_checker result" where
  "checker_push c r =
     (let allow = GetAccessReviewConditions Allow r; deny = GetAccessReviewConditions Deny r;
          traits = user_Traits (rc_User c)
      in case appendRoleMatchers (matchers_at (rc_DenyReview c) (arv_Where deny)) (elems (arv_Roles deny))
                (elems (arv_ClaimsToRoles deny)) traits of
           Inl e \<Rightarrow> Inl e
         | Inr ds \<Rightarrow>
             (case appendRoleMatchers (matchers_at (rc_AllowReview c) (arv_Where allow)) (elems (arv_Roles allow))
                     (elems (arv_ClaimsToRoles allow)) traits of
                Inl e \<Rightarrow> Inl e
              | Inr as \<Rightarrow>
                  Inr (c\<lparr>rc_DenyReview := AList.update (arv_Where deny) ds (rc_DenyReview c),
                         rc_AllowReview := AList.update (arv_Where allow) as (rc_AllowReview c)\<rparr>)))"

fun push_roles :: "('a \<Rightarrow> role \<Rightarrow> 'a result) \<Rightarrow> (string \<Rightarrow> role result) \<Rightarrow> 'a \<Rightarrow> string list \<Rightarrow> 'a result" where
  "push_roles push getRole c [] = Inr c"
| "push_roles push getRole c (roleName # rest) =
     (case getRole roleName of
        Inl e \<Rightarrow> Inl e
      | Inr r \<Rightarrow> (case push c r of Inl e \<Rightarrow> Inl e | Inr c1 \<Rightarrow> push_roles push getRole c1 rest))"

definition NewReviewPermissionChecker :: "role_getter \<Rightarrow> string \<Rightarrow> review_checker result" where
  "NewReviewPermissionChecker getter username =
     (case get_User getter username of
        Inl e \<Rightarrow> Inl e
      | Inr u \<Rightarrow>
          push_roles checker_push (get_Role getter)
            \<lparr>rc_User = u, rc_AllowReview = [], rc_DenyReview = []\<rparr> (user_Roles u))"

section \<open>The request validator\<close>

record request_validator =
  rv_getter :: role_getter
  rv_user :: user
  rv_requireReason :: bool
  rv_expandVars :: bool
  rv_AllowRequest :: "matcher list"
  rv_DenyRequest :: "matcher list"
  rv_AnnotationsAllow :: "(string \<times> string list) list"
  rv_AnnotationsDeny :: "(string \<times> string list) list"
  rv_ThresholdMatchers :: "(matcher list \<times> access_review_threshold list) list"
  rv_SuggestedReviewers :: "string list"

definition validator_push :: "address_parser \<Rightarrow> request_validator \<Rightarrow> role \<Rightarrow> request_validator result" where
  "validator_push pa m r =
     (let m1 = m\<lparr>rv_requireReason := (rv_requireReason m \<or> RequireReason (opt_RequestAccess (GetOptions r)))\<rparr>;
          allow = GetAccessRequestConditions Allow r; deny = GetAccessRequestConditions Deny r;
          traits = user_Traits (rv_user m)
      in case appendRoleMatchers (rv_DenyRequest m1) (arc_Roles deny) (arc_ClaimsToRoles deny) traits of
           Inl e \<Rightarrow> Inl e
         | Inr ds \<Rightarrow>
             (let m2 = m1\<lparr>rv_DenyRequest := ds\<rparr>; astart = length (rv_AllowRequest m2)
              in case appendRoleMatchers (rv_AllowRequest m2) (arc_Roles allow) (arc_ClaimsToRoles allow) traits of
                   Inl e \<Rightarrow> Inl e
                 | Inr as \<Rightarrow>
                     (let m3 = m2\<lparr>rv_AllowRequest := as\<rparr>
                      in if rv_expandVars m3 then
                           (let m4 = (if length (rv_AllowRequest m3) > astart
                                      then m3\<lparr>rv_ThresholdMatchers := rv_ThresholdMatchers m3 @
                                             [(drop astart (rv_AllowRequest m3), arc_Thresholds allow)]\<rparr>
                                      else m3)
                            in Inr (m4\<lparr>rv_AnnotationsDeny :=
                                          insertAnnotations pa traits (rv_AnnotationsDeny m4) (arc_Annotations deny),
                                       rv_AnnotationsAllow :=
                                          insertAnnotations pa traits (rv_AnnotationsAllow m4) (arc_Annotations allow),
                                       rv_SuggestedReviewers :=
                                          rv_SuggestedReviewers m4 @ arc_SuggestedReviewers allow\<rparr>))
                         else Inr m3)))"

definition NewRequestValidator :: "address_parser \<Rightarrow> role_getter \<Rightarrow> string \<Rightarrow> bool \<Rightarrow> request_validator result" where
  "NewRequestValidator pa getter username expandVars =
     (case get_User getter username of
        Inl e \<Rightarrow> Inl e
      | Inr u \<Rightarrow>
          push_roles (validator_push pa) (get_Role getter)
            \<lparr>rv_getter = getter, rv_user = u, rv_requireReason = False, rv_expandVars = expandVars,
             rv_AllowRequest = [], rv_DenyRequest = [], rv_AnnotationsAllow = [], rv_AnnotationsDeny = [],
             rv_ThresholdMatchers = [], rv_SuggestedReviewers = []\<rparr> (user_Roles u))"

definition CanRequestRole :: "request_validator \<Rightarrow> string \<Rightarrow> bool result" where
  "CanRequestRole m name =
     (case any_match (rv_DenyRequest m) name of
        Inl e \<Rightarrow> Inl e
      | Inr denied \<Rightarrow> if denied then Inr False else any_match (rv_AllowRequest m) name)"

fun requestable_loop :: "request_validator \<Rightarrow> role list \<Rightarrow> string list result" where
  "requestable_loop m [] = Inr []"
| "requestable_loop m (r # rs) =
     (if slice_contains (user_Roles (rv_user m)) (GetName r) then requestable_loop m rs
      else case CanRequestRole m (GetName r) of
             Inl e \<Rightarrow> Inl e
           | Inr can \<Rightarrow>
               (case requestable_loop m rs of
                  Inl e \<Rightarrow> Inl e
                | Inr expanded \<Rightarrow> Inr (if can then GetName r # expanded else expanded)))"

definition GetRequestableRoles :: "request_validator \<Rightarrow> string list result" where
  "GetRequestableRoles m =
     (case get_Roles (rv_getter m) of Inl e \<Rightarrow> Inl e | Inr allRoles \<Rightarrow> requestable_loop m allRoles)"

definition SystemAnnotations :: "request_validator \<Rightarrow> (string \<times> string list) list" where
  "SystemAnnotations m =
     filter (\<lambda>(k, vs). vs \<noteq> [])
       (map (\<lambda>(k, va). (k, filter (\<lambda>v. \<not> slice_contains (annotation_at (rv_AnnotationsDeny m) k) v) va))
          (rv_AnnotationsAllow m))"

section \<open>Thresholds\<close>

definition maxThresholds :: nat where
  "maxThresholds = 4096"

fun index_of :: "access_review_threshold \<Rightarrow> access_review_threshold list \<Rightarrow> nat option" where
  "index_of t [] = None"
| "index_of t (x # xs) = (if t = x then Some 0 else map_option Suc (index_of t xs))"

definition pushThreshold :: "access_review_threshold list \<Rightarrow> access_review_threshold \<Rightarrow>
    (access_review_threshold list \<times> 32 word) result" where
  "pushThreshold c t =
     (case index_of t c of
        Some i \<Rightarrow> Inr (c, of_nat i)
      | None \<Rightarrow>
          if length c \<ge> maxThresholds then Inl LimitExceeded
          else (let c1 = c @ [t] in Inr (c1, of_nat (length c1 - 1))))"

definition default_threshold :: access_review_threshold where
  "default_threshold = \<lparr>th_Name = ''default'', th_Filter = [], th_Approve = 1, th_Deny = 1\<rparr>"

fun push_thresholds :: "access_review_threshold list \<Rightarrow> access_review_threshold list \<Rightarrow>
    (access_review_threshold list \<times> 32 word list) result" where
  "push_thresholds c [] = Inr (c, [])"
| "push_thresholds c (t # ts) =
     (case pushThreshold c t of
        Inl e \<Rightarrow> Inl e
      | Inr (c1, tid) \<Rightarrow>
          (case push_thresholds c1 ts of
             Inl e \<Rightarrow> Inl e
           | Inr (c2, tids) \<Rightarrow> Inr (c2, tid # tids)))"

definition collector_push :: "access_review_threshold list \<Rightarrow> access_review_threshold list \<Rightarrow>
    (access_review_threshold list \<times> 32 word list) result" where
  "collector_push c s = push_thresholds c (if s = [] then [default_threshold] else s)"

fun collect_sets_loop :: "string \<Rightarrow> (matcher list \<times> access_review_threshold list) list \<Rightarrow>
    access_review_threshold list \<Rightarrow> (access_review_threshold list \<times> index_sets) result" where
  "collect_sets_loop role1 [] c = Inr (c, [])"
| "collect_sets_loop role1 ((matchers, thresholds) # rest) c =
     (case any_match matchers role1 of
        Inl e \<Rightarrow> Inl e
      | Inr b \<Rightarrow>
          if b then
            (case collector_push c thresholds of
               Inl e \<Rightarrow> Inl e
             | Inr (c1, set1) \<Rightarrow>
                 (case collect_sets_loop role1 rest c1 of
                    Inl e \<Rightarrow> Inl e
                  | Inr (c2, sets) \<Rightarrow> Inr (c2, set1 # sets)))
          else collect_sets_loop role1 rest c)"

definition collectSetsForRole :: "request_validator \<Rightarrow> access_review_threshold list \<Rightarrow> string \<Rightarrow>
    (access_review_threshold list \<times> index_sets) result" where
  "collectSetsForRole m c role1 =
     (case collect_sets_loop role1 (rv_ThresholdMatchers m) c of
        Inl e \<Rightarrow> Inl e
      | Inr (c1, sets) \<Rightarrow> if sets = [] then Inl BadParameter else Inr (c1, sets))"

fun build_rtm :: "request_validator \<Rightarrow> string list \<Rightarrow> access_review_threshold list \<Rightarrow>
    (string \<times> index_sets) list \<Rightarrow> (access_review_threshold list \<times> (string \<times> index_sets) list) result" where
  "build_rtm m [] tc rtm = Inr (tc, rtm)"
| "build_rtm m (role1 # rest) tc rtm =
     (case collectSetsForRole m tc role1 of
        Inl e \<Rightarrow> Inl e
      | Inr (tc1, sets) \<Rightarrow> build_rtm m rest tc1 (AList.update role1 sets rtm))"

section \<open>Validation\<close>

definition expand_wildcard :: "request_validator \<Rightarrow> access_request \<Rightarrow> access_request result" where
  "expand_wildcard m req =
     (if length (ar_Roles req) = 1 \<and> hd (ar_Roles req) = Wildcard then
        (if \<not> IsPending (ar_State req) then Inl BadParameter
         else if \<not> rv_expandVars m then Inl BadParameter
         else case GetRequestableRoles m of
                Inl e \<Rightarrow> Inl e
              | Inr requestable1 \<Rightarrow>
                  if requestable1 = [] then Inl BadParameter else Inr (req\<lparr>ar_Roles := requestable1\<rparr>))
      else Inr req)"

definition expand_request :: "request_validator \<Rightarrow> access_request \<Rightarrow> access_request result" where
  "expand_request m req =
     (case build_rtm m (ar_Roles req) [] [] of
        Inl e \<Rightarrow> Inl e
      | Inr (tc, rtm) \<Rightarrow>
          (let req1 = req\<lparr>ar_Thresholds := tc, ar_RoleThresholdMapping := rtm,
                          ar_SystemAnnotations := SystemAnnotations m\<rparr>
           in Inr (if ar_SuggestedReviewers req1 = []
                   then req1\<lparr>ar_SuggestedReviewers := Deduplicate (rv_SuggestedReviewers m)\<rparr> else req1)))"

definition Validate :: "request_validator \<Rightarrow> access_request \<Rightarrow> access_request result" where
  "Validate m req =
     (if user_Name (rv_user m) \<noteq> ar_User req then Inl BadParameter
      else if rv_requireReason m \<and> ar_RequestReason req = [] then Inl BadParameter
      else case expand_wildcard m req of
             Inl e \<Rightarrow> Inl e
           | Inr req1 \<Rightarrow>
               (case all_res (CanRequestRole m) (ar_Roles req1) of
                  Inl e \<Rightarrow> Inl e
                | Inr permitted \<Rightarrow>
                    if \<not> permitted then Inl BadParameter
                    else if rv_expandVars m then expand_request m req1 else Inr req1))"

definition ValidateAccessRequestForUser :: "address_parser \<Rightarrow> role_getter \<Rightarrow> access_request \<Rightarrow> bool \<Rightarrow>
    access_request result" where
  "ValidateAccessRequestForUser pa getter req expandVars =
     (case NewRequestValidator pa getter (ar_User req) expandVars of
        Inl e \<Rightarrow> Inl e
      | Inr v \<Rightarrow> Validate v req)"

record access_capabilities =
  cap_RequestableRoles :: "string list"
  cap_SuggestedReviewers :: "string list"

definition CalculateAccessCapabilities :: "address_parser \<Rightarrow> role_getter \<Rightarrow> string \<Rightarrow> bool \<Rightarrow> bool \<Rightarrow>
    access_capabilities result" where
  "CalculateAccessCapabilities pa clt user wantRoles wantReviewers =
     (case NewRequestValidator pa clt user wantReviewers of
        Inl e \<Rightarrow> Inl e
      | Inr v \<Rightarrow>
          (case (if wantRoles then GetRequestableRoles v else Inr []) of
             Inl e \<Rightarrow> Inl e
           | Inr roles \<Rightarrow>
               Inr \<lparr>cap_RequestableRoles = roles,
                    cap_SuggestedReviewers = (if wantReviewers then rv_SuggestedReviewers v else [])\<rparr>))"

section \<open>Requests that pass are permitted\<close>

lemma CanRequestRole_True_iff:
  "CanRequestRole m name = Inr True \<longleftrightarrow>
     any_match (rv_DenyRequest m) name = Inr False \<and> any_match (rv_AllowRequest m) name = Inr True"
  by (auto simp: CanRequestRole_def split: sum.splits)

lemma any_match_True: "any_match ms name = Inr True \<Longrightarrow> \<exists>m\<in>set ms. Match m name = Some True"
  by (auto simp: any_match_def run_match_def dest!: ex_res_TrueD split: option.splits)

lemma any_match_False: "any_match ms name = Inr False \<longleftrightarrow> (\<forall>m\<in>set ms. Match m name = Some False)"
  by (auto simp: any_match_def run_match_def ex_res_False_iff split: option.splits)

lemma requestable_loop_set:
  "requestable_loop m rs = Inr ns \<Longrightarrow>
     set ns = {n. (\<exists>r\<in>set rs. GetName r = n) \<and> n \<notin> set (user_Roles (rv_user m)) \<and> CanRequestRole m n = Inr True}"
proof (induction rs arbitrary: ns)
  case (Cons r rs)
  show ?case
  proof (cases "GetName r \<in> set (user_Roles (rv_user m))")
    case True
    with Cons.prems have "requestable_loop m rs = Inr ns" by (simp add: slice_contains_def)
    from Cons.IH [OF this] True show ?thesis by auto
  next
    case False
    with Cons.prems obtain can ns' where c: "CanRequestRole m (GetName r) = Inr can"
      "requestable_loop m rs = Inr ns'" "ns = (if can then GetName r # ns' else ns')"
      by (auto simp: slice_contains_def split: sum.splits)
    from Cons.IH [OF c(2)] c(1,3) False show ?thesis by auto
  qed
qed auto

lemma expand_wildcard_frame:
  "expand_wildcard m req = Inr req1 \<Longrightarrow>
     req1 = req\<lparr>ar_Roles := ar_Roles req1\<rparr> \<and> (ar_Roles req \<noteq> [] \<longrightarrow> ar_Roles req1 \<noteq> [])"
  by (auto simp: expand_wildcard_def split: if_splits sum.splits)

lemma expand_request_frame:
  "expand_request m req = Inr req' \<Longrightarrow>
     ar_Roles req' = ar_Roles req \<and> ar_User req' = ar_User req \<and> ar_State req' = ar_State req \<and>
     ar_Reviews req' = ar_Reviews req"
  by (auto simp: expand_request_def Let_def split: sum.splits if_splits)

lemma Validate_Inr:
  assumes "Validate m req = Inr req'"
  obtains req1 where "expand_wildcard m req = Inr req1" "all_res (CanRequestRole m) (ar_Roles req1) = Inr True"
    "(if rv_expandVars m then expand_request m req1 else Inr req1) = Inr req'"
    "user_Name (rv_user m) = ar_User req" "rv_requireReason m \<longrightarrow> ar_RequestReason req \<noteq> []"
  using assms by (auto simp: Validate_def split: if_splits sum.splits)

lemma Validate_permitted:
  assumes "Validate m req = Inr req'" "r \<in> set (ar_Roles req')"
  shows "CanRequestRole m r = Inr True"
proof -
  obtain req1 where r: "all_res (CanRequestRole m) (ar_Roles req1) = Inr True"
    "(if rv_expandVars m then expand_request m req1 else Inr req1) = Inr req'"
    using assms(1) by (rule Validate_Inr)
  have "ar_Roles req' = ar_Roles req1" using r(2) expand_request_frame [of m req1 req'] by (auto split: if_splits)
  with r(1) assms(2) show ?thesis by (simp add: all_res_True_iff)
qed

section \<open>The thresholds collected for a request are well formed\<close>

lemma index_of_Some: "index_of t xs = Some i \<Longrightarrow> i < length xs \<and> xs ! i = t"
  by (induction xs arbitrary: i) (auto split: if_splits)

lemma index_of_None: "index_of t xs = None \<longleftrightarrow> t \<notin> set xs"
  by (induction xs) auto

text \<open>A list the collector builds: bounded, so that a 32-bit index denotes its position.\<close>

definition collector_ok :: "access_review_threshold list \<Rightarrow> bool" where
  "collector_ok c \<longleftrightarrow> length c \<le> maxThresholds \<and> distinct c"

lemma pushThreshold_ok:
  assumes "pushThreshold c t = Inr (c1, tid)" "collector_ok c"
  shows "collector_ok c1" "\<exists>d. c1 = c @ d" "unat tid < length c1" "c1 ! unat tid = t"
proof -
  have small: "unat (of_nat i :: 32 word) = i" if "i < 4096" for i
    using that by (simp add: unat_of_nat)
  show "collector_ok c1" "\<exists>d. c1 = c @ d" "unat tid < length c1" "c1 ! unat tid = t"
    using assms small index_of_Some [of t c] index_of_None [of t c]
    by (auto simp: pushThreshold_def collector_ok_def maxThresholds_def Let_def nth_append split: option.splits if_splits)
qed

lemma push_thresholds_ok:
  "push_thresholds c ts = Inr (c1, tids) \<Longrightarrow> collector_ok c \<Longrightarrow>
     collector_ok c1 \<and> (\<exists>d. c1 = c @ d) \<and> length tids = length ts \<and>
     (\<forall>tid\<in>set tids. unat tid < length c1) \<and> map (\<lambda>tid. c1 ! unat tid) tids = ts"
proof (induction ts arbitrary: c tids)
  case (Cons t ts)
  from Cons.prems(1) obtain c' tid tids' where p: "pushThreshold c t = Inr (c', tid)"
    "push_thresholds c' ts = Inr (c1, tids')" "tids = tid # tids'"
    by (auto split: sum.splits)
  note q = pushThreshold_ok [OF p(1) Cons.prems(2)]
  from Cons.IH [OF p(2) q(1)] obtain d where
    r: "collector_ok c1" "c1 = c' @ d" "length tids' = length ts" "\<forall>tid\<in>set tids'. unat tid < length c1"
      "map (\<lambda>tid. c1 ! unat tid) tids' = ts" by blast
  from q r p(3) show ?case by (auto simp: nth_append)
qed auto

lemma collector_push_ok:
  assumes "collector_push c s = Inr (c1, tids)" "collector_ok c"
  shows "collector_ok c1" "\<exists>d. c1 = c @ d" "tids \<noteq> []" "\<forall>tid\<in>set tids. unat tid < length c1"
  using push_thresholds_ok [OF assms(1) [unfolded collector_push_def] assms(2)]
  by (auto split: if_splits)

lemma collect_sets_ok:
  "collect_sets_loop role1 tms c = Inr (c1, sets) \<Longrightarrow> collector_ok c \<Longrightarrow>
     collector_ok c1 \<and> (\<exists>d. c1 = c @ d) \<and> (\<forall>s\<in>set sets. s \<noteq> [] \<and> (\<forall>tid\<in>set s. unat tid < length c1))"
proof (induction tms arbitrary: c sets)
  case (Cons tm tms)
  obtain ms ts where tm: "tm = (ms, ts)" by (cases tm)
  with Cons.prems(1) obtain b where b: "any_match ms role1 = Inr b" by (auto split: sum.splits)
  show ?case
  proof (cases b)
    case False
    with Cons b tm show ?thesis by simp
  next
    case True
    with Cons.prems(1) b tm obtain c' s sets' where p: "collector_push c ts = Inr (c', s)"
      "collect_sets_loop role1 tms c' = Inr (c1, sets')" "sets = s # sets'"
      by (auto split: sum.splits)
    note q = collector_push_ok [OF p(1) Cons.prems(2)]
    from Cons.IH [OF p(2) q(1)] q p(3) show ?thesis by fastforce
  qed
qed auto

definition sets_fit :: "nat \<Rightarrow> index_sets \<Rightarrow> bool" where
  "sets_fit n sets \<longleftrightarrow> sets \<noteq> [] \<and> (\<forall>s\<in>set sets. s \<noteq> [] \<and> (\<forall>tid\<in>set s. unat tid < n))"

lemma sets_fit_mono: "sets_fit n sets \<Longrightarrow> n \<le> k \<Longrightarrow> sets_fit k sets"
  by (fastforce simp: sets_fit_def)

definition rtm_ok :: "access_review_threshold list \<Rightarrow> (string \<times> index_sets) list \<Rightarrow> bool" where
  "rtm_ok c rtm \<longleftrightarrow> collector_ok c \<and> distinct (map fst rtm) \<and>
     (\<forall>e\<in>set rtm. sets_fit (length c) (snd e))"

lemma set_update: "set (AList.update k v m) \<subseteq> insert (k, v) (set m)"
  by (induction m) auto

lemma build_rtm_ok:
  "build_rtm m roles c rtm = Inr (c1, rtm1) \<Longrightarrow> rtm_ok c rtm \<Longrightarrow>
     rtm_ok c1 rtm1 \<and> fst ` set rtm1 = fst ` set rtm \<union> set roles"
proof (induction roles arbitrary: c rtm)
  case (Cons r roles)
  from Cons.prems(1) obtain c' sets where p: "collectSetsForRole m c r = Inr (c', sets)"
    "build_rtm m roles c' (AList.update r sets rtm) = Inr (c1, rtm1)"
    by (auto split: sum.splits)
  have s: "collect_sets_loop r (rv_ThresholdMatchers m) c = Inr (c', sets)" "sets \<noteq> []"
    using p(1) by (auto simp: collectSetsForRole_def split: sum.splits if_splits)
  have c: "collector_ok c" using Cons.prems(2) by (simp add: rtm_ok_def)
  from collect_sets_ok [OF s(1) c] obtain d where
    q: "collector_ok c'" "c' = c @ d" "\<forall>s\<in>set sets. s \<noteq> [] \<and> (\<forall>tid\<in>set s. unat tid < length c')" by blast
  have "sets_fit (length c') (snd e)" if "e \<in> set (AList.update r sets rtm)" for e
  proof -
    from that set_update [of r sets rtm] have "e = (r, sets) \<or> e \<in> set rtm" by blast
    then show ?thesis
    proof
      assume "e = (r, sets)"
      then show ?thesis using q(3) s(2) by (simp add: sets_fit_def)
    next
      assume "e \<in> set rtm"
      then have "sets_fit (length c) (snd e)" using Cons.prems(2) by (simp add: rtm_ok_def)
      then show ?thesis by (rule sets_fit_mono) (simp add: q(2))
    qed
  qed
  then have "rtm_ok c' (AList.update r sets rtm)"
    using Cons.prems(2) q(1) by (simp add: rtm_ok_def distinct_update)
  from Cons.IH [OF p(2) this] show ?case by (simp add: dom_update [unfolded dom_map_of_conv_image_fst]) 
qed simp

lemma rtm_ok_request_ok:
  assumes "rtm_ok c rtm" "rtm \<noteq> []"
  shows "request_ok c rtm"
proof -
  obtain e where e: "e \<in> set rtm" using assms(2) by (cases rtm) auto
  then have "sets_fit (length c) (snd e)" using assms(1) by (simp add: rtm_ok_def)
  then obtain s sets tid tids where s: "snd e = s # sets" "s = tid # tids" "unat tid < length c"
    by (auto simp: sets_fit_def neq_Nil_conv)
  have "sets_ok (length c) rtm"
    using assms(1) by (auto simp: sets_ok_def rtm_ok_def sets_fit_def)
  moreover have "\<exists>(role1, sets)\<in>set rtm. sets \<noteq> []" using e s(1) by (intro bexI [of _ e]) auto
  moreover have "c \<noteq> []" using s(3) by auto
  ultimately show ?thesis using assms(1) by (simp add: request_ok_def rtm_ok_def)
qed

lemma Validate_request_ok:
  assumes "Validate m req = Inr req'" "rv_expandVars m" "ar_Roles req \<noteq> []"
  shows "request_ok (ar_Thresholds req') (ar_RoleThresholdMapping req')"
    "fst ` set (ar_RoleThresholdMapping req') = set (ar_Roles req')"
    "length (ar_Thresholds req') \<le> maxThresholds"
proof -
  obtain req1 where r: "expand_wildcard m req = Inr req1" "expand_request m req1 = Inr req'"
    using assms(1,2) by (auto elim: Validate_Inr)
  obtain tc rtm where b: "build_rtm m (ar_Roles req1) [] [] = Inr (tc, rtm)"
    "ar_Thresholds req' = tc" "ar_RoleThresholdMapping req' = rtm"
    using r(2) by (auto simp: expand_request_def Let_def split: sum.splits if_splits)
  have "rtm_ok [] []" by (simp add: rtm_ok_def collector_ok_def)
  from build_rtm_ok [OF b(1) this] have ok: "rtm_ok tc rtm" "fst ` set rtm = set (ar_Roles req1)" by simp_all
  have ne: "ar_Roles req1 \<noteq> []" using expand_wildcard_frame [OF r(1)] assms(3) by blast
  then have "rtm \<noteq> []" using ok(2) by auto
  from rtm_ok_request_ok [OF ok(1) this] show "request_ok (ar_Thresholds req') (ar_RoleThresholdMapping req')"
    by (simp add: b)
  show "fst ` set (ar_RoleThresholdMapping req') = set (ar_Roles req')"
    using ok(2) expand_request_frame [OF r(2)] by (simp add: b)
  show "length (ar_Thresholds req') \<le> maxThresholds" using ok(1) by (simp add: b rtm_ok_def collector_ok_def)
qed

text \<open>A validated pending request without reviews starts out in the invariant of reviews.\<close>

lemma Validate_review_inv:
  assumes "Validate m req = Inr req'" "rv_expandVars m" "ar_Roles req \<noteq> []"
    "ar_State req = StatePending" "ar_Reviews req = []"
  shows "review_inv req'"
proof -
  obtain req1 where r: "expand_wildcard m req = Inr req1" "expand_request m req1 = Inr req'"
    using assms(1,2) by (auto elim: Validate_Inr)
  have "ar_State req1 = ar_State req" "ar_Reviews req1 = ar_Reviews req"
    using r(1) by (auto simp: expand_wildcard_def split: if_splits sum.splits)
  then have "ar_State req' = StatePending" "ar_Reviews req' = []"
    using expand_request_frame [OF r(2)] assms(4,5) by simp_all
  with Validate_request_ok(1) [OF assms(1-3)] show ?thesis
    by (simp add: review_inv_def reviewed_state_def trigger_def)
qed

section \<open>Annotations\<close>

lemma SystemAnnotations_not_denied:
  "(k, vs) \<in> set (SystemAnnotations m) \<Longrightarrow> v \<in> set vs \<Longrightarrow>
     v \<notin> set (annotation_at (rv_AnnotationsDeny m) k) \<and>
     (\<exists>va. (k, va) \<in> set (rv_AnnotationsAllow m) \<and> v \<in> set va)"
  by (auto simp: SystemAnnotations_def slice_contains_def)

section \<open>Review permissions\<close>

lemma unmatched_roles_spec:
  "unmatched_roles ms rs = Inr u \<Longrightarrow>
     set u \<subseteq> set rs \<and> (\<forall>r\<in>set rs. r \<in> set u \<or> any_match ms r = Inr True)"
  by (induction rs arbitrary: u) (auto split: sum.splits if_splits)

definition rule_active :: "predicate_parser \<Rightarrow> string \<Rightarrow> bool" where
  "rule_active parser expr \<longleftrightarrow> expr = [] \<or> EvalBoolPredicate parser expr = Inr True"

lemma review_needs_allow_spec:
  "review_needs_allow parser todo rules = Inr u \<Longrightarrow>
     set u \<subseteq> set todo \<and>
     (\<forall>r\<in>set todo. r \<in> set u \<or>
        (\<exists>(expr, ms)\<in>set rules. rule_active parser expr \<and> any_match ms r = Inr True))"
proof (induction rules arbitrary: todo)
  case (Cons rule1 rules)
  obtain expr ms where e: "rule1 = (expr, ms)" by (cases rule1)
  obtain match where m: "(if expr \<noteq> [] then EvalBoolPredicate parser expr else Inr True) = Inr match"
    using Cons.prems by (auto simp: e split: sum.splits)
  show ?case
  proof (cases match)
    case False
    with Cons.prems m have "review_needs_allow parser todo rules = Inr u" by (simp add: e)
    from Cons.IH [OF this] show ?thesis by auto
  next
    case True
    then have act: "rule_active parser expr" using m by (auto simp: rule_active_def split: if_splits)
    obtain v where v: "unmatched_roles ms todo = Inr v"
      "(if v = [] then Inr [] else review_needs_allow parser v rules) = Inr u"
      using Cons.prems True m by (auto simp: e split: sum.splits)
    note uv = unmatched_roles_spec [OF v(1)]
    show ?thesis
    proof (cases "v = []")
      case True
      then show ?thesis using uv v(2) act by (auto simp: e)
    next
      case False
      with v(2) have "review_needs_allow parser v rules = Inr u" by simp
      from Cons.IH [OF this] uv act show ?thesis by (fastforce simp: e)
    qed
  qed
qed auto

lemma review_denied_spec:
  "review_denied parser roles rules = Inr False \<Longrightarrow> (expr, ms) \<in> set rules \<Longrightarrow> rule_active parser expr \<Longrightarrow>
     r \<in> set roles \<Longrightarrow> any_match ms r = Inr False"
proof (induction rules)
  case (Cons rule1 rules)
  obtain expr1 ms1 where e: "rule1 = (expr1, ms1)" by (cases rule1)
  obtain match where m: "(if expr1 \<noteq> [] then EvalBoolPredicate parser expr1 else Inr True) = Inr match"
    using Cons.prems by (auto simp: e split: sum.splits)
  have rest: "review_denied parser roles rules = Inr False"
    using Cons.prems(1) m by (auto simp: e split: sum.splits if_splits)
  show ?case
  proof (cases "(expr, ms) = rule1")
    case True
    then have "match" using m Cons.prems(3) by (auto simp: e rule_active_def split: if_splits)
    then have "ex_res (any_match ms1) roles = Inr False"
      using Cons.prems(1) m by (auto simp: e split: sum.splits if_splits)
    then show ?thesis using True Cons.prems(4) by (simp add: e ex_res_False_iff)
  next
    case False
    with Cons.prems(2) have "(expr, ms) \<in> set rules" by auto
    from Cons.IH [OF rest this Cons.prems(3,4)] show ?thesis .
  qed
qed simp

lemma CanReviewRequest_True:
  assumes "CanReviewRequest np c req = Inr True"
  obtains parser where "np c req = Inr parser" "user_Name (rc_User c) \<noteq> ar_User req"
    "\<forall>r\<in>set (GetOriginalRoles req). \<exists>(expr, ms)\<in>set (rc_AllowReview c).
       rule_active parser expr \<and> (\<exists>m\<in>set ms. Match m r = Some True)"
    "\<forall>r\<in>set (GetOriginalRoles req). \<forall>(expr, ms)\<in>set (rc_DenyReview c).
       rule_active parser expr \<longrightarrow> (\<forall>m\<in>set ms. Match m r = Some False)"
proof -
  obtain parser where p: "np c req = Inr parser" "user_Name (rc_User c) \<noteq> ar_User req"
    "review_denied parser (GetOriginalRoles req) (rc_DenyReview c) = Inr False"
    "review_needs_allow parser (GetOriginalRoles req) (rc_AllowReview c) = Inr []"
    using assms by (auto simp: CanReviewRequest_def Let_def split: if_splits sum.splits)
  show ?thesis
  proof (rule that [OF p(1,2)])
    show "\<forall>r\<in>set (GetOriginalRoles req). \<exists>(expr, ms)\<in>set (rc_AllowReview c).
       rule_active parser expr \<and> (\<exists>m\<in>set ms. Match m r = Some True)"
      using review_needs_allow_spec [OF p(4)] any_match_True by fastforce
    show "\<forall>r\<in>set (GetOriginalRoles req). \<forall>(expr, ms)\<in>set (rc_DenyReview c).
       rule_active parser expr \<longrightarrow> (\<forall>m\<in>set ms. Match m r = Some False)"
      using review_denied_spec [OF p(3)] by (auto simp: any_match_False)
  qed
qed

section \<open>From validation to resolution\<close>

lemma settle_request_frame:
  assumes "settle_request req = Inr req'"
  shows "ar_Roles req' = ar_Roles req" "ar_User req' = ar_User req" "ar_Thresholds req' = ar_Thresholds req"
    "ar_RoleThresholdMapping req' = ar_RoleThresholdMapping req"
  using assms
  by (auto simp: settle_request_def Let_def SetState_def request_SetExpiry_def
      split: if_splits sum.splits option.splits)

lemma review_run_frame:
  "review_run tp req req' \<Longrightarrow> ar_Roles req' = ar_Roles req \<and> ar_User req' = ar_User req \<and>
     ar_Thresholds req' = ar_Thresholds req \<and> ar_RoleThresholdMapping req' = ar_RoleThresholdMapping req"
proof (induction rule: review_run.induct)
  case (run_review req req1 rev1 author req2)
  from run_review.hyps(2) show ?case
    by (rule ApplyAccessReview_Inr) (use run_review.IH settle_request_frame in fastforce)
qed simp

text \<open>The reviews approve a role when every threshold set of the role has a threshold that enough
  distinct authors met; they deny the request when the deny threshold of one is met.\<close>

definition role_approved :: "access_request \<Rightarrow> string \<Rightarrow> bool" where
  "role_approved req role1 \<longleftrightarrow>
     (\<exists>sets. map_of (ar_RoleThresholdMapping req) role1 = Some sets \<and>
        (\<forall>s\<in>set sets. \<exists>tid\<in>set s.
           th_Approve (ar_Thresholds req ! unat tid) \<noteq> 0 \<and>
           unat (th_Approve (ar_Thresholds req ! unat tid)) \<le> card (voters StateApproved (unat tid) (ar_Reviews req))))"

lemma quorum_roles:
  assumes "quorum req" "distinct (map fst (ar_RoleThresholdMapping req))"
    "role1 \<in> fst ` set (ar_RoleThresholdMapping req)"
  shows "role_approved req role1"
proof -
  from assms(3) obtain sets where "(role1, sets) \<in> set (ar_RoleThresholdMapping req)" by auto
  with assms(1,2) show ?thesis by (auto simp: role_approved_def quorum_def)
qed

lemma validated_run:
  assumes "Validate m req = Inr req1" "rv_expandVars m" "ar_Roles req \<noteq> []" "ar_State req = StatePending"
    "ar_Reviews req = []" "review_run tp req1 req2" "length (ar_Reviews req2) < 2 ^ 32"
  shows "review_inv req2"
    "ar_State req2 = StateApproved \<Longrightarrow> r \<in> set (ar_Roles req2) \<Longrightarrow> role_approved req2 r"
    "ar_State req2 = StateDenied \<Longrightarrow> veto req2"
    "ar_State req2 \<noteq> StateNone"
proof -
  show inv: "review_inv req2"
    using Validate_review_inv [OF assms(1-5)] review_run_inv [OF assms(6) _ assms(7)] by blast
  show "ar_State req2 = StateDenied \<Longrightarrow> veto req2" "ar_State req2 \<noteq> StateNone"
    using review_inv_resolved [OF inv] by blast+
  assume "ar_State req2 = StateApproved" and r: "r \<in> set (ar_Roles req2)"
  then have "quorum req2" using review_inv_resolved(1) [OF inv] by blast
  moreover have "r \<in> fst ` set (ar_RoleThresholdMapping req2)"
    using r review_run_frame [OF assms(6)] Validate_request_ok(2) [OF assms(1-3)] by simp
  ultimately show "role_approved req2 r"
    using inv by (intro quorum_roles) (auto simp: review_inv_def request_ok_def)
qed

section \<open>What the roles of a user let the user request\<close>

text \<open>A role whose request conditions are globs, without claim mappings.\<close>

definition plain_request :: "role \<Rightarrow> bool" where
  "plain_request r \<longleftrightarrow>
     (\<forall>c. arc_ClaimsToRoles (GetAccessRequestConditions c r) = [] \<and>
          (\<forall>g\<in>set (arc_Roles (GetAccessRequestConditions c r)). plain_text g \<and> is_glob g))"

definition request_globs :: "role_condition_type \<Rightarrow> role \<Rightarrow> string list" where
  "request_globs c r = arc_Roles (GetAccessRequestConditions c r)"

lemma ex_res_append:
  "ex_res f (xs @ ys) = (case ex_res f xs of Inl e \<Rightarrow> Inl e | Inr b \<Rightarrow> if b then Inr True else ex_res f ys)"
  by (induction xs) (auto split: sum.splits)

lemma map_NewMatcher_globs:
  "\<forall>g\<in>set gs. plain_text g \<and> is_glob g \<Longrightarrow>
     \<exists>ms. map_res NewMatcher gs = Inr ms \<and> (\<forall>s. any_match ms s = Inr (globs_match gs s))"
proof (induction gs)
  case Nil
  then show ?case by (simp add: any_match_def globs_match_def)
next
  case (Cons g gs)
  obtain m where m: "NewMatcher g = Inr m" "\<forall>s. Match m s = Some (glob_match g s)"
    using NewMatcher_glob [of g] Cons.prems by auto
  obtain ms where ms: "map_res NewMatcher gs = Inr ms" "\<forall>s. any_match ms s = Inr (globs_match gs s)"
    using Cons.IH Cons.prems by auto
  have "any_match (m # ms) s = Inr (globs_match (g # gs) s)" for s
    using m(2) ms(2) by (auto simp: any_match_def run_match_def globs_match_def)
  with m(1) ms(1) show ?case by simp
qed

lemma appendRoleMatchers_globs:
  assumes "\<forall>g\<in>set gs. plain_text g \<and> is_glob g" "\<And>s. any_match ms0 s = Inr (p s)"
  obtains ms where "appendRoleMatchers ms0 gs [] tr = Inr ms" "\<And>s. any_match ms s = Inr (p s \<or> globs_match gs s)"
proof -
  obtain ms where ms: "map_res NewMatcher gs = Inr ms" "\<forall>s. any_match ms s = Inr (globs_match gs s)"
    using map_NewMatcher_globs [OF assms(1)] by auto
  have "appendRoleMatchers ms0 gs [] tr = Inr (ms0 @ ms)"
    using ms(1) by (simp add: appendRoleMatchers_def GetTraitMappings_def TraitsToRoleMatchers_def traitsToRoles_def)
  moreover have "any_match (ms0 @ ms) s = Inr (p s \<or> globs_match gs s)" for s
    using ms(2) assms(2) [of s] by (simp add: any_match_def ex_res_append)
  ultimately show ?thesis by (rule that)
qed

text \<open>What a validator decides: whose requests, and which roles.\<close>

definition validates :: "request_validator \<Rightarrow> user \<Rightarrow> bool \<Rightarrow> (string \<Rightarrow> bool) \<Rightarrow> (string \<Rightarrow> bool) \<Rightarrow> bool" where
  "validates m u expandVars allow deny \<longleftrightarrow> rv_user m = u \<and> rv_expandVars m = expandVars \<and>
     (\<forall>s. any_match (rv_AllowRequest m) s = Inr (allow s)) \<and> (\<forall>s. any_match (rv_DenyRequest m) s = Inr (deny s))"

lemma validator_push_globs:
  assumes "validates m u ev allow deny" "plain_request r"
  obtains m1 where "validator_push pa m r = Inr m1"
    "validates m1 u ev (\<lambda>s. allow s \<or> globs_match (request_globs Allow r) s)
                       (\<lambda>s. deny s \<or> globs_match (request_globs Deny r) s)"
proof -
  have c: "arc_ClaimsToRoles (GetAccessRequestConditions c r) = []"
    "\<forall>g\<in>set (request_globs c r). plain_text g \<and> is_glob g" for c
    using assms(2) by (auto simp: plain_request_def request_globs_def)
  have v: "rv_user m = u" "rv_expandVars m = ev" "\<And>s. any_match (rv_AllowRequest m) s = Inr (allow s)"
    "\<And>s. any_match (rv_DenyRequest m) s = Inr (deny s)"
    using assms(1) by (auto simp: validates_def)
  obtain ds where ds: "appendRoleMatchers (rv_DenyRequest m) (request_globs Deny r) [] (user_Traits u) = Inr ds"
    "\<And>s. any_match ds s = Inr (deny s \<or> globs_match (request_globs Deny r) s)"
    using appendRoleMatchers_globs [OF c(2) v(4)] by blast
  obtain as where as: "appendRoleMatchers (rv_AllowRequest m) (request_globs Allow r) [] (user_Traits u) = Inr as"
    "\<And>s. any_match as s = Inr (allow s \<or> globs_match (request_globs Allow r) s)"
    using appendRoleMatchers_globs [OF c(2) v(3)] by blast
  have "\<exists>m1. validator_push pa m r = Inr m1 \<and> rv_user m1 = u \<and> rv_expandVars m1 = ev \<and>
      rv_AllowRequest m1 = as \<and> rv_DenyRequest m1 = ds"
    using ds(1) as(1) v(1,2) by (simp add: validator_push_def Let_def c(1) request_globs_def)
  then show ?thesis
    using that ds(2) as(2) by (auto simp: validates_def)
qed

definition users_roles :: "role_getter \<Rightarrow> user \<Rightarrow> role set" where
  "users_roles g u = {r. \<exists>n\<in>set (user_Roles u). get_Role g n = Inr r}"

lemma push_roles_globs:
  "\<forall>n\<in>set ns. \<exists>r. getRole n = Inr r \<and> plain_request r \<Longrightarrow> validates m u ev allow deny \<Longrightarrow>
     \<exists>m1. push_roles (validator_push pa) getRole m ns = Inr m1 \<and>
       validates m1 u ev
         (\<lambda>s. allow s \<or> (\<exists>n\<in>set ns. \<exists>r. getRole n = Inr r \<and> globs_match (request_globs Allow r) s))
         (\<lambda>s. deny s \<or> (\<exists>n\<in>set ns. \<exists>r. getRole n = Inr r \<and> globs_match (request_globs Deny r) s))"
proof (induction ns arbitrary: m allow deny)
  case (Cons n ns)
  obtain r where r: "getRole n = Inr r" "plain_request r" using Cons.prems(1) by auto
  obtain m1 where m1: "validator_push pa m r = Inr m1"
    "validates m1 u ev (\<lambda>s. allow s \<or> globs_match (request_globs Allow r) s)
                       (\<lambda>s. deny s \<or> globs_match (request_globs Deny r) s)"
    using validator_push_globs [OF Cons.prems(2) r(2)] by blast
  from Cons.IH [OF _ m1(2)] Cons.prems(1) obtain m2 where m2:
    "push_roles (validator_push pa) getRole m1 ns = Inr m2"
    "validates m2 u ev
       (\<lambda>s. (allow s \<or> globs_match (request_globs Allow r) s) \<or>
            (\<exists>n\<in>set ns. \<exists>r. getRole n = Inr r \<and> globs_match (request_globs Allow r) s))
       (\<lambda>s. (deny s \<or> globs_match (request_globs Deny r) s) \<or>
            (\<exists>n\<in>set ns. \<exists>r. getRole n = Inr r \<and> globs_match (request_globs Deny r) s))"
    by auto
  have "push_roles (validator_push pa) getRole m (n # ns) = Inr m2" using r(1) m1(1) m2(1) by simp
  then show ?case
    using m2(2) r(1) by (simp add: disj_assoc)
qed simp

lemma NewRequestValidator_globs:
  assumes "get_User g name = Inr u" "\<forall>n\<in>set (user_Roles u). \<exists>r. get_Role g n = Inr r \<and> plain_request r"
  obtains m where "NewRequestValidator pa g name ev = Inr m"
    "validates m u ev (\<lambda>s. \<exists>r\<in>users_roles g u. globs_match (request_globs Allow r) s)
                      (\<lambda>s. \<exists>r\<in>users_roles g u. globs_match (request_globs Deny r) s)"
proof -
  let ?m = "\<lparr>rv_getter = g, rv_user = u, rv_requireReason = False, rv_expandVars = ev,
             rv_AllowRequest = [], rv_DenyRequest = [], rv_AnnotationsAllow = [], rv_AnnotationsDeny = [],
             rv_ThresholdMatchers = [], rv_SuggestedReviewers = []\<rparr>"
  have "validates ?m u ev (\<lambda>s. False) (\<lambda>s. False)" by (simp add: validates_def any_match_def)
  from push_roles_globs [OF assms(2) this] obtain m where m:
    "push_roles (validator_push pa) (get_Role g) ?m (user_Roles u) = Inr m"
    "validates m u ev
       (\<lambda>s. \<exists>n\<in>set (user_Roles u). \<exists>r. get_Role g n = Inr r \<and> globs_match (request_globs Allow r) s)
       (\<lambda>s. \<exists>n\<in>set (user_Roles u). \<exists>r. get_Role g n = Inr r \<and> globs_match (request_globs Deny r) s)"
    by auto
  have "NewRequestValidator pa g name ev = Inr m" using m(1) assms(1) by (simp add: NewRequestValidator_def)
  moreover have "validates m u ev (\<lambda>s. \<exists>r\<in>users_roles g u. globs_match (request_globs Allow r) s)
                      (\<lambda>s. \<exists>r\<in>users_roles g u. globs_match (request_globs Deny r) s)"
    using m(2) by (auto simp: validates_def users_roles_def)
  ultimately show ?thesis by (rule that)
qed

lemma CanRequestRole_validates:
  "validates m u ev allow deny \<Longrightarrow> CanRequestRole m s = Inr (\<not> deny s \<and> allow s)"
  by (simp add: validates_def CanRequestRole_def)

lemma validator_push_frame:
  "validator_push pa m r = Inr m1 \<Longrightarrow> rv_user m1 = rv_user m \<and> rv_expandVars m1 = rv_expandVars m"
  by (auto simp: validator_push_def Let_def split: sum.splits if_splits)

lemma push_roles_frame:
  "push_roles (validator_push pa) getRole m ns = Inr m1 \<Longrightarrow>
     rv_user m1 = rv_user m \<and> rv_expandVars m1 = rv_expandVars m"
  by (induction ns arbitrary: m) (auto split: sum.splits dest!: validator_push_frame)

lemma NewRequestValidator_frame:
  "NewRequestValidator pa g name ev = Inr m \<Longrightarrow> get_User g name = Inr (rv_user m) \<and> rv_expandVars m = ev"
  by (auto simp: NewRequestValidator_def split: sum.splits dest: push_roles_frame)

lemma ValidateAccessRequestForUser_Inr:
  assumes "ValidateAccessRequestForUser pa g req ev = Inr req'"
  obtains m where "NewRequestValidator pa g (ar_User req) ev = Inr m" "Validate m req = Inr req'"
    "rv_expandVars m = ev" "get_User g (ar_User req) = Inr (rv_user m)"
  using assms NewRequestValidator_frame
  by (fastforce simp: ValidateAccessRequestForUser_def split: sum.splits)

end
