(* ===== verification/Examples.thy ===== *)
theory Examples
  imports Presets Request_Validator
begin

text \<open>
  Small concrete roles, targets, users and requests, at which the witnesses of the properties evaluate
  the model.
\<close>

section \<open>Examples for the witnesses\<close>

definition example_role :: "string \<Rightarrow> role_conditions \<Rightarrow> role_conditions \<Rightarrow> role" where
  "example_role name allow deny =
     \<lparr>role_Kind = KindRole, role_SubKind = [], role_Version = V3, role_Metadata = named_metadata name,
      role_Options = no_options, role_Allow = allow, role_Deny = deny\<rparr>"

definition dev_labels :: "labels option" where
  "dev_labels = Some [(''env'', [''dev-*''])]"

definition prod_labels :: "labels option" where
  "prod_labels = Some [(''env'', [''prod''])]"

definition dev_role :: role where
  "dev_role = example_role ''dev''
     (no_conditions\<lparr>cond_Logins := [''alice''], cond_Namespaces := Some [''default''],
        cond_NodeLabels := dev_labels, cond_AppLabels := dev_labels, cond_KubernetesLabels := dev_labels,
        cond_DatabaseLabels := dev_labels, cond_ClusterLabels := dev_labels,
        cond_DatabaseUsers := [''reader'']\<rparr>)
     (no_conditions\<lparr>cond_Namespaces := Some [''default''], cond_NodeLabels := prod_labels,
        cond_AppLabels := prod_labels, cond_KubernetesLabels := prod_labels,
        cond_DatabaseLabels := prod_labels, cond_ClusterLabels := prod_labels\<rparr>)"

definition dev_server :: server where
  "dev_server = \<lparr>srv_Namespace = ''default'', srv_Labels = [(''env'', ''dev-1'')], srv_CmdLabels = []\<rparr>"

definition dev_target :: labeled_target where
  "dev_target = \<lparr>tgt_StaticLabels = [(''env'', ''dev-1'')], tgt_DynamicLabels = []\<rparr>"

definition no_mfa :: access_mfa_params where
  "no_mfa = \<lparr>AlwaysRequired = False, Verified = False\<rparr>"

lemmas example_defs = dev_role_def dev_server_def dev_target_def no_mfa_def example_role_def
  dev_labels_def prod_labels_def

lemma example_globs [simp]: "is_glob ''dev-*''" "is_glob ''prod''"
  by (simp_all add: is_glob_def has_prefix_def has_suffix_def)

lemma example_matches [simp]: "glob_match ''dev-*'' ''dev-1''" "\<not> glob_match ''prod'' ''dev-1''"
  by (simp_all add: newline_def Wildcard_def numeral_eq_Suc)

lemma example_valid [simp]: "valid_labels (elems dev_labels)" "valid_labels (elems prod_labels)"
  by (simp_all add: valid_labels_def example_defs elems_def)

lemma dev_role_compiles [simp]:
  "compiles GetNodeLabels [dev_role]" "compiles GetAppLabels [dev_role]" "compiles GetKubernetesLabels [dev_role]"
  "compiles GetDatabaseLabels [dev_role]" "compiles GetClusterLabels [dev_role]"
  by (simp_all add: compiles_def valid_labels_def accessor_defs example_defs elems_def)

lemma dev_selects [simp]:
  "selects dev_labels [(''env'', ''dev-1'')]" "\<not> selects prod_labels [(''env'', ''dev-1'')]"
  by (simp_all add: selects_def dev_labels_def prod_labels_def elems_def entry_matches_def Wildcard_def newline_def)

lemma dev_role_simps [simp]:
  "GetName dev_role = ''dev''" "GetLogins Allow dev_role = [''alice'']" "GetLogins Deny dev_role = []"
  "GetNamespaces c dev_role = [''default'']"
  "GetNodeLabels Allow dev_role = dev_labels" "GetNodeLabels Deny dev_role = prod_labels"
  "GetAppLabels Allow dev_role = dev_labels" "GetAppLabels Deny dev_role = prod_labels"
  "GetKubernetesLabels Allow dev_role = dev_labels" "GetKubernetesLabels Deny dev_role = prod_labels"
  "GetDatabaseLabels Allow dev_role = dev_labels" "GetDatabaseLabels Deny dev_role = prod_labels"
  "GetClusterLabels Allow dev_role = dev_labels" "GetClusterLabels Deny dev_role = prod_labels"
  "GetAWSRoleARNs c dev_role = []" "GetDatabaseUsers Allow dev_role = [''reader'']" "GetDatabaseUsers Deny dev_role = []"
  "\<not> opt_RequireSessionMFA (GetOptions dev_role)"
  by (simp_all add: example_defs accessor_defs no_conditions_def no_options_def named_metadata_def elems_def)

definition mfa_role :: role where
  "mfa_role = SetOptions (no_options\<lparr>opt_RequireSessionMFA := True\<rparr>) dev_role"

lemma mfa_role_simps [simp]:
  "GetLogins c mfa_role = GetLogins c dev_role" "GetNamespaces c mfa_role = GetNamespaces c dev_role"
  "GetNodeLabels c mfa_role = GetNodeLabels c dev_role" "opt_RequireSessionMFA (GetOptions mfa_role)"
  by (simp_all add: mfa_role_def accessor_defs)

lemma mfa_role_compiles [simp]: "compiles GetNodeLabels [mfa_role]"
  using dev_role_compiles(1) by (simp add: compiles_def)

lemma dev_target_simps [simp]:
  "srv_Namespace dev_server = ''default''" "GetAllLabels dev_server = [(''env'', ''dev-1'')]"
  "target_labels dev_target = [(''env'', ''dev-1'')]" "MatchNamespace [''default''] ''default''"
  "\<not> AlwaysRequired no_mfa" "\<not> Verified no_mfa"
  by (simp_all add: example_defs GetAllLabels_def target_labels_def CombineLabels_def MatchNamespace_def)

definition no_addresses :: address_parser where
  "no_addresses s = Inl BadParameter"

definition no_predicates :: predicate_parser where
  "no_predicates s = Inl BadParameter"

end
