(* ===== verification/Access_Properties.thy ===== *)
theory Access_Properties
  imports Examples
begin

text \<open>
  The properties of the access checks of \<open>lib/services/role.go\<close>: servers, applications, Kubernetes clusters,
  databases, remote clusters and resource rules, each with a witness.
\<close>

text \<open>C1: once the label patterns of the roles compile, access to a server is granted exactly when the
  session carries the second factor if every session needs one, no role denies (namespace and either
  labels or login), some role allows (namespace, labels and login), and without a second factor no allowing
  role asks for one; one denying role outweighs any number of allowing ones.\<close>

theorem CheckAccessToServer_granted:
  assumes "compiles GetNodeLabels rs"
  shows "CheckAccessToServer rs login s mfa = Inr () \<longleftrightarrow>
    decides
      (\<lambda>r. MatchNamespace (GetNamespaces Deny r) (srv_Namespace s) \<and>
           (selects (GetNodeLabels Deny r) (GetAllLabels s) \<or> MatchLogin (GetLogins Deny r) login))
      (\<lambda>r. MatchNamespace (GetNamespaces Allow r) (srv_Namespace s) \<and>
           selects (GetNodeLabels Allow r) (GetAllLabels s) \<and> MatchLogin (GetLogins Allow r) login)
      (set rs) mfa"
  by (rule server.decides_total) (simp_all add: server_total [OF assms])

theorem CheckAccessToServer_granted_witness:
  "CheckAccessToServer [dev_role] ''alice'' dev_server no_mfa = Inr () \<and>
   CheckAccessToServer [dev_role] ''bob'' dev_server no_mfa \<noteq> Inr ()"
  using CheckAccessToServer_granted [of "[dev_role]" "''alice''" dev_server no_mfa]
    CheckAccessToServer_granted [of "[dev_role]" "''bob''" dev_server no_mfa]
  by (simp add: decides_def MatchLogin_def)

text \<open>C30: when the check asks for a second factor for the sake of a role, and not because every session
  needs one, the same request with the factor verified is granted.\<close>

theorem CheckAccessToServer_mfa_suffices:
  assumes "compiles GetNodeLabels rs" "\<not> AlwaysRequired mfa"
    and "CheckAccessToServer rs login s mfa = Inl SessionMFARequired"
  shows "CheckAccessToServer rs login s (mfa\<lparr>Verified := True\<rparr>) = Inr ()"
  using assms(3,2) by (rule server.mfa_request_sound) (simp_all add: server_total [OF assms(1)])

theorem CheckAccessToServer_mfa_suffices_witness:
  "CheckAccessToServer [mfa_role] ''alice'' dev_server (no_mfa\<lparr>Verified := True\<rparr>) = Inr ()"
  by (rule CheckAccessToServer_mfa_suffices)
    (simp_all add: CheckAccessToServer_def MatchLabels_selects MatchLogin_def example_valid)

text \<open>access to an application, a role denying when its namespaces select and its labels or any extra
  matcher do, and allowing when its namespaces, labels and every extra matcher do.\<close>

theorem CheckAccessToApp_granted:
  assumes "compiles GetAppLabels rs" "compiles GetDatabaseLabels rs"
  shows "CheckAccessToApp rs namespace app mfa ms = Inr () \<longleftrightarrow>
    decides
      (\<lambda>r. MatchNamespace (GetNamespaces Deny r) namespace \<and>
           (selects (GetAppLabels Deny r) (target_labels app) \<or> (\<exists>m\<in>set ms. matcher_selects Deny r m)))
      (\<lambda>r. MatchNamespace (GetNamespaces Allow r) namespace \<and>
           selects (GetAppLabels Allow r) (target_labels app) \<and> (\<forall>m\<in>set ms. matcher_selects Allow r m))
      (set rs) mfa"
  by (rule app.decides_total) (simp_all add: app_total [OF assms])

theorem CheckAccessToApp_granted_witness:
  "CheckAccessToApp [dev_role] ''default'' dev_target no_mfa [] = Inr () \<and>
   CheckAccessToApp [dev_role] ''default'' dev_target no_mfa [AWSRoleARNMatcher ''arn:1''] \<noteq> Inr ()"
  using CheckAccessToApp_granted [of "[dev_role]" "''default''" dev_target no_mfa "[]"]
    CheckAccessToApp_granted [of "[dev_role]" "''default''" dev_target no_mfa "[AWSRoleARNMatcher ''arn:1'']"]
  by (simp add: decides_def MatchAWSRoleARN_def)

text \<open>C31: access to a Kubernetes cluster is decided by namespaces and labels, deny before allow.\<close>

theorem CheckAccessToKubernetes_granted:
  assumes "compiles GetKubernetesLabels rs"
  shows "CheckAccessToKubernetes rs namespace kube mfa = Inr () \<longleftrightarrow>
    decides
      (\<lambda>r. MatchNamespace (GetNamespaces Deny r) namespace \<and>
           selects (GetKubernetesLabels Deny r) (target_labels kube))
      (\<lambda>r. MatchNamespace (GetNamespaces Allow r) namespace \<and>
           selects (GetKubernetesLabels Allow r) (target_labels kube))
      (set rs) mfa"
  by (rule kube.decides_total) (simp_all add: kube_total [OF assms])

theorem CheckAccessToKubernetes_granted_witness:
  "CheckAccessToKubernetes [dev_role] ''default'' dev_target no_mfa = Inr () \<and>
   CheckAccessToKubernetes [dev_role] ''default'' dev_target (no_mfa\<lparr>AlwaysRequired := True\<rparr>) \<noteq> Inr ()"
  using CheckAccessToKubernetes_granted [of "[dev_role]" "''default''" dev_target no_mfa]
    CheckAccessToKubernetes_granted [of "[dev_role]" "''default''" dev_target "no_mfa\<lparr>AlwaysRequired := True\<rparr>"]
  by (simp add: decides_def)

text \<open>access to a database is decided by namespaces and the matchers of the request (labels, database user,
  database name), any of which is enough for a role to deny and all of which it takes to allow.\<close>

theorem CheckAccessToDatabase_granted:
  assumes "compiles GetDatabaseLabels rs"
  shows "CheckAccessToDatabase rs srv mfa ms = Inr () \<longleftrightarrow>
    decides
      (\<lambda>r. MatchNamespace (GetNamespaces Deny r) (db_Namespace srv) \<and> (\<exists>m\<in>set ms. matcher_selects Deny r m))
      (\<lambda>r. MatchNamespace (GetNamespaces Allow r) (db_Namespace srv) \<and> (\<forall>m\<in>set ms. matcher_selects Allow r m))
      (set rs) mfa"
  by (rule database.decides_total) (simp_all add: database_total [OF assms])

theorem CheckAccessToDatabase_granted_witness:
  "CheckAccessToDatabase [dev_role] \<lparr>db_Namespace = ''default''\<rparr> no_mfa
     [DatabaseLabelsMatcher [(''env'', ''dev-1'')], DatabaseUserMatcher ''reader''] = Inr () \<and>
   CheckAccessToDatabase [dev_role] \<lparr>db_Namespace = ''default''\<rparr> no_mfa
     [DatabaseLabelsMatcher [(''env'', ''dev-1'')], DatabaseUserMatcher ''postgres''] \<noteq> Inr ()"
  using CheckAccessToDatabase_granted [of "[dev_role]" "\<lparr>db_Namespace = ''default''\<rparr>" no_mfa
      "[DatabaseLabelsMatcher [(''env'', ''dev-1'')], DatabaseUserMatcher ''reader'']"]
    CheckAccessToDatabase_granted [of "[dev_role]" "\<lparr>db_Namespace = ''default''\<rparr>" no_mfa
      "[DatabaseLabelsMatcher [(''env'', ''dev-1'')], DatabaseUserMatcher ''postgres'']"]
  by (simp add: decides_def MatchDatabaseUser_def Wildcard_def)

text \<open>access to a remote cluster. An empty role set is denied; a cluster without labels is open to a role
  set that uses no cluster labels; otherwise a role must select it and none may deny it.\<close>

theorem CheckAccessToRemoteCluster_decision:
  assumes "compiles GetClusterLabels rs"
  shows "CheckAccessToRemoteCluster rs rcLabels =
    (if rs \<noteq> [] \<and> ((\<not> uses_cluster_labels rs \<and> rcLabels = []) \<or>
          ((\<forall>r\<in>set rs. \<not> selects (GetClusterLabels Deny r) rcLabels) \<and>
           (\<exists>r\<in>set rs. selects (GetClusterLabels Allow r) rcLabels)))
     then Inr () else Inl AccessDenied)"
proof (cases "rs = [] \<or> unlabeled rcLabels rs")
  case True
  then show ?thesis by (auto simp: CheckAccessToRemoteCluster_def unlabeled_def)
next
  case False
  have "CheckAccessToRemoteCluster rs rcLabels =
    (if (\<forall>r\<in>set rs. \<not> selects (GetClusterLabels Deny r) rcLabels) \<and>
        (\<exists>r\<in>set rs. selects (GetClusterLabels Allow r) rcLabels) then Inr () else Inl AccessDenied)"
    by (rule cluster.decides_total) (use False cluster_total [OF assms] in auto)
  then show ?thesis using False by (simp add: unlabeled_def)
qed

theorem CheckAccessToRemoteCluster_decision_witness:
  "CheckAccessToRemoteCluster [dev_role] [(''env'', ''dev-1'')] = Inr ()"
  using CheckAccessToRemoteCluster_decision [of "[dev_role]" "[(''env'', ''dev-1'')]"] by simp

text \<open>C7: if every where clause and action of the rules in play evaluates, access to a resource and verb is
  granted exactly when no role has a deny rule that covers it and some role has an allow rule that does; a
  rule covers a resource it names or through the wildcard, and applies when its where clause holds and its verbs
  include the wildcard or the verb; anything else is access denied.\<close>

theorem CheckAccessToRule_granted:
  assumes "\<forall>r\<in>set rs. \<forall>ru\<in>set (GetRules Allow r) \<union> set (GetRules Deny r). rule_evaluates wp ap ru"
  shows "snd (CheckAccessToRule rs (Inr wp) (Inr ap) namespace resource verb) =
     (if (\<forall>r\<in>set rs. \<not> role_rule_applies Deny wp namespace resource verb r) \<and>
         (\<exists>r\<in>set rs. role_rule_applies Allow wp namespace resource verb r)
      then Inr () else Inl AccessDenied)"
  using assms by (rule CheckAccessToRule_evaluates)

definition own_session_rule :: rule where
  "own_session_rule = (NewRule ''session'' [''read''])\<lparr>rule_Where := ''own'', rule_Actions := [''log'']\<rparr>"

definition own_parser :: "bool \<Rightarrow> predicate_parser" where
  "own_parser b s = (if s = ''own'' then Inr (BoolPredicate b) else if s = ''log'' then Inr (BoolPredicate True)
     else Inl BadParameter)"

definition session_role :: role where
  "session_role = example_role ''session'' (no_conditions\<lparr>cond_Namespaces := Some [''default''],
     cond_Rules := [own_session_rule]\<rparr>) no_conditions"

lemma session_role_simps [simp]:
  "GetRules Allow session_role = [own_session_rule]" "GetRules Deny session_role = []"
  "GetNamespaces Allow session_role = [''default'']" "GetNamespaces Deny session_role = []"
  by (simp_all add: session_role_def example_role_def accessor_defs no_conditions_def elems_def)

lemma own_session_rule_evaluates: "rule_evaluates (own_parser b) (own_parser b) own_session_rule"
  "matchesWhere own_session_rule (own_parser b) = Inr b" "HasVerb own_session_rule ''read''"
  "covers ''session'' own_session_rule"
  by (auto simp: own_session_rule_def own_parser_def rule_evaluates_def matchesWhere_def NewRule_def
      HasVerb_iff covers_def)

theorem CheckAccessToRule_granted_witness:
  "snd (CheckAccessToRule [session_role] (Inr (own_parser True)) (Inr (own_parser True)) ''default'' ''session'' ''read'') = Inr () \<and>
   snd (CheckAccessToRule [session_role] (Inr (own_parser False)) (Inr (own_parser False)) ''default'' ''session'' ''read'') = Inl AccessDenied"
  using CheckAccessToRule_granted [of "[session_role]" "own_parser True" "own_parser True" "''default''" "''session''" "''read''"]
    CheckAccessToRule_granted [of "[session_role]" "own_parser False" "own_parser False" "''default''" "''session''" "''read''"]
  by (simp add: own_session_rule_evaluates role_rule_applies_def rule_applies_def ProcessNamespace_def MatchNamespace_def)

text \<open>C32: the rule set a role's rules are compiled to runs the actions of a most specific rule: if a rule
  that names the resource applies, the match succeeds, and the actions logged are those of an applying rule
  that names the resource and has at least its score.\<close>

theorem RuleSet_Match_most_specific:
  assumes "\<forall>r\<in>set rules. rule_evaluates wp ap r"
    and "r \<in> set rules" "resource \<in> set (rule_Resources r)" "rule_applies wp verb r"
  shows "\<exists>r'\<in>set rules. resource \<in> set (rule_Resources r') \<and> rule_applies wp verb r' \<and>
     ruleScore r \<le> ruleScore r' \<and>
     RuleSet_Match (MakeRuleSet rules) wp ap resource verb log = (log @ rule_Actions r', Inr True)"
  using assms by (rule RuleSet_Match_specific)

theorem RuleSet_Match_most_specific_witness:
  "\<exists>r'\<in>{NewRule ''session'' [''read''], own_session_rule}. ''session'' \<in> set (rule_Resources r') \<and>
     rule_applies (own_parser True) ''read'' r' \<and> ruleScore own_session_rule \<le> ruleScore r' \<and>
     RuleSet_Match (MakeRuleSet [NewRule ''session'' [''read''], own_session_rule]) (own_parser True)
       (own_parser True) ''session'' ''read'' [] = ([] @ rule_Actions r', Inr True)"
  using RuleSet_Match_most_specific [of "[NewRule ''session'' [''read''], own_session_rule]"
      "own_parser True" "own_parser True" own_session_rule "''session''" "''read''" "[]"]
  by (simp add: own_session_rule_evaluates plain_rule_evaluates rule_applies_def)
    (simp add: own_session_rule_def NewRule_def)

text \<open>A rule with a where clause or actions is never less specific than a plain one, and the two tie
  exactly when the first names wildcards for both resources and verbs and carries one of the two, and the plain
  rule names one resource and no wildcard: then neither is ranked above the other.\<close>

theorem ruleScore_where_actions:
  assumes "\<not> plain_rule r" "plain_rule p"
  shows "\<not> CompareRuleScore p r \<and>
    (\<not> CompareRuleScore r p \<longleftrightarrow>
       Wildcard \<in> set (rule_Resources r) \<and> Wildcard \<in> set (rule_Verbs r) \<and>
       (rule_Where r = [] \<or> rule_Actions r = []) \<and>
       length (rule_Resources p) = 1 \<and> Wildcard \<notin> set (rule_Resources p) \<and> Wildcard \<notin> set (rule_Verbs p))"
  using ruleScore_plain [OF assms(2)] ruleScore_not_plain [OF assms(1)]
    ruleScore_tie [OF assms(1)] ruleScore_plain_top [OF assms(2)]
  unfolding CompareRuleScore_def by (intro conjI) (linarith, fastforce)

definition any_where_rule :: rule where
  "any_where_rule = (NewRule Wildcard [Wildcard])\<lparr>rule_Where := ''own''\<rparr>"

theorem ruleScore_where_actions_witness:
  "\<not> CompareRuleScore any_where_rule (NewRule ''session'' [''read'']) \<and>
   \<not> CompareRuleScore (NewRule ''session'' [''read'']) any_where_rule"
  using ruleScore_where_actions [of any_where_rule "NewRule ''session'' [''read'']"]
  by (simp add: any_where_rule_def plain_rule_def NewRule_def Wildcard_def)

end
