(* ===== verification/Role_Properties.thy ===== *)
theory Role_Properties
  imports Examples
begin

text \<open>
  The properties of roles: matching, defaults, limits of role sets, certificate contents, downgrading,
  traits, fetching and impersonation, each with a witness.
\<close>

text \<open>C33: for every pattern that is a glob, that is, one not written as a full regular expression between
  \<open>^\<close> and \<open>$\<close>, the translation to a regular expression compiles and matches exactly the texts
  the glob stands for: every star any text without a newline, every other character itself.\<close>

theorem SliceMatchesRegex_glob_semantics:
  assumes "\<forall>e\<in>set es. is_glob e"
  shows "SliceMatchesRegex s es = Inr (\<exists>e\<in>set es. glob_match e s)"
  using assms by (rule SliceMatchesRegex_globs)

theorem SliceMatchesRegex_glob_semantics_witness:
  "SliceMatchesRegex ''dev-1'' [''prod'', ''dev-*''] = Inr True"
  using SliceMatchesRegex_glob_semantics [of "[''prod'', ''dev-*'']" "''dev-1''"]
  by (simp del: SliceMatchesRegex.simps glob_match.simps)

text \<open>The outcome of matching labels does not depend on the order in which the keys of the selector are
  visited, once the patterns of the selector compile; Go visits a map in no fixed order.\<close>

theorem MatchLabels_map_order:
  assumes "valid_labels sel" "distinct (map fst sel)" "mset sel = mset sel'"
  shows "MatchLabels sel target = MatchLabels sel' target"
  using assms by (rule MatchLabels_order)

theorem MatchLabels_map_order_witness:
  "MatchLabels [(''env'', [''dev-*'']), (''os'', [''prod''])] [(''env'', ''dev-1'')] =
   MatchLabels [(''os'', [''prod'']), (''env'', [''dev-*''])] [(''env'', ''dev-1'')]"
  by (rule MatchLabels_map_order) (simp_all add: valid_labels_def)

text \<open>C34: a role that the check accepts is well formed (kind and version, name, namespaces, positive session
  TTL, certificate format, no wildcard login) and the check accepts it again and leaves it as it is.\<close>

theorem CheckAndSetDefaults_normal_form:
  assumes "CheckAndSetDefaults r = Inr r'"
  shows "valid_role r' \<and> CheckAndSetDefaults r' = Inr r'"
  using assms by (simp add: CheckAndSetDefaults_valid CheckAndSetDefaults_idem)

theorem CheckAndSetDefaults_normal_form_witness:
  "\<exists>r'. CheckAndSetDefaults dev_role = Inr r' \<and> valid_role r' \<and> CheckAndSetDefaults r' = Inr r'"
proof -
  have "is_ok (CheckAndSetDefaults dev_role)" by code_simp
  then obtain r' where r': "CheckAndSetDefaults dev_role = Inr r'" by (auto simp: is_ok_iff)
  with CheckAndSetDefaults_normal_form [OF r'] show ?thesis by blast
qed

text \<open>C35: the limits of a role set are the strictest of its roles, zero standing for no limit: connections,
  sessions and the idle timeout, the last together with the timeout given (negative ones are none). The session TTL
  is the least of the one asked for and the non-zero limits of the roles.\<close>

theorem role_set_limits_strictest:
  "MaxConnections rs = strictest ((\<lambda>r. opt_MaxConnections (GetOptions r)) ` set rs) \<and>
   MaxSessions rs = strictest ((\<lambda>r. opt_MaxSessions (GetOptions r)) ` set rs) \<and>
   AdjustClientIdleTimeout rs timeout =
     strictest (insert (max 0 timeout) {t. 0 < t \<and> (\<exists>r\<in>set rs. t = opt_ClientIdleTimeout (GetOptions r))}) \<and>
   AdjustSessionTTL rs ttl = Min (insert ttl ((\<lambda>r. opt_MaxSessionTTL (GetOptions r)) ` set rs - {0}))"
  by (auto simp: AdjustSessionTTL_Min MaxConnections_strictest MaxSessions_strictest AdjustClientIdleTimeout_def
      idle_timeout_loop_strictest idle_limits_def max_def)

text \<open>the Kubernetes groups and users a certificate may carry: those some role whose TTL limit covers the
  session allows, less those any role denies, whatever its limit; with no covering role access is denied,
  and with nothing left there is nothing found.\<close>

theorem CheckKubeGroupsAndUsers_sound:
  assumes "CheckKubeGroupsAndUsers rs ttl overrideTTL = Inr (groups, users)"
  shows "set groups = (\<Union>r\<in>{r \<in> set rs. ttl_in_scope ttl overrideTTL r}. set (GetKubeGroups Allow r)) -
      (\<Union>r\<in>set rs. set (GetKubeGroups Deny r)) \<and>
    set users = (\<Union>r\<in>{r \<in> set rs. ttl_in_scope ttl overrideTTL r}. set (GetKubeUsers Allow r)) -
      (\<Union>r\<in>set rs. set (GetKubeUsers Deny r)) \<and>
    (groups \<noteq> [] \<or> users \<noteq> []) \<and> (\<exists>r\<in>set rs. ttl_in_scope ttl overrideTTL r)"
  using assms by (auto simp: CheckKubeGroupsAndUsers_def matched_ttl_def Let_def set_requestable split: if_splits)

definition kube_role :: role where
  "kube_role = example_role ''kube'' (no_conditions\<lparr>cond_KubeGroups := [''view'', ''edit'']\<rparr>)
     (no_conditions\<lparr>cond_KubeGroups := [''edit'']\<rparr>)"

theorem CheckKubeGroupsAndUsers_sound_witness: "set [''view''] = ({''view'', ''edit''} - {''edit''} :: string set)"
proof -
  have "CheckKubeGroupsAndUsers [kube_role] 10 True = Inr ([''view''], [])" by code_simp
  from CheckKubeGroupsAndUsers_sound [OF this]
  show ?thesis
    by (simp add: ttl_in_scope_def kube_role_def example_role_def accessor_defs no_conditions_def)
qed

text \<open>the logins of a certificate: the allowed logins of the roles whose TTL limit covers the
  session, without duplicates; when there are none, a login that no server accepts stands in if the roles could
  never give one, and access is denied otherwise.\<close>

theorem CheckLoginDuration_outcome:
  "CheckLoginDuration uuid rs ttl =
     (let logins = Deduplicate (concat (map (GetLogins Allow) (filter (ttl_in_scope ttl False) rs)))
      in if \<not> (\<exists>r\<in>set rs. ttl_in_scope ttl False r) then Inl AccessDenied
         else if logins \<noteq> [] then Inr logins
         else if hasPossibleLogins rs then Inl AccessDenied
         else Inr [nologin uuid])"
  by (simp add: CheckLoginDuration_cases matched_ttl_def)

text \<open>downgrading a V4 role to V3 grants no more: once the V3 defaults are filled in, its allow labels
  select the same nodes, applications, Kubernetes clusters and databases, as long as these do not carry the
  placeholder label the downgrade uses, although V3 defaults would turn empty selectors into wildcards.\<close>

theorem DowngradeRoleToV3_selects:
  assumes "role_Version r = V4" "DowngradeRoleToV3 uuid r = Inr d" "CheckAndSetDefaults d = Inr d'"
    and "map_of target no_labels_key = None"
  shows "MatchLabels (elems (GetNodeLabels Allow d')) target = MatchLabels (elems (GetNodeLabels Allow r)) target \<and>
    MatchLabels (elems (GetAppLabels Allow d')) target = MatchLabels (elems (GetAppLabels Allow r)) target \<and>
    MatchLabels (elems (GetKubernetesLabels Allow d')) target =
       MatchLabels (elems (GetKubernetesLabels Allow r)) target \<and>
    MatchLabels (elems (GetDatabaseLabels Allow d')) target = MatchLabels (elems (GetDatabaseLabels Allow r)) target"
  using downgrade_labels [OF assms(1-3)] MatchLabels_placeholder [OF assms(4)] by simp_all

definition v4_role :: role where
  "v4_role = (example_role ''v4'' (no_conditions\<lparr>cond_Logins := [''alice'']\<rparr>) no_conditions)\<lparr>role_Version := V4\<rparr>"

theorem DowngradeRoleToV3_selects_witness:
  "\<exists>d d'. DowngradeRoleToV3 ''u'' v4_role = Inr d \<and> CheckAndSetDefaults d = Inr d' \<and>
     MatchLabels (elems (GetNodeLabels Allow d')) [(''env'', ''prod'')] = Inr False"
proof -
  let ?d = "projr (DowngradeRoleToV3 ''u'' v4_role)"
  have d: "DowngradeRoleToV3 ''u'' v4_role = Inr ?d" "is_ok (CheckAndSetDefaults ?d)" by code_simp+
  then obtain d' where d': "CheckAndSetDefaults ?d = Inr d'" by (auto simp: is_ok_iff)
  have "MatchLabels (elems (GetNodeLabels Allow d')) [(''env'', ''prod'')] =
      MatchLabels (elems (GetNodeLabels Allow v4_role)) [(''env'', ''prod'')]"
    using DowngradeRoleToV3_selects [OF _ d(1) d', of "[(''env'', ''prod'')]"]
    by (simp add: v4_role_def no_labels_key_def)
  also have "\<dots> = Inr False" by code_simp
  finally show ?thesis using d(1) d' by blast
qed

text \<open>the logins of a role after a user's traits are applied are exactly the valid Unix user names among
  the values its entries stand for; an entry that fails to expand adds nothing. Rules, namespaces, options, request
  and review conditions and the name stay as they are.\<close>

theorem ApplyTraits_outcome:
  "set (GetLogins c (ApplyTraits pa r tr)) =
     {l. IsValidUnixUser l \<and> (\<exists>v\<in>set (GetLogins c r). \<exists>vs. ApplyValueTraits pa v tr = Inr vs \<and> l \<in> set vs)} \<and>
   set (GetKubeGroups c (ApplyTraits pa r tr)) =
     {g. \<exists>v\<in>set (GetKubeGroups c r). \<exists>vs. ApplyValueTraits pa v tr = Inr vs \<and> g \<in> set vs} \<and>
   GetRules c (ApplyTraits pa r tr) = GetRules c r \<and> GetNamespaces c (ApplyTraits pa r tr) = GetNamespaces c r \<and>
   GetOptions (ApplyTraits pa r tr) = GetOptions r \<and> GetName (ApplyTraits pa r tr) = GetName r \<and>
   GetAccessRequestConditions c (ApplyTraits pa r tr) = GetAccessRequestConditions c r \<and>
   GetAccessReviewConditions c (ApplyTraits pa r tr) = GetAccessReviewConditions c r"
  by (simp_all add: ApplyTraits_logins ApplyTraits_kube_groups)

text \<open>a value that an expression without a transformation expands to is the literal itself or a non-empty
  value of the named trait between the prefix and suffix of the expression: traits are the only source.\<close>

theorem ApplyValueTraits_only_source:
  assumes "ApplyValueTraits pa val traits = Inr vs" "v \<in> set vs" "NewExpression val = Inr p"
    "ex_transform p = None"
  shows "ex_namespace p = LiteralNamespace \<and> v = ex_variable p \<or>
    (\<exists>ts t. map_of traits (ex_variable p) = Some ts \<and> t \<in> set ts \<and> t \<noteq> [] \<and> v = ex_prefix p @ t @ ex_suffix p)"
  using assms by (rule ApplyValueTraits_source)

theorem ApplyValueTraits_only_source_witness:
  "\<exists>p. NewExpression ''db-{{internal.logins}}'' = Inr p \<and>
     (ex_namespace p = LiteralNamespace \<and> ''db-alice'' = ex_variable p \<or>
      (\<exists>ts t. map_of [(''logins'', [''alice''])] (ex_variable p) = Some ts \<and> t \<in> set ts \<and> t \<noteq> [] \<and>
         ''db-alice'' = ex_prefix p @ t @ ex_suffix p))"
proof -
  have p: "NewExpression ''db-{{internal.logins}}'' = Inr \<lparr>ex_namespace = ''internal'', ex_variable = ''logins'',
     ex_prefix = ''db-'', ex_suffix = [], ex_transform = None\<rparr>" by code_simp
  have v: "ApplyValueTraits no_addresses ''db-{{internal.logins}}'' [(''logins'', [''alice''])] = Inr [''db-alice'']"
    by code_simp
  from ApplyValueTraits_only_source [OF v _ p] p show ?thesis by auto
qed

text \<open>fetching the roles of a user returns the roles of these names, in order, with the user's traits
  applied, and the implicit role after them (unless the only one is the no-operation role); a failure is that of
  fetching one of them.\<close>

theorem FetchRoles_outcome:
  assumes "\<forall>n\<in>set ns. \<forall>r. GetRole n = Inr r \<longrightarrow> GetName r = n"
  shows "case FetchRoles pa ns GetRole tr of
      Inl e \<Rightarrow> \<exists>n\<in>set ns. GetRole n = Inl e
    | Inr rs \<Rightarrow> map GetName rs = (if ns = [RoleNop] then ns else ns @ [DefaultImplicitRole]) \<and>
        (\<forall>r\<in>set rs. r = NewImplicitRole \<or> (\<exists>n\<in>set ns. \<exists>r0. GetRole n = Inr r0 \<and> r = ApplyTraits pa r0 tr))"
proof (cases "FetchRoleList pa ns GetRole tr")
  case (Inl e)
  then show ?thesis using FetchRoleList_error by (simp add: FetchRoles_def)
next
  case (Inr rs)
  note ns = FetchRoleList_names [OF assms Inr] and ms = FetchRoleList_members [OF Inr]
  have nop: "length rs = 1 \<and> GetName (hd rs) = RoleNop \<longleftrightarrow> ns = [RoleNop]"
    unfolding ns [symmetric] by (cases rs) auto
  show ?thesis using Inr ns ms nop by (auto simp: FetchRoles_def NewRoleSet_def)
qed

theorem FetchRoles_outcome_witness:
  "case FetchRoles no_addresses [''dev''] (\<lambda>n. if n = ''dev'' then Inr dev_role else Inl NotFound) [] of
      Inl e \<Rightarrow> False
    | Inr rs \<Rightarrow> map GetName rs = [''dev'', DefaultImplicitRole]"
  using FetchRoles_outcome [of "[''dev'']" "\<lambda>n. if n = ''dev'' then Inr dev_role else Inl NotFound" no_addresses "[]"]
  by (auto simp: RoleNop_def split: sum.splits if_splits)

text \<open>C36: impersonation under conditions that the role check accepts and whose patterns are globs: some
  role has no deny pattern for the user and for any of the requested roles, and some role's allow patterns match
  the user and every requested role, with a where clause that holds.\<close>

theorem CheckImpersonate_granted:
  assumes "\<forall>r\<in>set rs. \<exists>r0. CheckAndSetDefaults r0 = Inr r"
    "\<forall>r\<in>set rs. \<forall>c. plain_conditions (GetImpersonateConditions c r)"
    "\<forall>r\<in>set rs. \<forall>ir\<in>set roles. matchesImpersonateWhere (GetImpersonateConditions Allow r) (wp ir) = Inr (w r ir)"
  shows "CheckImpersonate (Inr wp) rs user roles =
    (if (\<forall>r\<in>set rs. \<not> (globs_match (imp_Users (GetImpersonateConditions Deny r)) user \<or>
           (\<exists>ir\<in>set roles. globs_match (imp_Roles (GetImpersonateConditions Deny r)) (GetName ir)))) \<and>
        (\<exists>r\<in>set rs. globs_match (imp_Users (GetImpersonateConditions Allow r)) user \<and>
           (\<forall>ir\<in>set roles. globs_match (imp_Roles (GetImpersonateConditions Allow r)) (GetName ir) \<and> w r ir))
     then Inr () else Inl AccessDenied)"
proof (rule impersonate.decides_total)
  have ok: "imp_Users (GetImpersonateConditions c r) = [] \<longleftrightarrow> imp_Roles (GetImpersonateConditions c r) = []"
    if "r \<in> set rs" for r c
    using assms(1) that CheckAndSetDefaults_impersonate by blast
  show "\<forall>r\<in>set rs. matchDenyImpersonateCondition (GetImpersonateConditions Deny r) user roles =
      Inr (globs_match (imp_Users (GetImpersonateConditions Deny r)) user \<or>
           (\<exists>ir\<in>set roles. globs_match (imp_Roles (GetImpersonateConditions Deny r)) (GetName ir)))"
    using ok assms(2) by (auto intro!: matchDenyImpersonate_globs)
  show "\<forall>r\<in>set rs. matchAllowImpersonateCondition wp (GetImpersonateConditions Allow r) user roles =
      Inr (globs_match (imp_Users (GetImpersonateConditions Allow r)) user \<and>
           (\<forall>ir\<in>set roles. globs_match (imp_Roles (GetImpersonateConditions Allow r)) (GetName ir) \<and> w r ir))"
    using ok assms(2,3) by (auto intro!: matchAllowImpersonate_globs)
qed simp

definition bot_role :: role where
  "bot_role = example_role ''bot'' (no_conditions\<lparr>cond_Impersonate :=
     Some \<lparr>imp_Users = [''prod''], imp_Roles = [''dev-*''], imp_Where = []\<rparr>\<rparr>) no_conditions"

definition dev_1_role :: role where
  "dev_1_role = example_role ''dev-1'' no_conditions no_conditions"

theorem CheckImpersonate_granted_witness:
  "\<exists>r. CheckAndSetDefaults bot_role = Inr r \<and>
     CheckImpersonate (Inr (\<lambda>ir s. Inl BadParameter)) [r] ''prod'' [dev_1_role] = Inr ()"
proof -
  have "is_ok (CheckAndSetDefaults bot_role)" by code_simp
  then obtain r1 where r1: "CheckAndSetDefaults bot_role = Inr r1" by (auto simp: is_ok_iff)
  have cs: "GetImpersonateConditions Allow r1 = \<lparr>imp_Users = [''prod''], imp_Roles = [''dev-*''], imp_Where = []\<rparr>"
    "GetImpersonateConditions Deny r1 = \<lparr>imp_Users = [], imp_Roles = [], imp_Where = []\<rparr>"
    using CheckAndSetDefaults_allow [OF r1]
    by (simp_all add: bot_role_def example_role_def accessor_defs default_labels_v3_def default_namespaces_def
        Let_def no_conditions_def V3_def V4_def no_impersonate_conditions_def)
  have m: "GetName dev_1_role = ''dev-1''" "glob_match ''prod'' ''prod''"
    by (simp_all add: dev_1_role_def example_role_def accessor_defs named_metadata_def)
  have "CheckImpersonate (Inr (\<lambda>ir s. Inl BadParameter)) [r1] ''prod'' [dev_1_role] =
    (if (\<forall>r\<in>set [r1]. \<not> (globs_match (imp_Users (GetImpersonateConditions Deny r)) ''prod'' \<or>
           (\<exists>ir\<in>set [dev_1_role]. globs_match (imp_Roles (GetImpersonateConditions Deny r)) (GetName ir)))) \<and>
        (\<exists>r\<in>set [r1]. globs_match (imp_Users (GetImpersonateConditions Allow r)) ''prod'' \<and>
           (\<forall>ir\<in>set [dev_1_role]. globs_match (imp_Roles (GetImpersonateConditions Allow r)) (GetName ir) \<and> True))
     then Inr () else Inl AccessDenied)"
  proof (rule CheckImpersonate_granted)
    show "\<forall>r\<in>set [r1]. \<forall>c. plain_conditions (GetImpersonateConditions c r)"
      by (simp add: all_conditions cs plain_conditions_def plain_text_def)
    show "\<forall>r\<in>set [r1]. \<exists>r0. CheckAndSetDefaults r0 = Inr r" using r1 by auto
  qed (simp add: cs matchesImpersonateWhere_def)
  then show ?thesis using r1 cs m by (auto simp: globs_match_def simp del: glob_match.simps)
qed

end
