(* ===== verification/Request_Properties.thy ===== *)
theory Request_Properties
  imports Examples
begin

text \<open>
  The properties of access requests, from their creation to their resolution, each with a witness.
\<close>

text \<open>an access request that its check accepts names a user and roles, sorted and without
  duplicates, is in a state, and, while pending, carries no resolution; the check accepts it again unchanged.\<close>

theorem access_request_normal_form:
  assumes "request_CheckAndSetDefaults r = Inr r'"
  shows "valid_request r' \<and> request_CheckAndSetDefaults r' = Inr r'"
  using assms by (simp add: request_check_valid request_check_idem)

definition admin_request :: access_request where
  "admin_request =
     \<lparr>ar_Kind = [], ar_SubKind = [], ar_Version = [], ar_Metadata = named_metadata ''request-1'',
      ar_User = ''alice'', ar_Roles = [''dba'', ''admin'', ''dba''], ar_State = StateNone, ar_Created = 0,
      ar_Expires = 100, ar_RequestReason = ''incident'', ar_ResolveReason = [], ar_ResolveAnnotations = [],
      ar_SystemAnnotations = [], ar_Thresholds = [], ar_RoleThresholdMapping = [], ar_Reviews = [],
      ar_SuggestedReviewers = []\<rparr>"

theorem access_request_normal_form_witness:
  "\<exists>r'. request_CheckAndSetDefaults admin_request = Inr r' \<and> valid_request r' \<and>
     request_CheckAndSetDefaults r' = Inr r' \<and> ar_Roles r' = [''admin'', ''dba'']"
proof -
  have "case request_CheckAndSetDefaults admin_request of Inl e \<Rightarrow> False | Inr r \<Rightarrow> ar_Roles r = [''admin'', ''dba'']"
    by code_simp
  then obtain r' where r': "request_CheckAndSetDefaults admin_request = Inr r'" "ar_Roles r' = [''admin'', ''dba'']"
    by (auto split: sum.splits)
  with access_request_normal_form [OF r'(1)] show ?thesis by blast
qed

text \<open>a filter of access requests survives its conversion to a map and back.\<close>

theorem access_request_filter_roundtrip:
  "FromMap \<lparr>flt_ID = [], flt_User = [], flt_State = StateNone\<rparr> (IntoMap f) = Inr f"
  by (rule FromMap_IntoMap)

text \<open>C9: for a request whose thresholds, mapping and reviews fit together, the resolution its reviews
  lead to is what the first review proposes after which a denial threshold is met, or every role has all its
  threshold sets met; the counters of the code and its early exits compute just that, without failing.\<close>

theorem calculateReviewBasedResolution_first_trigger:
  assumes "reviews_ok req"
  shows "calculateReviewBasedResolution req =
    Inr (map_option resolution_of
      (first_trigger (ar_Thresholds req) (ar_RoleThresholdMapping req) [] (ar_Reviews req)))"
  using calculateReviewBasedResolution_trigger [OF assms] by (simp add: trigger_def)

definition review_by :: "string \<Rightarrow> request_state \<Rightarrow> access_review" where
  "review_by author st = \<lparr>rev_Author = author, rev_Roles = [], rev_ProposedState = st, rev_Reason = author,
     rev_Created = 0, rev_Annotations = [], rev_ThresholdIndexes = [0]\<rparr>"

definition reviewed_request :: access_request where
  "reviewed_request = admin_request\<lparr>ar_State := StatePending, ar_Thresholds := [\<lparr>th_Name = ''two'', th_Filter = [],
     th_Approve = 2, th_Deny = 1\<rparr>], ar_RoleThresholdMapping := [(''admin'', [[0]])],
     ar_Reviews := [review_by ''bob'' StateApproved, review_by ''carol'' StateApproved, review_by ''dan'' StateDenied]\<rparr>"

theorem calculateReviewBasedResolution_first_trigger_witness:
  "calculateReviewBasedResolution reviewed_request = Inr (Some \<lparr>res_state = StateApproved, res_reason = ''carol''\<rparr>)"
proof -
  have "votes st i (ar_Reviews reviewed_request) \<le> 3" for st i
    by (simp add: reviewed_request_def review_by_def votes_def)
  moreover have "(3 :: nat) < 2 ^ 32" by simp
  ultimately have "votes st i (ar_Reviews reviewed_request) < 2 ^ 32" for st i using le_less_trans by blast
  then have "reviews_ok reviewed_request"
    unfolding reviews_ok_def counts_fit_def
    by (auto simp: request_ok_def sets_ok_def reviewed_request_def review_ok_def review_by_def)
  from calculateReviewBasedResolution_first_trigger [OF this] show ?thesis
    by (simp add: reviewed_request_def review_by_def resolution_of_def hits_denial_def hits_approval_def
        set_hit_def votes_def)
qed

definition requester_role :: role where
  "requester_role = example_role ''requester''
     (no_conditions\<lparr>cond_Request := Some \<lparr>arc_Roles = [''admin''], arc_ClaimsToRoles = [],
        arc_Annotations = [(''team'', [''ops'', ''dev''])],
        arc_Thresholds = [\<lparr>th_Name = ''two'', th_Filter = [], th_Approve = 2, th_Deny = 1\<rparr>],
        arc_SuggestedReviewers = [''bob'']\<rparr>\<rparr>)
     (no_conditions\<lparr>cond_Request := Some \<lparr>arc_Roles = [''prod''], arc_ClaimsToRoles = [],
        arc_Annotations = [(''team'', [''dev''])], arc_Thresholds = [], arc_SuggestedReviewers = []\<rparr>\<rparr>)"

definition alice :: user where
  "alice = \<lparr>user_Name = ''alice'', user_Roles = [''requester''], user_Traits = []\<rparr>"

definition example_getter :: role_getter where
  "example_getter =
     \<lparr>get_User = (\<lambda>n. if n = ''alice'' then Inr alice else Inl NotFound),
      get_Role = (\<lambda>n. if n = ''requester'' then Inr requester_role else Inl NotFound),
      get_Roles = Inr [requester_role, example_role ''admin'' no_conditions no_conditions]\<rparr>"

definition pending_request :: access_request where
  "pending_request = admin_request\<lparr>ar_Roles := [''admin''], ar_State := StatePending\<rparr>"

definition validated_request :: access_request where
  "validated_request = pending_request\<lparr>ar_SystemAnnotations := [(''team'', [''ops''])],
     ar_Thresholds := [\<lparr>th_Name = ''two'', th_Filter = [], th_Approve = 2, th_Deny = 1\<rparr>],
     ar_RoleThresholdMapping := [(''admin'', [[0]])], ar_SuggestedReviewers := [''bob'']\<rparr>"

lemma validated_request_eq:
  "ValidateAccessRequestForUser no_addresses example_getter pending_request True = Inr validated_request"
  by code_simp

definition review1 :: access_request where
  "review1 = projr (ApplyAccessReview (\<lambda>req rev1. Inr no_predicates) validated_request (review_by ''bob'' StateApproved) ''bob'')"

definition review2 :: access_request where
  "review2 = projr (ApplyAccessReview (\<lambda>req rev1. Inr no_predicates) review1 (review_by ''carol'' StateApproved) ''carol'')"

lemma review2_approved: "ar_State review2 = StateApproved" "ar_Roles review2 = [''admin'']"
   "length (ar_Reviews review2) = 2"
  by code_simp+

lemma review_steps:
  "ApplyAccessReview (\<lambda>req rev1. Inr no_predicates) validated_request (review_by ''bob'' StateApproved) ''bob'' = Inr review1"
  "ApplyAccessReview (\<lambda>req rev1. Inr no_predicates) review1 (review_by ''carol'' StateApproved) ''carol'' = Inr review2"
  by code_simp+

text \<open>C2: whatever reviews are submitted, in any order, to a validated request, the request is approved
  only if for every role it asks for, every threshold set of that role has a threshold that the approvals of
  enough distinct authors meet, it is denied only if the denials of distinct authors meet a denial threshold,
  and it is never without a state.\<close>

theorem reviewed_request_resolution:
  assumes "ValidateAccessRequestForUser pa g req True = Inr req1"
    "ar_Roles req \<noteq> []" "ar_State req = StatePending" "ar_Reviews req = []"
    "review_run tp req1 req2" "length (ar_Reviews req2) < 2 ^ 32"
  shows "(ar_State req2 = StateApproved \<longrightarrow> (\<forall>r\<in>set (ar_Roles req2). role_approved req2 r)) \<and>
    (ar_State req2 = StateDenied \<longrightarrow> veto req2) \<and> ar_State req2 \<noteq> StateNone \<and> ar_Roles req2 = ar_Roles req1"
proof -
  obtain m where m: "Validate m req = Inr req1" "rv_expandVars m"
    using ValidateAccessRequestForUser_Inr [OF assms(1)] by blast
  then show ?thesis
    using validated_run [OF m assms(2-6)] review_run_frame [OF assms(5)] by blast
qed

lemma review_run_example: "review_run (\<lambda>req rev1. Inr no_predicates) validated_request review2"
  by (rule run_review [OF run_review [OF run_start]], (rule review_steps)+)

theorem reviewed_request_resolution_witness:
  "ar_State review2 = StateApproved \<and> role_approved review2 ''admin''"
  using reviewed_request_resolution [OF validated_request_eq _ _ _ review_run_example]
  by (simp add: review2_approved pending_request_def admin_request_def)

text \<open>once a request is approved or denied, no further review changes its state or its reason.\<close>

theorem resolved_request_final:
  assumes "review_run tp req req'" "ar_State req \<noteq> StatePending"
  shows "ar_State req' = ar_State req \<and> ar_ResolveReason req' = ar_ResolveReason req"
  using assms by (rule review_run_final)

theorem resolved_request_final_witness:
  "\<exists>req'. ApplyAccessReview (\<lambda>req rev1. Inr no_predicates) review2 (review_by ''dan'' StateDenied) ''dan'' = Inr req' \<and>
     ar_State req' = StateApproved"
proof -
  have "is_ok (ApplyAccessReview (\<lambda>req rev1. Inr no_predicates) review2 (review_by ''dan'' StateDenied) ''dan'')"
    by code_simp
  then obtain req' where r: "ApplyAccessReview (\<lambda>req rev1. Inr no_predicates) review2 (review_by ''dan'' StateDenied) ''dan'' = Inr req'"
    by (auto simp: is_ok_iff)
  from resolved_request_final [OF run_review [OF run_start this]] r show ?thesis
    by (simp add: review2_approved)
qed

text \<open>C11: validation of a request for a user whose roles carry plain globs: every role of the validated
  request is one that some role of the user lets it request and none forbids, and the request is in the
  user's name.\<close>

theorem validated_request_permitted:
  assumes "ValidateAccessRequestForUser pa g req ev = Inr req'" "get_User g (ar_User req) = Inr u"
    "\<forall>n\<in>set (user_Roles u). \<exists>r. get_Role g n = Inr r \<and> plain_request r"
    "name \<in> set (ar_Roles req')"
  shows "(\<exists>r\<in>users_roles g u. globs_match (request_globs Allow r) name) \<and>
    \<not> (\<exists>r\<in>users_roles g u. globs_match (request_globs Deny r) name) \<and> user_Name u = ar_User req"
proof -
  obtain m where m: "NewRequestValidator pa g (ar_User req) ev = Inr m"
    "validates m u ev (\<lambda>s. \<exists>r\<in>users_roles g u. globs_match (request_globs Allow r) s)
                      (\<lambda>s. \<exists>r\<in>users_roles g u. globs_match (request_globs Deny r) s)"
    using NewRequestValidator_globs [OF assms(2,3)] by blast
  then have v: "Validate m req = Inr req'" using assms(1) by (simp add: ValidateAccessRequestForUser_def)
  have "user_Name u = ar_User req" 
    by (rule Validate_Inr [OF v]) (use m(2) in \<open>simp add: validates_def\<close>)
  then show ?thesis
    using Validate_permitted [OF v assms(4)] CanRequestRole_validates [OF m(2), of name] by simp
qed

theorem validated_request_permitted_witness:
  "(\<exists>r\<in>users_roles example_getter alice. globs_match (request_globs Allow r) ''admin'') \<and>
   \<not> (\<exists>r\<in>users_roles example_getter alice. globs_match (request_globs Deny r) ''admin'') \<and>
   user_Name alice = ar_User pending_request"
proof (rule validated_request_permitted [OF validated_request_eq])
  have "is_glob ''admin''" "plain_text ''admin''" "plain_text ''prod''"
    by (simp_all add: is_glob_def has_prefix_def has_suffix_def plain_text_def)
  then have "plain_request requester_role"
    by (simp add: plain_request_def all_conditions requester_role_def example_role_def accessor_defs)
  then show "\<forall>n\<in>set (user_Roles alice). \<exists>r. get_Role example_getter n = Inr r \<and> plain_request r"
    by (simp add: alice_def example_getter_def)
qed (simp_all add: example_getter_def pending_request_def admin_request_def validated_request_def)



text \<open>the roles a user may request are the existing ones the user does not hold and may request.\<close>

theorem GetRequestableRoles_set:
  assumes "GetRequestableRoles m = Inr ns" "get_Roles (rv_getter m) = Inr rs"
  shows "set ns = {n. (\<exists>r\<in>set rs. GetName r = n) \<and> n \<notin> set (user_Roles (rv_user m)) \<and> CanRequestRole m n = Inr True}"
  using assms requestable_loop_set by (simp add: GetRequestableRoles_def)

theorem GetRequestableRoles_set_witness:
  "\<exists>m. NewRequestValidator no_addresses example_getter ''alice'' False = Inr m \<and> CanRequestRole m ''admin'' = Inr True"
proof -
  let ?m = "projr (NewRequestValidator no_addresses example_getter ''alice'' False)"
  have m: "is_ok (NewRequestValidator no_addresses example_getter ''alice'' False)"
    "GetRequestableRoles ?m = Inr [''admin'']" by code_simp+
  obtain rs where rs: "get_Roles (rv_getter ?m) = Inr rs"
    using m(2) by (auto simp: GetRequestableRoles_def split: sum.splits)
  from GetRequestableRoles_set [OF m(2) rs] have "CanRequestRole ?m ''admin'' = Inr True" by auto
  with m(1) show ?thesis by (auto simp: is_ok_iff)
qed

text \<open>the system annotations of a request hold no value a role of the user forbids, under any key.\<close>

theorem SystemAnnotations_sound:
  assumes "(k, vs) \<in> set (SystemAnnotations m)" "v \<in> set vs"
  shows "v \<notin> set (annotation_at (rv_AnnotationsDeny m) k) \<and>
     (\<exists>va. (k, va) \<in> set (rv_AnnotationsAllow m) \<and> v \<in> set va)"
  using assms by (rule SystemAnnotations_not_denied)

theorem SystemAnnotations_sound_witness:
  "\<exists>m. NewRequestValidator no_addresses example_getter ''alice'' True = Inr m \<and>
     ''ops'' \<notin> set (annotation_at (rv_AnnotationsDeny m) ''team'') \<and> SystemAnnotations m = [(''team'', [''ops''])]"
proof -
  let ?m = "projr (NewRequestValidator no_addresses example_getter ''alice'' True)"
  have m: "is_ok (NewRequestValidator no_addresses example_getter ''alice'' True)"
    "SystemAnnotations ?m = [(''team'', [''ops''])]" by code_simp+
  then have "''ops'' \<notin> set (annotation_at (rv_AnnotationsDeny ?m) ''team'')"
    using SystemAnnotations_sound [of "''team''" "[''ops'']" ?m "''ops''"] by simp
  with m show ?thesis by (auto simp: is_ok_iff)
qed

text \<open>a user who may review a request is not its author, has an active allow rule with a matcher for
  every role requested, and no active deny rule with a matcher for any of them.\<close>

theorem CanReviewRequest_sound:
  assumes "CanReviewRequest np c req = Inr True" "np c req = Inr parser" "r \<in> set (GetOriginalRoles req)"
  shows "user_Name (rc_User c) \<noteq> ar_User req \<and>
    (\<exists>(expr, ms)\<in>set (rc_AllowReview c). rule_active parser expr \<and> (\<exists>m\<in>set ms. Match m r = Some True)) \<and>
    (\<forall>(expr, ms)\<in>set (rc_DenyReview c). rule_active parser expr \<longrightarrow> (\<forall>m\<in>set ms. Match m r = Some False))"
proof -
  obtain p where p: "np c req = Inr p" "user_Name (rc_User c) \<noteq> ar_User req"
    "\<forall>r\<in>set (GetOriginalRoles req). \<exists>(expr, ms)\<in>set (rc_AllowReview c).
       rule_active p expr \<and> (\<exists>m\<in>set ms. Match m r = Some True)"
    "\<forall>r\<in>set (GetOriginalRoles req). \<forall>(expr, ms)\<in>set (rc_DenyReview c).
       rule_active p expr \<longrightarrow> (\<forall>m\<in>set ms. Match m r = Some False)"
    using CanReviewRequest_True [OF assms(1)] by blast
  have "p = parser" using p(1) assms(2) by simp
  with p(2-4) assms(3) show ?thesis by simp
qed

definition bobs_checker :: review_checker where
  "bobs_checker = \<lparr>rc_User = \<lparr>user_Name = ''bob'', user_Roles = [], user_Traits = []\<rparr>,
     rc_AllowReview = [([], [LiteralMatcher ''admin''])], rc_DenyReview = [([], [LiteralMatcher ''root''])]\<rparr>"

theorem CanReviewRequest_sound_witness:
  "CanReviewRequest (\<lambda>c req. Inr no_predicates) bobs_checker validated_request = Inr True \<and>
   user_Name (rc_User bobs_checker) \<noteq> ar_User validated_request"
proof -
  have c: "CanReviewRequest (\<lambda>c req. Inr no_predicates) bobs_checker validated_request = Inr True"
    "''admin'' \<in> set (GetOriginalRoles validated_request)" by code_simp+
  from c(1) CanReviewRequest_sound [OF c(1) refl c(2)] show ?thesis by blast
qed

end
