(* ===== verification/Authority.thy ===== *)
theory Authority
  imports Expression Role_Types
begin

text \<open>
  Certificate authorities: the resource of \<open>api/types/authority.go\<close> with its two schemas of keys and its
  rotation state, and the checks, migrations and role mappings of \<open>lib/services/authority.go\<close> and
  \<open>lib/services/trustedcluster.go\<close>. A slice is a list; the parsers of keys, which belong to the standard
  library and to vendored packages, are parameters. \<open>Clone\<close> is the identity on values.
\<close>

section \<open>Keys\<close>

datatype private_key_type = RAW | PKCS11

record ssh_key_pair =
  ssh_PublicKey :: string
  ssh_PrivateKey :: string
  ssh_PrivateKeyType :: private_key_type

record tls_key_pair =
  tls_Cert :: string
  tls_Key :: string
  tls_KeyType :: private_key_type

record jwt_key_pair =
  jwt_PublicKey :: string
  jwt_PrivateKey :: string
  jwt_PrivateKeyType :: private_key_type

record ca_key_set =
  ks_SSH :: "ssh_key_pair list"
  ks_TLS :: "tls_key_pair list"
  ks_JWT :: "jwt_key_pair list"

definition no_keys :: ca_key_set where
  "no_keys = \<lparr>ks_SSH = [], ks_TLS = [], ks_JWT = []\<rparr>"

definition Empty :: "ca_key_set \<Rightarrow> bool" where
  "Empty ks = (ks_SSH ks = [] \<and> ks_TLS ks = [] \<and> ks_JWT ks = [])"

definition SSHKeyPair_CheckAndSetDefaults :: "ssh_key_pair \<Rightarrow> unit result" where
  "SSHKeyPair_CheckAndSetDefaults k = (if ssh_PublicKey k = [] then Inl BadParameter else Inr ())"

definition TLSKeyPair_CheckAndSetDefaults :: "tls_key_pair \<Rightarrow> unit result" where
  "TLSKeyPair_CheckAndSetDefaults k = (if tls_Cert k = [] then Inl BadParameter else Inr ())"

definition JWTKeyPair_CheckAndSetDefaults :: "jwt_key_pair \<Rightarrow> unit result" where
  "JWTKeyPair_CheckAndSetDefaults k = (if jwt_PublicKey k = [] then Inl BadParameter else Inr ())"

text \<open>The loop that stops at the first error.\<close>

fun check_all :: "('a \<Rightarrow> unit result) \<Rightarrow> 'a list \<Rightarrow> unit result" where
  "check_all f [] = Inr ()"
| "check_all f (x # xs) = (case f x of Inl e \<Rightarrow> Inl e | Inr _ \<Rightarrow> check_all f xs)"

definition KeySet_CheckAndSetDefaults :: "ca_key_set \<Rightarrow> unit result" where
  "KeySet_CheckAndSetDefaults ks =
     (case check_all SSHKeyPair_CheckAndSetDefaults (ks_SSH ks) of
        Inl e \<Rightarrow> Inl e
      | Inr _ \<Rightarrow>
          (case check_all TLSKeyPair_CheckAndSetDefaults (ks_TLS ks) of
             Inl e \<Rightarrow> Inl e
           | Inr _ \<Rightarrow> check_all JWTKeyPair_CheckAndSetDefaults (ks_JWT ks)))"

definition WithoutSecrets :: "ca_key_set \<Rightarrow> ca_key_set" where
  "WithoutSecrets ks =
     \<lparr>ks_SSH = map (\<lambda>k. k\<lparr>ssh_PrivateKey := []\<rparr>) (ks_SSH ks),
      ks_TLS = map (\<lambda>k. k\<lparr>tls_Key := []\<rparr>) (ks_TLS ks),
      ks_JWT = map (\<lambda>k. k\<lparr>jwt_PrivateKey := []\<rparr>) (ks_JWT ks)\<rparr>"

section \<open>Rotation state\<close>

definition RotationStateStandby :: string where
  "RotationStateStandby = ''standby''"

definition RotationStateInProgress :: string where
  "RotationStateInProgress = ''in_progress''"

definition RotationPhaseStandby :: string where
  "RotationPhaseStandby = ''standby''"

definition RotationPhaseInit :: string where
  "RotationPhaseInit = ''init''"

definition RotationPhaseUpdateClients :: string where
  "RotationPhaseUpdateClients = ''update_clients''"

definition RotationPhaseUpdateServers :: string where
  "RotationPhaseUpdateServers = ''update_servers''"

definition RotationPhaseRollback :: string where
  "RotationPhaseRollback = ''rollback''"

definition RotationModeManual :: string where
  "RotationModeManual = ''manual''"

definition RotationModeAuto :: string where
  "RotationModeAuto = ''auto''"

lemmas phase_defs = RotationPhaseStandby_def RotationPhaseInit_def RotationPhaseUpdateClients_def
  RotationPhaseUpdateServers_def RotationPhaseRollback_def

lemmas mode_state_defs = RotationStateStandby_def RotationStateInProgress_def RotationModeManual_def
  RotationModeAuto_def

record rotation_schedule =
  sch_UpdateClients :: time
  sch_UpdateServers :: time
  sch_Standby :: time

definition no_schedule :: rotation_schedule where
  "no_schedule = \<lparr>sch_UpdateClients = zero_time, sch_UpdateServers = zero_time, sch_Standby = zero_time\<rparr>"

record rotation =
  rot_State :: string
  rot_Phase :: string
  rot_Mode :: string
  rot_CurrentID :: string
  rot_Started :: time
  rot_GracePeriod :: duration
  rot_LastRotated :: time
  rot_Schedule :: rotation_schedule

definition no_rotation :: rotation where
  "no_rotation = \<lparr>rot_State = [], rot_Phase = [], rot_Mode = [], rot_CurrentID = [], rot_Started = zero_time,
     rot_GracePeriod = 0, rot_LastRotated = zero_time, rot_Schedule = no_schedule\<rparr>"

definition Matches :: "rotation \<Rightarrow> rotation \<Rightarrow> bool" where
  "Matches r r' = (rot_CurrentID r = rot_CurrentID r' \<and> rot_State r = rot_State r' \<and> rot_Phase r = rot_Phase r')"

definition Rotation_CheckAndSetDefaults :: "rotation option \<Rightarrow> rotation option result" where
  "Rotation_CheckAndSetDefaults ro =
     (case ro of
        None \<Rightarrow> Inr None
      | Some r \<Rightarrow>
          if rot_Phase r \<notin> {[], RotationPhaseInit, RotationPhaseStandby, RotationPhaseRollback,
               RotationPhaseUpdateClients, RotationPhaseUpdateServers} then Inl BadParameter
          else if rot_Mode r \<notin> {[], RotationModeAuto, RotationModeManual} then Inl BadParameter
          else if rot_State r = [] then Inr (Some (r\<lparr>rot_State := RotationStateStandby\<rparr>))
          else if rot_State r = RotationStateStandby then Inr (Some r)
          else if rot_State r = RotationStateInProgress then
            (if rot_CurrentID r = [] then Inl BadParameter
             else if is_zero_time (rot_Started r) then Inl BadParameter
             else Inr (Some r))
          else Inl BadParameter)"

text \<open>Durations are multiplied and divided as 64-bit integers; a positive number divides the way the integers
  do, a negative one towards zero. \<open>Add\<close> on times is exact.\<close>

definition div_towards_zero :: "int \<Rightarrow> int \<Rightarrow> int" where
  "div_towards_zero a n = (if 0 \<le> a then a div n else - (- a div n))"

definition GenerateSchedule :: "time \<Rightarrow> duration \<Rightarrow> rotation_schedule result" where
  "GenerateSchedule now gracePeriod =
     (if gracePeriod \<le> 0 then Inl BadParameter
      else Inr \<lparr>sch_UpdateClients = now + div_towards_zero gracePeriod 3,
                sch_UpdateServers = now + div_towards_zero (wrap64 (gracePeriod * 2)) 3,
                sch_Standby = now + gracePeriod\<rparr>)"

definition Schedule_CheckAndSetDefaults :: "time \<Rightarrow> rotation_schedule \<Rightarrow> unit result" where
  "Schedule_CheckAndSetDefaults now s =
     (if is_zero_time (sch_UpdateServers s) then Inl BadParameter
      else if is_zero_time (sch_Standby s) then Inl BadParameter
      else if sch_Standby s < sch_UpdateServers s then Inl BadParameter
      else if sch_UpdateServers s < now then Inl BadParameter
      else if sch_Standby s < now then Inl BadParameter
      else Inr ())"

section \<open>The resource\<close>

datatype signing_alg = UNKNOWN | RSA_SHA1 | RSA_SHA2_256 | RSA_SHA2_512

record role_mapping =
  rm_Remote :: string
  rm_Local :: "string list"

record cert_authority =
  ca_Kind :: string
  ca_SubKind :: string
  ca_Version :: string
  ca_Metadata :: metadata
  ca_Type :: string
  ca_ClusterName :: string
  ca_CheckingKeys :: "string list"
  ca_SigningKeys :: "string list"
  ca_Roles :: "string list"
  ca_RoleMap :: "role_mapping list"
  ca_TLSKeyPairs :: "tls_key_pair list"
  ca_JWTKeyPairs :: "jwt_key_pair list"
  ca_Rotation :: "rotation option"
  ca_SigningAlg :: signing_alg
  ca_ActiveKeys :: ca_key_set
  ca_AdditionalTrustedKeys :: ca_key_set

definition HostCA :: string where "HostCA = ''host''"

definition UserCA :: string where "UserCA = ''user''"

definition JWTSigner :: string where "JWTSigner = ''jwt''"

lemmas ca_type_defs = HostCA_def UserCA_def JWTSigner_def

definition CertAuthType_Check :: "string \<Rightarrow> unit result" where
  "CertAuthType_Check c = (if c \<noteq> HostCA \<and> c \<noteq> UserCA \<and> c \<noteq> JWTSigner then Inl BadParameter else Inr ())"

definition CertAuthID_Check :: "string \<Rightarrow> string \<Rightarrow> unit result" where
  "CertAuthID_Check caType domainName =
     (case CertAuthType_Check caType of
        Inl e \<Rightarrow> Inl e
      | Inr _ \<Rightarrow> if list_all is_space domainName then Inl BadParameter else Inr ())"

definition GetRotation :: "cert_authority \<Rightarrow> rotation" where
  "GetRotation ca = (case ca_Rotation ca of None \<Rightarrow> no_rotation | Some r \<Rightarrow> r)"

definition SetRotation :: "rotation \<Rightarrow> cert_authority \<Rightarrow> cert_authority" where
  "SetRotation r ca = ca\<lparr>ca_Rotation := Some r\<rparr>"

definition ca_name :: "cert_authority \<Rightarrow> string" where
  "ca_name ca = md_Name (ca_Metadata ca)"

definition AddRole :: "string \<Rightarrow> cert_authority \<Rightarrow> cert_authority" where
  "AddRole name ca = (if name \<in> set (ca_Roles ca) then ca else ca\<lparr>ca_Roles := ca_Roles ca @ [name]\<rparr>)"

definition CombinedMapping :: "cert_authority \<Rightarrow> role_mapping list" where
  "CombinedMapping ca =
     (if ca_Roles ca \<noteq> [] then [\<lparr>rm_Remote = Wildcard, rm_Local = ca_Roles ca\<rparr>] else ca_RoleMap ca)"

text \<open>The keys of the old schema: index 0 holds the active ones, index 1 the additional trusted ones.\<close>

definition getOldKeySet :: "cert_authority \<Rightarrow> nat \<Rightarrow> ca_key_set" where
  "getOldKeySet ca index =
     (if index > 1 then no_keys
      else \<lparr>ks_SSH =
              (if length (ca_CheckingKeys ca) > index then
                 [\<lparr>ssh_PublicKey = ca_CheckingKeys ca ! index,
                   ssh_PrivateKey = (if length (ca_SigningKeys ca) > index then ca_SigningKeys ca ! index else []),
                   ssh_PrivateKeyType = RAW\<rparr>]
               else []),
            ks_TLS = (if length (ca_TLSKeyPairs ca) > index then [ca_TLSKeyPairs ca ! index] else []),
            ks_JWT = (if length (ca_JWTKeyPairs ca) > index then [ca_JWTKeyPairs ca ! index] else [])\<rparr>)"

definition GetActiveKeys :: "cert_authority \<Rightarrow> ca_key_set" where
  "GetActiveKeys ca = (if \<not> Empty (ca_ActiveKeys ca) then ca_ActiveKeys ca else getOldKeySet ca 0)"

definition SetActiveKeys :: "ca_key_set \<Rightarrow> cert_authority \<Rightarrow> cert_authority result" where
  "SetActiveKeys ks ca =
     (case KeySet_CheckAndSetDefaults ks of Inl e \<Rightarrow> Inl e | Inr _ \<Rightarrow> Inr (ca\<lparr>ca_ActiveKeys := ks\<rparr>))"

definition GetAdditionalTrustedKeys :: "cert_authority \<Rightarrow> ca_key_set" where
  "GetAdditionalTrustedKeys ca =
     (if \<not> Empty (ca_AdditionalTrustedKeys ca) then ca_AdditionalTrustedKeys ca else getOldKeySet ca 1)"

definition SetAdditionalTrustedKeys :: "ca_key_set \<Rightarrow> cert_authority \<Rightarrow> cert_authority result" where
  "SetAdditionalTrustedKeys ks ca =
     (case KeySet_CheckAndSetDefaults ks of
        Inl e \<Rightarrow> Inl e | Inr _ \<Rightarrow> Inr (ca\<lparr>ca_AdditionalTrustedKeys := ks\<rparr>))"

definition GetTrustedSSHKeyPairs :: "cert_authority \<Rightarrow> ssh_key_pair list" where
  "GetTrustedSSHKeyPairs ca = ks_SSH (GetActiveKeys ca) @ ks_SSH (GetAdditionalTrustedKeys ca)"

definition GetTrustedTLSKeyPairs :: "cert_authority \<Rightarrow> tls_key_pair list" where
  "GetTrustedTLSKeyPairs ca = ks_TLS (GetActiveKeys ca) @ ks_TLS (GetAdditionalTrustedKeys ca)"

definition GetTrustedJWTKeyPairs :: "cert_authority \<Rightarrow> jwt_key_pair list" where
  "GetTrustedJWTKeyPairs ca = ks_JWT (GetActiveKeys ca) @ ks_JWT (GetAdditionalTrustedKeys ca)"

definition RemoveCASecrets :: "cert_authority \<Rightarrow> cert_authority" where
  "RemoveCASecrets ca =
     ca\<lparr>ca_SigningKeys := [], ca_TLSKeyPairs := map (\<lambda>k. k\<lparr>tls_Key := []\<rparr>) (ca_TLSKeyPairs ca),
        ca_JWTKeyPairs := map (\<lambda>k. k\<lparr>jwt_PrivateKey := []\<rparr>) (ca_JWTKeyPairs ca),
        ca_ActiveKeys := WithoutSecrets (ca_ActiveKeys ca),
        ca_AdditionalTrustedKeys := WithoutSecrets (ca_AdditionalTrustedKeys ca)\<rparr>"

definition ca_setStaticFields :: "cert_authority \<Rightarrow> cert_authority" where
  "ca_setStaticFields ca =
     (let ca1 = ca\<lparr>ca_Kind := ''cert_authority'', ca_Version := ''v2''\<rparr>
      in if ca_name ca1 = [] then ca1\<lparr>ca_Metadata := (ca_Metadata ca1)\<lparr>md_Name := ca_ClusterName ca1\<rparr>\<rparr>
         else ca1\<lparr>ca_ClusterName := ca_name ca1\<rparr>)"

definition ca_CheckAndSetDefaults :: "cert_authority \<Rightarrow> cert_authority result" where
  "ca_CheckAndSetDefaults ca =
     (let ca1 = ca_setStaticFields ca
      in case Metadata_CheckAndSetDefaults (ca_Metadata ca1) of
           Inl e \<Rightarrow> Inl e
         | Inr m \<Rightarrow>
             (let ca2 = ca1\<lparr>ca_Metadata := m\<rparr>;
                  ca3 = (if ca_SubKind ca2 = [] then ca2\<lparr>ca_SubKind := ca_Type ca2\<rparr> else ca2)
              in case CertAuthID_Check (ca_Type ca3) (ca_ClusterName ca3) of
                   Inl e \<Rightarrow> Inl e
                 | Inr _ \<Rightarrow>
                     (case KeySet_CheckAndSetDefaults (ca_ActiveKeys ca3) of
                        Inl e \<Rightarrow> Inl e
                      | Inr _ \<Rightarrow>
                          (case KeySet_CheckAndSetDefaults (ca_AdditionalTrustedKeys ca3) of
                             Inl e \<Rightarrow> Inl e
                           | Inr _ \<Rightarrow>
                               (case Rotation_CheckAndSetDefaults (ca_Rotation ca3) of
                                  Inl e \<Rightarrow> Inl e
                                | Inr ro \<Rightarrow>
                                    if ca_Type ca3 \<notin> {UserCA, HostCA, JWTSigner} then Inl BadParameter
                                    else Inr (ca3\<lparr>ca_Rotation := ro\<rparr>))))))"

definition AllKeyTypesMatch :: "cert_authority \<Rightarrow> bool" where
  "AllKeyTypesMatch ca =
     (let types = concat (map (\<lambda>ks. map ssh_PrivateKeyType (ks_SSH ks) @ map tls_KeyType (ks_TLS ks) @
                                    map jwt_PrivateKeyType (ks_JWT ks))
                          [ca_ActiveKeys ca, ca_AdditionalTrustedKeys ca])
      in card (set types) = 1)"
section \<open>Role mappings\<close>

fun check_local_roles :: "string list \<Rightarrow> unit result" where
  "check_local_roles [] = Inr ()"
| "check_local_roles (l # ls) =
     (if l = [] then Inl BadParameter
      else if l = Wildcard then Inl BadParameter
      else check_local_roles ls)"

fun role_map_loop :: "(string \<times> string list) list \<Rightarrow> role_mapping list \<Rightarrow> (string \<times> string list) list result" where
  "role_map_loop directMatch [] = Inr directMatch"
| "role_map_loop directMatch (rm # rms) =
     (if rm_Remote rm = [] then Inl BadParameter
      else if ReplaceRegexp (rm_Remote rm) [] [] = Inl BadParameter then Inl BadParameter
      else if rm_Local rm = [] then Inl BadParameter
      else case check_local_roles (rm_Local rm) of
             Inl e \<Rightarrow> Inl e
           | Inr _ \<Rightarrow>
               if map_of directMatch (rm_Remote rm) \<noteq> None then Inl BadParameter
               else role_map_loop (directMatch @ [(rm_Remote rm, rm_Local rm)]) rms)"

definition parseRoleMap :: "role_mapping list \<Rightarrow> (string \<times> string list) list result" where
  "parseRoleMap r = role_map_loop [] r"

text \<open>The innermost loop of \<open>MapRoles\<close>, over the local roles of a mapping, then the ones around it.\<close>

fun map_local_roles :: "string \<Rightarrow> string \<Rightarrow> string list \<Rightarrow> string list result" where
  "map_local_roles expression remoteRole [] = Inr []"
| "map_local_roles expression remoteRole (replacementRole # ls) =
     (case ReplaceRegexp expression replacementRole remoteRole of
        Inr replacement \<Rightarrow>
          (case map_local_roles expression remoteRole ls of
             Inl e \<Rightarrow> Inl e
           | Inr outRoles \<Rightarrow> Inr (if replacement \<noteq> [] then replacement # outRoles else outRoles))
      | Inl e \<Rightarrow> if e = NotFound then map_local_roles expression remoteRole ls else Inl e)"

fun map_remote_roles :: "role_mapping \<Rightarrow> string list \<Rightarrow> string list result" where
  "map_remote_roles mapping [] = Inr []"
| "map_remote_roles mapping (remoteRole # rs) =
     (if remoteRole = DefaultImplicitRole then map_remote_roles mapping rs
      else case map_local_roles (rm_Remote mapping) remoteRole (rm_Local mapping) of
             Inl e \<Rightarrow> Inl e
           | Inr out1 \<Rightarrow>
               (case map_remote_roles mapping rs of Inl e \<Rightarrow> Inl e | Inr out2 \<Rightarrow> Inr (out1 @ out2)))"

fun map_roles_loop :: "role_mapping list \<Rightarrow> string list \<Rightarrow> string list result" where
  "map_roles_loop [] remoteRoles = Inr []"
| "map_roles_loop (mapping # r) remoteRoles =
     (case map_remote_roles mapping remoteRoles of
        Inl e \<Rightarrow> Inl e
      | Inr out1 \<Rightarrow> (case map_roles_loop r remoteRoles of Inl e \<Rightarrow> Inl e | Inr out2 \<Rightarrow> Inr (out1 @ out2)))"

definition MapRoles :: "role_mapping list \<Rightarrow> string list \<Rightarrow> string list result" where
  "MapRoles r remoteRoles =
     (case parseRoleMap r of
        Inl e \<Rightarrow> Inl e
      | Inr _ \<Rightarrow> map_roles_loop r (if remoteRoles = [] then [[]] else remoteRoles))"

section \<open>Validation and storage format\<close>

text \<open>
  The parsers of keys: \<open>ParseAuthorizedKey\<close> and \<open>ParsePrivateKey\<close> of \<open>x/crypto/ssh\<close>, which say whether a
  key parses, \<open>pem.Decode\<close>, which yields the type and the bytes of the first block, and the two PKCS1 parsers.
\<close>

record key_parsers =
  ssh_ParseAuthorizedKey :: "string \<Rightarrow> bool"
  ssh_ParsePrivateKey :: "string \<Rightarrow> trace_error option"
  pem_Decode :: "string \<Rightarrow> (string \<times> string) option"
  x509_ParsePKCS1PrivateKey :: "string \<Rightarrow> trace_error option"
  x509_ParsePKCS1PublicKey :: "string \<Rightarrow> trace_error option"

definition parsed :: "trace_error option \<Rightarrow> unit result" where
  "parsed r = (case r of Some e \<Rightarrow> Inl e | None \<Rightarrow> Inr ())"

definition utils_ParsePrivateKey :: "key_parsers \<Rightarrow> string \<Rightarrow> unit result" where
  "utils_ParsePrivateKey kp bytes =
     (case pem_Decode kp bytes of
        None \<Rightarrow> Inl BadParameter
      | Some (btype, block) \<Rightarrow>
          if btype = ''RSA PRIVATE KEY'' then parsed (x509_ParsePKCS1PrivateKey kp block) else Inl BadParameter)"

definition utils_ParsePublicKey :: "key_parsers \<Rightarrow> string \<Rightarrow> unit result" where
  "utils_ParsePublicKey kp bytes =
     (case pem_Decode kp bytes of
        None \<Rightarrow> Inl BadParameter
      | Some (btype, block) \<Rightarrow>
          if btype = ''RSA PUBLIC KEY'' then parsed (x509_ParsePKCS1PublicKey kp block) else Inl BadParameter)"

definition GetCheckers :: "key_parsers \<Rightarrow> cert_authority \<Rightarrow> unit result" where
  "GetCheckers kp ca =
     check_all (\<lambda>k. if ssh_ParseAuthorizedKey kp (ssh_PublicKey k) then Inr () else Inl BadParameter)
       (GetTrustedSSHKeyPairs ca)"

definition ValidateSigners :: "key_parsers \<Rightarrow> cert_authority \<Rightarrow> unit result" where
  "ValidateSigners kp ca =
     check_all (\<lambda>k. if ssh_PrivateKey k = [] then Inr ()
                    else if ssh_PrivateKeyType k = RAW then parsed (ssh_ParsePrivateKey kp (ssh_PrivateKey k))
                    else Inr ())
       (ks_SSH (GetActiveKeys ca))"

definition checkUserOrHostCA :: "key_parsers \<Rightarrow> cert_authority \<Rightarrow> unit result" where
  "checkUserOrHostCA kp ca =
     (if ks_SSH (ca_ActiveKeys ca) = [] \<and> ca_CheckingKeys ca = [] then Inl BadParameter
      else if ks_TLS (ca_ActiveKeys ca) = [] \<and> ca_TLSKeyPairs ca = [] then Inl BadParameter
      else case GetCheckers kp ca of
             Inl e \<Rightarrow> Inl e
           | Inr _ \<Rightarrow>
               (case ValidateSigners kp ca of
                  Inl e \<Rightarrow> Inl e
                | Inr _ \<Rightarrow>
                    if ca_Roles ca \<noteq> [] \<and> ca_RoleMap ca \<noteq> [] then Inl BadParameter
                    else (case parseRoleMap (ca_RoleMap ca) of Inl e \<Rightarrow> Inl e | Inr _ \<Rightarrow> Inr ())))"

text \<open>\<open>jwt.Config\<close>: the flags say which of the two keys are set, the algorithm is a constant.\<close>

definition jwt_New :: "bool \<Rightarrow> bool \<Rightarrow> string \<Rightarrow> unit result" where
  "jwt_New privateKey publicKey clusterName =
     (if \<not> privateKey \<and> \<not> publicKey then Inl BadParameter
      else if clusterName = [] then Inl BadParameter
      else Inr ())"

text \<open>The variable \<open>privateKey\<close> is declared outside the loop and keeps its value between iterations.\<close>

fun jwt_keys_loop :: "key_parsers \<Rightarrow> string \<Rightarrow> bool \<Rightarrow> jwt_key_pair list \<Rightarrow> unit result" where
  "jwt_keys_loop kp clusterName privateKey [] = Inr ()"
| "jwt_keys_loop kp clusterName privateKey (pair # pairs) =
     (let load = jwt_PrivateKey pair \<noteq> [] \<and> jwt_PrivateKeyType pair = RAW
      in case (if load then utils_ParsePrivateKey kp (jwt_PrivateKey pair) else Inr ()) of
           Inl e \<Rightarrow> Inl e
         | Inr _ \<Rightarrow>
             (case utils_ParsePublicKey kp (jwt_PublicKey pair) of
                Inl e \<Rightarrow> Inl e
              | Inr _ \<Rightarrow>
                  (case jwt_New (privateKey \<or> load) True clusterName of
                     Inl e \<Rightarrow> Inl e
                   | Inr _ \<Rightarrow> jwt_keys_loop kp clusterName (privateKey \<or> load) pairs)))"

definition checkJWTKeys :: "key_parsers \<Rightarrow> cert_authority \<Rightarrow> unit result" where
  "checkJWTKeys kp ca =
     (if ks_JWT (ca_ActiveKeys ca) = [] \<and> ca_JWTKeyPairs ca = [] then Inl BadParameter
      else jwt_keys_loop kp (ca_ClusterName ca) False (GetTrustedJWTKeyPairs ca))"

definition check_by_type :: "key_parsers \<Rightarrow> cert_authority \<Rightarrow> unit result" where
  "check_by_type kp ca =
     (if ca_Type ca \<in> {UserCA, HostCA} then checkUserOrHostCA kp ca
      else if ca_Type ca = JWTSigner then checkJWTKeys kp ca
      else Inl BadParameter)"

definition ValidateCertAuthority :: "key_parsers \<Rightarrow> cert_authority \<Rightarrow> cert_authority result" where
  "ValidateCertAuthority kp ca =
     (case ca_CheckAndSetDefaults ca of
        Inl e \<Rightarrow> Inl e
      | Inr ca1 \<Rightarrow> (case check_by_type kp ca1 of Inl e \<Rightarrow> Inl e | Inr _ \<Rightarrow> Inr ca1))"

definition haveOldCAKeys :: "cert_authority \<Rightarrow> bool" where
  "haveOldCAKeys ca = (ca_CheckingKeys ca \<noteq> [] \<or> ca_TLSKeyPairs ca \<noteq> [] \<or> ca_JWTKeyPairs ca \<noteq> [])"

definition haveNewCAKeys :: "cert_authority \<Rightarrow> bool" where
  "haveNewCAKeys ca =
     (ks_SSH (ca_ActiveKeys ca) \<noteq> [] \<or> ks_TLS (ca_ActiveKeys ca) \<noteq> [] \<or> ks_JWT (ca_ActiveKeys ca) \<noteq> [])"

definition CertAuthorityNeedsMigration :: "cert_authority \<Rightarrow> bool" where
  "CertAuthorityNeedsMigration ca = (haveOldCAKeys ca \<and> \<not> haveNewCAKeys ca)"

text \<open>The private keys are read by index only when there are any, and then there are as many as public keys.\<close>

definition fillNewCertAuthorityKeys :: "cert_authority \<Rightarrow> cert_authority result" where
  "fillNewCertAuthorityKeys ca =
     (if ca_SigningKeys ca \<noteq> [] \<and> length (ca_SigningKeys ca) \<noteq> length (ca_CheckingKeys ca) then Inl BadParameter
      else Inr (ca\<lparr>ca_ActiveKeys :=
                    \<lparr>ks_SSH = map (\<lambda>i. \<lparr>ssh_PublicKey = ca_CheckingKeys ca ! i,
                                        ssh_PrivateKey = (if ca_SigningKeys ca \<noteq> [] then ca_SigningKeys ca ! i else []),
                                        ssh_PrivateKeyType = RAW\<rparr>)
                                [0..<length (ca_CheckingKeys ca)],
                     ks_TLS = ca_TLSKeyPairs ca, ks_JWT = ca_JWTKeyPairs ca\<rparr>,
                   ca_AdditionalTrustedKeys := no_keys\<rparr>))"

definition fillOldCertAuthorityKeys :: "cert_authority \<Rightarrow> cert_authority" where
  "fillOldCertAuthorityKeys ca =
     (let keySets = [ca_ActiveKeys ca, ca_AdditionalTrustedKeys ca];
          sshPairs = concat (map ks_SSH keySets)
      in ca\<lparr>ca_SigningKeys := filter (\<lambda>k. k \<noteq> []) (map ssh_PrivateKey sshPairs),
            ca_CheckingKeys := map ssh_PublicKey sshPairs,
            ca_TLSKeyPairs := concat (map ks_TLS keySets),
            ca_JWTKeyPairs := concat (map ks_JWT keySets)\<rparr>)"

definition SyncCertAuthorityKeys :: "cert_authority \<Rightarrow> cert_authority result" where
  "SyncCertAuthorityKeys ca =
     (if haveOldCAKeys ca \<and> \<not> haveNewCAKeys ca then fillNewCertAuthorityKeys ca
      else if \<not> haveOldCAKeys ca \<and> haveNewCAKeys ca then Inr (fillOldCertAuthorityKeys ca)
      else Inr ca)"

definition ca_SetResourceID :: "int \<Rightarrow> cert_authority \<Rightarrow> cert_authority" where
  "ca_SetResourceID i ca = ca\<lparr>ca_Metadata := (ca_Metadata ca)\<lparr>md_ID := i\<rparr>\<rparr>"

text \<open>
  A stored authority is kept as the value that was marshalled: \<open>MarshalCertAuthority\<close>, called without
  options, yields what is written, and \<open>UnmarshalCertAuthority\<close> what is read back.
\<close>

definition MarshalCertAuthority :: "key_parsers \<Rightarrow> cert_authority \<Rightarrow> cert_authority result" where
  "MarshalCertAuthority kp ca =
     (case ValidateCertAuthority kp ca of
        Inl e \<Rightarrow> Inl e
      | Inr ca1 \<Rightarrow> SyncCertAuthorityKeys (ca_SetResourceID 0 ca1))"

definition UnmarshalCertAuthority :: "key_parsers \<Rightarrow> int \<Rightarrow> cert_authority \<Rightarrow> cert_authority result" where
  "UnmarshalCertAuthority kp resourceID stored =
     (if ca_Version stored \<noteq> ''v2'' then Inl BadParameter
      else case ValidateCertAuthority kp stored of
             Inl e \<Rightarrow> Inl e
           | Inr ca \<Rightarrow> Inr (if resourceID \<noteq> 0 then ca_SetResourceID resourceID ca else ca))"

definition GetTLSCerts :: "cert_authority \<Rightarrow> string list" where
  "GetTLSCerts ca = map tls_Cert (GetTrustedTLSKeyPairs ca)"

definition GetSSHCheckingKeys :: "cert_authority \<Rightarrow> string list" where
  "GetSSHCheckingKeys ca = map ssh_PublicKey (GetTrustedSSHKeyPairs ca)"

definition ParseSigningAlg :: "string \<Rightarrow> signing_alg" where
  "ParseSigningAlg alg =
     (if alg = ''ssh-rsa'' then RSA_SHA1
      else if alg = ''rsa-sha2-256'' then RSA_SHA2_256
      else if alg = ''rsa-sha2-512'' then RSA_SHA2_512
      else UNKNOWN)"

definition GetSigningAlgName :: "cert_authority \<Rightarrow> string" where
  "GetSigningAlgName ca =
     (case ca_SigningAlg ca of
        RSA_SHA1 \<Rightarrow> ''ssh-rsa'' | UNKNOWN \<Rightarrow> ''ssh-rsa''
      | RSA_SHA2_256 \<Rightarrow> ''rsa-sha2-256'' | RSA_SHA2_512 \<Rightarrow> ''rsa-sha2-512'')"

definition SetSigningAlgName :: "string \<Rightarrow> cert_authority \<Rightarrow> cert_authority" where
  "SetSigningAlgName alg ca = ca\<lparr>ca_SigningAlg := ParseSigningAlg alg\<rparr>"

section \<open>Facts about authorities\<close>

lemma check_all_Inr: "check_all f xs = Inr u \<longleftrightarrow> (\<forall>x\<in>set xs. f x = Inr ())"
  by (induction xs) (auto split: sum.split)

lemma KeySet_CheckAndSetDefaults_Inr:
  "KeySet_CheckAndSetDefaults ks = Inr u \<longleftrightarrow>
     (\<forall>k\<in>set (ks_SSH ks). ssh_PublicKey k \<noteq> []) \<and> (\<forall>k\<in>set (ks_TLS ks). tls_Cert k \<noteq> []) \<and>
     (\<forall>k\<in>set (ks_JWT ks). jwt_PublicKey k \<noteq> [])"
proof -
  have ssh: "SSHKeyPair_CheckAndSetDefaults k = Inr () \<longleftrightarrow> ssh_PublicKey k \<noteq> []" for k
    by (simp add: SSHKeyPair_CheckAndSetDefaults_def)
  have tls: "TLSKeyPair_CheckAndSetDefaults k = Inr () \<longleftrightarrow> tls_Cert k \<noteq> []" for k
    by (simp add: TLSKeyPair_CheckAndSetDefaults_def)
  have jwt: "JWTKeyPair_CheckAndSetDefaults k = Inr () \<longleftrightarrow> jwt_PublicKey k \<noteq> []" for k
    by (simp add: JWTKeyPair_CheckAndSetDefaults_def)
  show ?thesis
    unfolding KeySet_CheckAndSetDefaults_def case_result_unit_Inr check_all_Inr ssh tls jwt by simp
qed

lemma no_keys_simps [simp]:
  "ks_SSH no_keys = []" "ks_TLS no_keys = []" "ks_JWT no_keys = []" "Empty no_keys"
  "KeySet_CheckAndSetDefaults no_keys = Inr ()"
  by (simp_all add: no_keys_def Empty_def KeySet_CheckAndSetDefaults_def)

lemma state_names [simp]: "RotationStateStandby \<noteq> []" "RotationStateInProgress \<noteq> []"
  "RotationStateStandby \<noteq> RotationStateInProgress" "RotationStateInProgress \<noteq> RotationStateStandby"
  by (simp_all add: mode_state_defs)

lemma Rotation_CheckAndSetDefaults_idem:
  assumes "Rotation_CheckAndSetDefaults ro = Inr ro'"
  shows "Rotation_CheckAndSetDefaults ro' = Inr ro'"
proof (cases ro)
  case None
  with assms show ?thesis by (simp add: Rotation_CheckAndSetDefaults_def)
next
  case (Some r)
  with assms have "ro' = Some r \<or> rot_State r = [] \<and> ro' = Some (r\<lparr>rot_State := RotationStateStandby\<rparr>)"
    by (simp add: Rotation_CheckAndSetDefaults_def split: if_split_asm)
  with assms Some show ?thesis
    by (elim disjE conjE) (simp_all add: Rotation_CheckAndSetDefaults_def split: if_split_asm, blast)
qed


text \<open>The checks of an authority, without the order of their errors.\<close>

definition ca_with_defaults :: "metadata \<Rightarrow> rotation option \<Rightarrow> cert_authority \<Rightarrow> cert_authority" where
  "ca_with_defaults m ro ca =
     (ca_setStaticFields ca)\<lparr>ca_Metadata := m, ca_Rotation := ro,
        ca_SubKind := if ca_SubKind ca = [] then ca_Type ca else ca_SubKind ca\<rparr>"

lemma ca_setStaticFields_simps [simp]:
  "ca_Type (ca_setStaticFields ca) = ca_Type ca" "ca_SubKind (ca_setStaticFields ca) = ca_SubKind ca"
  "ca_Rotation (ca_setStaticFields ca) = ca_Rotation ca" "ca_ActiveKeys (ca_setStaticFields ca) = ca_ActiveKeys ca"
  "ca_AdditionalTrustedKeys (ca_setStaticFields ca) = ca_AdditionalTrustedKeys ca"
  "ca_CheckingKeys (ca_setStaticFields ca) = ca_CheckingKeys ca" "ca_SigningKeys (ca_setStaticFields ca) = ca_SigningKeys ca"
  "ca_TLSKeyPairs (ca_setStaticFields ca) = ca_TLSKeyPairs ca" "ca_JWTKeyPairs (ca_setStaticFields ca) = ca_JWTKeyPairs ca"
  "ca_Roles (ca_setStaticFields ca) = ca_Roles ca" "ca_RoleMap (ca_setStaticFields ca) = ca_RoleMap ca"
  "ca_Version (ca_setStaticFields ca) = ''v2''" "ca_name (ca_setStaticFields ca) = ca_ClusterName (ca_setStaticFields ca)"
  "ca_Kind (ca_setStaticFields ca) = ''cert_authority''"
  by (simp_all add: ca_setStaticFields_def ca_name_def Let_def)

lemma ca_with_defaults_simps [simp]:
  "ca_Type (ca_with_defaults m ro ca) = ca_Type ca" "ca_Rotation (ca_with_defaults m ro ca) = ro"
  "ca_ActiveKeys (ca_with_defaults m ro ca) = ca_ActiveKeys ca" "ca_Metadata (ca_with_defaults m ro ca) = m"
  "ca_AdditionalTrustedKeys (ca_with_defaults m ro ca) = ca_AdditionalTrustedKeys ca"
  "ca_CheckingKeys (ca_with_defaults m ro ca) = ca_CheckingKeys ca" "ca_SigningKeys (ca_with_defaults m ro ca) = ca_SigningKeys ca"
  "ca_TLSKeyPairs (ca_with_defaults m ro ca) = ca_TLSKeyPairs ca" "ca_JWTKeyPairs (ca_with_defaults m ro ca) = ca_JWTKeyPairs ca"
  "ca_Roles (ca_with_defaults m ro ca) = ca_Roles ca" "ca_RoleMap (ca_with_defaults m ro ca) = ca_RoleMap ca"
  "ca_Version (ca_with_defaults m ro ca) = ''v2''" "ca_ClusterName (ca_with_defaults m ro ca) = ca_ClusterName (ca_setStaticFields ca)"
  by (simp_all add: ca_with_defaults_def)

lemma CertAuthType_Check_Inr: "CertAuthType_Check c = Inr () \<longleftrightarrow> c \<in> {HostCA, UserCA, JWTSigner}"
  by (simp add: CertAuthType_Check_def)

lemma CertAuthID_Check_Inr:
  "CertAuthID_Check c d = Inr () \<longleftrightarrow> c \<in> {HostCA, UserCA, JWTSigner} \<and> \<not> list_all is_space d"
  by (simp add: CertAuthID_Check_def case_result_unit_Inr CertAuthType_Check_Inr)

lemma ca_CheckAndSetDefaults_Inr:
  "ca_CheckAndSetDefaults ca = Inr ca' \<longleftrightarrow>
     (\<exists>m ro. Metadata_CheckAndSetDefaults (ca_Metadata (ca_setStaticFields ca)) = Inr m \<and>
        Rotation_CheckAndSetDefaults (ca_Rotation ca) = Inr ro \<and>
        CertAuthID_Check (ca_Type ca) (ca_ClusterName (ca_setStaticFields ca)) = Inr () \<and>
        KeySet_CheckAndSetDefaults (ca_ActiveKeys ca) = Inr () \<and>
        KeySet_CheckAndSetDefaults (ca_AdditionalTrustedKeys ca) = Inr () \<and>
        ca' = ca_with_defaults m ro ca)"
proof (cases "Metadata_CheckAndSetDefaults (ca_Metadata (ca_setStaticFields ca))")
  case (Inl e)
  then show ?thesis by (simp add: ca_CheckAndSetDefaults_def)
next
  case (Inr m)
  define ca1 where "ca1 = (ca_setStaticFields ca)\<lparr>ca_Metadata := m\<rparr>"
  define ca3 where "ca3 = (if ca_SubKind ca1 = [] then ca1\<lparr>ca_SubKind := ca_Type ca1\<rparr> else ca1)"
  have ca3: "ca_Type ca3 = ca_Type ca" "ca_ClusterName ca3 = ca_ClusterName (ca_setStaticFields ca)"
    "ca_ActiveKeys ca3 = ca_ActiveKeys ca" "ca_AdditionalTrustedKeys ca3 = ca_AdditionalTrustedKeys ca"
    "ca_Rotation ca3 = ca_Rotation ca"
    by (simp_all add: ca3_def ca1_def)
  have upd: "ca3\<lparr>ca_Rotation := ro\<rparr> = ca_with_defaults m ro ca" for ro
    by (simp add: ca3_def ca1_def ca_with_defaults_def)
  show ?thesis
    unfolding ca_CheckAndSetDefaults_def Let_def Inr sum.case ca1_def[symmetric] ca3_def[symmetric] case_result_unit_Inr
      case_result_Inr ca3 upd CertAuthID_Check_Inr
    by auto
qed


lemma ca_CheckAndSetDefaults_valid:
  assumes "ca_CheckAndSetDefaults ca = Inr ca'"
  shows "ca_CheckAndSetDefaults ca' = Inr ca' \<and> ca_setStaticFields ca' = ca' \<and> ca_ClusterName ca' = ca_name ca' \<and>
    \<not> list_all is_space (ca_name ca') \<and> ca_Type ca' = ca_Type ca \<and> ca_Type ca' \<in> {HostCA, UserCA, JWTSigner}"
proof -
  obtain m ro where m: "Metadata_CheckAndSetDefaults (ca_Metadata (ca_setStaticFields ca)) = Inr m"
    and ro: "Rotation_CheckAndSetDefaults (ca_Rotation ca) = Inr ro"
    and rest: "CertAuthID_Check (ca_Type ca) (ca_ClusterName (ca_setStaticFields ca)) = Inr ()"
      "KeySet_CheckAndSetDefaults (ca_ActiveKeys ca) = Inr ()"
      "KeySet_CheckAndSetDefaults (ca_AdditionalTrustedKeys ca) = Inr ()"
    and ca': "ca' = ca_with_defaults m ro ca"
    using assms unfolding ca_CheckAndSetDefaults_Inr by blast
  have "md_Name m = ca_ClusterName (ca_setStaticFields ca)" "md_Name m \<noteq> []" and m': "Metadata_CheckAndSetDefaults m = Inr m"
    using Metadata_check_Inr [OF m] ca_setStaticFields_simps(13) [of ca, unfolded ca_name_def] by auto
  then have name: "ca_name ca' = ca_ClusterName ca'" "ca_name ca' \<noteq> []"
    by (simp_all add: ca' ca_name_def)
  have kind: "ca_Kind ca' = ''cert_authority''" "ca_Version ca' = ''v2''"
    by (simp_all add: ca' ca_with_defaults_def ca_setStaticFields_def Let_def)
  have static: "ca_setStaticFields ca' = ca'"
    using name kind by (simp add: ca_setStaticFields_def Let_def ca_name_def)
  have sub: "ca_SubKind ca' = (if ca_SubKind ca = [] then ca_Type ca else ca_SubKind ca)"
    by (simp add: ca' ca_with_defaults_def)
  then have sub': "ca_SubKind ca' = (if ca_SubKind ca' = [] then ca_Type ca' else ca_SubKind ca')"
    by (simp add: ca')
  have types: "ca_Type ca \<in> {HostCA, UserCA, JWTSigner}" "\<not> list_all is_space (ca_ClusterName (ca_setStaticFields ca))"
    using rest(1) by (simp_all add: CertAuthID_Check_Inr)
  have "ca_with_defaults m ro ca' = ca'"
    using static sub' unfolding ca_with_defaults_def by (simp add: ca')
  then have "ca_CheckAndSetDefaults ca' = Inr ca'"
    unfolding ca_CheckAndSetDefaults_Inr static
    using m' Rotation_CheckAndSetDefaults_idem [OF ro] rest by (metis ca' ca_with_defaults_simps)
  with static name types show ?thesis by (simp add: ca')
qed


text \<open>The authorities that the checks leave as they are.\<close>

definition ca_ok :: "cert_authority \<Rightarrow> bool" where
  "ca_ok ca \<longleftrightarrow> ca_Kind ca = ''cert_authority'' \<and> ca_Version ca = ''v2'' \<and> ca_name ca = ca_ClusterName ca \<and>
     ca_name ca \<noteq> [] \<and> ca_SubKind ca \<noteq> [] \<and> Metadata_CheckAndSetDefaults (ca_Metadata ca) = Inr (ca_Metadata ca) \<and>
     Rotation_CheckAndSetDefaults (ca_Rotation ca) = Inr (ca_Rotation ca) \<and>
     CertAuthID_Check (ca_Type ca) (ca_ClusterName ca) = Inr () \<and>
     KeySet_CheckAndSetDefaults (ca_ActiveKeys ca) = Inr () \<and>
     KeySet_CheckAndSetDefaults (ca_AdditionalTrustedKeys ca) = Inr ()"

lemma ca_ok_check: "ca_ok ca \<Longrightarrow> ca_CheckAndSetDefaults ca = Inr ca"
proof -
  assume ok: "ca_ok ca"
  then have static: "ca_setStaticFields ca = ca"
    by (simp add: ca_ok_def ca_setStaticFields_def Let_def ca_name_def)
  with ok have "ca = ca_with_defaults (ca_Metadata ca) (ca_Rotation ca) ca"
    by (simp add: ca_with_defaults_def ca_ok_def)
  with ok show ?thesis
    unfolding ca_CheckAndSetDefaults_Inr static by (auto simp: ca_ok_def simp del: ca_with_defaults_simps)
qed

lemma ca_check_ok:
  assumes "ca_CheckAndSetDefaults ca = Inr ca'"
  shows "ca_ok ca'"
proof -
  note valid = ca_CheckAndSetDefaults_valid [OF assms]
  then obtain m ro where m: "Metadata_CheckAndSetDefaults (ca_Metadata ca') = Inr m"
    and ro: "Rotation_CheckAndSetDefaults (ca_Rotation ca') = Inr ro"
    and rest: "CertAuthID_Check (ca_Type ca') (ca_ClusterName ca') = Inr ()"
      "KeySet_CheckAndSetDefaults (ca_ActiveKeys ca') = Inr ()"
      "KeySet_CheckAndSetDefaults (ca_AdditionalTrustedKeys ca') = Inr ()"
    and eq: "ca' = ca_with_defaults m ro ca'"
    unfolding ca_CheckAndSetDefaults_Inr by metis
  have "ca_Metadata ca' = m" "ca_Rotation ca' = ro"
    using eq by (metis ca_with_defaults_simps)+
  moreover have "ca_SubKind ca' = (if ca_SubKind ca' = [] then ca_Type ca' else ca_SubKind ca')"
    using arg_cong [OF eq, of ca_SubKind] by (simp add: ca_with_defaults_def)
  moreover have "ca_Type ca' \<noteq> []" "ca_name ca' \<noteq> []"
    using valid by (auto simp: ca_type_defs)
  moreover have "ca_Kind ca' = ''cert_authority''" "ca_Version ca' = ''v2''"
    using valid by (metis ca_setStaticFields_simps(14), metis ca_setStaticFields_simps(12))
  ultimately show ?thesis
    using m ro rest valid unfolding ca_ok_def by metis
qed


section \<open>Validation and storage\<close>

lemma ValidateCertAuthority_Inr:
  "ValidateCertAuthority kp ca = Inr ca' \<longleftrightarrow> ca_CheckAndSetDefaults ca = Inr ca' \<and> check_by_type kp ca' = Inr ()"
  by (auto simp: ValidateCertAuthority_def case_result_Inr case_result_unit_Inr)

lemma ValidateCertAuthority_idem:
  "ValidateCertAuthority kp ca = Inr ca' \<Longrightarrow> ValidateCertAuthority kp ca' = Inr ca'"
  using ca_CheckAndSetDefaults_valid by (auto simp: ValidateCertAuthority_Inr)

lemma ValidateCertAuthority_fixed:
  "ValidateCertAuthority kp ca = Inr ca \<longleftrightarrow> ca_ok ca \<and> check_by_type kp ca = Inr ()"
  using ca_ok_check ca_check_ok by (auto simp: ValidateCertAuthority_Inr)

definition jwt_pair_parses :: "key_parsers \<Rightarrow> jwt_key_pair \<Rightarrow> bool" where
  "jwt_pair_parses kp pair \<longleftrightarrow> utils_ParsePublicKey kp (jwt_PublicKey pair) = Inr () \<and>
     (jwt_PrivateKey pair \<noteq> [] \<and> jwt_PrivateKeyType pair = RAW \<longrightarrow>
        utils_ParsePrivateKey kp (jwt_PrivateKey pair) = Inr ())"

lemma jwt_keys_loop_Inr:
  "clusterName \<noteq> [] \<Longrightarrow>
     jwt_keys_loop kp clusterName pk pairs = Inr u \<longleftrightarrow> (\<forall>pair\<in>set pairs. jwt_pair_parses kp pair)"
  by (induction pairs arbitrary: pk)
    (auto simp: Let_def case_result_unit_Inr jwt_New_def jwt_pair_parses_def)

definition host_user_keys_ok :: "key_parsers \<Rightarrow> cert_authority \<Rightarrow> bool" where
  "host_user_keys_ok kp ca \<longleftrightarrow>
     (\<forall>k\<in>set (GetTrustedSSHKeyPairs ca). ssh_ParseAuthorizedKey kp (ssh_PublicKey k)) \<and>
     (\<forall>k\<in>set (ks_SSH (GetActiveKeys ca)). ssh_PrivateKey k \<noteq> [] \<and> ssh_PrivateKeyType k = RAW \<longrightarrow>
        ssh_ParsePrivateKey kp (ssh_PrivateKey k) = None)"

lemma parsed_Inr: "parsed r = Inr u \<longleftrightarrow> r = None"
  by (simp add: parsed_def split: option.split)

lemma checkUserOrHostCA_Inr:
  "checkUserOrHostCA kp ca = Inr u \<longleftrightarrow>
     (ks_SSH (ca_ActiveKeys ca) \<noteq> [] \<or> ca_CheckingKeys ca \<noteq> []) \<and>
     (ks_TLS (ca_ActiveKeys ca) \<noteq> [] \<or> ca_TLSKeyPairs ca \<noteq> []) \<and> host_user_keys_ok kp ca \<and>
     (ca_Roles ca = [] \<or> ca_RoleMap ca = []) \<and> is_ok (parseRoleMap (ca_RoleMap ca))"
proof -
  have 1: "GetCheckers kp ca = Inr () \<longleftrightarrow>
      (\<forall>k\<in>set (GetTrustedSSHKeyPairs ca). ssh_ParseAuthorizedKey kp (ssh_PublicKey k))"
    by (auto simp: GetCheckers_def check_all_Inr)
  have 2: "ValidateSigners kp ca = Inr () \<longleftrightarrow>
      (\<forall>k\<in>set (ks_SSH (GetActiveKeys ca)). ssh_PrivateKey k \<noteq> [] \<and> ssh_PrivateKeyType k = RAW \<longrightarrow>
        ssh_ParsePrivateKey kp (ssh_PrivateKey k) = None)"
    by (auto simp: ValidateSigners_def check_all_Inr parsed_Inr)
  show ?thesis
    by (cases "parseRoleMap (ca_RoleMap ca)")
      (auto simp: checkUserOrHostCA_def case_result_unit_Inr 1 2 host_user_keys_ok_def)
qed

lemma checkJWTKeys_Inr:
  assumes "ca_ClusterName ca \<noteq> []"
  shows "checkJWTKeys kp ca = Inr u \<longleftrightarrow>
     (ks_JWT (ca_ActiveKeys ca) \<noteq> [] \<or> ca_JWTKeyPairs ca \<noteq> []) \<and>
     (\<forall>pair\<in>set (GetTrustedJWTKeyPairs ca). jwt_pair_parses kp pair)"
  using assms by (simp add: checkJWTKeys_def jwt_keys_loop_Inr)


text \<open>What the old schema adds when it is a copy of the new one.\<close>

lemma ca_ok_SetResourceID: "ca_ok (ca_SetResourceID i ca) \<longleftrightarrow> ca_ok ca"
proof -
  have "Metadata_CheckAndSetDefaults (m\<lparr>md_ID := i\<rparr>) = Inr (m\<lparr>md_ID := i\<rparr>) \<longleftrightarrow>
      Metadata_CheckAndSetDefaults m = Inr m" for m
    by (cases m) (auto simp: Metadata_CheckAndSetDefaults_def Let_def Origin_def)
  then show ?thesis
    by (simp add: ca_ok_def ca_SetResourceID_def ca_name_def)
qed

lemma ca_SetResourceID_simps [simp]:
  "ca_ActiveKeys (ca_SetResourceID i ca) = ca_ActiveKeys ca"
  "ca_AdditionalTrustedKeys (ca_SetResourceID i ca) = ca_AdditionalTrustedKeys ca"
  "ca_CheckingKeys (ca_SetResourceID i ca) = ca_CheckingKeys ca" "ca_SigningKeys (ca_SetResourceID i ca) = ca_SigningKeys ca"
  "ca_TLSKeyPairs (ca_SetResourceID i ca) = ca_TLSKeyPairs ca" "ca_JWTKeyPairs (ca_SetResourceID i ca) = ca_JWTKeyPairs ca"
  "ca_Roles (ca_SetResourceID i ca) = ca_Roles ca" "ca_RoleMap (ca_SetResourceID i ca) = ca_RoleMap ca"
  "ca_Type (ca_SetResourceID i ca) = ca_Type ca" "ca_ClusterName (ca_SetResourceID i ca) = ca_ClusterName ca"
  "ca_Rotation (ca_SetResourceID i ca) = ca_Rotation ca" "ca_Version (ca_SetResourceID i ca) = ca_Version ca"
  "ca_name (ca_SetResourceID i ca) = ca_name ca" "ca_SetResourceID j (ca_SetResourceID i ca) = ca_SetResourceID j ca"
  by (simp_all add: ca_SetResourceID_def ca_name_def)

lemma trusted_SetResourceID [simp]:
  "GetActiveKeys (ca_SetResourceID i ca) = GetActiveKeys ca"
  "GetAdditionalTrustedKeys (ca_SetResourceID i ca) = GetAdditionalTrustedKeys ca"
  by (simp_all add: GetActiveKeys_def GetAdditionalTrustedKeys_def getOldKeySet_def)

text \<open>The trusted keys, as sets of what clients verify with.\<close>

definition trusted_ssh :: "cert_authority \<Rightarrow> string set" where
  "trusted_ssh ca = ssh_PublicKey ` set (GetTrustedSSHKeyPairs ca)"

definition trusted_tls :: "cert_authority \<Rightarrow> tls_key_pair set" where
  "trusted_tls ca = set (GetTrustedTLSKeyPairs ca)"

definition trusted_jwt :: "cert_authority \<Rightarrow> jwt_key_pair set" where
  "trusted_jwt ca = set (GetTrustedJWTKeyPairs ca)"

lemma check_by_type_cong:
  assumes "ca_Type ca' = ca_Type ca" "ca_ClusterName ca' = ca_ClusterName ca" "ca_ClusterName ca \<noteq> []"
    "ca_Roles ca' = ca_Roles ca" "ca_RoleMap ca' = ca_RoleMap ca" "ca_ActiveKeys ca' = ca_ActiveKeys ca"
    "GetActiveKeys ca' = GetActiveKeys ca"
    "trusted_ssh ca' \<subseteq> trusted_ssh ca" "trusted_jwt ca' \<subseteq> trusted_jwt ca"
    "ca_CheckingKeys ca = [] \<or> ca_CheckingKeys ca' \<noteq> []" "ca_TLSKeyPairs ca = [] \<or> ca_TLSKeyPairs ca' \<noteq> []"
    "ca_JWTKeyPairs ca = [] \<or> ca_JWTKeyPairs ca' \<noteq> []"
    "check_by_type kp ca = Inr ()"
  shows "check_by_type kp ca' = Inr ()"
proof (cases "ca_Type ca \<in> {UserCA, HostCA}")
  case True
  have checked: "checkUserOrHostCA kp ca = Inr ()"
    using assms(13) True by (simp add: check_by_type_def)
  then have "host_user_keys_ok kp ca'"
    using assms(7,8) by (auto simp: checkUserOrHostCA_Inr host_user_keys_ok_def trusted_ssh_def)
  with checked have "checkUserOrHostCA kp ca' = Inr ()"
    using assms(4-6,10,11) by (auto simp: checkUserOrHostCA_Inr)
  with True assms(1) show ?thesis by (simp add: check_by_type_def)
next
  case False
  then have type: "ca_Type ca = JWTSigner" and checked: "checkJWTKeys kp ca = Inr ()"
    using assms(13) by (simp_all add: check_by_type_def split: if_split_asm)
  have "checkJWTKeys kp ca' = Inr ()"
    using checked assms(2,3,6,9,12) by (auto simp: checkJWTKeys_Inr trusted_jwt_def)
  with False type assms(1) show ?thesis by (simp add: check_by_type_def)
qed

lemma fillOld_simps [simp]:
  "ca_ActiveKeys (fillOldCertAuthorityKeys ca) = ca_ActiveKeys ca"
  "ca_AdditionalTrustedKeys (fillOldCertAuthorityKeys ca) = ca_AdditionalTrustedKeys ca"
  "ca_Type (fillOldCertAuthorityKeys ca) = ca_Type ca" "ca_ClusterName (fillOldCertAuthorityKeys ca) = ca_ClusterName ca"
  "ca_Roles (fillOldCertAuthorityKeys ca) = ca_Roles ca" "ca_RoleMap (fillOldCertAuthorityKeys ca) = ca_RoleMap ca"
  "ca_Metadata (fillOldCertAuthorityKeys ca) = ca_Metadata ca" "ca_Rotation (fillOldCertAuthorityKeys ca) = ca_Rotation ca"
  "ca_Kind (fillOldCertAuthorityKeys ca) = ca_Kind ca" "ca_SubKind (fillOldCertAuthorityKeys ca) = ca_SubKind ca"
  "ca_Version (fillOldCertAuthorityKeys ca) = ca_Version ca"
  "ca_CheckingKeys (fillOldCertAuthorityKeys ca) =
     map ssh_PublicKey (ks_SSH (ca_ActiveKeys ca) @ ks_SSH (ca_AdditionalTrustedKeys ca))"
  "ca_TLSKeyPairs (fillOldCertAuthorityKeys ca) = ks_TLS (ca_ActiveKeys ca) @ ks_TLS (ca_AdditionalTrustedKeys ca)"
  "ca_JWTKeyPairs (fillOldCertAuthorityKeys ca) = ks_JWT (ca_ActiveKeys ca) @ ks_JWT (ca_AdditionalTrustedKeys ca)"
  by (simp_all add: fillOldCertAuthorityKeys_def Let_def)

lemma fillOld_ok: "ca_ok ca \<Longrightarrow> ca_ok (fillOldCertAuthorityKeys ca)"
  by (auto simp: ca_ok_def ca_name_def)

lemma haveNew_Empty: "haveNewCAKeys ca \<longleftrightarrow> \<not> Empty (ca_ActiveKeys ca)"
  by (simp add: haveNewCAKeys_def Empty_def)

lemma getOldKeySet_subset:
  "ssh_PublicKey ` set (ks_SSH (getOldKeySet ca i)) \<subseteq> set (ca_CheckingKeys ca)"
  "set (ks_TLS (getOldKeySet ca i)) \<subseteq> set (ca_TLSKeyPairs ca)"
  "set (ks_JWT (getOldKeySet ca i)) \<subseteq> set (ca_JWTKeyPairs ca)"
  by (auto simp: getOldKeySet_def)

lemmas trusted_defs = trusted_ssh_def trusted_tls_def trusted_jwt_def GetTrustedSSHKeyPairs_def
  GetTrustedTLSKeyPairs_def GetTrustedJWTKeyPairs_def

lemma fillOld_trusted:
  assumes new: "haveNewCAKeys ca" and old: "\<not> haveOldCAKeys ca"
  shows "GetActiveKeys (fillOldCertAuthorityKeys ca) = GetActiveKeys ca \<and>
    trusted_ssh (fillOldCertAuthorityKeys ca) = trusted_ssh ca \<and>
    trusted_tls (fillOldCertAuthorityKeys ca) = trusted_tls ca \<and>
    trusted_jwt (fillOldCertAuthorityKeys ca) = trusted_jwt ca"
proof -
  let ?f = "fillOldCertAuthorityKeys ca"
  have act: "GetActiveKeys ?f = ca_ActiveKeys ca" "GetActiveKeys ca = ca_ActiveKeys ca"
    using new by (simp_all add: GetActiveKeys_def haveNew_Empty)
  show ?thesis
  proof (cases "Empty (ca_AdditionalTrustedKeys ca)")
    case False
    then have "GetAdditionalTrustedKeys ?f = GetAdditionalTrustedKeys ca"
      by (simp add: GetAdditionalTrustedKeys_def)
    then show ?thesis by (simp add: trusted_defs act)
  next
    case True
    have none: "GetAdditionalTrustedKeys ca = no_keys"
      using True old by (simp add: GetAdditionalTrustedKeys_def getOldKeySet_def haveOldCAKeys_def no_keys_def)
    have add: "GetAdditionalTrustedKeys ?f = getOldKeySet ?f 1"
      using True by (simp add: GetAdditionalTrustedKeys_def)
    have "ca_CheckingKeys ?f = map ssh_PublicKey (ks_SSH (ca_ActiveKeys ca))"
      "ca_TLSKeyPairs ?f = ks_TLS (ca_ActiveKeys ca)" "ca_JWTKeyPairs ?f = ks_JWT (ca_ActiveKeys ca)"
      using True by (simp_all add: Empty_def)
    with getOldKeySet_subset [of ?f 1] show ?thesis
      by (simp add: trusted_defs act none add image_Un Un_absorb2)
  qed
qed

lemma Sync_ok:
  assumes valid: "ValidateCertAuthority kp ca = Inr ca" and new: "haveNewCAKeys ca"
    and sync: "SyncCertAuthorityKeys ca = Inr stored"
  shows "ValidateCertAuthority kp stored = Inr stored \<and> SyncCertAuthorityKeys stored = Inr stored \<and>
    haveNewCAKeys stored \<and> GetActiveKeys stored = GetActiveKeys ca \<and> trusted_ssh stored = trusted_ssh ca \<and>
    trusted_tls stored = trusted_tls ca \<and> trusted_jwt stored = trusted_jwt ca \<and> ca_Rotation stored = ca_Rotation ca \<and>
    ca_Metadata stored = ca_Metadata ca \<and> ca_Type stored = ca_Type ca"
proof (cases "haveOldCAKeys ca")
  case True
  then have "stored = ca" using new sync by (simp add: SyncCertAuthorityKeys_def)
  with valid new True show ?thesis by (simp add: SyncCertAuthorityKeys_def)
next
  case False
  let ?f = "fillOldCertAuthorityKeys ca"
  have stored: "stored = ?f" using False new sync by (simp add: SyncCertAuthorityKeys_def)
  note same = fillOld_trusted [OF new False]
  have ok: "ca_ok ca" "check_by_type kp ca = Inr ()"
    using valid by (simp_all add: ValidateCertAuthority_fixed)
  have "check_by_type kp ?f = Inr ()"
    by (rule check_by_type_cong [OF _ _ _ _ _ _ _ _ _ _ _ _ ok(2)])
      (use same ok False in \<open>auto simp: ca_ok_def haveOldCAKeys_def\<close>)
  moreover have "SyncCertAuthorityKeys ?f = Inr ?f"
    using new by (auto simp: SyncCertAuthorityKeys_def haveNew_Empty Empty_def haveOldCAKeys_def)
  ultimately show ?thesis
    using same fillOld_ok [OF ok(1)] new by (simp add: stored ValidateCertAuthority_fixed haveNew_Empty)
qed


text \<open>An authority that was written is read back with the same keys, and written again it is the same value.\<close>

definition stored_ca :: "key_parsers \<Rightarrow> cert_authority \<Rightarrow> bool" where
  "stored_ca kp ca \<longleftrightarrow> ValidateCertAuthority kp ca = Inr ca \<and> SyncCertAuthorityKeys ca = Inr ca \<and>
     haveNewCAKeys ca \<and> md_ID (ca_Metadata ca) = 0"

lemma ca_SetResourceID_same: "md_ID (ca_Metadata ca) = i \<Longrightarrow> ca_SetResourceID i ca = ca"
  by (simp add: ca_SetResourceID_def)

lemma check_by_type_SetResourceID:
  "ca_ok ca \<Longrightarrow> check_by_type kp ca = Inr () \<Longrightarrow> check_by_type kp (ca_SetResourceID i ca) = Inr ()"
  by (rule check_by_type_cong [of _ ca]) (auto simp: trusted_defs ca_ok_def)

lemma Validate_SetResourceID:
  "ValidateCertAuthority kp ca = Inr ca \<Longrightarrow> ValidateCertAuthority kp (ca_SetResourceID i ca) = Inr (ca_SetResourceID i ca)"
  by (simp add: ValidateCertAuthority_fixed ca_ok_SetResourceID check_by_type_SetResourceID)

lemma MarshalCertAuthority_stored:
  assumes "MarshalCertAuthority kp ca = Inr stored" "haveNewCAKeys ca"
  shows "stored_ca kp stored \<and> GetActiveKeys stored = GetActiveKeys ca \<and> trusted_ssh stored = trusted_ssh ca \<and>
    trusted_tls stored = trusted_tls ca \<and> trusted_jwt stored = trusted_jwt ca \<and> ca_Type stored = ca_Type ca \<and>
    Rotation_CheckAndSetDefaults (ca_Rotation ca) = Inr (ca_Rotation stored) \<and>
    md_Name (ca_Metadata stored) = (if ca_name ca = [] then ca_ClusterName ca else ca_name ca)"
proof -
  obtain ca1 where v1: "ValidateCertAuthority kp ca = Inr ca1"
    and sync: "SyncCertAuthorityKeys (ca_SetResourceID 0 ca1) = Inr stored"
    using assms(1) by (auto simp: MarshalCertAuthority_def case_result_Inr)
  have c1: "ca_CheckAndSetDefaults ca = Inr ca1"
    using v1 by (simp add: ValidateCertAuthority_Inr)
  then obtain m ro where ro: "Rotation_CheckAndSetDefaults (ca_Rotation ca) = Inr ro"
    and m: "Metadata_CheckAndSetDefaults (ca_Metadata (ca_setStaticFields ca)) = Inr m"
    and ca1: "ca1 = ca_with_defaults m ro ca"
    unfolding ca_CheckAndSetDefaults_Inr by blast
  have name: "md_Name m = (if ca_name ca = [] then ca_ClusterName ca else ca_name ca)"
    using Metadata_check_Inr [OF m] by (auto simp: ca_setStaticFields_def Let_def ca_name_def)
  have valid: "ValidateCertAuthority kp (ca_SetResourceID 0 ca1) = Inr (ca_SetResourceID 0 ca1)"
    using Validate_SetResourceID ValidateCertAuthority_idem v1 by blast
  have new: "haveNewCAKeys (ca_SetResourceID 0 ca1)"
    using assms(2) by (simp add: haveNew_Empty ca1)
  have keys: "GetActiveKeys ca1 = GetActiveKeys ca" "GetAdditionalTrustedKeys ca1 = GetAdditionalTrustedKeys ca"
    by (simp_all add: ca1 GetActiveKeys_def GetAdditionalTrustedKeys_def getOldKeySet_def)
  have trusted: "trusted_ssh (ca_SetResourceID 0 ca1) = trusted_ssh ca"
    "trusted_tls (ca_SetResourceID 0 ca1) = trusted_tls ca" "trusted_jwt (ca_SetResourceID 0 ca1) = trusted_jwt ca"
    by (simp_all add: trusted_defs keys)
  have meta: "ca_Metadata (ca_SetResourceID 0 ca1) = m\<lparr>md_ID := 0\<rparr>"
    by (simp add: ca1 ca_SetResourceID_def)
  show ?thesis
    using Sync_ok [OF valid new sync] keys trusted ro meta name by (simp add: stored_ca_def ca1)
qed

lemma stored_ca_read:
  assumes "stored_ca kp ca"
  shows "UnmarshalCertAuthority kp i ca = Inr (ca_SetResourceID i ca)"
    "MarshalCertAuthority kp (ca_SetResourceID i ca) = Inr ca"
proof -
  have v: "ValidateCertAuthority kp ca = Inr ca" and sync: "SyncCertAuthorityKeys ca = Inr ca"
    and id0: "ca_SetResourceID 0 ca = ca"
    using assms by (simp_all add: stored_ca_def ca_SetResourceID_same)
  then have "ca_Version ca = ''v2''"
    by (simp add: ValidateCertAuthority_fixed ca_ok_def)
  with v id0 show "UnmarshalCertAuthority kp i ca = Inr (ca_SetResourceID i ca)"
    by (simp add: UnmarshalCertAuthority_def)
  show "MarshalCertAuthority kp (ca_SetResourceID i ca) = Inr ca"
    using Validate_SetResourceID [OF v] id0 sync by (simp add: MarshalCertAuthority_def)
qed

end
