(* ===== verification/Backend.thy ===== *)
theory Backend
  imports Glob "HOL-Library.List_Lexorder" "HOL-Library.Char_ord"
begin

text \<open>
  The storage interface of \<open>lib/backend/backend.go\<close>: items, leases and the operations as a record of
  functions, the key and expiry helpers, the paging helper \<open>IterateRange\<close> and the sanitizer of
  \<open>lib/backend/sanitize.go\<close>. An operation takes the time its clock shows and the state of the backend, and
  returns its result with the new state. Values are of any type, and equality of values stands for equality of
  their bytes. The contract of the interface is the locale \<open>kv_backend\<close>.
\<close>

section \<open>Items and operations\<close>

record 'v item =
  it_Key :: string
  it_Value :: 'v
  it_Expires :: time
  it_ID :: int
  it_LeaseID :: int

record lease =
  ls_Key :: string
  ls_ID :: int

definition Lease_IsEmpty :: "lease \<Rightarrow> bool" where
  "Lease_IsEmpty l = (ls_ID l = 0 \<and> ls_Key l = [])"

record ('s, 'v) backend =
  b_Create :: "time \<Rightarrow> 'v item \<Rightarrow> 's \<Rightarrow> lease result \<times> 's"
  b_Put :: "time \<Rightarrow> 'v item \<Rightarrow> 's \<Rightarrow> lease result \<times> 's"
  b_CompareAndSwap :: "time \<Rightarrow> 'v item \<Rightarrow> 'v item \<Rightarrow> 's \<Rightarrow> lease result \<times> 's"
  b_Update :: "time \<Rightarrow> 'v item \<Rightarrow> 's \<Rightarrow> lease result \<times> 's"
  b_Get :: "time \<Rightarrow> string \<Rightarrow> 's \<Rightarrow> 'v item result \<times> 's"
  b_GetRange :: "time \<Rightarrow> string \<Rightarrow> string \<Rightarrow> int \<Rightarrow> 's \<Rightarrow> 'v item list result \<times> 's"
  b_Delete :: "time \<Rightarrow> string \<Rightarrow> 's \<Rightarrow> unit result \<times> 's"
  b_DeleteRange :: "time \<Rightarrow> string \<Rightarrow> string \<Rightarrow> 's \<Rightarrow> unit result \<times> 's"
  b_KeepAlive :: "time \<Rightarrow> lease \<Rightarrow> time \<Rightarrow> 's \<Rightarrow> unit result \<times> 's"

text \<open>An operation whose lease or lease-like result the caller drops.\<close>

definition unit_of :: "'a result \<times> 's \<Rightarrow> unit result \<times> 's" where
  "unit_of r = (case r of (Inl e, s) \<Rightarrow> (Inl e, s) | (Inr _, s) \<Rightarrow> (Inr (), s))"

lemma unit_of_simps [simp]: "unit_of (Inl e, s) = (Inl e, s)" "unit_of (Inr l, s) = (Inr (), s)"
  by (simp_all add: unit_of_def)

section \<open>Keys and times\<close>

definition Separator :: char where
  "Separator = CHR ''/''"

text \<open>\<open>strings.Join\<close> of the parts with an empty part in front.\<close>

definition Key :: "string list \<Rightarrow> string" where
  "Key parts = concat (map (\<lambda>p. Separator # p) parts)"

definition NoLimit :: int where
  "NoLimit = 0"

definition noEnd :: string where
  "noEnd = [CHR 0x00]"

text \<open>The loop of \<open>nextKey\<close> runs from the last byte, so it is a recursion on the reversed key.\<close>

fun next_key_loop :: "string \<Rightarrow> string option" where
  "next_key_loop [] = None"
| "next_key_loop (c # cs) =
     (if of_char c < (255 :: nat) then Some (char_of (of_char c + 1 :: nat) # cs) else next_key_loop cs)"

definition nextKey :: "string \<Rightarrow> string" where
  "nextKey key = (case next_key_loop (rev key) of None \<Rightarrow> noEnd | Some r \<Rightarrow> rev r)"

definition RangeEnd :: "string \<Rightarrow> string" where
  "RangeEnd key = nextKey key"

definition MaskKeyName :: "string \<Rightarrow> string" where
  "MaskKeyName keyName =
     (let hiddenBefore = 3 * length keyName div 4
      in replicate hiddenBefore (CHR ''*'') @ drop hiddenBefore keyName)"

text \<open>\<open>Time.Sub\<close> saturates at the ends of the range of durations.\<close>

definition time_sub :: "time \<Rightarrow> time \<Rightarrow> duration" where
  "time_sub t u = max (- (2 ^ 63)) (min (2 ^ 63 - 1) (t - u))"

definition TTL :: "time \<Rightarrow> time \<Rightarrow> duration" where
  "TTL now expires =
     (let ttl = time_sub expires now in if ttl < second_ns then second_ns else ttl)"

definition Expiry_after :: "time \<Rightarrow> duration \<Rightarrow> time" where
  "Expiry_after now ttl = (if ttl = 0 then zero_time else now + ttl)"

definition earliest_less :: "time \<Rightarrow> time \<Rightarrow> bool" where
  "earliest_less p q = (if is_zero_time p then False else if is_zero_time q then True else p < q)"

fun earliest_insert :: "time \<Rightarrow> time list \<Rightarrow> time list" where
  "earliest_insert t [] = [t]"
| "earliest_insert t (u # us) = (if earliest_less u t then u # earliest_insert t us else t # u # us)"

definition EarliestExpiry :: "time list \<Rightarrow> time" where
  "EarliestExpiry ts = (if ts = [] then zero_time else hd (foldr earliest_insert ts []))"

section \<open>Paging\<close>

text \<open>
  \<open>IterateRange\<close> hands the pages to a callback, which here threads a state of its own and says whether to stop.
  A call without a page left to run in the fuel is \<open>None\<close>, and so is the index out of range that a limit below
  one leads to.
\<close>

fun IterateRange ::
  "('s, 'v) backend \<Rightarrow> (nat \<Rightarrow> time) \<Rightarrow> nat \<Rightarrow> string \<Rightarrow> string \<Rightarrow> int \<Rightarrow> ('v item list \<Rightarrow> 'a \<Rightarrow> (bool \<times> 'a) result) \<Rightarrow>
     'a \<Rightarrow> 's \<Rightarrow> ('a result \<times> 's) option" where
  "IterateRange bk clock 0 startKey endKey limit fn acc s = None"
| "IterateRange bk clock (Suc fuel) startKey endKey limit fn acc s =
     (case b_GetRange bk (clock fuel) startKey endKey limit s of
        (Inl e, s1) \<Rightarrow> Some (Inl e, s1)
      | (Inr items, s1) \<Rightarrow>
          (case fn items acc of
             Inl e \<Rightarrow> Some (Inl e, s1)
           | Inr (stop, acc1) \<Rightarrow>
               if stop \<or> int (length items) < limit then Some (Inr acc1, s1)
               else if limit < 1 then None
               else IterateRange bk clock fuel (nextKey (it_Key (items ! nat (limit - 1)))) endKey limit fn acc1 s1))"

section \<open>The sanitizer\<close>

definition whitelistPattern :: string where
  "whitelistPattern = ''^[0-9A-Za-z@_:.'' @ [CHR 0x5C] @ ''-/+]*$''"

definition blacklistPattern :: string where
  "blacklistPattern = ''//''"

text \<open>\<open>regexp.MustCompile\<close> panics when its pattern does not compile; both patterns do.\<close>

definition pattern_matches :: "string \<Rightarrow> string \<Rightarrow> bool" where
  "pattern_matches pattern s =
     (case compile_regexp pattern of Inl _ \<Rightarrow> False | Inr re \<Rightarrow> MatchString (re_prog re) s)"

text \<open>A key that the first pattern accepts is ASCII, so \<open>utf8.Valid\<close> holds of it.\<close>

definition isKeySafe :: "string \<Rightarrow> bool" where
  "isKeySafe s = (pattern_matches whitelistPattern s \<and> \<not> pattern_matches blacklistPattern s)"

definition Sanitizer :: "('s, 'v) backend \<Rightarrow> ('s, 'v) backend" where
  "Sanitizer bk =
     \<lparr>b_Create = (\<lambda>now i s. if \<not> isKeySafe (it_Key i) then (Inl BadParameter, s) else b_Create bk now i s),
      b_Put = (\<lambda>now i s. if \<not> isKeySafe (it_Key i) then (Inl BadParameter, s) else b_Put bk now i s),
      b_CompareAndSwap = (\<lambda>now expected replaceWith s.
         if \<not> isKeySafe (it_Key expected) then (Inl BadParameter, s)
         else b_CompareAndSwap bk now expected replaceWith s),
      b_Update = (\<lambda>now i s. if \<not> isKeySafe (it_Key i) then (Inl BadParameter, s) else b_Update bk now i s),
      b_Get = (\<lambda>now key s. if \<not> isKeySafe key then (Inl BadParameter, s) else b_Get bk now key s),
      b_GetRange = (\<lambda>now startKey endKey limit s.
         if \<not> isKeySafe startKey then (Inl BadParameter, s) else b_GetRange bk now startKey endKey limit s),
      b_Delete = (\<lambda>now key s. if \<not> isKeySafe key then (Inl BadParameter, s) else b_Delete bk now key s),
      b_DeleteRange = (\<lambda>now startKey endKey s.
         if \<not> isKeySafe startKey then (Inl BadParameter, s)
         else if \<not> isKeySafe endKey then (Inl BadParameter, s)
         else b_DeleteRange bk now startKey endKey s),
      b_KeepAlive = (\<lambda>now lease expires s.
         if \<not> isKeySafe (ls_Key lease) then (Inl BadParameter, s) else b_KeepAlive bk now lease expires s)\<rparr>"

section \<open>Keys in order\<close>

lemma of_char_max: "of_char c \<le> (255 :: nat)"
proof -
  have "of_char c = (of_char c :: nat) mod 256"
    by (metis char_of_char of_char_of)
  moreover have "(of_char c :: nat) mod 256 < 256" by simp
  ultimately show ?thesis by linarith
qed

definition succ_char :: "char \<Rightarrow> char" where
  "succ_char c = char_of (of_char c + 1 :: nat)"

lemma of_succ_char: "of_char c < (255 :: nat) \<Longrightarrow> of_char (succ_char c) = (of_char c + 1 :: nat)"
  by (simp add: succ_char_def)

lemma next_key_loop_snoc:
  "next_key_loop (xs @ [c]) =
     (case next_key_loop xs of
        Some r \<Rightarrow> Some (r @ [c])
      | None \<Rightarrow> if of_char c < (255 :: nat) then Some [succ_char c] else None)"
  by (induction xs) (auto simp: succ_char_def)

lemma next_key_loop_None: "next_key_loop xs = None \<longleftrightarrow> (\<forall>c\<in>set xs. of_char c = (255 :: nat))"
  using of_char_max by (induction xs) (auto simp: nat_less_le)

lemma nextKey_Cons:
  "nextKey (c # p) =
     (if \<exists>d\<in>set p. of_char d \<noteq> (255 :: nat) then c # nextKey p
      else if of_char c < (255 :: nat) then [succ_char c] else noEnd)"
proof (cases "next_key_loop (rev p)")
  case None
  then have "\<forall>d\<in>set p. of_char d = (255 :: nat)" by (simp add: next_key_loop_None)
  with None show ?thesis by (simp add: nextKey_def next_key_loop_snoc)
next
  case (Some r)
  then have "\<exists>d\<in>set p. of_char d \<noteq> (255 :: nat)"
    using next_key_loop_None [of "rev p"] by auto
  with Some show ?thesis by (simp add: nextKey_def next_key_loop_snoc)
qed

text \<open>The keys from \<open>p\<close> up to \<open>nextKey p\<close> are those with the prefix \<open>p\<close>.\<close>

lemma has_prefix_simps [simp]:
  "has_prefix s []" "has_prefix (d # k) (c # p) \<longleftrightarrow> d = c \<and> has_prefix k p" "\<not> has_prefix [] (c # p)"
  by (auto simp: has_prefix_def)

lemma all_bytes_max: "\<forall>d\<in>set p. of_char d = (255 :: nat) \<Longrightarrow> p \<le> k \<longleftrightarrow> has_prefix k p"
proof (induction p arbitrary: k)
  case (Cons c p)
  show ?case
  proof (cases k)
    case (Cons d k')
    have c: "of_char c = (255 :: nat)" using Cons.prems by simp
    then have "\<not> c < d" using of_char_max [of d] by (simp add: less_char_def)
    with Cons Cons.IH [of k'] Cons.prems show ?thesis by auto
  qed simp
qed simp

lemma nextKey_range:
  "\<exists>d\<in>set p. of_char d \<noteq> (255 :: nat) \<Longrightarrow> p \<le> k \<and> k < nextKey p \<longleftrightarrow> has_prefix k p"
proof (induction p arbitrary: k)
  case (Cons c p)
  show ?case
  proof (cases k)
    case Nil
    then show ?thesis by simp
  next
    case k: (Cons d k')
    show ?thesis
    proof (cases "\<exists>d\<in>set p. of_char d \<noteq> (255 :: nat)")
      case True
      with k Cons.IH [of k'] show ?thesis
        by (auto simp: nextKey_Cons)
    next
      case False
      then have max: "p \<le> k' \<longleftrightarrow> has_prefix k' p" by (simp add: all_bytes_max)
      have c: "of_char c < (255 :: nat)"
        using Cons.prems False of_char_max [of c] by (auto simp: nat_less_le)
      then have less: "d < succ_char c \<longleftrightarrow> d \<le> c"
        by (auto simp: less_char_def less_eq_char_def of_succ_char)
      have "nextKey (c # p) = [succ_char c]" using False c by (auto simp: nextKey_Cons)
      with k max less show ?thesis by auto
    qed
  qed
qed simp

text \<open>The earliest expiry is the least time that is set, and the zero time when none is.\<close>

lemma earliest_insert_hd: "hd (earliest_insert t us) = (if us \<noteq> [] \<and> earliest_less (hd us) t then hd us else t)"
  by (cases us) simp_all

lemma EarliestExpiry_Cons:
  "EarliestExpiry (t # ts) = (if ts \<noteq> [] \<and> earliest_less (EarliestExpiry ts) t then EarliestExpiry ts else t)"
proof -
  have "foldr earliest_insert ts [] \<noteq> []" if "ts \<noteq> []"
    using that by (cases ts) (simp_all, metis earliest_insert.elims list.distinct(1))
  then show ?thesis
    by (cases "ts = []") (simp_all add: EarliestExpiry_def earliest_insert_hd)
qed

lemma EarliestExpiry_least:
  "EarliestExpiry ts = (let set_times = filter (\<lambda>t. t \<noteq> zero_time) ts
                        in if set_times = [] then zero_time else Min (set set_times))"
proof (induction ts)
  case (Cons t ts)
  show ?case
  proof (cases "filter (\<lambda>t. t \<noteq> zero_time) ts = []")
    case True
    then have "\<forall>u\<in>set ts. u = zero_time" by (simp add: filter_empty_conv)
    with True Cons show ?thesis
      by (auto simp: EarliestExpiry_Cons earliest_less_def is_zero_time_def Let_def)
  next
    case False
    define us where "us = filter (\<lambda>t. t \<noteq> zero_time) ts"
    have us: "us \<noteq> []" "zero_time \<notin> set us" using False by (auto simp: us_def)
    define m where "m = Min (set us)"
    have "m \<in> set us" unfolding m_def using us by simp
    with us have m: "m \<noteq> zero_time" by auto
    have min: "Min (insert t (set us)) = min t m" unfolding m_def using us by simp
    have tail: "EarliestExpiry ts = m" "ts \<noteq> []"
      using Cons False by (auto simp: us_def m_def Let_def)
    have "EarliestExpiry (t # ts) = (if t = zero_time then m else min t m)"
      using m tail by (auto simp: EarliestExpiry_Cons earliest_less_def is_zero_time_def min_def)
    then show ?thesis
      using us min by (simp add: us_def [symmetric] m_def [symmetric])
  qed
qed (simp add: EarliestExpiry_def)

section \<open>Safe keys\<close>

definition key_char :: "char \<Rightarrow> bool" where
  "key_char c = (is_alnum c \<or> c \<in> set ''@_:.-/+'')"

definition key_char_items :: "(bool \<times> ranges) list" where
  "key_char_items = map (Pair False)
     [[(48, 57)], [(65, 90)], [(97, 122)], [(64, 64)], [(95, 95)], [(58, 58)], [(46, 46)], [(45, 45)], [(47, 47)], [(43, 43)]]"

lemma whitelist_compiles:
  "map_sum id re_prog (compile_regexp whitelistPattern) =
     Inr (cat_list [RBeginText, RStar True (RSet False False key_char_items), REndText])"
  by code_simp

lemma blacklist_compiles:
  "map_sum id re_prog (compile_regexp blacklistPattern) = Inr (cat_list [RLit False (CHR ''/''), RLit False (CHR ''/'')])"
  by code_simp

lemma key_char_items: "set_matches False False key_char_items c \<longleftrightarrow> key_char c"
proof -
  have codes: "map ccode ''@_:.-/+'' = [64, 95, 58, 46, 45, 47, 43]" by code_simp
  have "c \<in> set ''@_:.-/+'' \<longleftrightarrow> ccode c \<in> set (map ccode ''@_:.-/+'')" by (simp add: image_iff)
  also have "\<dots> \<longleftrightarrow> ccode c \<in> {64, 95, 58, 46, 45, 47, 43}" unfolding codes by simp
  finally have chars: "c \<in> set ''@_:.-/+'' \<longleftrightarrow> ccode c \<in> {64, 95, 58, 46, 45, 47, 43}" .
  show ?thesis
    unfolding key_char_def chars is_alnum_def is_digit_def
    by (simp add: set_matches_def in_items_def in_ranges_def key_char_items_def) presburger
qed

lemma star_set_ends:
  "match_at (cat_list [RStar True (RSet False False its), REndText]) (pv, s, cs) \<noteq> [] \<longleftrightarrow>
     (\<forall>c\<in>set s. set_matches False False its c)"
proof (induction s arbitrary: pv)
  case Nil
  then show ?case by (simp add: cat_list_def match_at_star [of _ _ "(pv, _, cs)"])
next
  case (Cons c s)
  then show ?case by (auto simp: cat_list_def match_at_star [of _ _ "(pv, _, cs)"])
qed

lemma whitelist_matches: "pattern_matches whitelistPattern s \<longleftrightarrow> (\<forall>c\<in>set s. key_char c)"
proof -
  obtain re where "compile_regexp whitelistPattern = Inr re"
    "re_prog re = cat_list [RBeginText, RStar True (RSet False False key_char_items), REndText]"
    using whitelist_compiles by (cases "compile_regexp whitelistPattern") auto
  then show ?thesis
    by (simp add: pattern_matches_def MatchString_begin star_set_ends key_char_items)
qed

lemma MatchString_lit2:
  "MatchString (cat_list [RLit False a, RLit False b]) s \<longleftrightarrow> has_infix s [a, b]"
proof -
  have "(\<exists>(pv, t)\<in>set (starts pv0 s). match_at (cat_list [RLit False a, RLit False b]) (pv, t, []) \<noteq> []) \<longleftrightarrow> has_infix s [a, b]" for pv0
  proof (induction s arbitrary: pv0)
    case (Cons c s)
    then show ?case by (cases s) (auto simp: cat_list_def lit_matches_def)
  qed (simp add: cat_list_def)
  then show ?thesis by (simp add: MatchString_def)
qed

lemma isKeySafe_iff: "isKeySafe s \<longleftrightarrow> (\<forall>c\<in>set s. key_char c) \<and> \<not> has_infix s ''//''"
proof -
  obtain re where "compile_regexp blacklistPattern = Inr re"
    "re_prog re = cat_list [RLit False (CHR ''/''), RLit False (CHR ''/'')]"
    using blacklist_compiles by (cases "compile_regexp blacklistPattern") auto
  then show ?thesis
    by (simp add: isKeySafe_def whitelist_matches) (simp add: pattern_matches_def MatchString_lit2)
qed

section \<open>The contract of a backend\<close>

text \<open>
  What a backend stores is a map from keys to items, its \<open>view\<close>. Every operation first drops items whose time
  has come: \<open>purge now\<close> is that step. It keeps all items that live on, and what has expired by whole seconds is
  gone after it. \<open>safe\<close> says which keys the backend takes.
\<close>

definition lives :: "time \<Rightarrow> 'v item \<Rightarrow> bool" where
  "lives now i = (is_zero_time (it_Expires i) \<or> now < it_Expires i)"

definition expired :: "time \<Rightarrow> 'v item \<Rightarrow> bool" where
  "expired now i = (\<not> is_zero_time (it_Expires i) \<and> unix_seconds (it_Expires i) < unix_seconds now)"

definition DefaultLargeLimit :: int where
  "DefaultLargeLimit = 30000"

definition range_keys :: "(string \<Rightarrow> 'v item option) \<Rightarrow> string \<Rightarrow> string \<Rightarrow> string list" where
  "range_keys m a b = sorted_list_of_set {k \<in> dom m. a \<le> k \<and> k < b}"

definition range_items :: "(string \<Rightarrow> 'v item option) \<Rightarrow> string \<Rightarrow> string \<Rightarrow> 'v item list" where
  "range_items m a b = map (\<lambda>k. the (m k)) (range_keys m a b)"

definition range_limit :: "int \<Rightarrow> nat" where
  "range_limit limit = nat (if limit \<le> 0 then DefaultLargeLimit else limit)"

definition value_at :: "(string \<Rightarrow> 'v item option) \<Rightarrow> string \<Rightarrow> 'v option" where
  "value_at m k = map_option it_Value (m k)"

text \<open>What accesses to other keys do: they leave the key alone, unless its item expires.\<close>

definition elsewhere ::
  "('s \<Rightarrow> bool) \<Rightarrow> ('s \<Rightarrow> string \<Rightarrow> 'v item option) \<Rightarrow> (time \<Rightarrow> 's \<Rightarrow> 's) \<Rightarrow> string \<Rightarrow> 's \<Rightarrow> time \<Rightarrow> 's \<Rightarrow> bool" where
  "elsewhere ok contents expire key s t s1 \<longleftrightarrow> ok s1 \<and> contents s1 key = contents (expire t s) key"

locale kv_store =
  fixes bk :: "('s, 'v) backend"
    and inv :: "'s \<Rightarrow> bool"
    and view :: "'s \<Rightarrow> string \<Rightarrow> 'v item option"
    and purge :: "time \<Rightarrow> 's \<Rightarrow> 's"
    and safe :: "string \<Rightarrow> bool"
  assumes safe_key: "safe k \<Longrightarrow> k \<noteq> []"
    and view_key: "inv s \<Longrightarrow> view s k = Some i \<Longrightarrow> it_Key i = k"
    and finite_view: "inv s \<Longrightarrow> finite (dom (view s))"
    and purge_inv: "inv s \<Longrightarrow> inv (purge now s)"
    and purge_old: "inv s \<Longrightarrow> view (purge now s) k = Some i \<Longrightarrow> view s k = Some i"
    and purge_lives: "inv s \<Longrightarrow> view s k = Some i \<Longrightarrow> lives now i \<Longrightarrow> view (purge now s) k = Some i"
    and purge_idem: "inv s \<Longrightarrow> purge now (purge now s) = purge now s"
    and get: "inv s \<Longrightarrow> safe k \<Longrightarrow>
      b_Get bk now k s = (case view (purge now s) k of None \<Rightarrow> Inl NotFound | Some i \<Rightarrow> Inr i, purge now s)"
    and get_range: "inv s \<Longrightarrow> safe a \<Longrightarrow> b \<noteq> [] \<Longrightarrow>
      b_GetRange bk now a b limit s =
        (Inr (take (range_limit limit) (range_items (view (purge now s)) a b)), purge now s)"
    and create: "inv s \<Longrightarrow> safe (it_Key i) \<Longrightarrow>
      (\<exists>l s'. b_Create bk now i s =
           (if view (purge now s) (it_Key i) = None then Inr l else Inl AlreadyExists, s') \<and> inv s' \<and>
         view s' = (if view (purge now s) (it_Key i) = None then (view (purge now s))(it_Key i \<mapsto> i)
                    else view (purge now s)))"
    and put: "inv s \<Longrightarrow> safe (it_Key i) \<Longrightarrow>
      (\<exists>l j s'. b_Put bk now i s = (Inr l, s') \<and> inv s' \<and>
         view s' = (view (purge now s))(it_Key i \<mapsto> i\<lparr>it_ID := j\<rparr>))"
    and update: "inv s \<Longrightarrow> safe (it_Key i) \<Longrightarrow>
      (\<exists>l j s'. b_Update bk now i s =
           (if view (purge now s) (it_Key i) = None then Inl NotFound else Inr l, s') \<and> inv s' \<and>
         view s' = (if view (purge now s) (it_Key i) = None then view (purge now s)
                    else (view (purge now s))(it_Key i \<mapsto> i\<lparr>it_ID := j\<rparr>)))"
    and compare_and_swap: "inv s \<Longrightarrow> safe (it_Key old) \<Longrightarrow> it_Key new = it_Key old \<Longrightarrow>
      (\<exists>l s'. b_CompareAndSwap bk now old new s =
           (if value_at (view (purge now s)) (it_Key old) = Some (it_Value old) then Inr l else Inl CompareFailed, s') \<and>
         inv s' \<and>
         view s' = (if value_at (view (purge now s)) (it_Key old) = Some (it_Value old)
                    then (view (purge now s))(it_Key old \<mapsto> new) else view (purge now s)))"
    and delete: "inv s \<Longrightarrow> safe k \<Longrightarrow>
      (\<exists>s'. b_Delete bk now k s = (if view (purge now s) k = None then Inl NotFound else Inr (), s') \<and> inv s' \<and>
         view s' = (view (purge now s))(k := None))"
    and delete_range: "inv s \<Longrightarrow> safe a \<Longrightarrow> safe b \<Longrightarrow>
      (\<exists>s'. b_DeleteRange bk now a b s = (Inr (), s') \<and> inv s' \<and>
         view s' = (\<lambda>k. if a \<le> k \<and> k < b then None else view (purge now s) k))"
    and keep_alive: "inv s \<Longrightarrow> safe (ls_Key lease) \<Longrightarrow>
      (\<exists>j s'. b_KeepAlive bk now lease expires s =
           (if view (purge now s) (ls_Key lease) = None then Inl NotFound else Inr (), s') \<and> inv s' \<and>
         view s' = (case view (purge now s) (ls_Key lease) of
                      None \<Rightarrow> view (purge now s)
                    | Some i \<Rightarrow> (view (purge now s))(ls_Key lease \<mapsto> i\<lparr>it_Expires := expires, it_ID := j\<rparr>)))"
begin

text \<open>The value of a key after an operation, for the clients.\<close>

lemma purge_subset: "inv s \<Longrightarrow> view (purge now s) \<subseteq>\<^sub>m view s"
  by (auto simp: map_le_def dom_def purge_old)

lemma get_Inr:
  assumes "inv s" "safe k" "b_Get bk now k s = (Inr i, s')"
  shows "view (purge now s) k = Some i \<and> view s k = Some i \<and> s' = purge now s \<and> inv s'"
proof -
  have "view (purge now s) k = Some i" "s' = purge now s"
    using assms by (simp_all add: get split: option.splits)
  then show ?thesis using assms(1) purge_inv purge_old by blast
qed

lemma compare_and_swap_Inr:
  assumes "inv s" "safe (it_Key old)" "it_Key new = it_Key old" "b_CompareAndSwap bk now old new s = (Inr l, s')"
  shows "value_at (view (purge now s)) (it_Key old) = Some (it_Value old) \<and>
    view s' = (view (purge now s))(it_Key old \<mapsto> new) \<and> inv s'"
proof -
  let ?c = "value_at (view (purge now s)) (it_Key old) = Some (it_Value old)"
  obtain l2 s2 where "b_CompareAndSwap bk now old new s = (if ?c then Inr l2 else Inl CompareFailed, s2)" "inv s2"
    "view s2 = (if ?c then (view (purge now s))(it_Key old \<mapsto> new) else view (purge now s))"
    using compare_and_swap [OF assms(1-3), of now] by blast
  with assms(4) show ?thesis by (cases ?c) simp_all
qed

lemma compare_and_swap_Inl:
  assumes "inv s" "safe (it_Key old)" "it_Key new = it_Key old" "b_CompareAndSwap bk now old new s = (Inl e, s')"
  shows "e = CompareFailed \<and> value_at (view (purge now s)) (it_Key old) \<noteq> Some (it_Value old) \<and>
    view s' = view (purge now s) \<and> inv s'"
proof -
  let ?c = "value_at (view (purge now s)) (it_Key old) = Some (it_Value old)"
  obtain l2 s2 where "b_CompareAndSwap bk now old new s = (if ?c then Inr l2 else Inl CompareFailed, s2)" "inv s2"
    "view s2 = (if ?c then (view (purge now s))(it_Key old \<mapsto> new) else view (purge now s))"
    using compare_and_swap [OF assms(1-3), of now] by blast
  with assms(4) show ?thesis by (cases ?c) simp_all
qed

lemma create_Inr:
  assumes "inv s" "safe (it_Key i)" "b_Create bk now i s = (Inr l, s')"
  shows "view (purge now s) (it_Key i) = None \<and> view s' = (view (purge now s))(it_Key i \<mapsto> i) \<and> inv s'"
proof -
  let ?c = "view (purge now s) (it_Key i) = None"
  obtain l2 s2 where "b_Create bk now i s = (if ?c then Inr l2 else Inl AlreadyExists, s2)" "inv s2"
    "view s2 = (if ?c then (view (purge now s))(it_Key i \<mapsto> i) else view (purge now s))"
    using create [OF assms(1,2), of now] by blast
  with assms(3) show ?thesis by (cases ?c) simp_all
qed

lemma create_Inl:
  assumes "inv s" "safe (it_Key i)" "b_Create bk now i s = (Inl e, s')"
  shows "e = AlreadyExists \<and> view (purge now s) (it_Key i) \<noteq> None \<and> view s' = view (purge now s) \<and> inv s'"
proof -
  let ?c = "view (purge now s) (it_Key i) = None"
  obtain l2 s2 where "b_Create bk now i s = (if ?c then Inr l2 else Inl AlreadyExists, s2)" "inv s2"
    "view s2 = (if ?c then (view (purge now s))(it_Key i \<mapsto> i) else view (purge now s))"
    using create [OF assms(1,2), of now] by blast
  with assms(3) show ?thesis by (cases ?c) simp_all
qed

lemma delete_Inr:
  assumes "inv s" "safe k" "b_Delete bk now k s = (r, s')"
  shows "view s' = (view (purge now s))(k := None) \<and> inv s' \<and> (r = Inr () \<longleftrightarrow> view (purge now s) k \<noteq> None) \<and>
    (r = Inl NotFound \<longleftrightarrow> view (purge now s) k = None)"
proof -
  let ?c = "view (purge now s) k = None"
  obtain s2 where "b_Delete bk now k s = (if ?c then Inl NotFound else Inr (), s2)" "inv s2"
    "view s2 = (view (purge now s))(k := None)"
    using delete [OF assms(1,2), of now] by blast
  with assms(3) show ?thesis by (cases ?c) auto
qed

end

text \<open>A backend that takes every key made of parts and every range of such keys.\<close>

lemma Key_range: "Key (p # ps) \<le> k \<and> k < RangeEnd (Key (p # ps)) \<longleftrightarrow> has_prefix k (Key (p # ps))"
  unfolding RangeEnd_def by (rule nextKey_range) (auto simp: Key_def Separator_def)

lemma RangeEnd_Key: "RangeEnd (Key (p # ps)) \<noteq> []"
  using Key_range [of p ps "Key (p # ps)"] by (auto simp: has_prefix_iff)

locale kv_keyed = kv_store bk inv view purge safe
  for bk :: "('s, 'v) backend" and inv and view :: "'s \<Rightarrow> string \<Rightarrow> 'v item option" and purge and safe +
  assumes all_safe: "safe (Key (p # ps))" "safe (RangeEnd (Key (p # ps)))"

text \<open>A backend that drops what has expired; a mirror does not.\<close>

locale kv_expiring = kv_store +
  assumes purge_expired: "inv s \<Longrightarrow> view (purge now s) k = Some i \<Longrightarrow> \<not> expired now i"
begin

lemma get_expired:
  assumes "inv s" "safe k" "\<forall>i. view s k = Some i \<longrightarrow> expired now i"
  shows "b_Get bk now k s = (Inl NotFound, purge now s)"
proof -
  have "view (purge now s) k = None"
    using assms purge_old purge_expired by (metis not_None_eq)
  then show ?thesis using assms by (simp add: get)
qed

end

text \<open>The sanitizer keeps the contract on the keys it lets through.\<close>

context kv_store
begin

lemma Sanitizer_simps:
  "isKeySafe (it_Key i) \<Longrightarrow> b_Create (Sanitizer bk) now i s = b_Create bk now i s"
  "isKeySafe (it_Key i) \<Longrightarrow> b_Put (Sanitizer bk) now i s = b_Put bk now i s"
  "isKeySafe (it_Key i) \<Longrightarrow> b_Update (Sanitizer bk) now i s = b_Update bk now i s"
  "isKeySafe (it_Key i) \<Longrightarrow> b_CompareAndSwap (Sanitizer bk) now i j s = b_CompareAndSwap bk now i j s"
  "isKeySafe k \<Longrightarrow> b_Get (Sanitizer bk) now k s = b_Get bk now k s"
  "isKeySafe k \<Longrightarrow> b_GetRange (Sanitizer bk) now k e limit s = b_GetRange bk now k e limit s"
  "isKeySafe k \<Longrightarrow> b_Delete (Sanitizer bk) now k s = b_Delete bk now k s"
  "isKeySafe k \<Longrightarrow> isKeySafe e \<Longrightarrow> b_DeleteRange (Sanitizer bk) now k e s = b_DeleteRange bk now k e s"
  "isKeySafe (ls_Key l) \<Longrightarrow> b_KeepAlive (Sanitizer bk) now l t s = b_KeepAlive bk now l t s"
  by (simp_all add: Sanitizer_def)

lemma Sanitizer_kv_store: "kv_store (Sanitizer bk) inv view purge (\<lambda>k. safe k \<and> isKeySafe k)"
proof (unfold_locales, goal_cases)
  case 1 then show ?case by (simp add: safe_key)
next
  case 2 then show ?case by (simp add: view_key)
next
  case 3 then show ?case by (simp add: finite_view)
next
  case 4 then show ?case by (simp add: purge_inv)
next
  case 5 then show ?case by (simp add: purge_old)
next
  case 6 then show ?case by (simp add: purge_lives)
next
  case 7 then show ?case by (simp add: purge_idem)
next
  case 8 then show ?case by (simp add: Sanitizer_simps get)
next
  case 9 then show ?case by (simp add: Sanitizer_simps get_range)
next
  case (10 s i now) then show ?case using create [of s i now] by (simp only: Sanitizer_simps)
next
  case (11 s i now) then show ?case using put [of s i now] by (simp only: Sanitizer_simps)
next
  case (12 s i now) then show ?case using update [of s i now] by (simp only: Sanitizer_simps)
next
  case (13 s i j now) then show ?case using compare_and_swap [of s i j now] by (simp only: Sanitizer_simps)
next
  case (14 s k now) then show ?case using delete [of s k now] by (simp only: Sanitizer_simps)
next
  case (15 s a b now) then show ?case using delete_range [of s a b now] by (simp only: Sanitizer_simps)
next
  case (16 s l now t) then show ?case using keep_alive [of s l now t] by (simp only: Sanitizer_simps)
qed

end

end
