(* ===== verification/Iteration.thy ===== *)
theory Iteration imports Backend
begin

text \<open>
  What \<open>IterateRange\<close> passes to its callback: all items of the range when no key of the range is a proper prefix
  of another one.
\<close>

definition collect :: "'v item list \<Rightarrow> 'v item list \<Rightarrow> (bool \<times> 'v item list) result" where
  "collect items acc = Inr (False, acc @ items)"

definition prefix_free :: "(string \<Rightarrow> 'v item option) \<Rightarrow> string \<Rightarrow> string \<Rightarrow> bool" where
  "prefix_free m a b \<longleftrightarrow>
     (\<forall>k\<in>set (range_keys m a b). (\<exists>c\<in>set k. of_char c \<noteq> (255 :: nat)) \<and>
        (\<forall>k'\<in>set (range_keys m a b). has_prefix k' k \<longrightarrow> k' = k))"

lemma set_range_keys: "finite (dom m) \<Longrightarrow> set (range_keys m a b) = {k \<in> dom m. a \<le> k \<and> k < b}"
  by (simp add: range_keys_def)

lemma has_prefix_refl [simp]: "has_prefix k k"
  by (simp add: has_prefix_def)

lemma sorted_filter_drop:
  assumes "sorted xs" "distinct xs" "i < length xs"
  shows "filter (\<lambda>x. xs ! i < x) xs = drop (Suc i) xs"
  using assms
proof (induction xs arbitrary: i)
  case (Cons x xs)
  show ?case
  proof (cases i)
    case 0
    with Cons.prems show ?thesis by (auto simp: order_less_le intro!: filter_True)
  next
    case (Suc j)
    with Cons.prems have "x \<le> xs ! j" by simp
    then have "\<not> xs ! j < x" by simp
    with Suc Cons show ?thesis by simp
  qed
qed simp

lemma range_keys_next:
  assumes fin: "finite (dom m)" and free: "prefix_free m a b" and i: "i < length (range_keys m a b)"
  shows "range_keys m (nextKey (range_keys m a b ! i)) b = drop (Suc i) (range_keys m a b)"
proof -
  let ?K = "range_keys m a b" and ?p = "range_keys m a b ! i"
  have p: "?p \<in> set ?K" using i by simp
  then have byte: "\<exists>c\<in>set ?p. of_char c \<noteq> (255 :: nat)" and only: "\<And>k. k \<in> set ?K \<Longrightarrow> has_prefix k ?p \<Longrightarrow> k = ?p"
    using free by (auto simp: prefix_free_def)
  have "?p < nextKey ?p" using nextKey_range [OF byte, of ?p] by simp
  moreover have a: "a \<le> ?p" using p fin by (simp add: set_range_keys)
  ultimately have next_a: "a < nextKey ?p" by simp
  have "nextKey ?p \<le> k \<longleftrightarrow> ?p < k" if k: "k \<in> set ?K" for k
    using nextKey_range [OF byte, of k] only [OF k] \<open>?p < nextKey ?p\<close>
    by (metis less_le_not_le linorder_not_less order_less_le_trans)
  then have "{k \<in> dom m. nextKey ?p \<le> k \<and> k < b} = {k \<in> set ?K. ?p < k}"
    using next_a a fin \<open>?p < nextKey ?p\<close> by (auto simp: set_range_keys dest: order_less_le_trans)
  then have "range_keys m (nextKey ?p) b = sorted_list_of_set (set (filter (\<lambda>k. ?p < k) ?K))"
    by (simp add: range_keys_def)
  also have "\<dots> = filter (\<lambda>k. ?p < k) ?K"
    by (rule sorted_list_of_set.idem_if_sorted_distinct) (simp_all add: range_keys_def sorted_wrt_filter)
  also have "\<dots> = drop (Suc i) ?K"
    using i by (intro sorted_filter_drop) (simp_all add: range_keys_def)
  finally show ?thesis .
qed

lemma prefix_free_tail:
  assumes "prefix_free m a b" "set (range_keys m a' b) \<subseteq> set (range_keys m a b)"
  shows "prefix_free m a' b"
  using assms by (auto simp: prefix_free_def)

context kv_store
begin

lemma purge_range:
  assumes inv: "inv s" and alive: "\<forall>i\<in>set (range_items (view s) a b). lives now i"
  shows "range_keys (view (purge now s)) a b = range_keys (view s) a b \<and>
    range_items (view (purge now s)) a b = range_items (view s) a b"
proof -
  have fin: "finite (dom (view s))" using inv by (rule finite_view)
  have same: "view (purge now s) k = view s k" if k: "a \<le> k" "k < b" for k
  proof (cases "view s k")
    case None
    then show ?thesis using purge_old [OF inv, of now k] by (cases "view (purge now s) k") auto
  next
    case (Some i)
    then have "k \<in> set (range_keys (view s) a b)" using k fin by (auto simp: set_range_keys)
    then have "i \<in> set (range_items (view s) a b)" using Some by (force simp: range_items_def)
    then show ?thesis using Some alive purge_lives [OF inv] by simp
  qed
  then have keys: "range_keys (view (purge now s)) a b = range_keys (view s) a b"
    unfolding range_keys_def by (intro arg_cong [where f = sorted_list_of_set]) auto
  moreover have "the (view (purge now s) k) = the (view s k)" if "k \<in> set (range_keys (view s) a b)" for k
    using that same fin by (simp add: set_range_keys)
  ultimately show ?thesis by (simp add: range_items_def)
qed

lemma IterateRange_all:
  assumes "inv s" "safe a" "b \<noteq> []" "0 < limit" "prefix_free (view s) a b"
    "\<forall>i\<in>set (range_items (view s) a b). \<forall>n. lives (clock n) i"
    "\<forall>k\<in>set (range_keys (view s) a b). safe (nextKey k)"
    "length (range_keys (view s) a b) < fuel"
  shows "\<exists>s'. IterateRange bk clock fuel a b limit collect acc s = Some (Inr (acc @ range_items (view s) a b), s') \<and> inv s'"
  using assms
proof (induction fuel arbitrary: a acc s)
  case (Suc fuel)
  let ?s = "purge (clock fuel) s" and ?K = "range_keys (view s) a b" and ?I = "range_items (view s) a b"
  define l where "l = nat limit"
  have l: "int l = limit" "l \<noteq> 0" "range_limit limit = l" using Suc.prems(4) by (simp_all add: l_def range_limit_def)
  have pr: "range_keys (view ?s) a b = ?K" "range_items (view ?s) a b = ?I"
    using purge_range [OF Suc.prems(1), of a b "clock fuel"] Suc.prems(6) by simp_all
  have get: "b_GetRange bk (clock fuel) a b limit s = (Inr (take l ?I), ?s)"
    using get_range [OF Suc.prems(1-3)] pr l by simp
  have len: "length ?I = length ?K" by (simp add: range_items_def)
  have inv': "inv ?s" using Suc.prems(1) by (rule purge_inv)
  show ?case
  proof (cases "length ?K < l")
    case True
    then have "int (min (length ?I) l) < limit" using l len by simp
    then show ?thesis using True get inv' len by (simp add: collect_def)
  next
    case False
    let ?p = "?K ! (l - 1)"
    have i: "l - 1 < length ?K" using False l by simp
    have item: "it_Key (take l ?I ! nat (limit - 1)) = ?p"
    proof -
      have "?p \<in> set ?K" using i by (rule nth_mem)
      then obtain j where "view s ?p = Some j" using finite_view [OF Suc.prems(1)] by (auto simp: set_range_keys)
      moreover have "nat (limit - 1) = l - 1" "l - 1 < l" using l by simp_all
      ultimately show ?thesis using i view_key [OF Suc.prems(1)] by (simp add: range_items_def)
    qed
    have step: "IterateRange bk clock (Suc fuel) a b limit collect acc s =
        IterateRange bk clock fuel (nextKey ?p) b limit collect (acc @ take l ?I) ?s"
      using get item False l len by (simp add: collect_def)
    have free: "prefix_free (view ?s) a b" using Suc.prems(5) pr by (simp add: prefix_free_def)
    have tail: "range_keys (view ?s) (nextKey ?p) b = drop l ?K"
      using range_keys_next [OF finite_view [OF inv'] free, of "l - 1"] i l pr by simp
    have the_tail: "range_items (view ?s) (nextKey ?p) b = drop l ?I"
    proof -
      have "the (view ?s k) = the (view s k)" if "k \<in> set (drop l ?K)" for k
      proof -
        have "k \<in> set ?K" using that by (rule in_set_dropD)
        then have "the (view ?s k) = the (view s k)"
          using pr unfolding range_items_def by (metis map_eq_conv)
        then show ?thesis .
      qed
      moreover have "range_keys (view ?s) (nextKey ?p) b = drop l ?K" by (rule tail)
      ultimately show ?thesis unfolding range_items_def drop_map by simp
    qed
    have "\<exists>s'. IterateRange bk clock fuel (nextKey ?p) b limit collect (acc @ take l ?I) ?s =
        Some (Inr ((acc @ take l ?I) @ range_items (view ?s) (nextKey ?p) b), s') \<and> inv s'"
    proof (rule Suc.IH)
      show "prefix_free (view ?s) (nextKey ?p) b"
        by (rule prefix_free_tail [OF free]) (use tail pr in \<open>simp add: set_drop_subset\<close>)
      show "\<forall>i\<in>set (range_items (view ?s) (nextKey ?p) b). \<forall>n. lives (clock n) i"
        using Suc.prems(6) the_tail by (auto dest: in_set_dropD)
      show "\<forall>k\<in>set (range_keys (view ?s) (nextKey ?p) b). safe (nextKey k)"
        using Suc.prems(7) tail by (auto dest: in_set_dropD)
      show "length (range_keys (view ?s) (nextKey ?p) b) < fuel"
        using Suc.prems(8) tail l False by simp
      show "safe (nextKey ?p)" using Suc.prems(7) i by simp
    qed (use inv' Suc.prems in simp_all)
    then show ?thesis using step the_tail by simp
  qed
qed simp

end

end
