(* ===== verification/Binary_Heap.thy ===== *)
theory Binary_Heap
  imports Prelude
begin

text \<open>
  The algorithms of Go's \<open>container/heap\<close> on a list, ordered by an integer key: what the heap of the memory
  backend does to its slice, apart from the positions it records in its items.
\<close>

section \<open>Sifting\<close>

definition par :: "nat \<Rightarrow> nat" where
  "par k = (k - 1) div 2"

lemma par_less: "0 < k \<Longrightarrow> par k < k"
  by (simp add: par_def div_less_iff_less_mult)

lemma par_eq_self [simp]: "par k = k \<longleftrightarrow> k = 0"
  using par_less [of k] by (cases "k = 0") (auto simp: par_def)

lemma par_iff: "0 < k \<Longrightarrow> par k = i \<longleftrightarrow> k = 2 * i + 1 \<or> k = 2 * i + 2"
  by (auto simp: par_def)

definition swap_at :: "nat \<Rightarrow> nat \<Rightarrow> 'a list \<Rightarrow> 'a list" where
  "swap_at i j xs = xs[i := xs ! j, j := xs ! i]"

lemma length_swap_at [simp]: "length (swap_at i j xs) = length xs"
  by (simp add: swap_at_def)

lemma nth_swap_at:
  "i < length xs \<Longrightarrow> j < length xs \<Longrightarrow> swap_at i j xs ! k = (if k = j then xs ! i else if k = i then xs ! j else xs ! k)"
  by (simp add: swap_at_def nth_list_update)

lemma mset_swap_at [simp]: "i < length xs \<Longrightarrow> j < length xs \<Longrightarrow> mset (swap_at i j xs) = mset xs"
  by (simp add: swap_at_def mset_swap)

function heap_up :: "('a \<Rightarrow> int) \<Rightarrow> 'a list \<Rightarrow> nat \<Rightarrow> 'a list" where
  "heap_up f xs j =
     (let i = par j
      in if i = j \<or> \<not> f (xs ! j) < f (xs ! i) then xs else heap_up f (swap_at i j xs) i)"
  by pat_completeness auto
termination
  by (relation "measure (\<lambda>(f, xs, j). j)") (auto intro: par_less)

definition min_child :: "('a \<Rightarrow> int) \<Rightarrow> 'a list \<Rightarrow> nat \<Rightarrow> nat \<Rightarrow> nat" where
  "min_child f xs i n =
     (if 2 * i + 2 < n \<and> f (xs ! (2 * i + 2)) < f (xs ! (2 * i + 1)) then 2 * i + 2 else 2 * i + 1)"

function heap_down :: "('a \<Rightarrow> int) \<Rightarrow> 'a list \<Rightarrow> nat \<Rightarrow> nat \<Rightarrow> 'a list \<times> nat" where
  "heap_down f xs i n =
     (if 2 * i + 1 \<ge> n then (xs, i)
      else let j = min_child f xs i n
           in if \<not> f (xs ! j) < f (xs ! i) then (xs, i) else heap_down f (swap_at i j xs) j n)"
  by pat_completeness auto
termination
  by (relation "measure (\<lambda>(f, xs, i, n). n - i)") (auto simp: min_child_def split: if_splits)

declare heap_up.simps [simp del] heap_down.simps [simp del]

lemma min_child:
  assumes "2 * i + 1 < n"
  shows "i < min_child f xs i n" "min_child f xs i n < n" "par (min_child f xs i n) = i"
    "\<forall>k. 0 < k \<and> k < n \<and> par k = i \<longrightarrow> f (xs ! min_child f xs i n) \<le> f (xs ! k)"
proof -
  show "i < min_child f xs i n" "min_child f xs i n < n" "par (min_child f xs i n) = i"
    using assms by (auto simp: min_child_def par_def)
  show "\<forall>k. 0 < k \<and> k < n \<and> par k = i \<longrightarrow> f (xs ! min_child f xs i n) \<le> f (xs ! k)"
  proof (intro allI impI)
    fix k
    assume "0 < k \<and> k < n \<and> par k = i"
    then have "k = 2 * i + 1 \<or> k = 2 * i + 2" "k < n" using par_iff [of k i] by auto
    then show "f (xs ! min_child f xs i n) \<le> f (xs ! k)" by (auto simp: min_child_def)
  qed
qed

lemma length_heap_up [simp]: "length (heap_up f xs j) = length xs"
  by (induction f xs j rule: heap_up.induct) (subst heap_up.simps, simp add: Let_def)

lemma length_heap_down [simp]: "length (fst (heap_down f xs i n)) = length xs"
  by (induction f xs i n rule: heap_down.induct) (subst heap_down.simps, simp add: Let_def)

lemma mset_heap_up [simp]: "j < length xs \<Longrightarrow> mset (heap_up f xs j) = mset xs"
proof (induction f xs j rule: heap_up.induct)
  case (1 f xs j)
  show ?case
  proof (cases "par j = j \<or> \<not> f (xs ! j) < f (xs ! par j)")
    case True
    then show ?thesis by (subst heap_up.simps) (auto simp: Let_def)
  next
    case False
    then have "par j < j" using par_less [of j] by (auto intro: gr0I)
    with False 1 show ?thesis by (subst heap_up.simps) (simp add: Let_def)
  qed
qed

lemma mset_heap_down [simp]: "n \<le> length xs \<Longrightarrow> mset (fst (heap_down f xs i n)) = mset xs"
proof (induction f xs i n rule: heap_down.induct)
  case (1 f xs i n)
  show ?case
  proof (cases "2 * i + 1 < n")
    case True
    have "min_child f xs i n < length xs" "i < length xs"
      using min_child(1,2) [OF True, of f xs] 1(2) by auto
    with True 1 show ?thesis
      by (subst heap_down.simps) (auto simp: Let_def)
  next
    case False
    then show ?thesis by (subst heap_down.simps) simp
  qed
qed

lemma heap_down_frame: "n \<le> length xs \<Longrightarrow> n \<le> k \<Longrightarrow> k < length xs \<Longrightarrow> fst (heap_down f xs i n) ! k = xs ! k"
proof (induction f xs i n rule: heap_down.induct)
  case (1 f xs i n)
  show ?case
  proof (cases "2 * i + 1 < n")
    case True
    have "swap_at i (min_child f xs i n) xs ! k = xs ! k"
      using min_child [OF True, of f xs] 1(2-4) by (simp add: nth_swap_at)
    with True 1 show ?thesis by (subst heap_down.simps) (auto simp: Let_def)
  next
    case False
    then show ?thesis by (subst heap_down.simps) simp
  qed
qed

lemma heap_up_frame: "j < k \<Longrightarrow> k < length xs \<Longrightarrow> heap_up f xs j ! k = xs ! k"
proof (induction f xs j rule: heap_up.induct)
  case (1 f xs j)
  show ?case
  proof (cases "par j = j \<or> \<not> f (xs ! j) < f (xs ! par j)")
    case True
    then show ?thesis by (subst heap_up.simps) (auto simp: Let_def)
  next
    case False
    then have "par j < j" using par_less [of j] by (auto intro: gr0I)
    moreover from this have "swap_at (par j) j xs ! k = xs ! k" using 1(2,3) by (simp add: nth_swap_at)
    ultimately show ?thesis using False 1 by (subst heap_up.simps) (simp add: Let_def)
  qed
qed

section \<open>Heap order\<close>

definition in_order :: "('a \<Rightarrow> int) \<Rightarrow> 'a list \<Rightarrow> nat \<Rightarrow> bool" where
  "in_order f xs k \<longleftrightarrow> f (xs ! par k) \<le> f (xs ! k)"

definition heap_upto :: "('a \<Rightarrow> int) \<Rightarrow> 'a list \<Rightarrow> nat \<Rightarrow> bool" where
  "heap_upto f xs n \<longleftrightarrow> (\<forall>k. 0 < k \<and> k < n \<longrightarrow> in_order f xs k)"

text \<open>Order everywhere but above \<open>j\<close>, and order everywhere but around \<open>i\<close>.\<close>

definition bypassed :: "('a \<Rightarrow> int) \<Rightarrow> 'a list \<Rightarrow> nat \<Rightarrow> nat \<Rightarrow> bool" where
  "bypassed f xs j n \<longleftrightarrow> (0 < j \<longrightarrow> (\<forall>k. 0 < k \<and> k < n \<and> par k = j \<longrightarrow> f (xs ! par j) \<le> f (xs ! k)))"

definition heap_but_above :: "('a \<Rightarrow> int) \<Rightarrow> 'a list \<Rightarrow> nat \<Rightarrow> nat \<Rightarrow> bool" where
  "heap_but_above f xs j n \<longleftrightarrow> (\<forall>k. 0 < k \<and> k < n \<and> k \<noteq> j \<longrightarrow> in_order f xs k) \<and> bypassed f xs j n"

definition heap_but_at :: "('a \<Rightarrow> int) \<Rightarrow> 'a list \<Rightarrow> nat \<Rightarrow> nat \<Rightarrow> bool" where
  "heap_but_at f xs i n \<longleftrightarrow>
     (\<forall>k. 0 < k \<and> k < n \<and> k \<noteq> i \<and> par k \<noteq> i \<longrightarrow> in_order f xs k) \<and> bypassed f xs i n"

lemma heap_upto_min: "heap_upto f xs n \<Longrightarrow> k < n \<Longrightarrow> f (xs ! 0) \<le> f (xs ! k)"
proof (induction k rule: less_induct)
  case (less k)
  show ?case
  proof (cases "k = 0")
    case False
    then have "par k < k" by (simp add: par_less)
    with less False have "f (xs ! 0) \<le> f (xs ! par k)" by simp
    also have "\<dots> \<le> f (xs ! k)" using less.prems False by (simp add: heap_upto_def in_order_def)
    finally show ?thesis .
  qed simp
qed

lemma heap_up_heap: "n \<le> length xs \<Longrightarrow> j < n \<Longrightarrow> heap_but_above f xs j n \<Longrightarrow> heap_upto f (heap_up f xs j) n"
proof (induction f xs j rule: heap_up.induct)
  case (1 f xs j)
  note but = 1(4) [unfolded heap_but_above_def]
  show ?case
  proof (cases "par j = j \<or> \<not> f (xs ! j) < f (xs ! par j)")
    case True
    then have "heap_upto f xs n"
      using but by (auto simp: heap_upto_def in_order_def)
    with True show ?thesis by (subst heap_up.simps) (auto simp: Let_def)
  next
    case False
    define i where "i = par j"
    have ij: "i < j" "0 < j" "f (xs ! j) < f (xs ! i)"
      using False par_less [of j] by (auto simp: i_def)
    have pj: "par j = i" by (simp add: i_def)
    have nth: "swap_at i j xs ! k = (if k = j then xs ! i else if k = i then xs ! j else xs ! k)" for k
      using ij 1(2,3) by (simp add: nth_swap_at)
    have order: "in_order f (swap_at i j xs) k" if k: "0 < k" "k < n" "k \<noteq> i" for k
    proof -
      consider "k = j" | "k \<noteq> j" "par k = j" | "k \<noteq> j" "par k = i" | "k \<noteq> j" "par k \<noteq> j" "par k \<noteq> i" by blast
      then show ?thesis
      proof cases
        case 1
        then show ?thesis using ij by (simp add: in_order_def nth pj)
      next
        case 2
        then have "f (xs ! i) \<le> f (xs ! k)" using but k ij by (auto simp: bypassed_def pj)
        with 2 k ij show ?thesis by (simp add: in_order_def nth)
      next
        case 3
        then have "f (xs ! i) \<le> f (xs ! k)" using but k by (auto simp: in_order_def)
        with 3 k ij show ?thesis by (simp add: in_order_def nth)
      next
        case 4
        then show ?thesis using but k by (auto simp: in_order_def nth)
      qed
    qed
    have "bypassed f (swap_at i j xs) i n"
      unfolding bypassed_def
    proof (intro impI allI)
      fix k
      assume i0: "0 < i" and k: "0 < k \<and> k < n \<and> par k = i"
      have pi: "par i < i" using i0 by (rule par_less)
      have up: "f (xs ! par i) \<le> f (xs ! i)" using but i0 ij 1(3) by (auto simp: in_order_def)
      have "f (xs ! i) \<le> f (xs ! k)" if "k \<noteq> j" using but k that by (auto simp: in_order_def)
      with up pi ij k show "f (swap_at i j xs ! par i) \<le> f (swap_at i j xs ! k)"
        using par_less [of k] by (auto simp: nth)
    qed
    with order have "heap_but_above f (swap_at i j xs) i n" by (simp add: heap_but_above_def)
    then have "heap_upto f (heap_up f (swap_at i j xs) i) n"
      using "1.IH" [OF i_def] False ij 1(2,3) by (simp add: i_def)
    with False show ?thesis by (subst heap_up.simps) (simp add: Let_def i_def)
  qed
qed


lemma heap_down_heap:
  "n \<le> length xs \<Longrightarrow> i < n \<Longrightarrow> heap_but_at f xs i n \<Longrightarrow> heap_down f xs i n = (ys, m) \<Longrightarrow>
     i \<le> m \<and> (if m = i then ys = xs \<and> heap_but_above f xs i n else heap_upto f ys n)"
proof (induction f xs i n arbitrary: ys m rule: heap_down.induct)
  case (1 f xs i n)
  note but = 1(4) [unfolded heap_but_at_def]
  show ?case
  proof (cases "2 * i + 1 < n")
    case False
    then have "par k \<noteq> i" if "0 < k" "k < n" for k using par_iff [of k i] that by auto
    then have "heap_but_above f xs i n" using but by (auto simp: heap_but_above_def)
    with False 1(5) show ?thesis by (simp add: heap_down.simps [of f xs i n])
  next
    case True
    define j where "j = min_child f xs i n"
    have j: "i < j" "j < n" "par j = i" and least: "\<And>k. 0 < k \<Longrightarrow> k < n \<Longrightarrow> par k = i \<Longrightarrow> f (xs ! j) \<le> f (xs ! k)"
      using min_child [OF True, of f xs] by (auto simp: j_def)
    show ?thesis
    proof (cases "f (xs ! j) < f (xs ! i)")
      case False
      have "in_order f xs k" if "0 < k" "k < n" "k \<noteq> i" for k
        using but least [of k] that False by (cases "par k = i") (auto simp: in_order_def)
      then have "heap_but_above f xs i n" using but by (auto simp: heap_but_above_def)
      with False True 1(5) show ?thesis by (simp add: heap_down.simps [of f xs i n] j_def Let_def)
    next
      case less: True
      have nth: "swap_at i j xs ! k = (if k = j then xs ! i else if k = i then xs ! j else xs ! k)" for k
        using j 1(2,3) by (simp add: nth_swap_at)
      have rel: "in_order f (swap_at i j xs) j"
        using less j by (simp add: in_order_def nth)
      have order: "in_order f (swap_at i j xs) k" if k: "0 < k" "k < n" "k \<noteq> j" "par k \<noteq> j" for k
      proof -
        consider "k = i" | "k \<noteq> i" "par k = i" | "k \<noteq> i" "par k \<noteq> i" by blast
        then show ?thesis
        proof cases
          case 1
          then have "f (xs ! par i) \<le> f (xs ! j)" using but k j by (auto simp: bypassed_def)
          moreover have "par i \<noteq> i" using 1 k by simp
          ultimately show ?thesis using 1 k by (simp add: in_order_def nth)
        next
          case 2
          then show ?thesis using least [of k] k by (simp add: in_order_def nth)
        next
          case 3
          then show ?thesis using but k by (auto simp: in_order_def nth)
        qed
      qed
      have "bypassed f (swap_at i j xs) j n"
        unfolding bypassed_def
      proof (intro impI allI)
        fix k
        assume k: "0 < k \<and> k < n \<and> par k = j"
        then have "j < k" using par_less [of k] by simp
        moreover have "f (xs ! j) \<le> f (xs ! k)"
          using but k j \<open>j < k\<close> by (auto simp: in_order_def)
        ultimately show "f (swap_at i j xs ! par j) \<le> f (swap_at i j xs ! k)"
          using j by (auto simp: nth)
      qed
      with order have "heap_but_at f (swap_at i j xs) j n" by (simp add: heap_but_at_def)
      moreover have run: "heap_down f (swap_at i j xs) j n = (ys, m)"
        using 1(5) True less by (simp add: heap_down.simps [of f xs i n] j_def Let_def)
      ultimately have "j \<le> m \<and> (if m = j then ys = swap_at i j xs \<and> heap_but_above f (swap_at i j xs) j n
          else heap_upto f ys n)"
        using "1.IH" [OF _ j_def _ _ j(2), of ys m] True less 1(2) by simp
      with rel j show ?thesis
        by (auto simp: heap_but_above_def heap_upto_def split: if_splits)
    qed
  qed
qed

text \<open>Pushing, popping and removing.\<close>

definition heap_push :: "('a \<Rightarrow> int) \<Rightarrow> 'a list \<Rightarrow> 'a \<Rightarrow> 'a list" where
  "heap_push f xs x = heap_up f (xs @ [x]) (length xs)"

definition heap_remove :: "('a \<Rightarrow> int) \<Rightarrow> 'a list \<Rightarrow> nat \<Rightarrow> 'a list" where
  "heap_remove f xs i =
     (let n = length xs - 1
      in if n \<noteq> i then
           (let (ys, m) = heap_down f (swap_at i n xs) i n
            in take n (if \<not> m > i then heap_up f ys i else ys))
         else take n xs)"

definition is_heap :: "('a \<Rightarrow> int) \<Rightarrow> 'a list \<Rightarrow> bool" where
  "is_heap f xs \<longleftrightarrow> heap_upto f xs (length xs)"

lemma heap_upto_take: "heap_upto f xs n \<Longrightarrow> n \<le> length xs \<Longrightarrow> is_heap f (take n xs)"
proof -
  assume h: "heap_upto f xs n" and n: "n \<le> length xs"
  show "is_heap f (take n xs)"
    unfolding is_heap_def heap_upto_def in_order_def
  proof (intro allI impI)
    fix k
    assume "0 < k \<and> k < length (take n xs)"
    with n have k: "0 < k" "k < n" by auto
    with par_less [of k] h n show "f (take n xs ! par k) \<le> f (take n xs ! k)"
      by (simp add: heap_upto_def in_order_def)
  qed
qed

lemma heap_push_heap: "is_heap f xs \<Longrightarrow> is_heap f (heap_push f xs x)"
proof -
  assume h: "is_heap f xs"
  have "heap_but_above f (xs @ [x]) (length xs) (Suc (length xs))"
    unfolding heap_but_above_def bypassed_def
  proof (intro conjI impI allI)
    fix k
    assume k: "0 < k \<and> k < Suc (length xs) \<and> k \<noteq> length xs"
    with par_less [of k] h show "in_order f (xs @ [x]) k"
      by (auto simp: is_heap_def heap_upto_def in_order_def nth_append)
  next
    fix k
    assume "0 < k \<and> k < Suc (length xs) \<and> par k = length xs"
    with par_less [of k] show "f ((xs @ [x]) ! par (length xs)) \<le> f ((xs @ [x]) ! k)" by simp
  qed
  then show ?thesis
    using heap_up_heap [of "Suc (length xs)" "xs @ [x]" "length xs" f] by (simp add: heap_push_def is_heap_def)
qed

lemma mset_heap_push [simp]: "mset (heap_push f xs x) = add_mset x (mset xs)"
  by (simp add: heap_push_def)

lemma heap_remove_heap:
  assumes h: "is_heap f xs" and i: "i < length xs"
  shows "is_heap f (heap_remove f xs i)"
proof (cases "length xs - 1 = i")
  case True
  then show ?thesis
    using h heap_upto_take [of f xs "length xs - 1"] by (simp add: heap_remove_def is_heap_def heap_upto_def)
next
  case False
  define n where "n = length xs - 1"
  define zs where "zs = swap_at i n xs"
  have n: "i < n" "n < length xs" using False i by (auto simp: n_def)
  have nth: "zs ! k = (if k = i then xs ! n else xs ! k)" if "k < n" for k
    using n that by (simp add: zs_def nth_swap_at)
  have but: "heap_but_at f zs i n"
    unfolding heap_but_at_def bypassed_def
  proof (intro conjI impI allI)
    fix k
    assume k: "0 < k \<and> k < n \<and> k \<noteq> i \<and> par k \<noteq> i"
    with par_less [of k] h n show "in_order f zs k"
      by (simp add: in_order_def nth is_heap_def heap_upto_def)
  next
    fix k
    assume i0: "0 < i" and k: "0 < k \<and> k < n \<and> par k = i"
    have "f (xs ! par i) \<le> f (xs ! i)" "f (xs ! i) \<le> f (xs ! k)"
      using h n i0 k unfolding is_heap_def heap_upto_def in_order_def by auto
    then show "f (zs ! par i) \<le> f (zs ! k)"
      using par_less [of k] par_less [of i] i0 k n by (simp add: nth)
  qed
  obtain ys m where run: "heap_down f zs i n = (ys, m)" by fastforce
  have len: "n \<le> length zs" "length ys = length zs"
    using n length_heap_down [of f zs i n] unfolding run by (simp_all add: zs_def)
  note down = heap_down_heap [OF len(1) n(1) but run]
  have "heap_upto f (if \<not> m > i then heap_up f ys i else ys) n"
    using down heap_up_heap [OF len(1) n(1), of f] by (auto split: if_splits)
  then have "is_heap f (take n (if \<not> m > i then heap_up f ys i else ys))"
    using len by (intro heap_upto_take) auto
  then show ?thesis
    using False run by (simp add: heap_remove_def n_def zs_def Let_def)
qed

lemma mset_heap_remove:
  assumes "i < length xs"
  shows "mset (heap_remove f xs i) = mset xs - {#xs ! i#}"
proof (cases "length xs - 1 = i")
  case True
  with assms have "xs = take i xs @ [xs ! i]"
    by (metis Suc_diff_1 less_nat_zero_code linorder_neqE_nat take_Suc_conv_app_nth take_all_iff order_refl)
  then have "mset xs = add_mset (xs ! i) (mset (take i xs))"
    by (metis add_mset_add_single mset.simps(1) mset.simps(2) mset_append)
  with True show ?thesis by (simp add: heap_remove_def)
next
  case False
  define n where "n = length xs - 1"
  define zs where "zs = swap_at i n xs"
  have n: "i < n" "n < length xs" "length xs = Suc n" using False assms by (auto simp: n_def)
  obtain ys m where run: "heap_down f zs i n = (ys, m)" by fastforce
  have len: "length zs = Suc n" "length ys = Suc n"
    using n length_heap_down [of f zs i n] unfolding run by (simp_all add: zs_def)
  have "mset zs = mset xs" "zs ! n = xs ! i" using n by (simp_all add: zs_def nth_swap_at)
  then have ys: "mset ys = mset xs" "ys ! n = xs ! i"
    using mset_heap_down [of n zs f i] heap_down_frame [of n zs n f i] len unfolding run by simp_all
  define us where "us = (if \<not> m > i then heap_up f ys i else ys)"
  have "heap_up f ys i ! n = ys ! n"
    using heap_up_frame [of i n ys f] n len by simp
  then have us: "mset us = mset xs" "us ! n = xs ! i" "length us = Suc n"
    using ys n len by (simp_all add: us_def)
  then have "us = take n us @ [xs ! i]"
    by (metis lessI take_Suc_conv_app_nth take_all_iff order_refl)
  then have "mset xs = add_mset (xs ! i) (mset (take n us))"
    using us(1) by (metis add_mset_add_single mset.simps(1) mset.simps(2) mset_append)
  then show ?thesis
    using False run by (simp add: heap_remove_def n_def zs_def us_def Let_def)
qed

end
