(* ===== verification/Memory.thy ===== *)
theory Memory
  imports Backend Binary_Heap
begin

text \<open>
  The memory backend of \<open>lib/backend/memory\<close>. Items are objects that the tree and the heap share: \<open>m_objs\<close>
  holds them, and a reference is a position in it. The B-tree of the imported package is the list of references
  in ascending order of their keys; \<open>m_heap\<close> is the slice of \<open>minHeap\<close>, on which the algorithms of
  \<open>container/heap\<close> work through \<open>Less\<close>, \<open>Swap\<close>, \<open>Push\<close> and \<open>Pop\<close>; \<open>m_buf\<close> lists the events that were
  emitted, of which a deletion keeps only the key. The mutex makes every operation one step.
\<close>

section \<open>State\<close>

record 'v btree_item =
  bi_Item :: "'v item"
  bi_index :: int

datatype 'v event = OpPut "'v item" | OpDelete string

record 'v memory =
  m_objs :: "'v btree_item list"
  m_tree :: "nat list"
  m_heap :: "nat list"
  m_nextID :: int
  m_buf :: "'v event list"

record memory_config =
  cfg_Mirror :: bool
  cfg_EventsOff :: bool

definition memory_New :: "'v memory" where
  "memory_New = \<lparr>m_objs = [], m_tree = [], m_heap = [], m_nextID = 0, m_buf = []\<rparr>"

definition ref_item :: "'v memory \<Rightarrow> nat \<Rightarrow> 'v item" where
  "ref_item m r = bi_Item (m_objs m ! r)"

definition ref_key :: "'v memory \<Rightarrow> nat \<Rightarrow> string" where
  "ref_key m r = it_Key (ref_item m r)"

definition ref_unix :: "'v memory \<Rightarrow> nat \<Rightarrow> int" where
  "ref_unix m r = unix_seconds (it_Expires (ref_item m r))"

definition ref_index :: "'v memory \<Rightarrow> nat \<Rightarrow> int" where
  "ref_index m r = bi_index (m_objs m ! r)"

section \<open>The heap\<close>

definition set_index :: "nat \<Rightarrow> int \<Rightarrow> 'v memory \<Rightarrow> 'v memory" where
  "set_index r i m = m\<lparr>m_objs := (m_objs m)[r := (m_objs m ! r)\<lparr>bi_index := i\<rparr>]\<rparr>"

definition minHeap_Less :: "nat \<Rightarrow> nat \<Rightarrow> 'v memory \<Rightarrow> bool" where
  "minHeap_Less i j m = (ref_unix m (m_heap m ! i) < ref_unix m (m_heap m ! j))"

definition minHeap_Swap :: "nat \<Rightarrow> nat \<Rightarrow> 'v memory \<Rightarrow> 'v memory" where
  "minHeap_Swap i j m =
     (let m1 = m\<lparr>m_heap := swap_at i j (m_heap m)\<rparr>;
          m2 = set_index (m_heap m1 ! i) (int i) m1
      in set_index (m_heap m2 ! j) (int j) m2)"

definition minHeap_Push :: "nat \<Rightarrow> 'v memory \<Rightarrow> 'v memory" where
  "minHeap_Push r m =
     (let m1 = set_index r (int (length (m_heap m))) m in m1\<lparr>m_heap := m_heap m1 @ [r]\<rparr>)"

definition minHeap_Pop :: "'v memory \<Rightarrow> nat \<times> 'v memory" where
  "minHeap_Pop m =
     (let n = length (m_heap m); r = m_heap m ! (n - 1); m1 = set_index r (- 1) m
      in (r, m1\<lparr>m_heap := take (n - 1) (m_heap m1)\<rparr>))"

text \<open>\<open>up\<close>, \<open>down\<close>, \<open>Push\<close>, \<open>Pop\<close> and \<open>Remove\<close> of \<open>container/heap\<close>.\<close>

function up :: "nat \<Rightarrow> 'v memory \<Rightarrow> 'v memory" where
  "up j m =
     (let i = par j
      in if i = j \<or> \<not> minHeap_Less j i m then m else up i (minHeap_Swap i j m))"
  by pat_completeness auto
termination
  by (relation "measure (\<lambda>(j, m). j)") (auto intro: par_less)

function down :: "nat \<Rightarrow> nat \<Rightarrow> 'v memory \<Rightarrow> 'v memory \<times> nat" where
  "down i n m =
     (let j1 = 2 * i + 1; j2 = j1 + 1
      in if j1 \<ge> n then (m, i)
         else let j = (if j2 < n \<and> minHeap_Less j2 j1 m then j2 else j1)
              in if \<not> minHeap_Less j i m then (m, i) else down j n (minHeap_Swap i j m))"
  by pat_completeness auto
termination
  by (relation "measure (\<lambda>(i, n, m). n - i)") (auto split: if_splits)

declare up.simps [simp del] down.simps [simp del]

definition PushEl :: "nat \<Rightarrow> 'v memory \<Rightarrow> 'v memory" where
  "PushEl r m = (let m1 = minHeap_Push r m in up (length (m_heap m1) - 1) m1)"

definition PopEl :: "'v memory \<Rightarrow> nat \<times> 'v memory" where
  "PopEl m = (let n = length (m_heap m) - 1 in minHeap_Pop (fst (down 0 n (minHeap_Swap 0 n m))))"

definition RemoveEl :: "nat \<Rightarrow> 'v memory \<Rightarrow> 'v memory" where
  "RemoveEl r m =
     (let i = nat (ref_index m r); n = length (m_heap m) - 1
      in snd (minHeap_Pop
           (if n \<noteq> i then
              (let (m1, k) = down i n (minHeap_Swap i n m) in if \<not> k > i then up i m1 else m1)
            else m)))"

definition PeekEl :: "'v memory \<Rightarrow> nat" where
  "PeekEl m = m_heap m ! 0"

section \<open>The tree\<close>

definition tree_Get :: "string \<Rightarrow> 'v memory \<Rightarrow> nat option" where
  "tree_Get key m = find (\<lambda>r. ref_key m r = key) (m_tree m)"

definition tree_Delete :: "string \<Rightarrow> 'v memory \<Rightarrow> 'v memory" where
  "tree_Delete key m = m\<lparr>m_tree := filter (\<lambda>r. ref_key m r \<noteq> key) (m_tree m)\<rparr>"

fun insert_ref :: "(nat \<Rightarrow> string) \<Rightarrow> nat \<Rightarrow> nat list \<Rightarrow> nat list" where
  "insert_ref key r [] = [r]"
| "insert_ref key r (x # xs) =
     (if key r < key x then r # x # xs
      else if key r = key x then r # xs
      else x # insert_ref key r xs)"

definition tree_ReplaceOrInsert :: "nat \<Rightarrow> 'v memory \<Rightarrow> 'v memory" where
  "tree_ReplaceOrInsert r m = m\<lparr>m_tree := insert_ref (ref_key m) r (m_tree m)\<rparr>"

definition getRange :: "string \<Rightarrow> string \<Rightarrow> int \<Rightarrow> 'v memory \<Rightarrow> 'v item list" where
  "getRange startKey endKey limit m =
     (let items = map (ref_item m) (filter (\<lambda>r. startKey \<le> ref_key m r \<and> ref_key m r < endKey) (m_tree m))
      in if limit > 0 then take (nat limit) items else items)"

section \<open>Operations\<close>

definition generateID :: "'v memory \<Rightarrow> int \<times> 'v memory" where
  "generateID m = (let i = wrap64 (m_nextID m + 1) in (i, m\<lparr>m_nextID := i\<rparr>))"

definition memory_newLease :: "'v item \<Rightarrow> lease" where
  "memory_newLease i =
     (if is_zero_time (it_Expires i) then \<lparr>ls_Key = [], ls_ID = 0\<rparr> else \<lparr>ls_Key = it_Key i, ls_ID = 0\<rparr>)"

definition Emit :: "memory_config \<Rightarrow> 'v event \<Rightarrow> 'v memory \<Rightarrow> 'v memory" where
  "Emit cfg e m = (if cfg_EventsOff cfg then m else m\<lparr>m_buf := m_buf m @ [e]\<rparr>)"

definition new_object :: "'v item \<Rightarrow> 'v memory \<Rightarrow> nat \<times> 'v memory" where
  "new_object i m = (length (m_objs m), m\<lparr>m_objs := m_objs m @ [\<lparr>bi_Item = i, bi_index = - 1\<rparr>]\<rparr>)"

definition processEvent :: "'v event \<Rightarrow> 'v memory \<Rightarrow> 'v memory" where
  "processEvent e m =
     (case e of
        OpPut i \<Rightarrow>
          (let (r, m1) = new_object i m;
               m2 = (case tree_Get (it_Key i) m1 of
                       Some x \<Rightarrow> if ref_index m1 x \<ge> 0 then RemoveEl x m1 else m1
                     | None \<Rightarrow> m1);
               m3 = (if \<not> is_zero_time (it_Expires i) then PushEl r m2 else m2)
           in tree_ReplaceOrInsert r m3)
      | OpDelete key \<Rightarrow>
          (case tree_Get key m of
             None \<Rightarrow> m
           | Some x \<Rightarrow>
               (let m1 = tree_Delete key m in if ref_index m1 x \<ge> 0 then RemoveEl x m1 else m1)))"

lemma length_heap_set_index [simp]: "m_heap (set_index r i m) = m_heap m"
  by (simp add: set_index_def)

lemma heap_Swap [simp]: "m_heap (minHeap_Swap i j m) = swap_at i j (m_heap m)"
  by (simp add: minHeap_Swap_def Let_def)

lemma length_down_heap [simp]: "length (m_heap (fst (down i n m))) = length (m_heap m)"
  by (induction i n m rule: down.induct) (subst down.simps, simp add: Let_def)

lemma length_heap_PopEl: "m_heap m \<noteq> [] \<Longrightarrow> length (m_heap (snd (PopEl m))) < length (m_heap m)"
  by (simp add: PopEl_def minHeap_Pop_def Let_def)

text \<open>The loop pops the heap while the item at its top has expired; the count of removed items is only logged.\<close>

function expire_loop :: "memory_config \<Rightarrow> time \<Rightarrow> 'v memory \<Rightarrow> 'v memory" where
  "expire_loop cfg now m =
     (if m_heap m = [] then m
      else let r = PeekEl m
           in if now < it_Expires (ref_item m r) then m
              else let m1 = snd (PopEl m);
                       m2 = tree_Delete (ref_key m1 r) m1
                   in expire_loop cfg now (Emit cfg (OpDelete (ref_key m2 r)) m2))"
  by pat_completeness auto
termination
  by (relation "measure (\<lambda>(cfg, now, m). length (m_heap m))")
    (auto simp: tree_Delete_def Emit_def length_heap_PopEl)

declare expire_loop.simps [simp del]

definition removeExpired :: "memory_config \<Rightarrow> time \<Rightarrow> 'v memory \<Rightarrow> 'v memory" where
  "removeExpired cfg now m = (if cfg_Mirror cfg then m else expire_loop cfg now m)"

definition memory_Create :: "memory_config \<Rightarrow> time \<Rightarrow> 'v item \<Rightarrow> 'v memory \<Rightarrow> lease result \<times> 'v memory" where
  "memory_Create cfg now i m =
     (if it_Key i = [] then (Inl BadParameter, m)
      else let m1 = removeExpired cfg now m
           in if tree_Get (it_Key i) m1 \<noteq> None then (Inl AlreadyExists, m1)
              else (Inr (memory_newLease i), Emit cfg (OpPut i) (processEvent (OpPut i) m1)))"

definition memory_Get :: "memory_config \<Rightarrow> time \<Rightarrow> string \<Rightarrow> 'v memory \<Rightarrow> 'v item result \<times> 'v memory" where
  "memory_Get cfg now key m =
     (if key = [] then (Inl BadParameter, m)
      else let m1 = removeExpired cfg now m
           in case tree_Get key m1 of
                None \<Rightarrow> (Inl NotFound, m1)
              | Some r \<Rightarrow> (Inr (ref_item m1 r), m1))"

definition fresh_ID :: "memory_config \<Rightarrow> 'v item \<Rightarrow> 'v memory \<Rightarrow> 'v item \<times> 'v memory" where
  "fresh_ID cfg i m =
     (if cfg_Mirror cfg then (i, m) else let (j, m1) = generateID m in (i\<lparr>it_ID := j\<rparr>, m1))"

definition memory_Update :: "memory_config \<Rightarrow> time \<Rightarrow> 'v item \<Rightarrow> 'v memory \<Rightarrow> lease result \<times> 'v memory" where
  "memory_Update cfg now i m =
     (if it_Key i = [] then (Inl BadParameter, m)
      else let m1 = removeExpired cfg now m
           in if tree_Get (it_Key i) m1 = None then (Inl NotFound, m1)
              else let (i1, m2) = fresh_ID cfg i m1
                   in (Inr (memory_newLease i1), Emit cfg (OpPut i1) (processEvent (OpPut i1) m2)))"

definition memory_Put :: "memory_config \<Rightarrow> time \<Rightarrow> 'v item \<Rightarrow> 'v memory \<Rightarrow> lease result \<times> 'v memory" where
  "memory_Put cfg now i m =
     (if it_Key i = [] then (Inl BadParameter, m)
      else let (i1, m2) = fresh_ID cfg i (removeExpired cfg now m)
           in (Inr (memory_newLease i1), Emit cfg (OpPut i1) (processEvent (OpPut i1) m2)))"

text \<open>A key that is not nil but empty passes the check of \<open>PutRange\<close>; the two are one value here.\<close>

fun put_items :: "memory_config \<Rightarrow> 'v item list \<Rightarrow> 'v memory \<Rightarrow> 'v memory" where
  "put_items cfg [] m = m"
| "put_items cfg (i # is) m =
     (let (i1, m1) = fresh_ID cfg i m
      in put_items cfg is (Emit cfg (OpPut i1) (processEvent (OpPut i1) m1)))"

definition memory_PutRange :: "memory_config \<Rightarrow> time \<Rightarrow> 'v item list \<Rightarrow> 'v memory \<Rightarrow> unit result \<times> 'v memory" where
  "memory_PutRange cfg now items m =
     (if \<exists>i\<in>set items. it_Key i = [] then (Inl BadParameter, m)
      else (Inr (), put_items cfg items (removeExpired cfg now m)))"

definition memory_Delete :: "memory_config \<Rightarrow> time \<Rightarrow> string \<Rightarrow> 'v memory \<Rightarrow> unit result \<times> 'v memory" where
  "memory_Delete cfg now key m =
     (if key = [] then (Inl BadParameter, m)
      else let m1 = removeExpired cfg now m
           in if tree_Get key m1 = None then (Inl NotFound, m1)
              else (Inr (), Emit cfg (OpDelete key) (processEvent (OpDelete key) m1)))"

fun delete_items :: "memory_config \<Rightarrow> 'v item list \<Rightarrow> 'v memory \<Rightarrow> 'v memory" where
  "delete_items cfg [] m = m"
| "delete_items cfg (i # is) m =
     delete_items cfg is (Emit cfg (OpDelete (it_Key i)) (processEvent (OpDelete (it_Key i)) m))"

definition memory_DeleteRange ::
  "memory_config \<Rightarrow> time \<Rightarrow> string \<Rightarrow> string \<Rightarrow> 'v memory \<Rightarrow> unit result \<times> 'v memory" where
  "memory_DeleteRange cfg now startKey endKey m =
     (if startKey = [] then (Inl BadParameter, m)
      else if endKey = [] then (Inl BadParameter, m)
      else let m1 = removeExpired cfg now m
           in (Inr (), delete_items cfg (getRange startKey endKey NoLimit m1) m1))"

definition memory_GetRange ::
  "memory_config \<Rightarrow> time \<Rightarrow> string \<Rightarrow> string \<Rightarrow> int \<Rightarrow> 'v memory \<Rightarrow> 'v item list result \<times> 'v memory" where
  "memory_GetRange cfg now startKey endKey limit m =
     (if startKey = [] then (Inl BadParameter, m)
      else if endKey = [] then (Inl BadParameter, m)
      else let m1 = removeExpired cfg now m
           in (Inr (getRange startKey endKey (if limit \<le> 0 then DefaultLargeLimit else limit) m1), m1))"

definition memory_KeepAlive ::
  "memory_config \<Rightarrow> time \<Rightarrow> lease \<Rightarrow> time \<Rightarrow> 'v memory \<Rightarrow> unit result \<times> 'v memory" where
  "memory_KeepAlive cfg now lease expires m =
     (if Lease_IsEmpty lease then (Inl BadParameter, m)
      else let m1 = removeExpired cfg now m
           in case tree_Get (ls_Key lease) m1 of
                None \<Rightarrow> (Inl NotFound, m1)
              | Some r \<Rightarrow>
                  (let (i1, m2) = fresh_ID cfg ((ref_item m1 r)\<lparr>it_Expires := expires\<rparr>) m1
                   in (Inr (), Emit cfg (OpPut i1) (processEvent (OpPut i1) m2))))"

definition memory_CompareAndSwap ::
  "memory_config \<Rightarrow> time \<Rightarrow> 'v item \<Rightarrow> 'v item \<Rightarrow> 'v memory \<Rightarrow> lease result \<times> 'v memory" where
  "memory_CompareAndSwap cfg now expected replaceWith m =
     (if it_Key expected = [] then (Inl BadParameter, m)
      else if it_Key replaceWith = [] then (Inl BadParameter, m)
      else if it_Key expected \<noteq> it_Key replaceWith then (Inl BadParameter, m)
      else let m1 = removeExpired cfg now m
           in case tree_Get (it_Key expected) m1 of
                None \<Rightarrow> (Inl CompareFailed, m1)
              | Some r \<Rightarrow>
                  if it_Value (ref_item m1 r) \<noteq> it_Value expected then (Inl CompareFailed, m1)
                  else (Inr (memory_newLease replaceWith),
                        Emit cfg (OpPut replaceWith) (processEvent (OpPut replaceWith) m1)))"

definition memory_backend :: "memory_config \<Rightarrow> ('v memory, 'v) backend" where
  "memory_backend cfg =
     \<lparr>b_Create = memory_Create cfg, b_Put = memory_Put cfg, b_CompareAndSwap = memory_CompareAndSwap cfg,
      b_Update = memory_Update cfg, b_Get = memory_Get cfg, b_GetRange = memory_GetRange cfg,
      b_Delete = memory_Delete cfg, b_DeleteRange = memory_DeleteRange cfg, b_KeepAlive = memory_KeepAlive cfg\<rparr>"

section \<open>The heap keeps its order and the positions of its items\<close>

lemma nth_update_if: "xs[i := y] ! j = (if j = i \<and> i < length xs then y else xs ! j)"
  by (cases "i < length xs") (auto simp: nth_list_update list_update_beyond)

lemma set_index_simps [simp]:
  "ref_item (set_index r i m) x = ref_item m x" "m_tree (set_index r i m) = m_tree m"
  "m_nextID (set_index r i m) = m_nextID m" "m_buf (set_index r i m) = m_buf m"
  "length (m_objs (set_index r i m)) = length (m_objs m)"
  "ref_index (set_index r i m) x = (if x = r \<and> r < length (m_objs m) then i else ref_index m x)"
  by (simp_all add: set_index_def ref_item_def ref_index_def nth_update_if)

lemma heap_update_simps [simp]:
  "ref_item (m_heap_update f m) x = ref_item m x" "ref_index (m_heap_update f m) x = ref_index m x"
  "ref_item (m_tree_update g m) x = ref_item m x" "ref_index (m_tree_update g m) x = ref_index m x"
  "ref_item (m_buf_update h m) x = ref_item m x" "ref_index (m_buf_update h m) x = ref_index m x"
  "ref_item (m_nextID_update k m) x = ref_item m x" "ref_index (m_nextID_update k m) x = ref_index m x"
  by (simp_all add: ref_item_def ref_index_def)

lemma Swap_simps [simp]:
  "ref_item (minHeap_Swap i j m) x = ref_item m x" "m_tree (minHeap_Swap i j m) = m_tree m"
  "m_nextID (minHeap_Swap i j m) = m_nextID m" "m_buf (minHeap_Swap i j m) = m_buf m"
  "length (m_objs (minHeap_Swap i j m)) = length (m_objs m)"
  by (simp_all add: minHeap_Swap_def Let_def)

lemma ref_fun_cong: "(\<And>r. ref_item m' r = ref_item m r) \<Longrightarrow> ref_unix m' = ref_unix m \<and> ref_key m' = ref_key m"
  by (auto simp: ref_unix_def ref_key_def)

lemma Swap_unix [simp]: "ref_unix (minHeap_Swap i j m) = ref_unix m" "ref_key (minHeap_Swap i j m) = ref_key m"
  using ref_fun_cong [of "minHeap_Swap i j m" m] by simp_all

lemma up_simps [simp]:
  "ref_item (up j m) x = ref_item m x" "m_tree (up j m) = m_tree m" "m_nextID (up j m) = m_nextID m"
  "m_buf (up j m) = m_buf m" "length (m_objs (up j m)) = length (m_objs m)"
  by (induction j m rule: up.induct; subst up.simps; simp add: Let_def)+

lemma down_simps [simp]:
  "ref_item (fst (down i n m)) x = ref_item m x" "m_tree (fst (down i n m)) = m_tree m"
  "m_nextID (fst (down i n m)) = m_nextID m" "m_buf (fst (down i n m)) = m_buf m"
  "length (m_objs (fst (down i n m))) = length (m_objs m)"
  by (induction i n m rule: down.induct; subst down.simps; simp add: Let_def)+

definition index_inv :: "'v memory \<Rightarrow> bool" where
  "index_inv m \<longleftrightarrow> distinct (m_heap m) \<and> set (m_heap m) \<subseteq> {..<length (m_objs m)} \<and>
     (\<forall>i < length (m_heap m). ref_index m (m_heap m ! i) = int i) \<and>
     (\<forall>r < length (m_objs m). r \<notin> set (m_heap m) \<longrightarrow> ref_index m r = - 1)"

lemma set_swap_at [simp]: "i < length xs \<Longrightarrow> j < length xs \<Longrightarrow> set (swap_at i j xs) = set xs"
  by (metis mset_swap_at set_mset_mset)

lemma distinct_swap_at [simp]: "i < length xs \<Longrightarrow> j < length xs \<Longrightarrow> distinct (swap_at i j xs) = distinct xs"
  by (metis mset_swap_at mset_eq_imp_distinct_iff)

lemma Swap_index_inv:
  assumes inv: "index_inv m" and ij: "i < length (m_heap m)" "j < length (m_heap m)"
  shows "index_inv (minHeap_Swap i j m)"
proof -
  let ?h = "m_heap m"
  have objs: "?h ! k < length (m_objs m)" if "k < length ?h" for k
    using inv that by (metis index_inv_def lessThan_iff nth_mem subsetD)
  have ne: "?h ! k = ?h ! l \<longleftrightarrow> k = l" if "k < length ?h" "l < length ?h" for k l
    using inv that by (simp add: index_inv_def nth_eq_iff_index_eq)
  have idx: "ref_index (minHeap_Swap i j m) x =
      (if x = ?h ! i then int j else if x = ?h ! j then int i else ref_index m x)" for x
    using ij objs by (simp add: minHeap_Swap_def Let_def nth_swap_at)
  have "ref_index (minHeap_Swap i j m) (swap_at i j ?h ! k) = int k" if "k < length ?h" for k
    using inv ij that ne by (auto simp: idx nth_swap_at index_inv_def)
  moreover have "ref_index (minHeap_Swap i j m) r = - 1" if "r < length (m_objs m)" "r \<notin> set ?h" for r
    using inv ij that by (auto simp: idx index_inv_def)
  ultimately show ?thesis
    using inv ij by (simp add: index_inv_def)
qed

lemma Less_unix: "minHeap_Less i j m \<longleftrightarrow> ref_unix m (m_heap m ! i) < ref_unix m (m_heap m ! j)"
  by (simp add: minHeap_Less_def)

lemma up_spec:
  "index_inv m \<Longrightarrow> j < length (m_heap m) \<Longrightarrow>
     index_inv (up j m) \<and> m_heap (up j m) = heap_up (ref_unix m) (m_heap m) j"
proof (induction j m rule: up.induct)
  case (1 j m)
  show ?case
  proof (cases "par j = j \<or> \<not> minHeap_Less j (par j) m")
    case True
    then show ?thesis
      using 1(2) by (subst up.simps, subst up.simps, subst heap_up.simps) (auto simp: Let_def Less_unix)
  next
    case False
    then have "par j < length (m_heap m)" using par_less [of j] 1(3) by (cases "j = 0") auto
    with False 1 have "index_inv (up (par j) (minHeap_Swap (par j) j m)) \<and>
        m_heap (up (par j) (minHeap_Swap (par j) j m)) = heap_up (ref_unix m) (swap_at (par j) j (m_heap m)) (par j)"
      using Swap_index_inv [of m "par j" j] by simp
    with False show ?thesis
      by (subst up.simps, subst up.simps, subst heap_up.simps) (auto simp: Let_def Less_unix)
  qed
qed

lemma down_spec:
  "index_inv m \<Longrightarrow> n \<le> length (m_heap m) \<Longrightarrow>
     index_inv (fst (down i n m)) \<and>
     (m_heap (fst (down i n m)), snd (down i n m)) = heap_down (ref_unix m) (m_heap m) i n"
proof (induction i n m rule: down.induct)
  case (1 i n m)
  show ?case
  proof (cases "2 * i + 1 < n")
    case False
    with 1(2) show ?thesis
      by (simp add: down.simps [of i n m] heap_down.simps [of _ _ i n])
  next
    case True
    define j where "j = min_child (ref_unix m) (m_heap m) i n"
    have j: "j = (if 2 * i + 1 + 1 < n \<and> minHeap_Less (2 * i + 1 + 1) (2 * i + 1) m then 2 * i + 1 + 1 else 2 * i + 1)"
      by (simp add: j_def min_child_def Less_unix)
    have run: "down i n m = (if \<not> minHeap_Less j i m then (m, i) else down j n (minHeap_Swap i j m))"
      using True unfolding down.simps [of i n m] Let_def j by simp
    have run': "heap_down (ref_unix m) (m_heap m) i n =
        (if \<not> minHeap_Less j i m then (m_heap m, i) else heap_down (ref_unix m) (swap_at i j (m_heap m)) j n)"
      using True unfolding heap_down.simps [of _ _ i n] Let_def j_def Less_unix by simp
    show ?thesis
    proof (cases "minHeap_Less j i m")
      case False
      with run run' 1(2) show ?thesis by simp
    next
      case less: True
      have "i < length (m_heap m)" "j < length (m_heap m)"
        using True 1(3) min_child(2) [OF True, of "ref_unix m" "m_heap m"] by (auto simp: j_def)
      then have "index_inv (minHeap_Swap i j m)" using 1(2) Swap_index_inv by blast
      with 1(1) [OF refl refl _ j] True less 1(3) run run' show ?thesis by simp
    qed
  qed
qed

lemma Push_spec:
  assumes "index_inv m" "r < length (m_objs m)" "r \<notin> set (m_heap m)"
  shows "index_inv (minHeap_Push r m)"
  using assms by (auto simp: index_inv_def minHeap_Push_def Let_def nth_append less_Suc_eq)

lemma take_butlast_set: "distinct xs \<Longrightarrow> xs \<noteq> [] \<Longrightarrow> set (take (length xs - 1) xs) = set xs - {xs ! (length xs - 1)}"
  by (cases xs rule: rev_cases) auto

lemma Pop_spec:
  assumes inv: "index_inv m" and ne: "m_heap m \<noteq> []"
  shows "index_inv (snd (minHeap_Pop m))"
proof -
  define n where "n = length (m_heap m) - 1"
  have set: "set (take n (m_heap m)) = set (m_heap m) - {m_heap m ! n}"
    using inv ne unfolding n_def by (intro take_butlast_set) (auto simp: index_inv_def)
  have n: "n < length (m_heap m)" using ne by (simp add: n_def)
  have "m_heap m ! i \<noteq> m_heap m ! n" if "i < n" for i
    using inv that n by (auto simp: index_inv_def nth_eq_iff_index_eq)
  moreover have "m_heap m ! n < length (m_objs m)"
    using inv n by (metis index_inv_def lessThan_iff nth_mem subsetD)
  moreover have "snd (minHeap_Pop m) = (set_index (m_heap m ! n) (- 1) m)\<lparr>m_heap := take n (m_heap m)\<rparr>"
    by (simp add: minHeap_Pop_def Let_def n_def)
  ultimately show ?thesis
    using inv n by (auto simp: index_inv_def set)
qed

definition heap_inv :: "'v memory \<Rightarrow> bool" where
  "heap_inv m \<longleftrightarrow> index_inv m \<and> is_heap (ref_unix m) (m_heap m)"

lemma Push_simps [simp]:
  "ref_item (minHeap_Push r m) x = ref_item m x" "m_tree (minHeap_Push r m) = m_tree m"
  "m_nextID (minHeap_Push r m) = m_nextID m" "m_buf (minHeap_Push r m) = m_buf m"
  "length (m_objs (minHeap_Push r m)) = length (m_objs m)" "m_heap (minHeap_Push r m) = m_heap m @ [r]"
  by (simp_all add: minHeap_Push_def Let_def)

lemma Pop_simps [simp]:
  "ref_item (snd (minHeap_Pop m)) x = ref_item m x" "m_tree (snd (minHeap_Pop m)) = m_tree m"
  "m_nextID (snd (minHeap_Pop m)) = m_nextID m" "m_buf (snd (minHeap_Pop m)) = m_buf m"
  "length (m_objs (snd (minHeap_Pop m))) = length (m_objs m)"
  "m_heap (snd (minHeap_Pop m)) = take (length (m_heap m) - 1) (m_heap m)"
  by (simp_all add: minHeap_Pop_def Let_def)

lemma El_simps [simp]:
  "ref_item (PushEl r m) x = ref_item m x" "m_tree (PushEl r m) = m_tree m" "m_nextID (PushEl r m) = m_nextID m"
  "m_buf (PushEl r m) = m_buf m" "length (m_objs (PushEl r m)) = length (m_objs m)"
  "ref_item (snd (PopEl m)) x = ref_item m x" "m_tree (snd (PopEl m)) = m_tree m"
  "m_nextID (snd (PopEl m)) = m_nextID m" "m_buf (snd (PopEl m)) = m_buf m"
  "length (m_objs (snd (PopEl m))) = length (m_objs m)"
  "ref_item (RemoveEl r m) x = ref_item m x" "m_tree (RemoveEl r m) = m_tree m" "m_nextID (RemoveEl r m) = m_nextID m"
  "m_buf (RemoveEl r m) = m_buf m" "length (m_objs (RemoveEl r m)) = length (m_objs m)"
  by (simp_all add: PushEl_def PopEl_def RemoveEl_def Let_def case_prod_unfold)

lemma El_keys [simp]:
  "ref_unix (PushEl r m) = ref_unix m" "ref_key (PushEl r m) = ref_key m"
  "ref_unix (snd (PopEl m)) = ref_unix m" "ref_key (snd (PopEl m)) = ref_key m"
  "ref_unix (RemoveEl r m) = ref_unix m" "ref_key (RemoveEl r m) = ref_key m"
  "ref_unix (minHeap_Push r m) = ref_unix m" "ref_unix (fst (down i n m)) = ref_unix m"
  using ref_fun_cong [of "PushEl r m" m] ref_fun_cong [of "snd (PopEl m)" m] ref_fun_cong [of "RemoveEl r m" m]
    ref_fun_cong [of "minHeap_Push r m" m] ref_fun_cong [of "fst (down i n m)" m]
  by simp_all

lemma PushEl_spec:
  assumes inv: "heap_inv m" and r: "r < length (m_objs m)" "r \<notin> set (m_heap m)"
  shows "heap_inv (PushEl r m) \<and> set (m_heap (PushEl r m)) = insert r (set (m_heap m))"
proof -
  have "index_inv (minHeap_Push r m)"
    using inv r by (simp add: heap_inv_def Push_spec)
  then have "index_inv (PushEl r m) \<and> m_heap (PushEl r m) = heap_push (ref_unix m) (m_heap m) r"
    using up_spec [of "minHeap_Push r m" "length (m_heap m)"] by (simp add: PushEl_def heap_push_def Let_def)
  moreover have "set (heap_push (ref_unix m) (m_heap m) r) = insert r (set (m_heap m))"
    by (metis mset_heap_push set_mset_add_mset_insert set_mset_mset)
  ultimately show ?thesis
    using inv heap_push_heap by (auto simp: heap_inv_def)
qed

text \<open>Both removals swap the item with the last one, sift, and cut the slice.\<close>

lemma remove_at:
  assumes inv: "heap_inv m" and i: "i < length (m_heap m)"
    and n: "n = length (m_heap m) - 1"
    and m1: "m1 = (if n \<noteq> i then let (m1, k) = down i n (minHeap_Swap i n m) in if \<not> k > i then up i m1 else m1 else m)"
  shows "heap_inv (snd (minHeap_Pop m1)) \<and> set (m_heap (snd (minHeap_Pop m1))) = set (m_heap m) - {m_heap m ! i}"
proof -
  have idx: "index_inv m" and heap: "is_heap (ref_unix m) (m_heap m)"
    using inv by (simp_all add: heap_inv_def)
  have "index_inv m1 \<and> ref_unix m1 = ref_unix m \<and>
      take (length (m_heap m1) - 1) (m_heap m1) = heap_remove (ref_unix m) (m_heap m) i \<and> m_heap m1 \<noteq> []"
  proof (cases "n = i")
    case True
    then show ?thesis using idx i by (auto simp: m1 heap_remove_def n)
  next
    case False
    then have n': "n < length (m_heap m)" "i < n" using i by (auto simp: n)
    define m2 where "m2 = minHeap_Swap i n m"
    have m2: "index_inv m2" "m_heap m2 = swap_at i n (m_heap m)" "ref_unix m2 = ref_unix m"
      using Swap_index_inv [OF idx i n'(1)] by (simp_all add: m2_def)
    obtain m3 k where run: "down i n m2 = (m3, k)" by fastforce
    have m3: "index_inv m3" "(m_heap m3, k) = heap_down (ref_unix m) (swap_at i n (m_heap m)) i n"
      using down_spec [OF m2(1), of n i] n' unfolding run m2 by simp_all
    have keys: "ref_unix m3 = ref_unix m" using El_keys(8) [of i n m2] unfolding run m2 by simp
    have len: "length (m_heap m3) = length (m_heap m)"
      using length_down_heap [of i n m2] unfolding run m2 by simp
    have m1': "m1 = (if \<not> k > i then up i m3 else m3)"
      using False run by (simp add: m1 m2_def)
    have up: "index_inv (up i m3) \<and> m_heap (up i m3) = heap_up (ref_unix m) (m_heap m3) i"
      using up_spec [OF m3(1)] len i keys by simp
    have keys': "ref_unix (up i m3) = ref_unix m" using ref_fun_cong [of "up i m3" m3] keys by simp
    have "take (length (m_heap m1) - 1) (m_heap m1) = heap_remove (ref_unix m) (m_heap m) i"
    proof -
      have "heap_remove (ref_unix m) (m_heap m) i =
          (let (ys, k) = heap_down (ref_unix m) (swap_at i n (m_heap m)) i n
           in take n (if \<not> k > i then heap_up (ref_unix m) ys i else ys))"
        using False unfolding heap_remove_def Let_def n by simp
      also have "\<dots> = take n (if \<not> k > i then heap_up (ref_unix m) (m_heap m3) i else m_heap m3)"
        unfolding m3(2) [symmetric] by simp
      finally show ?thesis using up len unfolding n m1' by simp
    qed
    moreover have "m_heap m1 \<noteq> []"
      using i len up m1' by (metis length_0_conv length_heap_up less_nat_zero_code)
    ultimately show ?thesis using up m3(1) keys keys' by (simp add: m1')
  qed
  moreover from this have "index_inv (snd (minHeap_Pop m1))" by (intro Pop_spec) simp_all
  moreover have "mset (heap_remove (ref_unix m) (m_heap m) i) = mset (m_heap m) - {#m_heap m ! i#}"
    using i by (rule mset_heap_remove)
  then have "set (heap_remove (ref_unix m) (m_heap m) i) = set (m_heap m) - {m_heap m ! i}"
    using idx by (metis index_inv_def mset_remove1 set_mset_mset set_remove1_eq)
  moreover have "ref_unix (snd (minHeap_Pop m1)) = ref_unix m1"
    using ref_fun_cong [of "snd (minHeap_Pop m1)" m1] by simp
  ultimately show ?thesis
    using heap_remove_heap [OF heap i] by (simp add: heap_inv_def)
qed

lemma RemoveEl_spec:
  assumes inv: "heap_inv m" and r: "r \<in> set (m_heap m)"
  shows "heap_inv (RemoveEl r m) \<and> set (m_heap (RemoveEl r m)) = set (m_heap m) - {r}"
proof -
  obtain i where i: "i < length (m_heap m)" "m_heap m ! i = r"
    using r by (auto simp: in_set_conv_nth)
  then have idx: "nat (ref_index m r) = i"
    using inv by (auto simp: heap_inv_def index_inv_def)
  show ?thesis
    using remove_at [OF inv i(1) refl refl] unfolding RemoveEl_def Let_def idx i(2) .
qed

lemma PopEl_spec:
  assumes inv: "heap_inv m" and ne: "m_heap m \<noteq> []"
  shows "heap_inv (snd (PopEl m)) \<and> set (m_heap (snd (PopEl m))) = set (m_heap m) - {m_heap m ! 0}"
proof -
  let ?n = "length (m_heap m) - 1"
  let ?m1 = "if ?n \<noteq> 0 then let (m1, k) = down 0 ?n (minHeap_Swap 0 ?n m) in if \<not> k > 0 then up 0 m1 else m1 else m"
  have up0: "up 0 m1 = m1" for m1 :: "'a memory" by (subst up.simps) (simp add: par_def)
  have "minHeap_Swap 0 0 m = m" "down 0 0 m = (m, 0)" if "?n = 0"
  proof -
    have objs: "m_heap m ! 0 < length (m_objs m)" and idx: "ref_index m (m_heap m ! 0) = 0"
      using inv ne by (cases "m_heap m"; auto simp: heap_inv_def index_inv_def)+
    then have "(m_objs m ! (m_heap m ! 0))\<lparr>bi_index := 0\<rparr> = m_objs m ! (m_heap m ! 0)"
      by (simp add: ref_index_def)
    then have "set_index (m_heap m ! 0) 0 m = m"
      by (simp add: set_index_def)
    then show "minHeap_Swap 0 0 m = m"
      by (simp add: minHeap_Swap_def Let_def swap_at_def)
    show "down 0 0 m = (m, 0)" by (subst down.simps) simp
  qed
  then have "fst (down 0 ?n (minHeap_Swap 0 ?n m)) = ?m1"
    by (auto simp: case_prod_unfold up0 Let_def simp del: One_nat_def)
  then have "snd (PopEl m) = snd (minHeap_Pop ?m1)"
    by (simp add: PopEl_def Let_def)
  then show ?thesis
    using remove_at [OF inv _ refl refl, of 0] ne by simp
qed

lemma heap_inv_min: "heap_inv m \<Longrightarrow> r \<in> set (m_heap m) \<Longrightarrow> ref_unix m (PeekEl m) \<le> ref_unix m r"
  by (auto simp: heap_inv_def is_heap_def in_set_conv_nth PeekEl_def intro: heap_upto_min)

end
