(* ===== verification/Memory_Contract.thy ===== *)
theory Memory_Contract imports Iteration Memory
begin

text \<open>
  The memory backend keeps the contract of the storage interface: its invariant ties the tree to the heap, its
  view is the map of the items in the tree, and the events it emits replay to that view.
\<close>

section \<open>The tree and the heap hold the same items\<close>

abbreviation keys_sorted :: "('a \<Rightarrow> string) \<Rightarrow> 'a list \<Rightarrow> bool" where
  "keys_sorted key xs \<equiv> sorted_wrt (\<lambda>x y. key x < key y) xs"

lemma find_key_mem: "find (\<lambda>r. key r = k) xs = Some x \<Longrightarrow> x \<in> set xs \<and> key x = k"
  by (auto simp: find_Some_iff)

lemma find_key_sorted: "keys_sorted key xs \<Longrightarrow> find (\<lambda>r. key r = k) xs = Some x \<longleftrightarrow> x \<in> set xs \<and> key x = k"
proof (induction xs)
  case (Cons y ys)
  then show ?case by (auto dest: less_imp_neq)
qed simp

lemma option_eqI: "(\<And>x. a = Some x \<longleftrightarrow> b = Some x) \<Longrightarrow> a = b"
  by (cases a; cases b; simp) (metis option.distinct(1), metis)

lemma keys_sorted_cong: "(\<And>x. x \<in> set xs \<Longrightarrow> f x = g x) \<Longrightarrow> keys_sorted f xs \<longleftrightarrow> keys_sorted g xs"
  by (induction xs) auto

lemma find_filter_key:
  "find (\<lambda>r. key r = k) (filter (\<lambda>r. key r \<noteq> k0) xs) = (if k = k0 then None else find (\<lambda>r. key r = k) xs)"
  by (induction xs) auto

lemma set_insert_ref:
  "keys_sorted key xs \<Longrightarrow> set (insert_ref key r xs) = insert r {x \<in> set xs. key x \<noteq> key r}"
proof (induction xs)
  case (Cons y ys)
  then show ?case by (auto dest: less_imp_neq less_trans)
qed simp

lemma sorted_insert_ref: "keys_sorted key xs \<Longrightarrow> keys_sorted key (insert_ref key r xs)"
proof (induction xs)
  case (Cons y ys)
  then show ?case by (auto simp: set_insert_ref intro: less_trans)
qed simp

lemma find_insert_ref:
  assumes "keys_sorted key xs"
  shows "find (\<lambda>r. key r = k) (insert_ref key r xs) = (if k = key r then Some r else find (\<lambda>r. key r = k) xs)"
proof -
  have mem: "find (\<lambda>r. key r = k) (insert_ref key r xs) = Some x \<longleftrightarrow>
      (if k = key r then x = r else find (\<lambda>r. key r = k) xs = Some x)" for x
    using assms by (auto simp: find_key_sorted sorted_insert_ref set_insert_ref)
  then show ?thesis by (intro option_eqI) auto
qed

definition memory_inv :: "'v memory \<Rightarrow> bool" where
  "memory_inv m \<longleftrightarrow> heap_inv m \<and> set (m_tree m) \<subseteq> {..<length (m_objs m)} \<and> keys_sorted (ref_key m) (m_tree m) \<and>
     set (m_heap m) = {r \<in> set (m_tree m). \<not> is_zero_time (it_Expires (ref_item m r))}"

definition memory_view :: "'v memory \<Rightarrow> string \<Rightarrow> 'v item option" where
  "memory_view m k = map_option (ref_item m) (tree_Get k m)"

lemma memory_view_Some:
  "memory_inv m \<Longrightarrow> memory_view m k = Some i \<longleftrightarrow> (\<exists>r\<in>set (m_tree m). ref_key m r = k \<and> ref_item m r = i)"
  by (auto simp: memory_view_def tree_Get_def memory_inv_def find_key_sorted)

lemma tree_Get_None: "tree_Get k m = None \<longleftrightarrow> memory_view m k = None"
  by (simp add: memory_view_def)

lemma tree_Get_Some:
  "memory_inv m \<Longrightarrow> tree_Get k m = Some r \<longleftrightarrow> r \<in> set (m_tree m) \<and> ref_key m r = k"
  by (simp add: tree_Get_def memory_inv_def find_key_sorted)

lemma memory_inv_New [simp]: "memory_inv memory_New" "memory_view memory_New k = None"
  by (simp_all add: memory_inv_def memory_New_def heap_inv_def index_inv_def is_heap_def heap_upto_def
      memory_view_def tree_Get_def)

lemma is_heap_cong: "(\<And>x. x \<in> set xs \<Longrightarrow> f x = g x) \<Longrightarrow> is_heap f xs \<longleftrightarrow> is_heap g xs"
proof -
  assume eq: "\<And>x. x \<in> set xs \<Longrightarrow> f x = g x"
  have "par k < length xs" if "0 < k" "k < length xs" for k using par_less [of k] that by simp
  with eq show ?thesis by (auto simp: is_heap_def heap_upto_def in_order_def)
qed

lemma index_in_heap:
  "index_inv m \<Longrightarrow> r < length (m_objs m) \<Longrightarrow> ref_index m r \<ge> 0 \<longleftrightarrow> r \<in> set (m_heap m)"
  by (auto simp: index_inv_def in_set_conv_nth)

text \<open>A new object changes nothing yet.\<close>

lemma new_object_spec:
  assumes inv: "memory_inv m" and new: "new_object i m = (r, m1)"
  shows "r = length (m_objs m) \<and> length (m_objs m1) = Suc r \<and> ref_item m1 r = i \<and> m_tree m1 = m_tree m \<and>
    m_heap m1 = m_heap m \<and> m_buf m1 = m_buf m \<and> m_nextID m1 = m_nextID m \<and>
    (\<forall>x<r. ref_item m1 x = ref_item m x) \<and> memory_inv m1 \<and> memory_view m1 = memory_view m"
proof -
  let ?o = "\<lparr>bi_Item = i, bi_index = - 1\<rparr>"
  have r: "r = length (m_objs m)" and m1: "m1 = m\<lparr>m_objs := m_objs m @ [?o]\<rparr>"
    using new by (simp_all add: new_object_def)
  have item: "x < r \<Longrightarrow> ref_item m1 x = ref_item m x" "ref_item m1 r = i" for x
    by (simp_all add: m1 r ref_item_def nth_append)
  have idx: "x < r \<Longrightarrow> ref_index m1 x = ref_index m x" "ref_index m1 r = - 1" for x
    by (simp_all add: m1 r ref_index_def nth_append)
  have m1s: "length (m_objs m1) = Suc r" "m_heap m1 = m_heap m" "m_tree m1 = m_tree m" "m_buf m1 = m_buf m"
    "m_nextID m1 = m_nextID m"
    by (simp_all add: m1 r)
  have tree: "x < r" if "x \<in> set (m_tree m)" for x using inv that by (auto simp: memory_inv_def r)
  have heap: "x < r" if "x \<in> set (m_heap m)" for x using inv that tree by (auto simp: memory_inv_def)
  have "index_inv m1"
  proof -
    have "ref_index m1 (m_heap m ! k) = int k" if "k < length (m_heap m)" for k
      using inv idx(1) [OF heap [OF nth_mem [OF that]]] that
      by (simp add: memory_inv_def heap_inv_def index_inv_def)
    moreover have "ref_index m1 x = - 1" if "x < Suc r" "x \<notin> set (m_heap m)" for x
      using inv that idx by (cases "x = r") (auto simp: memory_inv_def heap_inv_def index_inv_def r)
    ultimately show ?thesis
      using inv heap by (auto simp: memory_inv_def heap_inv_def index_inv_def m1s less_Suc_eq)
  qed
  moreover have "is_heap (ref_unix m1) (m_heap m1)"
  proof -
    have "ref_unix m1 x = ref_unix m x" if "x \<in> set (m_heap m)" for x
      using heap [OF that] item(1) by (simp add: ref_unix_def)
    then show ?thesis
      using inv is_heap_cong [of "m_heap m" "ref_unix m1" "ref_unix m"] by (simp add: memory_inv_def heap_inv_def m1s)
  qed
  moreover have key: "ref_key m1 x = ref_key m x" if "x \<in> set (m_tree m)" for x
    using tree [OF that] item(1) by (simp add: ref_key_def)
  have "keys_sorted (ref_key m1) (m_tree m)"
    using inv key keys_sorted_cong [of "m_tree m" "ref_key m1" "ref_key m"] by (simp add: memory_inv_def)
  moreover have "memory_view m1 = memory_view m"
  proof
    fix k
    have "find (\<lambda>x. ref_key m1 x = k) (m_tree m) = find (\<lambda>x. ref_key m x = k) (m_tree m)"
      using key by (intro find_cong) auto
    moreover have "ref_item m1 x = ref_item m x" if "find (\<lambda>x. ref_key m x = k) (m_tree m) = Some x" for x
      using find_key_mem [OF that] tree item(1) by blast
    ultimately show "memory_view m1 k = memory_view m k"
      by (cases "find (\<lambda>x. ref_key m x = k) (m_tree m)") (simp_all add: memory_view_def tree_Get_def m1s)
  qed
  moreover have "set (m_heap m) = {x \<in> set (m_tree m). \<not> is_zero_time (it_Expires (ref_item m1 x))}"
    using inv tree item(1) by (auto simp: memory_inv_def)
  moreover have "set (m_tree m) \<subseteq> {..<Suc r}" using tree by (auto intro: less_SucI)
  ultimately show ?thesis
    using item r by (simp add: memory_inv_def heap_inv_def m1s)
qed

section \<open>What the operations do to the content\<close>

lemma insert_spec:
  assumes inv: "heap_inv m" and tree: "set (m_tree m) \<subseteq> {..<length (m_objs m)}"
    and sorted: "keys_sorted (ref_key m) (m_tree m)" and r: "r < length (m_objs m)"
    and heap: "set (m_heap m) = {x \<in> insert r {x \<in> set (m_tree m). ref_key m x \<noteq> ref_key m r}.
      \<not> is_zero_time (it_Expires (ref_item m x))}"
  shows "memory_inv (tree_ReplaceOrInsert r m) \<and>
    memory_view (tree_ReplaceOrInsert r m) = (memory_view m)(ref_key m r \<mapsto> ref_item m r)"
proof
  let ?m = "tree_ReplaceOrInsert r m"
  have frame: "ref_item ?m = ref_item m" "ref_key ?m = ref_key m" "ref_unix ?m = ref_unix m" "ref_index ?m = ref_index m"
    by (simp_all add: tree_ReplaceOrInsert_def fun_eq_iff ref_key_def ref_unix_def)
  have parts: "m_tree ?m = insert_ref (ref_key m) r (m_tree m)" "m_heap ?m = m_heap m" "m_objs ?m = m_objs m"
    by (simp_all add: tree_ReplaceOrInsert_def)
  have "heap_inv ?m" using inv by (simp add: heap_inv_def index_inv_def frame parts)
  then show "memory_inv ?m"
    using tree sorted r heap by (auto simp: memory_inv_def frame parts set_insert_ref sorted_insert_ref)
  show "memory_view ?m = (memory_view m)(ref_key m r \<mapsto> ref_item m r)"
    using sorted by (auto simp: memory_view_def tree_Get_def frame parts find_insert_ref fun_eq_iff)
qed

lemma delete_spec:
  assumes inv: "heap_inv m" and tree: "set (m_tree m) \<subseteq> {..<length (m_objs m)}"
    and sorted: "keys_sorted (ref_key m) (m_tree m)"
    and heap: "set (m_heap m) = {x \<in> set (m_tree m). ref_key m x \<noteq> k \<and> \<not> is_zero_time (it_Expires (ref_item m x))}"
  shows "memory_inv (tree_Delete k m) \<and> memory_view (tree_Delete k m) = (memory_view m)(k := None)"
proof
  let ?m = "tree_Delete k m"
  have frame: "ref_item ?m = ref_item m" "ref_key ?m = ref_key m" "ref_unix ?m = ref_unix m" "ref_index ?m = ref_index m"
    by (simp_all add: tree_Delete_def fun_eq_iff ref_key_def ref_unix_def)
  have parts: "m_tree ?m = filter (\<lambda>x. ref_key m x \<noteq> k) (m_tree m)" "m_heap ?m = m_heap m" "m_objs ?m = m_objs m"
    by (simp_all add: tree_Delete_def)
  have "heap_inv ?m" using inv by (simp add: heap_inv_def index_inv_def frame parts)
  then show "memory_inv ?m"
    using tree sorted heap by (auto simp: memory_inv_def frame parts sorted_wrt_filter)
  show "memory_view ?m = (memory_view m)(k := None)"
    by (auto simp: memory_view_def tree_Get_def frame parts find_filter_key fun_eq_iff)
qed

lemma keys_sorted_unique:
  assumes "keys_sorted key xs" "x \<in> set xs" "y \<in> set xs" "key y = key x"
  shows "y = x"
proof -
  have "find (\<lambda>r. key r = key x) xs = Some x" "find (\<lambda>r. key r = key x) xs = Some y"
    using assms by (simp_all add: find_key_sorted)
  then show ?thesis by simp
qed

text \<open>Taking an item out of the heap, if it is there.\<close>

definition unheap :: "nat \<Rightarrow> 'v memory \<Rightarrow> 'v memory" where
  "unheap x m = (if ref_index m x \<ge> 0 then RemoveEl x m else m)"

lemma unheap_spec:
  assumes inv: "heap_inv m" and x: "x < length (m_objs m)"
  shows "heap_inv (unheap x m) \<and> set (m_heap (unheap x m)) = set (m_heap m) - {x} \<and>
    ref_item (unheap x m) = ref_item m \<and> m_tree (unheap x m) = m_tree m \<and>
    length (m_objs (unheap x m)) = length (m_objs m) \<and> m_buf (unheap x m) = m_buf m \<and> m_nextID (unheap x m) = m_nextID m"
proof (cases "ref_index m x \<ge> 0")
  case True
  then have "x \<in> set (m_heap m)" using inv x by (simp add: heap_inv_def index_in_heap)
  with True RemoveEl_spec [OF inv] show ?thesis by (simp add: unheap_def fun_eq_iff)
next
  case False
  then have "x \<notin> set (m_heap m)" using inv x by (simp add: heap_inv_def index_in_heap)
  with False inv show ?thesis by (simp add: unheap_def)
qed

lemma ref_fun_eq: "ref_item m' = ref_item m \<Longrightarrow> ref_key m' = ref_key m \<and> ref_unix m' = ref_unix m"
  by (simp add: ref_key_def ref_unix_def fun_eq_iff)

lemma processEvent_OpPut:
  assumes inv: "memory_inv m"
  shows "memory_inv (processEvent (OpPut i) m) \<and>
    memory_view (processEvent (OpPut i) m) = (memory_view m)(it_Key i \<mapsto> i) \<and>
    m_buf (processEvent (OpPut i) m) = m_buf m \<and> m_nextID (processEvent (OpPut i) m) = m_nextID m"
proof -
  obtain r m1 where new: "new_object i m = (r, m1)" by fastforce
  note n = new_object_spec [OF inv new]
  define m2 where "m2 = (case tree_Get (it_Key i) m1 of Some x \<Rightarrow> unheap x m1 | None \<Rightarrow> m1)"
  define m3 where "m3 = (if \<not> is_zero_time (it_Expires i) then PushEl r m2 else m2)"
  have run: "processEvent (OpPut i) m = tree_ReplaceOrInsert r m3"
    by (simp add: processEvent_def new m2_def m3_def unheap_def Let_def cong: option.case_cong)
  have inv1: "memory_inv m1" and item: "ref_item m1 r = i"
    using n by blast+
  then have key: "ref_key m1 r = it_Key i" by (simp add: ref_key_def)
  have r: "r < length (m_objs m1)" "r \<notin> set (m_tree m1)" using n inv by (auto simp: memory_inv_def)
  have m2: "heap_inv m2 \<and> set (m_heap m2) = {x \<in> set (m_heap m1). ref_key m1 x \<noteq> it_Key i} \<and> ref_item m2 = ref_item m1 \<and>
      m_tree m2 = m_tree m1 \<and> length (m_objs m2) = length (m_objs m1) \<and> m_buf m2 = m_buf m1 \<and> m_nextID m2 = m_nextID m1"
  proof (cases "tree_Get (it_Key i) m1")
    case None
    then have "\<forall>x\<in>set (m_tree m1). ref_key m1 x \<noteq> it_Key i" by (simp add: tree_Get_def find_None_iff)
    then show ?thesis using None inv1 by (auto simp: m2_def memory_inv_def)
  next
    case (Some x)
    then have x: "x \<in> set (m_tree m1)" "ref_key m1 x = it_Key i" using inv1 by (simp_all add: tree_Get_Some)
    have "y = x" if "y \<in> set (m_tree m1)" "ref_key m1 y = it_Key i" for y
      using keys_sorted_unique [of "ref_key m1" "m_tree m1" x y] that x inv1 by (simp add: memory_inv_def)
    moreover have "set (m_heap m1) \<subseteq> set (m_tree m1)" using inv1 unfolding memory_inv_def by blast
    ultimately have "set (m_heap m1) - {x} = {y \<in> set (m_heap m1). ref_key m1 y \<noteq> it_Key i}"
      using x(2) by blast
    moreover have "x < length (m_objs m1)" "heap_inv m1" using x inv1 by (auto simp: memory_inv_def)
    ultimately show ?thesis using Some unheap_spec [of m1 x] by (simp add: m2_def)
  qed
  then have keys: "ref_key m2 = ref_key m1" using ref_fun_eq by blast
  have m3: "heap_inv m3 \<and> set (m_heap m3) = (if is_zero_time (it_Expires i) then {} else {r}) \<union> set (m_heap m2) \<and>
      ref_item m3 = ref_item m2 \<and> m_tree m3 = m_tree m2 \<and> length (m_objs m3) = length (m_objs m2) \<and>
      m_buf m3 = m_buf m2 \<and> m_nextID m3 = m_nextID m2"
  proof (cases "is_zero_time (it_Expires i)")
    case False
    have "r \<notin> set (m_heap m2)" using m2 r inv1 by (auto simp: memory_inv_def)
    then show ?thesis using False PushEl_spec [of m2 r] m2 r by (simp add: m3_def fun_eq_iff)
  qed (use m2 in \<open>simp add: m3_def\<close>)
  have items: "ref_item m3 = ref_item m1" using m2 m3 by simp
  then have keys3: "ref_key m3 = ref_key m1" using ref_fun_eq by blast
  have "memory_inv (tree_ReplaceOrInsert r m3) \<and>
      memory_view (tree_ReplaceOrInsert r m3) = (memory_view m3)(ref_key m3 r \<mapsto> ref_item m3 r)"
    by (rule insert_spec) (use m2 m3 inv1 r item key items keys3 in \<open>auto simp: memory_inv_def\<close>)
  moreover have "memory_view m3 = memory_view m1"
    using m2 m3 by (simp add: memory_view_def tree_Get_def items keys3 fun_eq_iff)
  ultimately show ?thesis
    using n m2 m3 items keys3 key item by (simp add: run tree_ReplaceOrInsert_def)
qed

lemma processEvent_OpDelete:
  assumes inv: "memory_inv m"
  shows "memory_inv (processEvent (OpDelete k) m) \<and>
    memory_view (processEvent (OpDelete k) m) = (memory_view m)(k := None) \<and>
    m_buf (processEvent (OpDelete k) m) = m_buf m \<and> m_nextID (processEvent (OpDelete k) m) = m_nextID m"
proof (cases "tree_Get k m")
  case None
  then have "memory_view m k = None" by (simp add: memory_view_def)
  then have "(memory_view m)(k := None) = memory_view m" by (rule fun_upd_idem)
  with None inv show ?thesis by (simp add: processEvent_def)
next
  case (Some x)
  then have x: "x \<in> set (m_tree m)" "ref_key m x = k" using inv by (simp_all add: tree_Get_Some)
  have unique: "y = x" if "y \<in> set (m_tree m)" "ref_key m y = k" for y
    using keys_sorted_unique [of "ref_key m" "m_tree m" x y] that x inv by (simp add: memory_inv_def)
  have hx: "heap_inv m" "x < length (m_objs m)" using x inv by (auto simp: memory_inv_def)
  define m1 where "m1 = tree_Delete k m"
  have m1: "ref_item m1 = ref_item m" "ref_index m1 = ref_index m" "m_heap m1 = m_heap m" "m_objs m1 = m_objs m"
    "m_tree m1 = filter (\<lambda>y. ref_key m y \<noteq> k) (m_tree m)" "m_buf m1 = m_buf m" "m_nextID m1 = m_nextID m"
    by (simp_all add: m1_def tree_Delete_def fun_eq_iff)
  have keys1: "ref_key m1 = ref_key m" "ref_unix m1 = ref_unix m" using ref_fun_eq [OF m1(1)] by simp_all
  have "heap_inv m1" using hx by (simp add: heap_inv_def index_inv_def m1 keys1)
  then have u: "heap_inv (unheap x m1) \<and> set (m_heap (unheap x m1)) = set (m_heap m) - {x} \<and>
    ref_item (unheap x m1) = ref_item m \<and> m_tree (unheap x m1) = m_tree m1 \<and>
    length (m_objs (unheap x m1)) = length (m_objs m) \<and> m_buf (unheap x m1) = m_buf m \<and> m_nextID (unheap x m1) = m_nextID m"
    using unheap_spec [of m1 x] hx m1 by simp
  then have keys: "ref_key (unheap x m1) = ref_key m" using ref_fun_eq by blast
  have run: "processEvent (OpDelete k) m = unheap x m1"
    using Some by (simp add: processEvent_def unheap_def Let_def m1_def)
  have tree: "set (m_heap m) = {y \<in> set (m_tree m). \<not> is_zero_time (it_Expires (ref_item m y))}"
    using inv by (simp add: memory_inv_def)
  have heap: "set (m_heap m) - {x} = {y \<in> set (m_tree m1). \<not> is_zero_time (it_Expires (ref_item m y))}"
    unfolding tree m1 set_filter using unique x by blast
  have "memory_inv (unheap x m1)"
    using u inv heap keys by (auto simp: memory_inv_def m1 sorted_wrt_filter)
  moreover have "memory_view (unheap x m1) = (memory_view m)(k := None)"
    by (rule ext) (simp add: memory_view_def tree_Get_def m1 u keys find_filter_key)
  ultimately show ?thesis using u by (simp add: run)
qed


section \<open>Expiry\<close>

lemma Emit_simps [simp]:
  "memory_inv (Emit cfg e m) = memory_inv m" "memory_view (Emit cfg e m) = memory_view m"
  "m_nextID (Emit cfg e m) = m_nextID m" "m_heap (Emit cfg e m) = m_heap m" "ref_item (Emit cfg e m) = ref_item m"
  "m_buf (Emit cfg e m) = (if cfg_EventsOff cfg then m_buf m else m_buf m @ [e])"
proof -
  have f: "ref_item (Emit cfg e m) = ref_item m" "ref_index (Emit cfg e m) = ref_index m"
    "m_tree (Emit cfg e m) = m_tree m" "m_objs (Emit cfg e m) = m_objs m" "m_heap (Emit cfg e m) = m_heap m"
    by (simp_all add: Emit_def fun_eq_iff)
  then have k: "ref_key (Emit cfg e m) = ref_key m" "ref_unix (Emit cfg e m) = ref_unix m"
    using ref_fun_eq by blast+
  show "memory_inv (Emit cfg e m) = memory_inv m" by (simp add: memory_inv_def heap_inv_def index_inv_def f k)
  show "memory_view (Emit cfg e m) = memory_view m" by (rule ext) (simp add: memory_view_def tree_Get_def f k)
  show "m_heap (Emit cfg e m) = m_heap m" "ref_item (Emit cfg e m) = ref_item m" by (simp_all add: f)
qed (simp_all add: Emit_def)

text \<open>One round of the loop removes the item at the top of the heap.\<close>

definition expire_top :: "memory_config \<Rightarrow> 'v memory \<Rightarrow> 'v memory" where
  "expire_top cfg m =
     (let m2 = tree_Delete (ref_key m (PeekEl m)) (snd (PopEl m)) in Emit cfg (OpDelete (ref_key m (PeekEl m))) m2)"

lemma expire_loop_step:
  "expire_loop cfg now m =
     (if m_heap m = [] \<or> now < it_Expires (ref_item m (PeekEl m)) then m else expire_loop cfg now (expire_top cfg m))"
proof -
  have "ref_key (tree_Delete k m1) = ref_key m1" for k and m1 :: "'a memory"
    using ref_fun_eq [of "tree_Delete k m1" m1] by (simp add: tree_Delete_def fun_eq_iff)
  then show ?thesis by (subst expire_loop.simps) (simp add: expire_top_def Let_def)
qed

lemma expire_top_spec:
  assumes inv: "memory_inv m" and ne: "m_heap m \<noteq> []"
  shows "memory_inv (expire_top cfg m) \<and>
    memory_view (expire_top cfg m) = (memory_view m)(ref_key m (PeekEl m) := None) \<and>
    memory_view m (ref_key m (PeekEl m)) = Some (ref_item m (PeekEl m)) \<and>
    length (m_heap (expire_top cfg m)) < length (m_heap m) \<and> m_nextID (expire_top cfg m) = m_nextID m \<and>
    m_buf (expire_top cfg m) = m_buf m @ (if cfg_EventsOff cfg then [] else [OpDelete (ref_key m (PeekEl m))])"
proof -
  define r where "r = PeekEl m"
  define m1 where "m1 = snd (PopEl m)"
  have r: "r \<in> set (m_heap m)" using ne by (cases "m_heap m") (simp_all add: r_def PeekEl_def)
  then have rt: "r \<in> set (m_tree m)" using inv unfolding memory_inv_def by blast
  have h: "heap_inv m1" "set (m_heap m1) = set (m_heap m) - {r}"
    using PopEl_spec [of m] inv ne by (simp_all add: m1_def r_def PeekEl_def memory_inv_def)
  have m1: "ref_item m1 = ref_item m" "m_tree m1 = m_tree m" "length (m_objs m1) = length (m_objs m)"
    "m_buf m1 = m_buf m" "m_nextID m1 = m_nextID m" "ref_key m1 = ref_key m"
    by (simp_all add: m1_def fun_eq_iff)
  have unique: "y = r" if "y \<in> set (m_tree m)" "ref_key m y = ref_key m r" for y
    using keys_sorted_unique [of "ref_key m" "m_tree m" r y] that rt inv by (simp add: memory_inv_def)
  have tree: "set (m_heap m) = {y \<in> set (m_tree m). \<not> is_zero_time (it_Expires (ref_item m y))}"
    using inv by (simp add: memory_inv_def)
  have "set (m_heap m1) =
      {x \<in> set (m_tree m1). ref_key m1 x \<noteq> ref_key m r \<and> \<not> is_zero_time (it_Expires (ref_item m1 x))}"
    unfolding h(2) tree m1 using unique rt by blast
  then have d: "memory_inv (tree_Delete (ref_key m r) m1) \<and>
      memory_view (tree_Delete (ref_key m r) m1) = (memory_view m1)(ref_key m r := None)"
    using inv by (intro delete_spec [OF h(1)]) (simp_all add: memory_inv_def m1)
  have "memory_view m1 = memory_view m"
    by (rule ext) (simp add: memory_view_def tree_Get_def m1)
  moreover have "memory_view m (ref_key m r) = Some (ref_item m r)"
    using inv rt by (auto simp: memory_view_Some)
  moreover have "length (m_heap m1) < length (m_heap m)" using ne by (simp add: m1_def length_heap_PopEl)
  ultimately show ?thesis
    using d m1 by (simp add: expire_top_def Let_def r_def [symmetric] m1_def [symmetric])
      (simp add: tree_Delete_def)
qed

lemma expire_loop_spec:
  assumes "memory_inv m"
  shows "memory_inv (expire_loop cfg now m) \<and> memory_view (expire_loop cfg now m) \<subseteq>\<^sub>m memory_view m \<and>
    (\<forall>k i. memory_view m k = Some i \<and> lives now i \<longrightarrow> memory_view (expire_loop cfg now m) k = Some i) \<and>
    (m_heap (expire_loop cfg now m) = [] \<or>
       now < it_Expires (ref_item (expire_loop cfg now m) (PeekEl (expire_loop cfg now m)))) \<and>
    m_nextID (expire_loop cfg now m) = m_nextID m"
  using assms
proof (induction "length (m_heap m)" arbitrary: m rule: less_induct)
  case less
  show ?case
  proof (cases "m_heap m = [] \<or> now < it_Expires (ref_item m (PeekEl m))")
    case True
    then have "expire_loop cfg now m = m" by (subst expire_loop_step) simp
    with True less.prems show ?thesis by simp
  next
    case False
    then have run: "expire_loop cfg now m = expire_loop cfg now (expire_top cfg m)"
      by (subst expire_loop_step) simp
    let ?m = "expire_top cfg m" and ?i = "ref_item m (PeekEl m)" and ?k = "ref_key m (PeekEl m)"
    have top: "memory_inv ?m" "memory_view ?m = (memory_view m)(?k := None)"
      "memory_view m ?k = Some ?i" "length (m_heap ?m) < length (m_heap m)" "m_nextID ?m = m_nextID m"
      using expire_top_spec [OF less.prems, of cfg] False by blast+
    have "PeekEl m \<in> set (m_heap m)" using False by (cases "m_heap m") (simp_all add: PeekEl_def)
    then have "\<not> is_zero_time (it_Expires ?i)" using less.prems unfolding memory_inv_def by blast
    then have dead: "\<not> lives now ?i" using False by (simp add: lives_def)
    note IH = less.hyps [OF top(4) top(1)]
    have keep: "memory_view ?m k = Some i" if "memory_view m k = Some i" "lives now i" for k i
      using that dead top(2,3) by (cases "k = ?k") auto
    have "memory_view ?m \<subseteq>\<^sub>m memory_view m" by (simp add: top(2) map_le_def)
    with IH have "memory_view (expire_loop cfg now ?m) \<subseteq>\<^sub>m memory_view m" by (blast intro: map_le_trans)
    moreover have "\<forall>k i. memory_view m k = Some i \<and> lives now i \<longrightarrow> memory_view (expire_loop cfg now ?m) k = Some i"
      using IH keep by blast
    ultimately show ?thesis unfolding run using IH top(5) by simp
  qed
qed

lemma memory_view_key: "memory_inv m \<Longrightarrow> memory_view m k = Some i \<Longrightarrow> it_Key i = k"
  by (auto simp: memory_view_Some ref_key_def)

lemma finite_memory_view: "memory_inv m \<Longrightarrow> finite (dom (memory_view m))"
proof -
  assume inv: "memory_inv m"
  have "dom (memory_view m) \<subseteq> ref_key m ` set (m_tree m)"
    using inv by (auto simp: memory_view_Some)
  then show ?thesis by (rule finite_subset) simp
qed

lemma unix_less: "unix_seconds t < unix_seconds u \<Longrightarrow> t < u"
  by (metis diff_less_eq unix_seconds_def second_ns_def zdiv_mono1 not_less diff_right_mono zero_less_numeral)

lemma removeExpired_inv: "memory_inv m \<Longrightarrow> memory_inv (removeExpired cfg now m)"
  using expire_loop_spec [of m cfg now] by (cases "cfg_Mirror cfg") (simp_all add: removeExpired_def)

lemma removeExpired_old:
  assumes "memory_inv m" "memory_view (removeExpired cfg now m) k = Some i"
  shows "memory_view m k = Some i"
proof (cases "cfg_Mirror cfg")
  case False
  have "memory_view (expire_loop cfg now m) \<subseteq>\<^sub>m memory_view m" using expire_loop_spec [OF assms(1)] by blast
  with assms(2) False show ?thesis by (simp add: removeExpired_def) (metis domI map_le_def)
qed (use assms in \<open>simp add: removeExpired_def\<close>)

lemma removeExpired_lives:
  "memory_inv m \<Longrightarrow> memory_view m k = Some i \<Longrightarrow> lives now i \<Longrightarrow> memory_view (removeExpired cfg now m) k = Some i"
  using expire_loop_spec [of m cfg now] by (cases "cfg_Mirror cfg") (simp_all add: removeExpired_def)

lemma removeExpired_idem:
  assumes "memory_inv m"
  shows "removeExpired cfg now (removeExpired cfg now m) = removeExpired cfg now m"
proof (cases "cfg_Mirror cfg")
  case False
  have "expire_loop cfg now (expire_loop cfg now m) = expire_loop cfg now m"
    using expire_loop_spec [OF assms, of cfg now] by (subst expire_loop_step) simp
  with False show ?thesis by (simp add: removeExpired_def)
qed (simp add: removeExpired_def)

text \<open>The top of the heap is least by seconds, so whatever has expired by a whole second is gone.\<close>

lemma removeExpired_expired:
  assumes inv: "memory_inv m" and mirror: "\<not> cfg_Mirror cfg"
    and i: "memory_view (removeExpired cfg now m) k = Some i"
  shows "\<not> expired now i"
proof
  assume dead: "expired now i"
  define m' where "m' = expire_loop cfg now m"
  have m': "memory_inv m'" "m_heap m' = [] \<or> now < it_Expires (ref_item m' (PeekEl m'))"
    using expire_loop_spec [OF inv, of cfg now] by (simp_all add: m'_def)
  have "memory_view m' k = Some i" using i mirror by (simp add: removeExpired_def m'_def)
  then obtain r where r: "r \<in> set (m_tree m')" "ref_item m' r = i" using m'(1) by (auto simp: memory_view_Some)
  then have heap: "r \<in> set (m_heap m')" using m'(1) dead unfolding memory_inv_def expired_def by blast
  then have "ref_unix m' (PeekEl m') \<le> unix_seconds (it_Expires i)"
    using heap_inv_min [of m' r] m'(1) r by (simp add: memory_inv_def ref_unix_def)
  also have "\<dots> < unix_seconds now" using dead by (simp add: expired_def)
  finally have "it_Expires (ref_item m' (PeekEl m')) < now" using unix_less by (simp add: ref_unix_def)
  with m'(2) heap show False by auto
qed

lemma getRange_items:
  assumes inv: "memory_inv m"
  shows "getRange a b limit m =
    (if limit > 0 then take (nat limit) (range_items (memory_view m) a b) else range_items (memory_view m) a b)"
proof -
  define rs where "rs = filter (\<lambda>r. a \<le> ref_key m r \<and> ref_key m r < b) (m_tree m)"
  have sorted: "keys_sorted (ref_key m) rs" using inv by (simp add: rs_def memory_inv_def sorted_wrt_filter)
  then have "sorted_wrt (<) (map (ref_key m) rs)" by (simp add: sorted_wrt_map)
  then have strict: "sorted (map (ref_key m) rs)" "distinct (map (ref_key m) rs)"
    using strict_sorted_iff by blast+
  have "set (map (ref_key m) rs) = {k \<in> dom (memory_view m). a \<le> k \<and> k < b}"
    using inv by (auto simp: rs_def memory_view_Some dom_def)
  then have keys: "range_keys (memory_view m) a b = map (ref_key m) rs"
    unfolding range_keys_def using strict by (metis sorted_list_of_set.idem_if_sorted_distinct)
  have "the (memory_view m (ref_key m r)) = ref_item m r" if "r \<in> set rs" for r
  proof -
    have "memory_view m (ref_key m r) = Some (ref_item m r)" using inv that by (auto simp: memory_view_Some rs_def)
    then show ?thesis by simp
  qed
  then have "range_items (memory_view m) a b = map (ref_item m) rs"
    by (simp add: range_items_def keys)
  then show ?thesis by (simp add: getRange_def rs_def Let_def)
qed

section \<open>The memory backend keeps the contract\<close>

lemma emit_put:
  "memory_inv m \<Longrightarrow> memory_inv (Emit cfg (OpPut i) (processEvent (OpPut i) m)) \<and>
     memory_view (Emit cfg (OpPut i) (processEvent (OpPut i) m)) = (memory_view m)(it_Key i \<mapsto> i)"
  using processEvent_OpPut [of m i] by simp

lemma emit_delete:
  "memory_inv m \<Longrightarrow> memory_inv (Emit cfg (OpDelete k) (processEvent (OpDelete k) m)) \<and>
     memory_view (Emit cfg (OpDelete k) (processEvent (OpDelete k) m)) = (memory_view m)(k := None)"
  using processEvent_OpDelete [of m k] by simp

lemma nextID_inv [simp]:
  "memory_inv (m_nextID_update f m) = memory_inv m" "memory_view (m_nextID_update f m) = memory_view m"
proof -
  have e: "ref_item (m_nextID_update f m) = ref_item m" "ref_index (m_nextID_update f m) = ref_index m" by (simp_all add: fun_eq_iff)
  then have k: "ref_key (m_nextID_update f m) = ref_key m" "ref_unix (m_nextID_update f m) = ref_unix m"
    using ref_fun_eq by blast+
  show "memory_inv (m_nextID_update f m) = memory_inv m" by (simp add: memory_inv_def heap_inv_def index_inv_def e k)
  show "memory_view (m_nextID_update f m) = memory_view m" by (rule ext) (simp add: memory_view_def tree_Get_def e k)
qed

lemma fresh_ID_spec:
  assumes "fresh_ID cfg i m = (i1, m1)"
  shows "(\<exists>j. i1 = i\<lparr>it_ID := j\<rparr>) \<and> memory_inv m1 = memory_inv m \<and> memory_view m1 = memory_view m \<and> m_buf m1 = m_buf m"
proof (cases "cfg_Mirror cfg")
  case True
  with assms have "i1 = i\<lparr>it_ID := it_ID i\<rparr>" "m1 = m" by (simp_all add: fresh_ID_def)
  then show ?thesis by blast
next
  case False
  with assms have "i1 = i\<lparr>it_ID := wrap64 (m_nextID m + 1)\<rparr>" "m1 = m\<lparr>m_nextID := wrap64 (m_nextID m + 1)\<rparr>"
    by (simp_all add: fresh_ID_def generateID_def Let_def)
  then show ?thesis by auto
qed

lemma put_fresh:
  assumes inv: "memory_inv m" and f: "fresh_ID cfg i m = (i1, m2)"
  defines "m3 \<equiv> Emit cfg (OpPut i1) (processEvent (OpPut i1) m2)"
  shows "memory_inv m3 \<and> (\<exists>j. memory_view m3 = (memory_view m)(it_Key i \<mapsto> i\<lparr>it_ID := j\<rparr>))"
proof -
  obtain j where j: "i1 = i\<lparr>it_ID := j\<rparr>" using fresh_ID_spec [OF f] by blast
  have m2: "memory_inv m2" "memory_view m2 = memory_view m" using fresh_ID_spec [OF f] inv by simp_all
  have "memory_inv m3 \<and> memory_view m3 = (memory_view m)(it_Key i \<mapsto> i\<lparr>it_ID := j\<rparr>)"
    using emit_put [OF m2(1), of cfg i1] by (simp add: m3_def m2(2) j)
  then show ?thesis by blast
qed

lemma delete_items_spec:
  "memory_inv m \<Longrightarrow> memory_inv (delete_items cfg is m) \<and>
     memory_view (delete_items cfg is m) = (\<lambda>k. if k \<in> it_Key ` set is then None else memory_view m k)"
proof (induction "is" arbitrary: m)
  case (Cons i "is")
  define m1 where "m1 = Emit cfg (OpDelete (it_Key i)) (processEvent (OpDelete (it_Key i)) m)"
  have m1: "memory_inv m1" "memory_view m1 = (memory_view m)(it_Key i := None)"
    using emit_delete [OF Cons.prems, of cfg "it_Key i"] by (simp_all add: m1_def)
  have "delete_items cfg (i # is) m = delete_items cfg is m1" by (simp add: m1_def)
  with Cons.IH [OF m1(1)] m1(2) show ?case by (auto simp: fun_eq_iff)
qed simp

lemma range_keys_items:
  assumes "memory_inv m"
  shows "it_Key ` set (range_items (memory_view m) a b) = {k \<in> dom (memory_view m). a \<le> k \<and> k < b}"
proof -
  have "finite {k \<in> dom (memory_view m). a \<le> k \<and> k < b}" using finite_memory_view [OF assms] by simp
  then have "set (range_keys (memory_view m) a b) = {k \<in> dom (memory_view m). a \<le> k \<and> k < b}"
    by (simp add: range_keys_def)
  then have "it_Key ` set (range_items (memory_view m) a b) =
      (\<lambda>k. it_Key (the (memory_view m k))) ` {k \<in> dom (memory_view m). a \<le> k \<and> k < b}"
    by (simp add: range_items_def image_image)
  also have "\<dots> = (\<lambda>k. k) ` {k \<in> dom (memory_view m). a \<le> k \<and> k < b}"
    using memory_view_key [OF assms] by (intro image_cong) auto
  finally show ?thesis by simp
qed

lemma tree_Get_value: "tree_Get k m = Some r \<Longrightarrow> memory_view m k = Some (ref_item m r)"
  by (simp add: memory_view_def)

lemma memory_kv_store:
  "kv_store (memory_backend cfg) memory_inv memory_view (removeExpired cfg) (\<lambda>k. k \<noteq> [])"
proof (unfold_locales, goal_cases)
  case 1 then show ?case .
next
  case 2 then show ?case by (rule memory_view_key)
next
  case 3 then show ?case by (rule finite_memory_view)
next
  case 4 then show ?case by (rule removeExpired_inv)
next
  case 5 then show ?case by (rule removeExpired_old)
next
  case 6 then show ?case by (rule removeExpired_lives)
next
  case 7 then show ?case by (rule removeExpired_idem)
next
  case (8 s k now)
  then show ?case
    by (simp add: memory_backend_def memory_Get_def Let_def memory_view_def split: option.split)
next
  case (9 s a b now limit)
  then show ?case
    using getRange_items [OF removeExpired_inv [OF 9(1), of cfg now]]
    by (simp add: memory_backend_def memory_GetRange_def Let_def range_limit_def DefaultLargeLimit_def)
next
  case (10 s i now)
  then show ?case
    using emit_put [OF removeExpired_inv [OF 10(1), of cfg now], of cfg i] removeExpired_inv [OF 10(1), of cfg now]
    by (simp add: memory_backend_def memory_Create_def Let_def tree_Get_None)
next
  case (11 s i now)
  obtain i1 m2 where f: "fresh_ID cfg i (removeExpired cfg now s) = (i1, m2)" by fastforce
  show ?case
    using put_fresh [OF removeExpired_inv [OF 11(1)] f] 11(2)
    by (simp add: memory_backend_def memory_Put_def f)
next
  case (12 s i now)
  obtain i1 m2 where f: "fresh_ID cfg i (removeExpired cfg now s) = (i1, m2)" by fastforce
  let ?m = "removeExpired cfg now s"
  have inv: "memory_inv ?m" using 12(1) by (rule removeExpired_inv)
  show ?case
  proof (cases "memory_view ?m (it_Key i)")
    case None
    with 12 inv show ?thesis by (simp add: memory_backend_def memory_Update_def Let_def tree_Get_None)
  next
    case (Some x)
    with 12 put_fresh [OF inv f] show ?thesis
      by (simp add: memory_backend_def memory_Update_def Let_def f tree_Get_None)
  qed
next
  case (13 s old new now)
  let ?m = "removeExpired cfg now s"
  have inv: "memory_inv ?m" using 13(1) by (rule removeExpired_inv)
  show ?case
  proof (cases "tree_Get (it_Key old) ?m")
    case None
    then have "memory_view ?m (it_Key old) = None" by (simp add: tree_Get_None [symmetric])
    with None 13 inv show ?thesis
      by (simp add: memory_backend_def memory_CompareAndSwap_def Let_def value_at_def)
  next
    case (Some r)
    then have "value_at (memory_view ?m) (it_Key old) = Some (it_Value (ref_item ?m r))"
      by (simp add: value_at_def tree_Get_value)
    with Some 13 inv emit_put [OF inv, of cfg new] show ?thesis
      by (simp add: memory_backend_def memory_CompareAndSwap_def Let_def)
  qed
next
  case (14 s k now)
  let ?m = "removeExpired cfg now s"
  have inv: "memory_inv ?m" using 14(1) by (rule removeExpired_inv)
  show ?case
  proof (cases "memory_view ?m k")
    case None
    with 14 inv show ?thesis by (simp add: memory_backend_def memory_Delete_def Let_def tree_Get_None fun_upd_idem)
  next
    case (Some i)
    with 14 inv emit_delete [OF inv, of cfg k] show ?thesis
      by (simp add: memory_backend_def memory_Delete_def Let_def tree_Get_None)
  qed
next
  case (15 s a b now)
  let ?m = "removeExpired cfg now s"
  have inv: "memory_inv ?m" using 15(1) by (rule removeExpired_inv)
  have items: "getRange a b NoLimit ?m = range_items (memory_view ?m) a b"
    using getRange_items [OF inv, of a b NoLimit] by (simp add: NoLimit_def)
  have "(\<lambda>k. if k \<in> it_Key ` set (range_items (memory_view ?m) a b) then None else memory_view ?m k) =
      (\<lambda>k. if a \<le> k \<and> k < b then None else memory_view ?m k)"
    unfolding range_keys_items [OF inv] by (auto simp: fun_eq_iff)
  with 15 delete_items_spec [OF inv, of cfg "range_items (memory_view ?m) a b"] show ?case
    by (simp add: memory_backend_def memory_DeleteRange_def Let_def items)
next
  case (16 s lease now expires)
  let ?m = "removeExpired cfg now s"
  have inv: "memory_inv ?m" using 16(1) by (rule removeExpired_inv)
  have lease: "\<not> Lease_IsEmpty lease" using 16(2) by (simp add: Lease_IsEmpty_def)
  show ?case
  proof (cases "tree_Get (ls_Key lease) ?m")
    case None
    then have "memory_view ?m (ls_Key lease) = None" by (simp add: tree_Get_None [symmetric])
    with None lease inv show ?thesis by (simp add: memory_backend_def memory_KeepAlive_def Let_def)
  next
    case (Some r)
    let ?i = "(ref_item ?m r)\<lparr>it_Expires := expires\<rparr>"
    obtain i1 m2 where f: "fresh_ID cfg ?i ?m = (i1, m2)" by fastforce
    have key: "it_Key (ref_item ?m r) = ls_Key lease"
      using memory_view_key [OF inv tree_Get_value [OF Some]] .
    from Some lease put_fresh [OF inv f] tree_Get_value [OF Some] show ?thesis
      by (simp add: memory_backend_def memory_KeepAlive_def Let_def f key)
  qed
qed

interpretation mem: kv_store "memory_backend cfg" memory_inv memory_view "removeExpired cfg" "\<lambda>k. k \<noteq> []" for cfg
  by (rule memory_kv_store)

interpretation keyed_mem: kv_keyed "memory_backend cfg" memory_inv memory_view "removeExpired cfg" "\<lambda>k. k \<noteq> []" for cfg
  by unfold_locales (simp add: Key_def, rule RangeEnd_Key)

definition auth_memory :: "bool \<Rightarrow> memory_config" where
  "auth_memory eventsOff = \<lparr>cfg_Mirror = False, cfg_EventsOff = eventsOff\<rparr>"

interpretation auth: kv_expiring "memory_backend (auth_memory e)" memory_inv memory_view "removeExpired (auth_memory e)"
  "\<lambda>k. k \<noteq> []" for e
proof (unfold_locales, goal_cases)
  case (1 s now k i)
  then show ?case using removeExpired_expired [of s "auth_memory e" now k i] by (simp add: auth_memory_def)
qed

text \<open>The storage of the auth server: the memory backend behind the sanitizer.\<close>

interpretation safe_mem: kv_store "Sanitizer (memory_backend cfg)" memory_inv memory_view "removeExpired cfg"
  "\<lambda>k. k \<noteq> [] \<and> isKeySafe k" for cfg
  by (rule mem.Sanitizer_kv_store)

section \<open>The events tell the whole content\<close>

definition apply_event :: "(string \<Rightarrow> 'v item option) \<Rightarrow> 'v event \<Rightarrow> string \<Rightarrow> 'v item option" where
  "apply_event v e = (case e of OpPut i \<Rightarrow> v(it_Key i \<mapsto> i) | OpDelete k \<Rightarrow> v(k := None))"

definition replay :: "'v event list \<Rightarrow> string \<Rightarrow> 'v item option" where
  "replay es = foldl apply_event Map.empty es"

definition logged :: "'v memory \<Rightarrow> bool" where
  "logged m \<longleftrightarrow> memory_inv m \<and> memory_view m = replay (m_buf m)"

lemma replay_snoc [simp]: "replay (es @ [e]) = apply_event (replay es) e"
  by (simp add: replay_def)

lemma emit_logged:
  "logged m \<Longrightarrow> \<not> cfg_EventsOff cfg \<Longrightarrow> logged (Emit cfg e (processEvent e m))"
  using processEvent_OpPut [of m] processEvent_OpDelete [of m]
  by (cases e) (simp_all add: logged_def apply_event_def)

lemma expire_loop_logged:
  "logged m \<Longrightarrow> \<not> cfg_EventsOff cfg \<Longrightarrow> logged (expire_loop cfg now m)"
proof (induction "length (m_heap m)" arbitrary: m rule: less_induct)
  case less
  show ?case
  proof (cases "m_heap m = [] \<or> now < it_Expires (ref_item m (PeekEl m))")
    case True
    then show ?thesis using less.prems by (subst expire_loop_step) simp
  next
    case False
    then have run: "expire_loop cfg now m = expire_loop cfg now (expire_top cfg m)"
      by (subst expire_loop_step) simp
    have "memory_inv m" using less.prems by (simp add: logged_def)
    with False have top: "logged (expire_top cfg m)" "length (m_heap (expire_top cfg m)) < length (m_heap m)"
      using expire_top_spec [of m cfg] less.prems by (simp_all add: logged_def apply_event_def)
    show ?thesis unfolding run using less.hyps [OF top(2,1)] less.prems by simp
  qed
qed

lemma removeExpired_logged: "logged m \<Longrightarrow> \<not> cfg_EventsOff cfg \<Longrightarrow> logged (removeExpired cfg now m)"
  by (simp add: removeExpired_def expire_loop_logged)

lemma fresh_ID_logged: "logged m \<Longrightarrow> fresh_ID cfg i m = (i1, m1) \<Longrightarrow> logged m1"
  using fresh_ID_spec [of cfg i m i1 m1] by (simp add: logged_def)

lemma put_items_logged: "logged m \<Longrightarrow> \<not> cfg_EventsOff cfg \<Longrightarrow> logged (put_items cfg is m)"
  by (induction "is" arbitrary: m) (auto simp: emit_logged fresh_ID_logged split: prod.split)

lemma delete_items_logged: "logged m \<Longrightarrow> \<not> cfg_EventsOff cfg \<Longrightarrow> logged (delete_items cfg is m)"
  by (induction "is" arbitrary: m) (simp_all add: emit_logged)

text \<open>The steps of the backend, at any times and with any arguments.\<close>

inductive memory_step :: "memory_config \<Rightarrow> 'v memory \<Rightarrow> 'v memory \<Rightarrow> bool" for cfg where
  create: "memory_step cfg m (snd (memory_Create cfg now i m))"
| put: "memory_step cfg m (snd (memory_Put cfg now i m))"
| put_range: "memory_step cfg m (snd (memory_PutRange cfg now is m))"
| update: "memory_step cfg m (snd (memory_Update cfg now i m))"
| cas: "memory_step cfg m (snd (memory_CompareAndSwap cfg now old new m))"
| get: "memory_step cfg m (snd (memory_Get cfg now k m))"
| get_range: "memory_step cfg m (snd (memory_GetRange cfg now a b limit m))"
| delete: "memory_step cfg m (snd (memory_Delete cfg now k m))"
| delete_range: "memory_step cfg m (snd (memory_DeleteRange cfg now a b m))"
| keep_alive: "memory_step cfg m (snd (memory_KeepAlive cfg now lease expires m))"

inductive memory_run :: "memory_config \<Rightarrow> 'v memory \<Rightarrow> bool" for cfg where
  start: "memory_run cfg memory_New"
| step: "memory_run cfg m \<Longrightarrow> memory_step cfg m m' \<Longrightarrow> memory_run cfg m'"

lemma memory_step_logged:
  assumes "memory_step cfg m m'" "logged m" "\<not> cfg_EventsOff cfg"
  shows "logged m'"
  using assms(1)
  by (cases rule: memory_step.cases)
    (use assms(2,3) in \<open>auto simp: memory_Create_def memory_Put_def memory_PutRange_def memory_Update_def
      memory_CompareAndSwap_def memory_Get_def memory_GetRange_def memory_Delete_def memory_DeleteRange_def
      memory_KeepAlive_def Let_def removeExpired_logged put_items_logged delete_items_logged
      intro: emit_logged fresh_ID_logged [OF removeExpired_logged] split: prod.split option.split\<close>)

lemma memory_run_logged: "memory_run cfg m \<Longrightarrow> \<not> cfg_EventsOff cfg \<Longrightarrow> logged m"
proof (induction rule: memory_run.induct)
  case start
  show ?case by (simp add: logged_def replay_def fun_eq_iff) (simp add: memory_New_def)
next
  case (step m m')
  then show ?case by (blast intro: memory_step_logged)
qed

end
