(* ===== verification/Trust.thy ===== *)
theory Trust
  imports Authority Memory_Contract
begin

text \<open>
  The store of certificate authorities, \<open>lib/services/local/trust.go\<close>, over any backend: its methods marshal,
  validate and write the authorities under keys made of their type and name. A method that calls the backend
  several times takes a clock, which gives the time of each call in turn.
\<close>

section \<open>Methods\<close>

definition authoritiesPrefix :: string where
  "authoritiesPrefix = ''authorities''"

definition deactivatedPrefix :: string where
  "deactivatedPrefix = ''deactivated''"

definition ca_key :: "string \<Rightarrow> string \<Rightarrow> string" where
  "ca_key caType name = Key [authoritiesPrefix, caType, name]"

definition deactivated_key :: "string \<Rightarrow> string \<Rightarrow> string" where
  "deactivated_key caType name = Key [authoritiesPrefix, deactivatedPrefix, caType, name]"

definition ca_Expiry :: "cert_authority \<Rightarrow> time" where
  "ca_Expiry ca = (case md_Expires (ca_Metadata ca) of None \<Rightarrow> zero_time | Some t \<Rightarrow> t)"

definition ca_GetResourceID :: "cert_authority \<Rightarrow> int" where
  "ca_GetResourceID ca = md_ID (ca_Metadata ca)"

definition ca_item :: "cert_authority \<Rightarrow> cert_authority \<Rightarrow> cert_authority item" where
  "ca_item ca value =
     \<lparr>it_Key = ca_key (ca_Type ca) (ca_name ca), it_Value = value, it_Expires = ca_Expiry ca, it_ID = 0, it_LeaseID = 0\<rparr>"

definition CreateCertAuthority ::
  "('s, cert_authority) backend \<Rightarrow> key_parsers \<Rightarrow> time \<Rightarrow> cert_authority \<Rightarrow> 's \<Rightarrow> unit result \<times> 's" where
  "CreateCertAuthority bk kp now ca s =
     (case ValidateCertAuthority kp ca of
        Inl e \<Rightarrow> (Inl e, s)
      | Inr ca1 \<Rightarrow>
          (case MarshalCertAuthority kp ca1 of
             Inl e \<Rightarrow> (Inl e, s)
           | Inr value \<Rightarrow> unit_of (b_Create bk now (ca_item ca1 value) s)))"

definition UpsertCertAuthority ::
  "('s, cert_authority) backend \<Rightarrow> key_parsers \<Rightarrow> time \<Rightarrow> cert_authority \<Rightarrow> 's \<Rightarrow> unit result \<times> 's" where
  "UpsertCertAuthority bk kp now ca s =
     (case ValidateCertAuthority kp ca of
        Inl e \<Rightarrow> (Inl e, s)
      | Inr ca1 \<Rightarrow>
          (case MarshalCertAuthority kp ca1 of
             Inl e \<Rightarrow> (Inl e, s)
           | Inr value \<Rightarrow> unit_of (b_Put bk now ((ca_item ca1 value)\<lparr>it_ID := ca_GetResourceID ca1\<rparr>) s)))"

text \<open>Validation fills in the defaults of its argument, so the keys are those of the validated authorities.\<close>

definition CompareAndSwapCertAuthority ::
  "('s, cert_authority) backend \<Rightarrow> key_parsers \<Rightarrow> time \<Rightarrow> cert_authority \<Rightarrow> cert_authority \<Rightarrow> 's \<Rightarrow> unit result \<times> 's" where
  "CompareAndSwapCertAuthority bk kp now new existing s =
     (case ValidateCertAuthority kp new of
        Inl e \<Rightarrow> (Inl e, s)
      | Inr new1 \<Rightarrow>
          (case MarshalCertAuthority kp new1 of
             Inl e \<Rightarrow> (Inl e, s)
           | Inr newValue \<Rightarrow>
               (case ValidateCertAuthority kp existing of
                  Inl e \<Rightarrow> (Inl e, s)
                | Inr existing1 \<Rightarrow>
                    (case MarshalCertAuthority kp existing1 of
                       Inl e \<Rightarrow> (Inl e, s)
                     | Inr existingValue \<Rightarrow>
                         unit_of (b_CompareAndSwap bk now (ca_item existing1 existingValue) (ca_item new1 newValue) s)))))"

definition DeleteCertAuthority ::
  "('s, cert_authority) backend \<Rightarrow> (nat \<Rightarrow> time) \<Rightarrow> string \<times> string \<Rightarrow> 's \<Rightarrow> unit result \<times> 's" where
  "DeleteCertAuthority bk clock caID s =
     (case CertAuthID_Check (fst caID) (snd caID) of
        Inl e \<Rightarrow> (Inl e, s)
      | Inr _ \<Rightarrow>
          (case b_Delete bk (clock 0) (deactivated_key (fst caID) (snd caID)) s of
             (r, s1) \<Rightarrow>
               if r \<noteq> Inr () \<and> r \<noteq> Inl NotFound then (r, s1)
               else b_Delete bk (clock 1) (ca_key (fst caID) (snd caID)) s1))"

definition ActivateCertAuthority ::
  "('s, cert_authority) backend \<Rightarrow> key_parsers \<Rightarrow> (nat \<Rightarrow> time) \<Rightarrow> string \<times> string \<Rightarrow> 's \<Rightarrow> unit result \<times> 's" where
  "ActivateCertAuthority bk kp clock caID s =
     (case b_Get bk (clock 0) (deactivated_key (fst caID) (snd caID)) s of
        (Inl e, s1) \<Rightarrow> (Inl (if e = NotFound then BadParameter else e), s1)
      | (Inr i, s1) \<Rightarrow>
          (case UnmarshalCertAuthority kp (it_ID i) (it_Value i) of
             Inl e \<Rightarrow> (Inl e, s1)
           | Inr certAuthority \<Rightarrow>
               (case UpsertCertAuthority bk kp (clock 1) certAuthority s1 of
                  (Inl e, s2) \<Rightarrow> (Inl e, s2)
                | (Inr _, s2) \<Rightarrow> b_Delete bk (clock 2) (deactivated_key (fst caID) (snd caID)) s2)))"

definition setSigningKeys :: "cert_authority \<Rightarrow> bool \<Rightarrow> cert_authority" where
  "setSigningKeys ca loadSigningKeys = (if loadSigningKeys then ca else RemoveCASecrets ca)"

definition GetCertAuthority ::
  "('s, cert_authority) backend \<Rightarrow> key_parsers \<Rightarrow> time \<Rightarrow> string \<times> string \<Rightarrow> bool \<Rightarrow> 's \<Rightarrow> cert_authority result \<times> 's" where
  "GetCertAuthority bk kp now caID loadSigningKeys s =
     (case CertAuthID_Check (fst caID) (snd caID) of
        Inl e \<Rightarrow> (Inl e, s)
      | Inr _ \<Rightarrow>
          (case b_Get bk now (ca_key (fst caID) (snd caID)) s of
             (Inl e, s1) \<Rightarrow> (Inl e, s1)
           | (Inr i, s1) \<Rightarrow>
               (case UnmarshalCertAuthority kp (it_ID i) (it_Value i) of
                  Inl e \<Rightarrow> (Inl e, s1)
                | Inr ca \<Rightarrow>
                    (case ValidateCertAuthority kp ca of
                       Inl e \<Rightarrow> (Inl e, s1)
                     | Inr ca1 \<Rightarrow> (Inr (setSigningKeys ca1 loadSigningKeys), s1)))))"

definition DeactivateCertAuthority ::
  "('s, cert_authority) backend \<Rightarrow> key_parsers \<Rightarrow> (nat \<Rightarrow> time) \<Rightarrow> string \<times> string \<Rightarrow> 's \<Rightarrow> unit result \<times> 's" where
  "DeactivateCertAuthority bk kp clock caID s =
     (case GetCertAuthority bk kp (clock 0) caID True s of
        (Inl e, s1) \<Rightarrow> (Inl e, s1)
      | (Inr certAuthority, s1) \<Rightarrow>
          (case DeleteCertAuthority bk (\<lambda>n. clock (n + 1)) caID s1 of
             (Inl e, s2) \<Rightarrow> (Inl e, s2)
           | (Inr _, s2) \<Rightarrow>
               (case MarshalCertAuthority kp certAuthority of
                  Inl e \<Rightarrow> (Inl e, s2)
                | Inr value \<Rightarrow>
                    unit_of (b_Put bk (clock 3)
                      \<lparr>it_Key = deactivated_key (fst caID) (snd caID), it_Value = value, it_Expires = ca_Expiry certAuthority,
                       it_ID = ca_GetResourceID certAuthority, it_LeaseID = 0\<rparr> s2))))"

definition read_item :: "key_parsers \<Rightarrow> bool \<Rightarrow> cert_authority item \<Rightarrow> cert_authority result" where
  "read_item kp loadSigningKeys i =
     (case UnmarshalCertAuthority kp (it_ID i) (it_Value i) of
        Inl e \<Rightarrow> Inl e
      | Inr ca \<Rightarrow>
          (case ValidateCertAuthority kp ca of Inl e \<Rightarrow> Inl e | Inr ca1 \<Rightarrow> Inr (setSigningKeys ca1 loadSigningKeys)))"

definition GetCertAuthorities ::
  "('s, cert_authority) backend \<Rightarrow> key_parsers \<Rightarrow> time \<Rightarrow> string \<Rightarrow> bool \<Rightarrow> 's \<Rightarrow> cert_authority list result \<times> 's" where
  "GetCertAuthorities bk kp now caType loadSigningKeys s =
     (case CertAuthType_Check caType of
        Inl e \<Rightarrow> (Inl e, s)
      | Inr _ \<Rightarrow>
          (let startKey = Key [authoritiesPrefix, caType]
           in case b_GetRange bk now startKey (RangeEnd startKey) NoLimit s of
                (Inl e, s1) \<Rightarrow> (Inl e, s1)
              | (Inr items, s1) \<Rightarrow> (map_res (read_item kp loadSigningKeys) items, s1)))"

section \<open>Reading, comparing and swapping\<close>

text \<open>What a store of authorities holds: under the key of an authority, a value that was marshalled from it.\<close>

definition holds :: "key_parsers \<Rightarrow> (string \<Rightarrow> cert_authority item option) \<Rightarrow> string \<times> string \<Rightarrow> bool" where
  "holds kp m caID \<longleftrightarrow> (\<forall>i. m (ca_key (fst caID) (snd caID)) = Some i \<longrightarrow>
     stored_ca kp (it_Value i) \<and> ca_Type (it_Value i) = fst caID \<and> ca_name (it_Value i) = snd caID \<and>
     it_Expires i = ca_Expiry (it_Value i))"

lemma ca_Expiry_SetResourceID [simp]: "ca_Expiry (ca_SetResourceID i ca) = ca_Expiry ca"
  by (simp add: ca_Expiry_def ca_SetResourceID_def)

lemma trusted_sets_SetResourceID [simp]:
  "trusted_ssh (ca_SetResourceID i ca) = trusted_ssh ca" "trusted_tls (ca_SetResourceID i ca) = trusted_tls ca"
  "trusted_jwt (ca_SetResourceID i ca) = trusted_jwt ca"
  by (simp_all add: trusted_defs)

lemma ca_key_ne: "ca_key t n \<noteq> []"
  by (simp add: ca_key_def Key_def)

lemma stored_ca_valid:
  "stored_ca kp v \<Longrightarrow> ValidateCertAuthority kp (ca_SetResourceID i v) = Inr (ca_SetResourceID i v)"
  using Validate_SetResourceID by (simp add: stored_ca_def)

lemma Marshal_validated:
  "ValidateCertAuthority kp ca = Inr ca1 \<Longrightarrow> MarshalCertAuthority kp ca1 = MarshalCertAuthority kp ca"
  using ValidateCertAuthority_idem [of kp ca ca1] by (simp add: MarshalCertAuthority_def)

lemma Marshal_item:
  assumes "ValidateCertAuthority kp ca = Inr ca1" "MarshalCertAuthority kp ca = Inr nv" "haveNewCAKeys ca"
  shows "stored_ca kp nv \<and> ca_Type nv = ca_Type ca1 \<and> ca_name nv = ca_name ca1 \<and> ca_Expiry nv = ca_Expiry ca1 \<and>
    CertAuthID_Check (ca_Type ca1) (ca_name ca1) = Inr ()"
proof -
  have sync: "SyncCertAuthorityKeys (ca_SetResourceID 0 ca1) = Inr nv"
    using assms(1,2) by (simp add: MarshalCertAuthority_def)
  have valid: "ValidateCertAuthority kp (ca_SetResourceID 0 ca1) = Inr (ca_SetResourceID 0 ca1)"
    using Validate_SetResourceID ValidateCertAuthority_idem assms(1) by blast
  have chk: "ca_CheckAndSetDefaults ca = Inr ca1" using assms(1) by (simp add: ValidateCertAuthority_Inr)
  then have "ca_ActiveKeys ca1 = ca_ActiveKeys ca"
    unfolding ca_CheckAndSetDefaults_Inr by auto
  moreover have ok: "ca_ok ca1" using chk by (rule ca_check_ok)
  ultimately have "haveNewCAKeys (ca_SetResourceID 0 ca1)" using assms(3) by (simp add: haveNew_Empty)
  from Sync_ok [OF valid this sync] have meta: "ca_Metadata nv = ca_Metadata (ca_SetResourceID 0 ca1)" by blast
  have "ca_name nv = ca_name (ca_SetResourceID 0 ca1)" "ca_Expiry nv = ca_Expiry (ca_SetResourceID 0 ca1)"
    by (simp_all only: ca_name_def ca_Expiry_def meta)
  then show ?thesis
    using MarshalCertAuthority_stored [OF assms(2,3)] ca_CheckAndSetDefaults_valid [OF chk] ok
    by (simp add: ca_ok_def)
qed

lemma ca_key_inj:
  assumes "t \<in> {HostCA, UserCA, JWTSigner}" "t' \<in> {HostCA, UserCA, JWTSigner}"
  shows "ca_key t n = ca_key t' n' \<longleftrightarrow> t = t' \<and> n = n'"
  using assms by (elim insertE emptyE) (simp_all add: ca_key_def Key_def Separator_def ca_type_defs)

lemma holds_update:
  assumes "ValidateCertAuthority kp ca = Inr ca1" "MarshalCertAuthority kp ca = Inr nv" "haveNewCAKeys ca"
    "holds kp m caID" "CertAuthID_Check (fst caID) (snd caID) = Inr ()"
  shows "holds kp (m(ca_key (ca_Type ca1) (ca_name ca1) \<mapsto> (ca_item ca1 nv)\<lparr>it_ID := j\<rparr>)) caID"
proof -
  note new = Marshal_item [OF assms(1-3)]
  have types: "ca_Type ca1 \<in> {HostCA, UserCA, JWTSigner}" "fst caID \<in> {HostCA, UserCA, JWTSigner}"
    using new assms(5) unfolding CertAuthID_Check_Inr by blast+
  show ?thesis
  proof (cases "ca_key (fst caID) (snd caID) = ca_key (ca_Type ca1) (ca_name ca1)")
    case True
    then have "fst caID = ca_Type ca1 \<and> snd caID = ca_name ca1" using ca_key_inj [OF types(2,1)] by simp
    with new True show ?thesis by (simp add: holds_def ca_item_def)
  next
    case False
    with assms(4) show ?thesis by (simp add: holds_def)
  qed
qed

lemma holds_subset: "holds kp m caID \<Longrightarrow> m' \<subseteq>\<^sub>m m \<Longrightarrow> holds kp m' caID"
  unfolding holds_def by (metis domI map_le_def)

text \<open>A store of authorities is a backend whose values are authorities.\<close>

locale ca_store = kv_store bk inv view purge safe
  for bk :: "('s, cert_authority) backend" and inv and view :: "'s \<Rightarrow> string \<Rightarrow> cert_authority item option"
    and purge and safe +
  fixes kp :: key_parsers
begin

lemma get_stored:
  assumes "inv s" "safe (ca_key t n)" "CertAuthID_Check t n = Inr ()" "holds kp (view s) (t, n)"
    "view (purge now s) (ca_key t n) = Some i"
  shows "GetCertAuthority bk kp now (t, n) True s = (Inr (ca_SetResourceID (it_ID i) (it_Value i)), purge now s)"
proof -
  have "stored_ca kp (it_Value i)"
    using assms(4) purge_old [OF assms(1,5)] by (simp add: holds_def)
  then show ?thesis
    using assms by (simp add: GetCertAuthority_def get stored_ca_read stored_ca_valid setSigningKeys_def)
qed

lemma get_missing:
  assumes "inv s" "safe (ca_key t n)" "CertAuthID_Check t n = Inr ()" "view (purge now s) (ca_key t n) = None"
  shows "GetCertAuthority bk kp now (t, n) b s = (Inl NotFound, purge now s)"
  using assms by (simp add: GetCertAuthority_def get)

lemma swap_stored:
  assumes inv: "inv s" and safe: "safe (ca_key (ca_Type v) (ca_name v))" and v: "stored_ca kp v"
    and new: "ValidateCertAuthority kp new = Inr new1" "MarshalCertAuthority kp new = Inr value"
      "ca_Type new1 = ca_Type v" "ca_name new1 = ca_name v"
  defines "k \<equiv> ca_key (ca_Type v) (ca_name v)"
  shows "\<exists>s'. CompareAndSwapCertAuthority bk kp now new (ca_SetResourceID j v) s =
        (if value_at (view (purge now s)) k = Some v then Inr () else Inl CompareFailed, s') \<and> inv s' \<and>
      view s' = (if value_at (view (purge now s)) k = Some v then (view (purge now s))(k \<mapsto> ca_item new1 value)
                 else view (purge now s))"
proof -
  have old: "ValidateCertAuthority kp (ca_SetResourceID j v) = Inr (ca_SetResourceID j v)"
    "MarshalCertAuthority kp (ca_SetResourceID j v) = Inr v"
    using v by (simp_all add: stored_ca_valid stored_ca_read)
  let ?old = "ca_item (ca_SetResourceID j v) v" and ?new = "ca_item new1 value"
  have keys: "it_Key ?old = k" "it_Key ?new = k" "it_Value ?old = v"
    using new by (simp_all add: ca_item_def k_def)
  obtain l s' where run: "b_CompareAndSwap bk now ?old ?new s =
        (if value_at (view (purge now s)) (it_Key ?old) = Some (it_Value ?old) then Inr l else Inl CompareFailed, s')"
      "inv s'"
      "view s' = (if value_at (view (purge now s)) (it_Key ?old) = Some (it_Value ?old)
                  then (view (purge now s))(it_Key ?old \<mapsto> ?new) else view (purge now s))"
    using compare_and_swap [OF inv, of ?old ?new now] safe keys by (metis k_def)
  have "CompareAndSwapCertAuthority bk kp now new (ca_SetResourceID j v) s = unit_of (b_CompareAndSwap bk now ?old ?new s)"
    using new old Marshal_validated [OF new(1)] by (simp add: CompareAndSwapCertAuthority_def)
  with run keys show ?thesis by (intro exI [of _ s']) auto
qed

text \<open>No update is lost: a swap against what was read succeeds only if the store still has that value.\<close>

lemma no_lost_update:
  assumes read: "inv s0" "safe (ca_key t n)" "holds kp (view s0) (t, n)"
      "GetCertAuthority bk kp t0 (t, n) True s0 = (Inr existing, s1)"
    and new: "ValidateCertAuthority kp new = Inr new1" "ca_Type new1 = t" "ca_name new1 = n"
    and swap: "inv s2" "CompareAndSwapCertAuthority bk kp t2 new existing s2 = (Inr (), s3)"
  shows "value_at (view (purge t2 s2)) (ca_key t n) = value_at (view (purge t0 s0)) (ca_key t n) \<and>
    (\<exists>value. MarshalCertAuthority kp new = Inr value \<and>
       view s3 = (view (purge t2 s2))(ca_key t n \<mapsto> ca_item new1 value))"
proof -
  have chk: "CertAuthID_Check t n = Inr ()"
    using read(4) by (cases "CertAuthID_Check t n") (simp_all add: GetCertAuthority_def)
  obtain i where i: "view (purge t0 s0) (ca_key t n) = Some i"
    using read(4) get_missing [OF read(1,2) chk, of t0 True] by fastforce
  then have hv: "stored_ca kp (it_Value i)" "ca_Type (it_Value i) = t" "ca_name (it_Value i) = n"
    using read(3) purge_old [OF read(1) i] by (simp_all add: holds_def)
  have existing: "existing = ca_SetResourceID (it_ID i) (it_Value i)"
    using read(4) get_stored [OF read(1,2) chk read(3) i] by simp
  obtain nv where nv: "MarshalCertAuthority kp new = Inr nv"
    using swap(2) new(1) Marshal_validated [OF new(1)]
    by (cases "MarshalCertAuthority kp new") (simp_all add: CompareAndSwapCertAuthority_def)
  have "safe (ca_key (ca_Type (it_Value i)) (ca_name (it_Value i)))" using read(2) hv by simp
  from swap_stored [OF swap(1) this hv(1) new(1) nv, of t2 "it_ID i"] swap(2) hv new existing i nv
  show ?thesis by (auto simp: value_at_def split: if_split_asm)
qed

text \<open>What was created is read back with the keys it was created with.\<close>

lemma create_get:
  assumes inv: "inv s" and ca: "haveNewCAKeys ca" "ValidateCertAuthority kp ca = Inr ca1"
    and safe: "safe (ca_key (ca_Type ca1) (ca_name ca1))"
    and run: "CreateCertAuthority bk kp now ca s = (Inr (), s1)"
    and alive: "is_zero_time (ca_Expiry ca1) \<or> later < ca_Expiry ca1"
  shows "\<exists>got s2. GetCertAuthority bk kp later (ca_Type ca1, ca_name ca1) True s1 = (Inr got, s2) \<and>
    GetActiveKeys got = GetActiveKeys ca \<and> trusted_ssh got = trusted_ssh ca \<and> trusted_tls got = trusted_tls ca \<and>
    trusted_jwt got = trusted_jwt ca"
proof -
  let ?k = "ca_key (ca_Type ca1) (ca_name ca1)"
  obtain nv where nv: "MarshalCertAuthority kp ca = Inr nv"
    using run ca(2) Marshal_validated [OF ca(2)]
    by (cases "MarshalCertAuthority kp ca") (simp_all add: CreateCertAuthority_def)
  obtain r s' where c: "b_Create bk now (ca_item ca1 nv) s = (r, s')" by fastforce
  then have "unit_of (r, s') = (Inr (), s1)"
    using run ca(2) Marshal_validated [OF ca(2)] nv by (simp add: CreateCertAuthority_def)
  then obtain l where l: "r = Inr l" "s' = s1" by (cases r) simp_all
  have key: "it_Key (ca_item ca1 nv) = ?k" by (simp add: ca_item_def)
  then have created: "view s1 = (view (purge now s))(?k \<mapsto> ca_item ca1 nv)" "inv s1"
    using create_Inr [OF inv, of "ca_item ca1 nv" now l s1] safe c l by simp_all
  note new = Marshal_item [OF ca(2) nv ca(1)]
  have "lives later (ca_item ca1 nv)" using alive by (simp add: lives_def ca_item_def)
  then have i: "view (purge later s1) ?k = Some (ca_item ca1 nv)"
    using purge_lives [OF created(2), of ?k "ca_item ca1 nv" later] created(1) by simp
  have "holds kp (view s1) (ca_Type ca1, ca_name ca1)"
    using new created(1) by (simp add: holds_def ca_item_def)
  then have "GetCertAuthority bk kp later (ca_Type ca1, ca_name ca1) True s1 =
      (Inr (ca_SetResourceID 0 nv), purge later s1)"
    using get_stored [OF created(2) safe _ _ i] new by (simp add: ca_item_def)
  then show ?thesis
    using MarshalCertAuthority_stored [OF nv ca(1)] by simp
qed

end

interpretation ca_mem: ca_store "Sanitizer (memory_backend cfg)" memory_inv memory_view "removeExpired cfg"
  "\<lambda>k. k \<noteq> [] \<and> isKeySafe k" kp for cfg kp
  by unfold_locales

end
