(* ===== verification/Rotation.thy ===== *)
theory Rotation
  imports Trust
begin

text \<open>
  Rotation of certificate authorities: the requests, phases and transitions of \<open>lib/auth/rotate.go\<close>, the key
  stores of \<open>lib/auth/keystore\<close> and the parts of \<open>lib/auth/auth.go\<close> that make and merge key sets. Generation
  of keys is a parameter: the n-th call of \<open>GenerateRSA\<close> returns the key, and the public forms of a key are
  functions of it. The identifier of a new rotation is a parameter too.
\<close>

section \<open>Key stores\<close>

definition pkcs11Prefix :: string where
  "pkcs11Prefix = ''pkcs11:''"

definition KeyType :: "string \<Rightarrow> private_key_type" where
  "KeyType key = (if has_prefix key pkcs11Prefix then PKCS11 else RAW)"

record key_store =
  ks_GenerateRSA :: "nat \<Rightarrow> string result"
  ks_SSHPublicKey :: "string \<Rightarrow> string result"
  ks_SelfSignedCA :: "string \<Rightarrow> string \<Rightarrow> string result"
  ks_MarshalPublicKey :: "string \<Rightarrow> string result"
  ks_keySetHasLocalKeys :: "ca_key_set \<Rightarrow> bool"

definition newSSHKeyPair :: "key_store \<Rightarrow> nat \<Rightarrow> ssh_key_pair result" where
  "newSSHKeyPair ks n =
     (case ks_GenerateRSA ks n of
        Inl e \<Rightarrow> Inl e
      | Inr sshKey \<Rightarrow>
          (case ks_SSHPublicKey ks sshKey of
             Inl e \<Rightarrow> Inl e
           | Inr publicKey \<Rightarrow>
               Inr \<lparr>ssh_PublicKey = publicKey, ssh_PrivateKey = sshKey, ssh_PrivateKeyType = KeyType sshKey\<rparr>))"

definition newTLSKeyPair :: "key_store \<Rightarrow> nat \<Rightarrow> string \<Rightarrow> tls_key_pair result" where
  "newTLSKeyPair ks n clusterName =
     (case ks_GenerateRSA ks n of
        Inl e \<Rightarrow> Inl e
      | Inr tlsKey \<Rightarrow>
          (case ks_SelfSignedCA ks tlsKey clusterName of
             Inl e \<Rightarrow> Inl e
           | Inr tlsCert \<Rightarrow> Inr \<lparr>tls_Cert = tlsCert, tls_Key = tlsKey, tls_KeyType = KeyType tlsKey\<rparr>))"

definition newJWTKeyPair :: "key_store \<Rightarrow> nat \<Rightarrow> jwt_key_pair result" where
  "newJWTKeyPair ks n =
     (case ks_GenerateRSA ks n of
        Inl e \<Rightarrow> Inl e
      | Inr jwtKey \<Rightarrow>
          (case ks_MarshalPublicKey ks jwtKey of
             Inl e \<Rightarrow> Inl e
           | Inr publicKey \<Rightarrow>
               Inr \<lparr>jwt_PublicKey = publicKey, jwt_PrivateKey = jwtKey, jwt_PrivateKeyType = KeyType jwtKey\<rparr>))"

definition raw_keySetHasLocalKeys :: "ca_key_set \<Rightarrow> bool" where
  "raw_keySetHasLocalKeys ks =
     ((\<exists>k\<in>set (ks_SSH ks). ssh_PrivateKeyType k = RAW) \<or> (\<exists>k\<in>set (ks_TLS ks). tls_KeyType k = RAW) \<or>
      (\<exists>k\<in>set (ks_JWT ks). jwt_PrivateKeyType k = RAW))"

text \<open>The identifier of a key in an HSM names its host; \<open>parseKeyID\<close> reads it as JSON after the prefix.\<close>

definition parseKeyID :: "(string \<Rightarrow> string result) \<Rightarrow> string \<Rightarrow> string result" where
  "parseKeyID unmarshalHostID key =
     (if KeyType key \<noteq> PKCS11 then Inl BadParameter else unmarshalHostID (drop (length pkcs11Prefix) key))"

definition hsm_key_is_local :: "(string \<Rightarrow> string result) \<Rightarrow> string \<Rightarrow> private_key_type \<Rightarrow> string \<Rightarrow> bool" where
  "hsm_key_is_local unmarshalHostID hostUUID kt key = (kt = PKCS11 \<and> parseKeyID unmarshalHostID key = Inr hostUUID)"

definition hsm_keySetHasLocalKeys :: "(string \<Rightarrow> string result) \<Rightarrow> string \<Rightarrow> ca_key_set \<Rightarrow> bool" where
  "hsm_keySetHasLocalKeys um hostUUID ks =
     ((\<exists>k\<in>set (ks_SSH ks). hsm_key_is_local um hostUUID (ssh_PrivateKeyType k) (ssh_PrivateKey k)) \<or>
      (\<exists>k\<in>set (ks_TLS ks). hsm_key_is_local um hostUUID (tls_KeyType k) (tls_Key k)) \<or>
      (\<exists>k\<in>set (ks_JWT ks). hsm_key_is_local um hostUUID (jwt_PrivateKeyType k) (jwt_PrivateKey k)))"

definition HasLocalActiveKeys :: "key_store \<Rightarrow> cert_authority \<Rightarrow> bool" where
  "HasLocalActiveKeys ks ca = ks_keySetHasLocalKeys ks (GetActiveKeys ca)"

definition HasLocalAdditionalKeys :: "key_store \<Rightarrow> cert_authority \<Rightarrow> bool" where
  "HasLocalAdditionalKeys ks ca = ks_keySetHasLocalKeys ks (GetAdditionalTrustedKeys ca)"

definition mergeKeySets :: "ca_key_set \<Rightarrow> ca_key_set \<Rightarrow> ca_key_set" where
  "mergeKeySets a b = \<lparr>ks_SSH = ks_SSH a @ ks_SSH b, ks_TLS = ks_TLS a @ ks_TLS b, ks_JWT = ks_JWT a @ ks_JWT b\<rparr>"

definition newKeySet :: "key_store \<Rightarrow> nat \<Rightarrow> string \<times> string \<Rightarrow> ca_key_set result" where
  "newKeySet ks n caID =
     (if fst caID \<in> {UserCA, HostCA} then
        (case newSSHKeyPair ks n of
           Inl e \<Rightarrow> Inl e
         | Inr sshKeyPair \<Rightarrow>
             (case newTLSKeyPair ks (n + 1) (snd caID) of
                Inl e \<Rightarrow> Inl e
              | Inr tlsKeyPair \<Rightarrow> Inr \<lparr>ks_SSH = [sshKeyPair], ks_TLS = [tlsKeyPair], ks_JWT = []\<rparr>))
      else if fst caID = JWTSigner then
        (case newJWTKeyPair ks n of
           Inl e \<Rightarrow> Inl e
         | Inr jwtKeyPair \<Rightarrow> Inr \<lparr>ks_SSH = [], ks_TLS = [], ks_JWT = [jwtKeyPair]\<rparr>)
      else Inl BadParameter)"

section \<open>Requests\<close>

record rotate_request =
  rr_Type :: string
  rr_GracePeriod :: "duration option"
  rr_TargetPhase :: string
  rr_Mode :: string
  rr_Schedule :: "rotation_schedule option"

definition RotationGracePeriod :: duration where
  "RotationGracePeriod = 30 * 3600 * second_ns"

definition RotateRequest_Types :: "rotate_request \<Rightarrow> string list" where
  "RotateRequest_Types r =
     (if rr_Type r = [] then [HostCA, UserCA, JWTSigner]
      else if rr_Type r = HostCA then [HostCA]
      else if rr_Type r = UserCA then [UserCA]
      else if rr_Type r = JWTSigner then [JWTSigner]
      else [])"

definition RotateRequest_CheckAndSetDefaults :: "time \<Rightarrow> rotate_request \<Rightarrow> rotate_request result" where
  "RotateRequest_CheckAndSetDefaults now r =
     (let r1 = (if rr_TargetPhase r = [] then r\<lparr>rr_TargetPhase := RotationPhaseInit\<rparr> else r);
          r2 = (if rr_Mode r1 = [] then r1\<lparr>rr_Mode := RotationModeManual\<rparr> else r1)
      in if rr_Type r2 \<notin> {[], HostCA, UserCA, JWTSigner} then Inl BadParameter
         else
           (let period = (case rr_GracePeriod r2 of None \<Rightarrow> RotationGracePeriod | Some p \<Rightarrow> p);
                r3 = r2\<lparr>rr_GracePeriod := Some period\<rparr>
            in case rr_Schedule r3 of
                 None \<Rightarrow>
                   (case GenerateSchedule now period of
                      Inl e \<Rightarrow> Inl e
                    | Inr sch \<Rightarrow> Inr (r3\<lparr>rr_Schedule := Some sch\<rparr>))
               | Some sch \<Rightarrow>
                   (case Schedule_CheckAndSetDefaults now sch of Inl e \<Rightarrow> Inl e | Inr _ \<Rightarrow> Inr r3)))"

record rotation_req =
  req_ca :: cert_authority
  req_targetPhase :: string
  req_mode :: string
  req_gracePeriod :: duration
  req_schedule :: rotation_schedule
  req_privateKey :: string
  req_caSigningAlg :: "string option"

section \<open>Transitions\<close>

text \<open>
  What the code does with a private key that tests pass in: parse it, and derive the SSH key, the certificate
  (signed for the cluster at the current time) and the JWT pair.
\<close>

record test_keys =
  tk_ParseRawPrivateKey :: "string \<Rightarrow> trace_error option"
  tk_SSHPublicKey :: "string \<Rightarrow> string result"
  tk_SelfSignedCA :: "string \<Rightarrow> string \<Rightarrow> time \<Rightarrow> string result"
  tk_MarshalPrivateKey :: "string \<Rightarrow> (string \<times> string) result"

definition keys_from_private :: "test_keys \<Rightarrow> time \<Rightarrow> string \<Rightarrow> ca_key_set \<Rightarrow> string \<Rightarrow> ca_key_set result" where
  "keys_from_private tk now privateKey activeKeys clusterName =
     (case tk_ParseRawPrivateKey tk privateKey of
        Some e \<Rightarrow> Inl e
      | None \<Rightarrow>
          (case (if ks_SSH activeKeys \<noteq> [] then
                   (case tk_SSHPublicKey tk privateKey of
                      Inl e \<Rightarrow> Inl e
                    | Inr pub \<Rightarrow> Inr [\<lparr>ssh_PublicKey = pub, ssh_PrivateKey = privateKey, ssh_PrivateKeyType = RAW\<rparr>])
                 else Inr []) of
             Inl e \<Rightarrow> Inl e
           | Inr ssh \<Rightarrow>
               (case (if ks_TLS activeKeys \<noteq> [] then
                        (case tk_SelfSignedCA tk privateKey clusterName now of
                           Inl e \<Rightarrow> Inl e
                         | Inr cert \<Rightarrow> Inr [\<lparr>tls_Cert = cert, tls_Key = privateKey, tls_KeyType = RAW\<rparr>])
                      else Inr []) of
                  Inl e \<Rightarrow> Inl e
                | Inr tls \<Rightarrow>
                    (case (if ks_JWT activeKeys \<noteq> [] then
                             (case tk_MarshalPrivateKey tk privateKey of
                                Inl e \<Rightarrow> Inl e
                              | Inr (pub, priv) \<Rightarrow>
                                  Inr [\<lparr>jwt_PublicKey = pub, jwt_PrivateKey = priv, jwt_PrivateKeyType = RAW\<rparr>])
                           else Inr []) of
                       Inl e \<Rightarrow> Inl e
                     | Inr jwt \<Rightarrow> Inr \<lparr>ks_SSH = ssh, ks_TLS = tls, ks_JWT = jwt\<rparr>))))"

definition new_rotation_keys ::
  "key_store \<Rightarrow> test_keys \<Rightarrow> time \<Rightarrow> nat \<Rightarrow> rotation_req \<Rightarrow> cert_authority \<Rightarrow> ca_key_set result" where
  "new_rotation_keys ks tk now n req ca =
     (let activeKeys = GetActiveKeys ca; additionalKeys = GetAdditionalTrustedKeys ca
      in if req_privateKey req \<noteq> [] then
           keys_from_private tk now (req_privateKey req) activeKeys (ca_ClusterName ca)
         else
           (let newKeys = (if \<not> Empty additionalKeys then additionalKeys else no_keys)
            in if \<not> HasLocalAdditionalKeys ks ca then
                 (case newKeySet ks n (ca_Type ca, ca_name ca) of
                    Inl e \<Rightarrow> Inl e
                  | Inr newLocalKeys \<Rightarrow> Inr (mergeKeySets newLocalKeys newKeys))
               else Inr newKeys))"

definition startNewRotation ::
  "key_store \<Rightarrow> test_keys \<Rightarrow> time \<Rightarrow> string \<Rightarrow> nat \<Rightarrow> rotation_req \<Rightarrow> cert_authority \<Rightarrow> cert_authority result" where
  "startNewRotation ks tk now uuid n req ca =
     (case new_rotation_keys ks tk now n req ca of
        Inl e \<Rightarrow> Inl e
      | Inr newKeys \<Rightarrow>
          (let rotation = (GetRotation ca)\<lparr>rot_Mode := req_mode req, rot_Schedule := req_schedule req, rot_Started := now,
                             rot_GracePeriod := req_gracePeriod req, rot_CurrentID := uuid\<rparr>
           in case (if req_gracePeriod req = 0 then SetActiveKeys newKeys ca else SetAdditionalTrustedKeys newKeys ca) of
                Inl e \<Rightarrow> Inl e
              | Inr ca1 \<Rightarrow>
                  (let rotation1 = (if req_gracePeriod req = 0
                                    then rotation\<lparr>rot_State := RotationStateStandby, rot_Phase := RotationPhaseStandby\<rparr>
                                    else rotation\<lparr>rot_State := RotationStateInProgress, rot_Phase := RotationPhaseInit\<rparr>);
                       ca2 = SetRotation rotation1 ca1
                   in Inr (case req_caSigningAlg req of None \<Rightarrow> ca2 | Some alg \<Rightarrow> SetSigningAlgName alg ca2))))"

definition swap_key_sets :: "cert_authority \<Rightarrow> cert_authority result" where
  "swap_key_sets ca =
     (let oldActive = GetActiveKeys ca; oldTrusted = GetAdditionalTrustedKeys ca
      in case SetActiveKeys oldTrusted ca of
           Inl e \<Rightarrow> Inl e
         | Inr ca1 \<Rightarrow> SetAdditionalTrustedKeys oldActive ca1)"

definition updateClients :: "string \<Rightarrow> cert_authority \<Rightarrow> cert_authority result" where
  "updateClients mode ca =
     (case swap_key_sets ca of
        Inl e \<Rightarrow> Inl e
      | Inr ca1 \<Rightarrow>
          Inr (SetRotation ((GetRotation ca1)\<lparr>rot_State := RotationStateInProgress,
                             rot_Phase := RotationPhaseUpdateClients, rot_Mode := mode\<rparr>) ca1))"

definition startRollingBackRotation :: "cert_authority \<Rightarrow> cert_authority result" where
  "startRollingBackRotation ca =
     (let rotation = GetRotation ca
      in case (if rot_Phase rotation \<noteq> RotationPhaseInit then swap_key_sets ca else Inr ca) of
           Inl e \<Rightarrow> Inl e
         | Inr ca1 \<Rightarrow>
             Inr (SetRotation (rotation\<lparr>rot_Mode := RotationModeManual, rot_State := RotationStateInProgress,
                                rot_Phase := RotationPhaseRollback\<rparr>) ca1))"

text \<open>The error of \<open>SetAdditionalTrustedKeys\<close>, which the code drops, cannot occur for the empty key set.\<close>

definition completeRotation :: "time \<Rightarrow> cert_authority \<Rightarrow> cert_authority" where
  "completeRotation now ca =
     (let ca1 = (case SetAdditionalTrustedKeys no_keys ca of Inl _ \<Rightarrow> ca | Inr ca1 \<Rightarrow> ca1)
      in SetRotation ((GetRotation ca1)\<lparr>rot_Started := zero_time, rot_State := RotationStateStandby,
           rot_Phase := RotationPhaseStandby, rot_LastRotated := now, rot_Mode := [], rot_Schedule := no_schedule\<rparr>) ca1)"

definition processRotationRequest ::
  "key_store \<Rightarrow> test_keys \<Rightarrow> time \<Rightarrow> string \<Rightarrow> nat \<Rightarrow> rotation_req \<Rightarrow> cert_authority result" where
  "processRotationRequest ks tk now uuid n req =
     (let ca = req_ca req; rotation = GetRotation ca; target = req_targetPhase req
      in if target = RotationPhaseInit then
           (if rot_State rotation \<notin> {RotationStateStandby, []} then Inl BadParameter
            else startNewRotation ks tk now uuid n req ca)
         else if target = RotationPhaseUpdateClients then
           (if rot_Phase rotation \<noteq> RotationPhaseInit then Inl BadParameter
            else updateClients (req_mode req) ca)
         else if target = RotationPhaseUpdateServers then
           (if rot_Phase rotation \<noteq> RotationPhaseUpdateClients then Inl BadParameter
            else Inr (SetRotation (rotation\<lparr>rot_Phase := target, rot_Mode := req_mode req\<rparr>) ca))
         else if target = RotationPhaseRollback then
           (if rot_Phase rotation \<in> {RotationPhaseInit, RotationPhaseUpdateClients, RotationPhaseUpdateServers}
            then startRollingBackRotation ca else Inl BadParameter)
         else if target = RotationPhaseStandby then
           (if rot_Phase rotation \<in> {RotationPhaseUpdateServers, RotationPhaseRollback}
            then Inr (completeRotation now ca) else Inl BadParameter)
         else Inl BadParameter)"

section \<open>The auth server\<close>

record auth_server =
  as_clusterName :: "string result"
  as_keyStore :: key_store
  as_testKeys :: test_keys
  as_keyParsers :: key_parsers
  as_privateKey :: string
  as_caSigningAlg :: "string option"

text \<open>
  One certificate authority after the other is read, moved and swapped in. \<open>clock\<close>, \<open>uuids\<close> and the number of the
  next key are those of the round of the loop.
\<close>

fun rotate_types ::
  "('s, cert_authority) backend \<Rightarrow> auth_server \<Rightarrow> (nat \<Rightarrow> time) \<Rightarrow> (nat \<Rightarrow> string) \<Rightarrow> rotate_request \<Rightarrow> string \<Rightarrow>
     string list \<Rightarrow> nat \<Rightarrow> 's \<Rightarrow> unit result \<times> 's" where
  "rotate_types bk a clock uuids req clusterName [] j s = (Inr (), s)"
| "rotate_types bk a clock uuids req clusterName (caType # caTypes) j s =
     (case GetCertAuthority bk (as_keyParsers a) (clock (3 * j)) (caType, clusterName) True s of
        (Inl e, s1) \<Rightarrow> (Inl e, s1)
      | (Inr existing, s1) \<Rightarrow>
          (case processRotationRequest (as_keyStore a) (as_testKeys a) (clock (3 * j + 1)) (uuids j) (2 * j)
                  \<lparr>req_ca = existing, req_targetPhase = rr_TargetPhase req, req_mode = rr_Mode req,
                   req_gracePeriod = the (rr_GracePeriod req), req_schedule = the (rr_Schedule req),
                   req_privateKey = as_privateKey a, req_caSigningAlg = as_caSigningAlg a\<rparr> of
             Inl e \<Rightarrow> (Inl e, s1)
           | Inr rotated \<Rightarrow>
               (case CompareAndSwapCertAuthority bk (as_keyParsers a) (clock (3 * j + 2)) rotated existing s1 of
                  (Inl e, s2) \<Rightarrow> (Inl e, s2)
                | (Inr _, s2) \<Rightarrow> rotate_types bk a clock uuids req clusterName caTypes (j + 1) s2)))"

definition RotateCertAuthority ::
  "('s, cert_authority) backend \<Rightarrow> auth_server \<Rightarrow> time \<Rightarrow> (nat \<Rightarrow> time) \<Rightarrow> (nat \<Rightarrow> string) \<Rightarrow> rotate_request \<Rightarrow> 's \<Rightarrow>
     unit result \<times> 's" where
  "RotateCertAuthority bk a now clock uuids req s =
     (case RotateRequest_CheckAndSetDefaults now req of
        Inl e \<Rightarrow> (Inl e, s)
      | Inr req1 \<Rightarrow>
          (case as_clusterName a of
             Inl e \<Rightarrow> (Inl e, s)
           | Inr clusterName \<Rightarrow> rotate_types bk a clock uuids req1 clusterName (RotateRequest_Types req1) 0 s))"

text \<open>The argument is a certificate authority; a nil one is \<open>None\<close>.\<close>

definition RotateExternalCertAuthority ::
  "('s, cert_authority) backend \<Rightarrow> auth_server \<Rightarrow> (nat \<Rightarrow> time) \<Rightarrow> cert_authority option \<Rightarrow> 's \<Rightarrow> unit result \<times> 's" where
  "RotateExternalCertAuthority bk a clock cao s =
     (case cao of
        None \<Rightarrow> (Inl BadParameter, s)
      | Some ca \<Rightarrow>
          (case as_clusterName a of
             Inl e \<Rightarrow> (Inl e, s)
           | Inr clusterName \<Rightarrow>
               if ca_ClusterName ca = clusterName then (Inl BadParameter, s)
               else (case GetCertAuthority bk (as_keyParsers a) (clock 0) (ca_Type ca, ca_ClusterName ca) False s of
                       (Inl e, s1) \<Rightarrow> (Inl e, s1)
                     | (Inr existing, s1) \<Rightarrow>
                         (case SetActiveKeys (GetActiveKeys ca) existing of
                            Inl e \<Rightarrow> (Inl e, s1)
                          | Inr ca1 \<Rightarrow>
                              (case SetAdditionalTrustedKeys (GetAdditionalTrustedKeys ca) ca1 of
                                 Inl e \<Rightarrow> (Inl e, s1)
                               | Inr ca2 \<Rightarrow>
                                   CompareAndSwapCertAuthority bk (as_keyParsers a) (clock 1)
                                     (SetRotation (GetRotation ca) ca2) existing s1)))))"

text \<open>The next phase of an automatic rotation, and the time before which it is too early for it.\<close>

definition next_auto_phase :: "rotation \<Rightarrow> (string \<times> time) option" where
  "next_auto_phase r =
     (if rot_Phase r = RotationPhaseInit then Some (RotationPhaseUpdateClients, sch_UpdateClients (rot_Schedule r))
      else if rot_Phase r = RotationPhaseUpdateClients then
        Some (RotationPhaseUpdateServers, sch_UpdateServers (rot_Schedule r))
      else if rot_Phase r = RotationPhaseUpdateServers then Some (RotationPhaseStandby, sch_Standby (rot_Schedule r))
      else None)"

definition autoRotate ::
  "('s, cert_authority) backend \<Rightarrow> auth_server \<Rightarrow> (nat \<Rightarrow> time) \<Rightarrow> cert_authority \<Rightarrow> 's \<Rightarrow> unit result \<times> 's" where
  "autoRotate bk a clock ca s =
     (let rotation = GetRotation ca
      in if rot_Mode rotation \<noteq> RotationModeAuto then (Inr (), s)
         else if rot_State rotation \<noteq> RotationStateInProgress then (Inr (), s)
         else case next_auto_phase rotation of
                None \<Rightarrow> (Inl BadParameter, s)
              | Some (target, due) \<Rightarrow>
                  if clock 0 < due then (Inr (), s)
                  else (case processRotationRequest (as_keyStore a) (as_testKeys a) (clock 1) [] 0
                               \<lparr>req_ca = ca, req_targetPhase = target, req_mode = RotationModeAuto,
                                req_gracePeriod = rot_GracePeriod rotation, req_schedule = rot_Schedule rotation,
                                req_privateKey = [], req_caSigningAlg = None\<rparr> of
                          Inl e \<Rightarrow> (Inl e, s)
                        | Inr rotated \<Rightarrow> CompareAndSwapCertAuthority bk (as_keyParsers a) (clock 2) rotated ca s))"

text \<open>
  The loop of \<open>addAddtionalTrustedKeysAtomic\<close> runs until a swap succeeds. \<open>others n\<close> is what other servers do to the
  store before the n-th swap, \<open>closed n\<close> says that the server is closing by then; no round left is \<open>None\<close>.
\<close>

fun addAdditionalTrustedKeysAtomic ::
  "('s, cert_authority) backend \<Rightarrow> auth_server \<Rightarrow> (nat \<Rightarrow> time) \<Rightarrow> (nat \<Rightarrow> 's \<Rightarrow> 's) \<Rightarrow> (nat \<Rightarrow> bool) \<Rightarrow> nat \<Rightarrow> nat \<Rightarrow>
     cert_authority \<Rightarrow> ca_key_set \<Rightarrow> (cert_authority \<Rightarrow> bool) \<Rightarrow> 's \<Rightarrow> (unit result \<times> 's) option" where
  "addAdditionalTrustedKeysAtomic bk a clock others closed n 0 currentCA newKeys needsUpdate s = None"
| "addAdditionalTrustedKeysAtomic bk a clock others closed n (Suc rounds) currentCA newKeys needsUpdate s =
     (if closed n then Some (Inl Unclassified, s)
      else if \<not> needsUpdate currentCA then Some (Inr (), s)
      else case SetAdditionalTrustedKeys (mergeKeySets (GetAdditionalTrustedKeys currentCA) newKeys) currentCA of
             Inl e \<Rightarrow> Some (Inl e, s)
           | Inr newCA \<Rightarrow>
               (case CompareAndSwapCertAuthority bk (as_keyParsers a) (clock (2 * n)) newCA currentCA (others n s) of
                  (Inr _, s1) \<Rightarrow> Some (Inr (), s1)
                | (Inl e, s1) \<Rightarrow>
                    if e \<noteq> CompareFailed then Some (Inl e, s1)
                    else (case GetCertAuthority bk (as_keyParsers a) (clock (2 * n + 1))
                                 (ca_Type currentCA, ca_name currentCA) True s1 of
                            (Inl e2, s2) \<Rightarrow> Some (Inl e2, s2)
                          | (Inr ca2, s2) \<Rightarrow>
                              addAdditionalTrustedKeysAtomic bk a clock others closed (n + 1) rounds ca2 newKeys
                                needsUpdate s2)))"

definition ensureLocalAdditionalKeys ::
  "('s, cert_authority) backend \<Rightarrow> auth_server \<Rightarrow> (nat \<Rightarrow> time) \<Rightarrow> (nat \<Rightarrow> 's \<Rightarrow> 's) \<Rightarrow> (nat \<Rightarrow> bool) \<Rightarrow> nat \<Rightarrow> nat \<Rightarrow>
     cert_authority \<Rightarrow> 's \<Rightarrow> (unit result \<times> 's) option" where
  "ensureLocalAdditionalKeys bk a clock others closed rounds k ca s =
     (if HasLocalAdditionalKeys (as_keyStore a) ca then Some (Inr (), s)
      else case newKeySet (as_keyStore a) k (ca_Type ca, ca_name ca) of
             Inl e \<Rightarrow> Some (Inl e, s)
           | Inr keys \<Rightarrow>
               addAdditionalTrustedKeysAtomic bk a clock others closed 0 rounds ca keys
                 (\<lambda>c. \<not> HasLocalAdditionalKeys (as_keyStore a) c) s)"

text \<open>
  The round over the three types. It works on with the authority it has read first, also after \<open>autoRotate\<close> has
  written another; \<open>clock j\<close>, \<open>others j\<close> and \<open>closed j\<close> are those of the round.
\<close>

fun auto_rotate_types ::
  "('s, cert_authority) backend \<Rightarrow> auth_server \<Rightarrow> (nat \<Rightarrow> nat \<Rightarrow> time) \<Rightarrow> (nat \<Rightarrow> nat \<Rightarrow> 's \<Rightarrow> 's) \<Rightarrow> (nat \<Rightarrow> nat \<Rightarrow> bool) \<Rightarrow>
     nat \<Rightarrow> string \<Rightarrow> string list \<Rightarrow> nat \<Rightarrow> 's \<Rightarrow> (unit result \<times> 's) option" where
  "auto_rotate_types bk a clock others closed rounds clusterName [] j s = Some (Inr (), s)"
| "auto_rotate_types bk a clock others closed rounds clusterName (caType # caTypes) j s =
     (case GetCertAuthority bk (as_keyParsers a) (clock j 0) (caType, clusterName) True s of
        (Inl e, s1) \<Rightarrow> Some (Inl e, s1)
      | (Inr ca, s1) \<Rightarrow>
          (case autoRotate bk a (\<lambda>n. clock j (n + 1)) ca s1 of
             (Inl e, s2) \<Rightarrow> Some (Inl e, s2)
           | (Inr _, s2) \<Rightarrow>
               (case (if rot_Phase (GetRotation ca) = RotationPhaseInit then
                        ensureLocalAdditionalKeys bk a (\<lambda>n. clock j (n + 4)) (others j) (closed j) rounds (2 * j) ca s2
                      else Some (Inr (), s2)) of
                  None \<Rightarrow> None
                | Some (Inl e, s3) \<Rightarrow> Some (Inl e, s3)
                | Some (Inr _, s3) \<Rightarrow> auto_rotate_types bk a clock others closed rounds clusterName caTypes (j + 1) s3)))"

definition autoRotateCertAuthorities ::
  "('s, cert_authority) backend \<Rightarrow> auth_server \<Rightarrow> (nat \<Rightarrow> nat \<Rightarrow> time) \<Rightarrow> (nat \<Rightarrow> nat \<Rightarrow> 's \<Rightarrow> 's) \<Rightarrow> (nat \<Rightarrow> nat \<Rightarrow> bool) \<Rightarrow>
     nat \<Rightarrow> 's \<Rightarrow> (unit result \<times> 's) option" where
  "autoRotateCertAuthorities bk a clock others closed rounds s =
     (case as_clusterName a of
        Inl e \<Rightarrow> Some (Inl e, s)
      | Inr clusterName \<Rightarrow>
          auto_rotate_types bk a clock others closed rounds clusterName [HostCA, UserCA, JWTSigner] 0 s)"

section \<open>Keys through the phases\<close>

text \<open>The public parts of keys: what a client or a server verifies with.\<close>

datatype public_key = PublicSSH string | PublicTLS string | PublicJWT string

definition public_keys :: "ca_key_set \<Rightarrow> public_key set" where
  "public_keys k = PublicSSH ` ssh_PublicKey ` set (ks_SSH k) \<union> PublicTLS ` tls_Cert ` set (ks_TLS k) \<union>
     PublicJWT ` jwt_PublicKey ` set (ks_JWT k)"

definition signing :: "cert_authority \<Rightarrow> public_key set" where
  "signing ca = public_keys (GetActiveKeys ca)"

definition trusted :: "cert_authority \<Rightarrow> public_key set" where
  "trusted ca = public_keys (GetActiveKeys ca) \<union> public_keys (GetAdditionalTrustedKeys ca)"

definition phase_of :: "cert_authority \<Rightarrow> string" where
  "phase_of ca = rot_Phase (GetRotation ca)"

definition state_of :: "cert_authority \<Rightarrow> string" where
  "state_of ca = rot_State (GetRotation ca)"

lemma public_keys_merge [simp]: "public_keys (mergeKeySets a b) = public_keys a \<union> public_keys b"
  by (auto simp: public_keys_def mergeKeySets_def)

lemma public_keys_no_keys [simp]: "public_keys no_keys = {}"
  by (simp add: public_keys_def)

lemma Empty_merge [simp]: "Empty (mergeKeySets a b) \<longleftrightarrow> Empty a \<and> Empty b"
  by (auto simp: Empty_def mergeKeySets_def)

lemma Empty_public: "Empty k \<Longrightarrow> public_keys k = {}"
  by (simp add: Empty_def public_keys_def)

lemma phases_distinct [simp]:
  "RotationPhaseInit \<noteq> RotationPhaseUpdateClients" "RotationPhaseInit \<noteq> RotationPhaseUpdateServers"
  "RotationPhaseInit \<noteq> RotationPhaseRollback" "RotationPhaseInit \<noteq> RotationPhaseStandby"
  "RotationPhaseUpdateClients \<noteq> RotationPhaseInit" "RotationPhaseUpdateClients \<noteq> RotationPhaseUpdateServers"
  "RotationPhaseUpdateClients \<noteq> RotationPhaseRollback" "RotationPhaseUpdateClients \<noteq> RotationPhaseStandby"
  "RotationPhaseUpdateServers \<noteq> RotationPhaseInit" "RotationPhaseUpdateServers \<noteq> RotationPhaseUpdateClients"
  "RotationPhaseUpdateServers \<noteq> RotationPhaseRollback" "RotationPhaseUpdateServers \<noteq> RotationPhaseStandby"
  "RotationPhaseRollback \<noteq> RotationPhaseInit" "RotationPhaseRollback \<noteq> RotationPhaseUpdateClients"
  "RotationPhaseRollback \<noteq> RotationPhaseUpdateServers" "RotationPhaseRollback \<noteq> RotationPhaseStandby"
  "RotationPhaseStandby \<noteq> RotationPhaseInit" "RotationPhaseStandby \<noteq> RotationPhaseUpdateClients"
  "RotationPhaseStandby \<noteq> RotationPhaseUpdateServers" "RotationPhaseStandby \<noteq> RotationPhaseRollback"
  "RotationPhaseInit \<noteq> []" "RotationPhaseUpdateClients \<noteq> []" "RotationPhaseUpdateServers \<noteq> []"
  "RotationPhaseRollback \<noteq> []" "RotationPhaseStandby \<noteq> []"
  by (simp_all add: phase_defs)

lemma keys_SetRotation [simp]:
  "GetActiveKeys (SetRotation r ca) = GetActiveKeys ca" "GetAdditionalTrustedKeys (SetRotation r ca) = GetAdditionalTrustedKeys ca"
  "GetRotation (SetRotation r ca) = r" "ca_ActiveKeys (SetRotation r ca) = ca_ActiveKeys ca"
  "ca_AdditionalTrustedKeys (SetRotation r ca) = ca_AdditionalTrustedKeys ca" "getOldKeySet (SetRotation r ca) = getOldKeySet ca"
  by (simp_all add: SetRotation_def GetActiveKeys_def GetAdditionalTrustedKeys_def getOldKeySet_def GetRotation_def fun_eq_iff)

lemma keys_SetSigningAlgName [simp]:
  "GetActiveKeys (SetSigningAlgName alg ca) = GetActiveKeys ca"
  "GetAdditionalTrustedKeys (SetSigningAlgName alg ca) = GetAdditionalTrustedKeys ca"
  "GetRotation (SetSigningAlgName alg ca) = GetRotation ca" "ca_ActiveKeys (SetSigningAlgName alg ca) = ca_ActiveKeys ca"
  "ca_AdditionalTrustedKeys (SetSigningAlgName alg ca) = ca_AdditionalTrustedKeys ca"
  "getOldKeySet (SetSigningAlgName alg ca) = getOldKeySet ca"
  by (simp_all add: SetSigningAlgName_def GetActiveKeys_def GetAdditionalTrustedKeys_def getOldKeySet_def GetRotation_def
      fun_eq_iff)

end
