(* ===== verification/Rotation_Facts.thy ===== *)
theory Rotation_Facts imports Rotation
begin

text \<open>
  Facts about the rotation of certificate authorities: the invariant of the authorities that rotate, what each
  transition does to the keys, and what a whole rotation or a rolled back one leaves.
\<close>

lemma SetActiveKeys_Inr:
  "SetActiveKeys k ca = Inr ca' \<longleftrightarrow> KeySet_CheckAndSetDefaults k = Inr () \<and> ca' = ca\<lparr>ca_ActiveKeys := k\<rparr>"
  by (auto simp: SetActiveKeys_def case_result_unit_Inr)

lemma SetAdditionalTrustedKeys_Inr:
  "SetAdditionalTrustedKeys k ca = Inr ca' \<longleftrightarrow>
     KeySet_CheckAndSetDefaults k = Inr () \<and> ca' = ca\<lparr>ca_AdditionalTrustedKeys := k\<rparr>"
  by (auto simp: SetAdditionalTrustedKeys_def case_result_unit_Inr)

lemma swap_key_sets_Inr:
  "swap_key_sets ca = Inr ca' \<longleftrightarrow>
     KeySet_CheckAndSetDefaults (GetActiveKeys ca) = Inr () \<and>
     KeySet_CheckAndSetDefaults (GetAdditionalTrustedKeys ca) = Inr () \<and>
     ca' = ca\<lparr>ca_ActiveKeys := GetAdditionalTrustedKeys ca, ca_AdditionalTrustedKeys := GetActiveKeys ca\<rparr>"
  by (auto simp: swap_key_sets_def Let_def case_result_Inr SetActiveKeys_Inr SetAdditionalTrustedKeys_Inr)

lemma completeRotation_eq:
  "completeRotation now ca =
     SetRotation ((GetRotation ca)\<lparr>rot_Started := zero_time, rot_State := RotationStateStandby,
       rot_Phase := RotationPhaseStandby, rot_LastRotated := now, rot_Mode := [], rot_Schedule := no_schedule\<rparr>)
       (ca\<lparr>ca_AdditionalTrustedKeys := no_keys\<rparr>)"
  by (simp add: completeRotation_def SetAdditionalTrustedKeys_def GetRotation_def Let_def)

text \<open>
  The authorities that a rotation works on: there are active keys in the new schema, all keys pass their checks,
  the state fits the phase, and while a rotation is in progress there are additional keys.
\<close>

definition phase_fits :: "cert_authority \<Rightarrow> bool" where
  "phase_fits ca \<longleftrightarrow>
     (state_of ca \<in> {[], RotationStateStandby} \<and> phase_of ca \<in> {[], RotationPhaseStandby}) \<or>
     (state_of ca = RotationStateInProgress \<and>
      phase_of ca \<in> {RotationPhaseInit, RotationPhaseUpdateClients, RotationPhaseUpdateServers, RotationPhaseRollback})"

definition rotation_inv :: "cert_authority \<Rightarrow> bool" where
  "rotation_inv ca \<longleftrightarrow> \<not> Empty (ca_ActiveKeys ca) \<and> KeySet_CheckAndSetDefaults (ca_ActiveKeys ca) = Inr () \<and>
     KeySet_CheckAndSetDefaults (ca_AdditionalTrustedKeys ca) = Inr () \<and>
     KeySet_CheckAndSetDefaults (getOldKeySet ca 1) = Inr () \<and> phase_fits ca \<and>
     (state_of ca = RotationStateInProgress \<longrightarrow> \<not> Empty (ca_AdditionalTrustedKeys ca))"

lemma rotation_inv_keys:
  assumes "rotation_inv ca"
  shows "GetActiveKeys ca = ca_ActiveKeys ca" "\<not> Empty (GetActiveKeys ca)"
    "KeySet_CheckAndSetDefaults (GetActiveKeys ca) = Inr ()"
    "KeySet_CheckAndSetDefaults (GetAdditionalTrustedKeys ca) = Inr ()"
    "state_of ca = RotationStateInProgress \<Longrightarrow> GetAdditionalTrustedKeys ca = ca_AdditionalTrustedKeys ca \<and>
       \<not> Empty (GetAdditionalTrustedKeys ca)"
  using assms by (simp_all add: rotation_inv_def GetActiveKeys_def GetAdditionalTrustedKeys_def)

text \<open>A key store finds local keys only where there are keys.\<close>

definition sensible_store :: "key_store \<Rightarrow> bool" where
  "sensible_store ks \<longleftrightarrow> (\<forall>k. Empty k \<longrightarrow> \<not> ks_keySetHasLocalKeys ks k)"

lemma raw_store_sensible: "Empty k \<Longrightarrow> \<not> raw_keySetHasLocalKeys k"
  by (simp add: Empty_def raw_keySetHasLocalKeys_def)

lemma hsm_store_sensible: "Empty k \<Longrightarrow> \<not> hsm_keySetHasLocalKeys um host k"
  by (simp add: Empty_def hsm_keySetHasLocalKeys_def)

lemma newKeySet_not_Empty: "newKeySet ks n caID = Inr k \<Longrightarrow> \<not> Empty k"
  by (auto simp: newKeySet_def Empty_def split: if_splits sum.splits)

lemma keys_from_private_not_Empty:
  "keys_from_private tk now pk active name = Inr k \<Longrightarrow> \<not> Empty active \<Longrightarrow> \<not> Empty k"
  by (auto simp: keys_from_private_def Empty_def split: if_splits sum.splits option.splits)

lemma new_rotation_keys_not_Empty:
  assumes "new_rotation_keys ks tk now n req ca = Inr k" "sensible_store ks" "\<not> Empty (GetActiveKeys ca)"
  shows "\<not> Empty k"
proof (cases "req_privateKey req \<noteq> []")
  case True
  with assms show ?thesis by (simp add: new_rotation_keys_def keys_from_private_not_Empty)
next
  case False
  let ?add = "GetAdditionalTrustedKeys ca"
  show ?thesis
  proof (cases "HasLocalAdditionalKeys ks ca")
    case True
    then have "\<not> Empty ?add" using assms(2) by (auto simp: HasLocalAdditionalKeys_def sensible_store_def)
    with assms(1) True False show ?thesis by (simp add: new_rotation_keys_def Let_def)
  next
    case no_local: False
    then obtain k1 where "newKeySet ks n (ca_Type ca, ca_name ca) = Inr k1"
      "k = mergeKeySets k1 (if \<not> Empty ?add then ?add else no_keys)"
      using assms(1) False by (auto simp: new_rotation_keys_def Let_def case_result_Inr)
    then show ?thesis using newKeySet_not_Empty by auto
  qed
qed

text \<open>Without a private key from a test, a rotation that starts keeps what was trusted.\<close>

lemma new_rotation_keys_additional:
  assumes "new_rotation_keys ks tk now n req ca = Inr k" "req_privateKey req = []"
  shows "public_keys (GetAdditionalTrustedKeys ca) \<subseteq> public_keys k"
proof (cases "HasLocalAdditionalKeys ks ca")
  case True
  with assms show ?thesis
    by (cases "Empty (GetAdditionalTrustedKeys ca)") (simp_all add: new_rotation_keys_def Let_def Empty_public)
next
  case False
  then obtain k1 where "k = mergeKeySets k1 (if \<not> Empty (GetAdditionalTrustedKeys ca) then GetAdditionalTrustedKeys ca else no_keys)"
    using assms by (auto simp: new_rotation_keys_def Let_def case_result_Inr)
  then show ?thesis by (cases "Empty (GetAdditionalTrustedKeys ca)") (auto simp: Empty_public)
qed

lemma startNewRotation_Inr:
  assumes "startNewRotation ks tk now uuid n req ca = Inr ca'"
  obtains k where "new_rotation_keys ks tk now n req ca = Inr k" "KeySet_CheckAndSetDefaults k = Inr ()"
    "ca_ActiveKeys ca' = (if req_gracePeriod req = 0 then k else ca_ActiveKeys ca)"
    "ca_AdditionalTrustedKeys ca' = (if req_gracePeriod req = 0 then ca_AdditionalTrustedKeys ca else k)"
    "getOldKeySet ca' = getOldKeySet ca"
    "GetRotation ca' = (GetRotation ca)\<lparr>rot_Mode := req_mode req, rot_Schedule := req_schedule req, rot_Started := now,
       rot_GracePeriod := req_gracePeriod req, rot_CurrentID := uuid,
       rot_State := (if req_gracePeriod req = 0 then RotationStateStandby else RotationStateInProgress),
       rot_Phase := (if req_gracePeriod req = 0 then RotationPhaseStandby else RotationPhaseInit)\<rparr>"
proof -
  obtain k where k: "new_rotation_keys ks tk now n req ca = Inr k"
    using assms by (auto simp: startNewRotation_def case_result_Inr)
  obtain ca1 where ca1: "(if req_gracePeriod req = 0 then SetActiveKeys k ca else SetAdditionalTrustedKeys k ca) = Inr ca1"
    and ca': "ca' = (let r = (GetRotation ca)\<lparr>rot_Mode := req_mode req, rot_Schedule := req_schedule req, rot_Started := now,
                       rot_GracePeriod := req_gracePeriod req, rot_CurrentID := uuid\<rparr>;
                     ca2 = SetRotation (if req_gracePeriod req = 0
                       then r\<lparr>rot_State := RotationStateStandby, rot_Phase := RotationPhaseStandby\<rparr>
                       else r\<lparr>rot_State := RotationStateInProgress, rot_Phase := RotationPhaseInit\<rparr>) ca1
                     in case req_caSigningAlg req of None \<Rightarrow> ca2 | Some alg \<Rightarrow> SetSigningAlgName alg ca2)"
    using assms unfolding startNewRotation_def k sum.case Let_def case_result_Inr by blast
  have old: "getOldKeySet (ca\<lparr>ca_ActiveKeys := k\<rparr>) = getOldKeySet ca"
    "getOldKeySet (ca\<lparr>ca_AdditionalTrustedKeys := k\<rparr>) = getOldKeySet ca"
    by (simp_all add: getOldKeySet_def fun_eq_iff)
  show thesis
    by (rule that [OF k])
      (use ca1 old in \<open>auto simp: ca' Let_def SetActiveKeys_Inr SetAdditionalTrustedKeys_Inr split: option.split if_splits\<close>)
qed

section \<open>One transition\<close>

definition transitions :: "(string \<times> string) set" where
  "transitions =
     {(RotationPhaseInit, RotationPhaseUpdateClients), (RotationPhaseUpdateClients, RotationPhaseUpdateServers),
      (RotationPhaseUpdateServers, RotationPhaseStandby), (RotationPhaseInit, RotationPhaseRollback),
      (RotationPhaseUpdateClients, RotationPhaseRollback), (RotationPhaseUpdateServers, RotationPhaseRollback),
      (RotationPhaseRollback, RotationPhaseStandby)}"

lemma phases_not_Nil [simp]:
  "[] \<noteq> RotationPhaseInit" "[] \<noteq> RotationPhaseUpdateClients" "[] \<noteq> RotationPhaseUpdateServers"
  "[] \<noteq> RotationPhaseRollback" "[] \<noteq> RotationPhaseStandby" "[] \<noteq> RotationStateStandby" "[] \<noteq> RotationStateInProgress"
  by (simp_all add: phase_defs mode_state_defs)

lemma phase_simps [simp]:
  "phase_of (SetRotation r ca) = rot_Phase r" "state_of (SetRotation r ca) = rot_State r"
  by (simp_all add: phase_of_def state_of_def)

lemma GetRotation_keys [simp]:
  "GetRotation (ca\<lparr>ca_ActiveKeys := k, ca_AdditionalTrustedKeys := k'\<rparr>) = GetRotation ca"
  "GetRotation (ca\<lparr>ca_AdditionalTrustedKeys := k'\<rparr>) = GetRotation ca"
  "GetRotation (ca\<lparr>ca_ActiveKeys := k\<rparr>) = GetRotation ca"
  by (simp_all add: GetRotation_def)

lemma getOldKeySet_keys [simp]:
  "getOldKeySet (ca\<lparr>ca_ActiveKeys := k, ca_AdditionalTrustedKeys := k'\<rparr>) = getOldKeySet ca"
  "getOldKeySet (ca\<lparr>ca_AdditionalTrustedKeys := k'\<rparr>) = getOldKeySet ca"
  "getOldKeySet (ca\<lparr>ca_ActiveKeys := k\<rparr>) = getOldKeySet ca"
  by (simp_all add: getOldKeySet_def fun_eq_iff)

lemma updateClients_Inr:
  "updateClients mode ca = Inr ca' \<longleftrightarrow>
     KeySet_CheckAndSetDefaults (GetActiveKeys ca) = Inr () \<and>
     KeySet_CheckAndSetDefaults (GetAdditionalTrustedKeys ca) = Inr () \<and>
     ca' = SetRotation ((GetRotation ca)\<lparr>rot_State := RotationStateInProgress,
             rot_Phase := RotationPhaseUpdateClients, rot_Mode := mode\<rparr>)
             (ca\<lparr>ca_ActiveKeys := GetAdditionalTrustedKeys ca, ca_AdditionalTrustedKeys := GetActiveKeys ca\<rparr>)"
  by (auto simp: updateClients_def case_result_Inr swap_key_sets_Inr)

lemma startRollingBackRotation_Inr:
  "startRollingBackRotation ca = Inr ca' \<longleftrightarrow>
     (phase_of ca \<noteq> RotationPhaseInit \<longrightarrow> KeySet_CheckAndSetDefaults (GetActiveKeys ca) = Inr () \<and>
        KeySet_CheckAndSetDefaults (GetAdditionalTrustedKeys ca) = Inr ()) \<and>
     ca' = SetRotation ((GetRotation ca)\<lparr>rot_Mode := RotationModeManual, rot_State := RotationStateInProgress,
             rot_Phase := RotationPhaseRollback\<rparr>)
             (if phase_of ca = RotationPhaseInit then ca
              else ca\<lparr>ca_ActiveKeys := GetAdditionalTrustedKeys ca, ca_AdditionalTrustedKeys := GetActiveKeys ca\<rparr>)"
  by (auto simp: startRollingBackRotation_def case_result_Inr swap_key_sets_Inr phase_of_def Let_def)

text \<open>The cases of a request that succeeds.\<close>

lemma processRotationRequest_cases:
  assumes "processRotationRequest ks tk now uuid n req = Inr ca'"
  obtains (init) "req_targetPhase req = RotationPhaseInit" "state_of (req_ca req) \<in> {RotationStateStandby, []}"
      "startNewRotation ks tk now uuid n req (req_ca req) = Inr ca'"
  | (clients) "req_targetPhase req = RotationPhaseUpdateClients" "phase_of (req_ca req) = RotationPhaseInit"
      "updateClients (req_mode req) (req_ca req) = Inr ca'"
  | (servers) "req_targetPhase req = RotationPhaseUpdateServers" "phase_of (req_ca req) = RotationPhaseUpdateClients"
      "ca' = SetRotation ((GetRotation (req_ca req))\<lparr>rot_Phase := RotationPhaseUpdateServers, rot_Mode := req_mode req\<rparr>)
               (req_ca req)"
  | (rollback) "req_targetPhase req = RotationPhaseRollback"
      "phase_of (req_ca req) \<in> {RotationPhaseInit, RotationPhaseUpdateClients, RotationPhaseUpdateServers}"
      "startRollingBackRotation (req_ca req) = Inr ca'"
  | (standby) "req_targetPhase req = RotationPhaseStandby"
      "phase_of (req_ca req) \<in> {RotationPhaseUpdateServers, RotationPhaseRollback}"
      "ca' = completeRotation now (req_ca req)"
  using assms unfolding processRotationRequest_def Let_def phase_of_def state_of_def
  by (auto split: if_split_asm)

text \<open>Exactly the transitions of the table are possible once a rotation runs, and errors are of one kind.\<close>

lemma processRotationRequest_table:
  assumes "rotation_inv (req_ca req)" "req_targetPhase req \<noteq> RotationPhaseInit"
  shows "if (phase_of (req_ca req), req_targetPhase req) \<in> transitions
    then \<exists>ca'. processRotationRequest ks tk now uuid n req = Inr ca' \<and> phase_of ca' = req_targetPhase req
    else processRotationRequest ks tk now uuid n req = Inl BadParameter"
proof -
  let ?ca = "req_ca req"
  have keys: "KeySet_CheckAndSetDefaults (GetActiveKeys ?ca) = Inr ()"
    "KeySet_CheckAndSetDefaults (GetAdditionalTrustedKeys ?ca) = Inr ()"
    using rotation_inv_keys [OF assms(1)] by simp_all
  obtain c1 where c1: "updateClients (req_mode req) ?ca = Inr c1" "phase_of c1 = RotationPhaseUpdateClients"
    using keys by (simp add: updateClients_Inr)
  obtain c2 where c2: "startRollingBackRotation ?ca = Inr c2" "phase_of c2 = RotationPhaseRollback"
    using keys by (simp add: startRollingBackRotation_Inr)
  have c3: "phase_of (completeRotation now ?ca) = RotationPhaseStandby" by (simp add: completeRotation_eq)
  show ?thesis
    using assms(2) c1 c2 c3
    by (auto simp: processRotationRequest_def Let_def transitions_def phase_of_def [symmetric])
qed

lemma start_inv:
  assumes inv: "rotation_inv ca" and ks: "sensible_store ks"
    and start: "startNewRotation ks tk now uuid n req ca = Inr ca'"
  shows "rotation_inv ca'"
proof -
  obtain k where k: "new_rotation_keys ks tk now n req ca = Inr k" "KeySet_CheckAndSetDefaults k = Inr ()"
    and active: "ca_ActiveKeys ca' = (if req_gracePeriod req = 0 then k else ca_ActiveKeys ca)"
    and additional: "ca_AdditionalTrustedKeys ca' = (if req_gracePeriod req = 0 then ca_AdditionalTrustedKeys ca else k)"
    and old: "getOldKeySet ca' = getOldKeySet ca"
    and rot: "GetRotation ca' = (GetRotation ca)\<lparr>rot_Mode := req_mode req, rot_Schedule := req_schedule req, rot_Started := now,
       rot_GracePeriod := req_gracePeriod req, rot_CurrentID := uuid,
       rot_State := (if req_gracePeriod req = 0 then RotationStateStandby else RotationStateInProgress),
       rot_Phase := (if req_gracePeriod req = 0 then RotationPhaseStandby else RotationPhaseInit)\<rparr>"
    by (rule startNewRotation_Inr [OF start])
  have ne: "\<not> Empty k" by (rule new_rotation_keys_not_Empty [OF k(1) ks rotation_inv_keys(2) [OF inv]])
  show ?thesis
    using inv ne k(2)
    by (auto simp: rotation_inv_def active additional old rot phase_fits_def phase_of_def state_of_def)
qed

text \<open>In the phases of a rotation, the state is \<open>in_progress\<close>.\<close>

lemma phase_in_progress:
  "phase_fits ca \<Longrightarrow> phase_of ca \<in> {RotationPhaseInit, RotationPhaseUpdateClients, RotationPhaseUpdateServers, RotationPhaseRollback} \<Longrightarrow>
     state_of ca = RotationStateInProgress"
  by (auto simp: phase_fits_def)

lemma process_inv:
  assumes inv: "rotation_inv (req_ca req)" and ks: "sensible_store ks"
    and run: "processRotationRequest ks tk now uuid n req = Inr ca'"
  shows "rotation_inv ca'"
proof -
  let ?ca = "req_ca req"
  have fits: "phase_fits ?ca" using inv by (simp add: rotation_inv_def)
  note keys = rotation_inv_keys [OF inv]
  have swapped: "rotation_inv (SetRotation r (?ca\<lparr>ca_ActiveKeys := GetAdditionalTrustedKeys ?ca,
      ca_AdditionalTrustedKeys := GetActiveKeys ?ca\<rparr>))"
    if "state_of ?ca = RotationStateInProgress" "rot_State r = RotationStateInProgress"
      "rot_Phase r \<in> {RotationPhaseUpdateClients, RotationPhaseRollback}" for r
    using inv keys that by (auto simp: rotation_inv_def phase_fits_def)
  have moved: "rotation_inv (SetRotation r ?ca)"
    if "state_of ?ca = RotationStateInProgress" "rot_State r = RotationStateInProgress"
      "rot_Phase r \<in> {RotationPhaseUpdateServers, RotationPhaseRollback}" for r
    using inv that by (auto simp: rotation_inv_def phase_fits_def)
  show ?thesis
    using run
  proof (cases rule: processRotationRequest_cases)
    case init
    then show ?thesis using start_inv [OF inv ks] by blast
  next
    case clients
    then have "state_of ?ca = RotationStateInProgress" using phase_in_progress [OF fits] by simp
    with clients swapped show ?thesis by (simp add: updateClients_Inr)
  next
    case servers
    then have st: "state_of ?ca = RotationStateInProgress" using phase_in_progress [OF fits] by simp
    show ?thesis unfolding servers(3) using st by (intro moved) (simp_all add: state_of_def)
  next
    case rollback
    then have st: "state_of ?ca = RotationStateInProgress" using phase_in_progress [OF fits] by auto
    with rollback(3) swapped moved show ?thesis by (auto simp: startRollingBackRotation_Inr)
  next
    case standby
    show ?thesis
      unfolding standby(3) completeRotation_eq using inv
      by (simp add: rotation_inv_def phase_fits_def)
  qed
qed

section \<open>Keys across a transition\<close>

definition forced :: "rotation_req \<Rightarrow> bool" where
  "forced req \<longleftrightarrow> req_targetPhase req = RotationPhaseInit \<and> req_gracePeriod req = 0"

lemma swapped_keys:
  assumes inv: "rotation_inv ca" and st: "state_of ca = RotationStateInProgress"
  defines "ca' \<equiv> ca\<lparr>ca_ActiveKeys := GetAdditionalTrustedKeys ca, ca_AdditionalTrustedKeys := GetActiveKeys ca\<rparr>"
  shows "GetActiveKeys (SetRotation r ca') = GetAdditionalTrustedKeys ca"
    "GetAdditionalTrustedKeys (SetRotation r ca') = GetActiveKeys ca"
proof -
  have "\<not> Empty (ca_AdditionalTrustedKeys ca)" "GetAdditionalTrustedKeys ca = ca_AdditionalTrustedKeys ca"
    "GetActiveKeys ca = ca_ActiveKeys ca" "\<not> Empty (ca_ActiveKeys ca)"
    using rotation_inv_keys [OF inv] st by auto
  then show "GetActiveKeys (SetRotation r ca') = GetAdditionalTrustedKeys ca"
    "GetAdditionalTrustedKeys (SetRotation r ca') = GetActiveKeys ca"
    by (simp_all add: ca'_def) (simp_all add: GetActiveKeys_def GetAdditionalTrustedKeys_def)
qed

lemma start_keys:
  assumes inv: "rotation_inv ca" and ks: "sensible_store ks"
    and start: "startNewRotation ks tk now uuid n req ca = Inr ca'"
  shows "\<exists>k. new_rotation_keys ks tk now n req ca = Inr k \<and>
    (if req_gracePeriod req = 0
     then GetActiveKeys ca' = k \<and> GetAdditionalTrustedKeys ca' = GetAdditionalTrustedKeys ca
     else GetActiveKeys ca' = GetActiveKeys ca \<and> GetAdditionalTrustedKeys ca' = k)"
proof -
  obtain k where k: "new_rotation_keys ks tk now n req ca = Inr k"
    and keys: "ca_ActiveKeys ca' = (if req_gracePeriod req = 0 then k else ca_ActiveKeys ca)"
      "ca_AdditionalTrustedKeys ca' = (if req_gracePeriod req = 0 then ca_AdditionalTrustedKeys ca else k)"
      "getOldKeySet ca' = getOldKeySet ca"
    by (rule startNewRotation_Inr [OF start])
  have "\<not> Empty k" by (rule new_rotation_keys_not_Empty [OF k ks rotation_inv_keys(2) [OF inv]])
  then show ?thesis
    using k inv by (intro exI [of _ k]) (simp add: keys GetActiveKeys_def GetAdditionalTrustedKeys_def rotation_inv_def)
qed

text \<open>
  What every transition does to the keys. The additional keys after the last one are those of the old schema, which
  no transition changes.
\<close>

lemma process_keys:
  assumes inv: "rotation_inv (req_ca req)" and ks: "sensible_store ks"
    and run: "processRotationRequest ks tk now uuid n req = Inr ca'"
  shows "if req_targetPhase req = RotationPhaseInit then
      \<exists>k. new_rotation_keys ks tk now n req (req_ca req) = Inr k \<and>
        (if forced req
         then GetActiveKeys ca' = k \<and> GetAdditionalTrustedKeys ca' = GetAdditionalTrustedKeys (req_ca req)
         else GetActiveKeys ca' = GetActiveKeys (req_ca req) \<and> GetAdditionalTrustedKeys ca' = k)
    else if req_targetPhase req = RotationPhaseStandby then
      GetActiveKeys ca' = GetActiveKeys (req_ca req) \<and> GetAdditionalTrustedKeys ca' = getOldKeySet (req_ca req) 1
    else if req_targetPhase req = RotationPhaseUpdateClients \<or>
      req_targetPhase req = RotationPhaseRollback \<and> phase_of (req_ca req) \<noteq> RotationPhaseInit then
      GetActiveKeys ca' = GetAdditionalTrustedKeys (req_ca req) \<and> GetAdditionalTrustedKeys ca' = GetActiveKeys (req_ca req)
    else GetActiveKeys ca' = GetActiveKeys (req_ca req) \<and>
      GetAdditionalTrustedKeys ca' = GetAdditionalTrustedKeys (req_ca req)"
  using run
proof (cases rule: processRotationRequest_cases)
  case init
  with start_keys [OF inv ks] show ?thesis by (simp add: forced_def)
next
  case clients
  then have "state_of (req_ca req) = RotationStateInProgress"
    using inv phase_in_progress by (simp add: rotation_inv_def)
  with clients swapped_keys [OF inv] show ?thesis by (simp add: updateClients_Inr)
next
  case servers
  then show ?thesis by simp
next
  case rollback
  then have "state_of (req_ca req) = RotationStateInProgress"
    using inv phase_in_progress [of "req_ca req"] by (auto simp: rotation_inv_def)
  with rollback swapped_keys [OF inv] show ?thesis by (auto simp: startRollingBackRotation_Inr)
next
  case standby
  have "GetActiveKeys (ca\<lparr>ca_AdditionalTrustedKeys := no_keys\<rparr>) = GetActiveKeys ca"
    "GetAdditionalTrustedKeys (ca\<lparr>ca_AdditionalTrustedKeys := no_keys\<rparr>) = getOldKeySet ca 1" for ca
    by (simp_all add: GetActiveKeys_def GetAdditionalTrustedKeys_def getOldKeySet_def)
  with standby show ?thesis by (simp add: completeRotation_eq)
qed

lemma process_old_keys:
  assumes "processRotationRequest ks tk now uuid n req = Inr ca'"
  shows "getOldKeySet ca' = getOldKeySet (req_ca req)"
  using assms
proof (cases rule: processRotationRequest_cases)
  case init
  then show ?thesis using startNewRotation_Inr by metis
next
  case rollback
  then show ?thesis by (simp add: startRollingBackRotation_Inr)
qed (simp_all add: updateClients_Inr completeRotation_eq)

text \<open>A key signs only after it was trusted, unless the rotation is forced.\<close>

lemma process_signing:
  assumes "rotation_inv (req_ca req)" "sensible_store ks" "processRotationRequest ks tk now uuid n req = Inr ca'"
    "\<not> forced req"
  shows "signing ca' \<subseteq> trusted (req_ca req)"
  using process_keys [OF assms(1-3)] assms(4) by (auto simp: signing_def trusted_def split: if_split_asm)

text \<open>A key stays trusted, until a rotation completes or is forced.\<close>

lemma process_trusted:
  assumes "rotation_inv (req_ca req)" "sensible_store ks" "processRotationRequest ks tk now uuid n req = Inr ca'"
    "\<not> forced req" "req_targetPhase req \<noteq> RotationPhaseStandby" "req_privateKey req = []"
  shows "trusted (req_ca req) \<subseteq> trusted ca'"
proof (cases "req_targetPhase req = RotationPhaseInit")
  case True
  then obtain k where k: "new_rotation_keys ks tk now n req (req_ca req) = Inr k"
    "GetActiveKeys ca' = GetActiveKeys (req_ca req)" "GetAdditionalTrustedKeys ca' = k"
    using process_keys [OF assms(1-3)] assms(4) by auto
  with new_rotation_keys_additional [OF k(1) assms(6)] show ?thesis by (auto simp: trusted_def)
next
  case False
  then show ?thesis
    using process_keys [OF assms(1-3)] assms(5) by (auto simp: trusted_def split: if_split_asm)
qed

section \<open>Runs of transitions\<close>

text \<open>A run asks for the phases of a list one after the other; keys, times and identifiers vary with the step.\<close>

fun rotate_through ::
  "key_store \<Rightarrow> test_keys \<Rightarrow> (nat \<Rightarrow> time) \<Rightarrow> (nat \<Rightarrow> string) \<Rightarrow> rotation_req \<Rightarrow> nat \<Rightarrow> string list \<Rightarrow> cert_authority \<Rightarrow>
     cert_authority result" where
  "rotate_through ks tk clock uuids req j [] ca = Inr ca"
| "rotate_through ks tk clock uuids req j (target # targets) ca =
     (case processRotationRequest ks tk (clock j) (uuids j) (2 * j) (req\<lparr>req_ca := ca, req_targetPhase := target\<rparr>) of
        Inl e \<Rightarrow> Inl e
      | Inr ca1 \<Rightarrow> rotate_through ks tk clock uuids req (j + 1) targets ca1)"

lemma process_phase:
  assumes "processRotationRequest ks tk now uuid n req = Inr ca'" "\<not> forced req"
  shows "phase_of ca' = req_targetPhase req"
  using assms(1)
proof (cases rule: processRotationRequest_cases)
  case init
  show ?thesis
    by (rule startNewRotation_Inr [OF init(3)]) (use assms(2) init(1) in \<open>simp add: forced_def phase_of_def\<close>)
next
  case rollback
  then show ?thesis by (simp add: startRollingBackRotation_Inr)
qed (simp_all add: updateClients_Inr completeRotation_eq)

lemma new_keys_ca: "new_rotation_keys ks tk now n (req\<lparr>req_ca := c, req_targetPhase := t\<rparr>) ca = new_rotation_keys ks tk now n req ca"
  by (simp add: new_rotation_keys_def Let_def)

text \<open>One step of a run, with all that the next step needs.\<close>

lemma run_step:
  assumes inv: "rotation_inv ca" and ks: "sensible_store ks" and gp: "req_gracePeriod req \<noteq> 0"
    and run: "rotate_through ks tk clock uuids req j (target # targets) ca = Inr ca'"
  obtains ca1 where "rotation_inv ca1" "getOldKeySet ca1 = getOldKeySet ca" "phase_of ca1 = target"
    "rotate_through ks tk clock uuids req (j + 1) targets ca1 = Inr ca'"
    "if target = RotationPhaseInit then
       \<exists>k. new_rotation_keys ks tk (clock j) (2 * j) req ca = Inr k \<and>
         GetActiveKeys ca1 = GetActiveKeys ca \<and> GetAdditionalTrustedKeys ca1 = k
     else if target = RotationPhaseStandby then
       GetActiveKeys ca1 = GetActiveKeys ca \<and> GetAdditionalTrustedKeys ca1 = getOldKeySet ca 1
     else if target = RotationPhaseUpdateClients \<or> target = RotationPhaseRollback \<and> phase_of ca \<noteq> RotationPhaseInit then
       GetActiveKeys ca1 = GetAdditionalTrustedKeys ca \<and> GetAdditionalTrustedKeys ca1 = GetActiveKeys ca
     else GetActiveKeys ca1 = GetActiveKeys ca \<and> GetAdditionalTrustedKeys ca1 = GetAdditionalTrustedKeys ca"
proof -
  let ?req = "req\<lparr>req_ca := ca, req_targetPhase := target\<rparr>"
  obtain ca1 where p: "processRotationRequest ks tk (clock j) (uuids j) (2 * j) ?req = Inr ca1"
    and rest: "rotate_through ks tk clock uuids req (j + 1) targets ca1 = Inr ca'"
    using run by (auto simp: case_result_Inr)
  have nf: "\<not> forced ?req" using gp by (simp add: forced_def)
  have inv': "rotation_inv (req_ca ?req)" using inv by simp
  show thesis
    by (rule that [OF process_inv [OF inv' ks p] _ _ rest])
      (use process_old_keys [OF p] process_phase [OF p nf] process_keys [OF inv' ks p] nf in
        \<open>simp_all add: new_keys_ca split: if_split_asm\<close>)
qed

lemma full_rotation:
  assumes inv: "rotation_inv ca" and ks: "sensible_store ks" and gp: "req_gracePeriod req \<noteq> 0"
    and run: "rotate_through ks tk clock uuids req j
      [RotationPhaseInit, RotationPhaseUpdateClients, RotationPhaseUpdateServers, RotationPhaseStandby] ca = Inr ca'"
  shows "new_rotation_keys ks tk (clock j) (2 * j) req ca = Inr (GetActiveKeys ca') \<and>
    GetAdditionalTrustedKeys ca' = getOldKeySet ca 1 \<and> phase_of ca' = RotationPhaseStandby"
proof -
  obtain c1 where c1: "rotation_inv c1" "getOldKeySet c1 = getOldKeySet ca" "phase_of c1 = RotationPhaseInit"
    "rotate_through ks tk clock uuids req (j + 1)
      [RotationPhaseUpdateClients, RotationPhaseUpdateServers, RotationPhaseStandby] c1 = Inr ca'"
    "new_rotation_keys ks tk (clock j) (2 * j) req ca = Inr (GetAdditionalTrustedKeys c1)"
    by (rule run_step [OF inv ks gp run]) simp
  obtain c2 where c2: "rotation_inv c2" "getOldKeySet c2 = getOldKeySet ca"
    "rotate_through ks tk clock uuids req (j + 1 + 1) [RotationPhaseUpdateServers, RotationPhaseStandby] c2 = Inr ca'"
    "GetActiveKeys c2 = GetAdditionalTrustedKeys c1"
    by (rule run_step [OF c1(1) ks gp c1(4)]) (simp add: c1(2))
  obtain c3 where c3: "rotation_inv c3" "getOldKeySet c3 = getOldKeySet ca"
    "rotate_through ks tk clock uuids req (j + 1 + 1 + 1) [RotationPhaseStandby] c3 = Inr ca'"
    "GetActiveKeys c3 = GetActiveKeys c2"
    by (rule run_step [OF c2(1) ks gp c2(3)]) (simp add: c2(2))
  show ?thesis
    by (rule run_step [OF c3(1) ks gp c3(3)]) (use c1(5) c2(4) c3(2,4) in simp)
qed

lemma rolled_back:
  assumes inv: "rotation_inv ca" and ks: "sensible_store ks" and gp: "req_gracePeriod req \<noteq> 0"
    and run: "rotate_through ks tk clock uuids req j [RotationPhaseRollback, RotationPhaseStandby] ca = Inr ca'"
  shows "GetActiveKeys ca' = (if phase_of ca = RotationPhaseInit then GetActiveKeys ca else GetAdditionalTrustedKeys ca) \<and>
    GetAdditionalTrustedKeys ca' = getOldKeySet ca 1 \<and> phase_of ca' = RotationPhaseStandby"
proof -
  obtain c1 where c1: "rotation_inv c1" "getOldKeySet c1 = getOldKeySet ca"
    "rotate_through ks tk clock uuids req (j + 1) [RotationPhaseStandby] c1 = Inr ca'"
    "GetActiveKeys c1 = (if phase_of ca = RotationPhaseInit then GetActiveKeys ca else GetAdditionalTrustedKeys ca)"
    by (rule run_step [OF inv ks gp run]) (simp split: if_split_asm)
  show ?thesis
    by (rule run_step [OF c1(1) ks gp c1(3)]) (use c1(2,4) in simp)
qed

text \<open>A rotation that is rolled back, from any phase, leaves the signing keys as they were.\<close>

lemma rollback_restores:
  assumes inv: "rotation_inv ca" and ks: "sensible_store ks" and gp: "req_gracePeriod req \<noteq> 0"
    and steps: "steps \<in> {[], [RotationPhaseUpdateClients], [RotationPhaseUpdateClients, RotationPhaseUpdateServers]}"
    and run: "rotate_through ks tk clock uuids req j
      (RotationPhaseInit # steps @ [RotationPhaseRollback, RotationPhaseStandby]) ca = Inr ca'"
  shows "GetActiveKeys ca' = GetActiveKeys ca \<and> GetAdditionalTrustedKeys ca' = getOldKeySet ca 1 \<and>
    phase_of ca' = RotationPhaseStandby"
proof -
  obtain c1 where c1: "rotation_inv c1" "getOldKeySet c1 = getOldKeySet ca" "phase_of c1 = RotationPhaseInit"
    "rotate_through ks tk clock uuids req (j + 1) (steps @ [RotationPhaseRollback, RotationPhaseStandby]) c1 = Inr ca'"
    "GetActiveKeys c1 = GetActiveKeys ca"
    by (rule run_step [OF inv ks gp run]) simp
  consider "steps = []" | "steps = [RotationPhaseUpdateClients]"
    | "steps = [RotationPhaseUpdateClients, RotationPhaseUpdateServers]" using steps by blast
  then show ?thesis
  proof cases
    case 1
    with rolled_back [OF c1(1) ks gp c1(4) [unfolded 1 append.simps]] c1 show ?thesis by simp
  next
    case 2
    obtain c2 where c2: "rotation_inv c2" "getOldKeySet c2 = getOldKeySet c1" "phase_of c2 = RotationPhaseUpdateClients"
      "rotate_through ks tk clock uuids req (j + 1 + 1) [RotationPhaseRollback, RotationPhaseStandby] c2 = Inr ca'"
      "GetAdditionalTrustedKeys c2 = GetActiveKeys c1"
      by (rule run_step [OF c1(1) ks gp c1(4) [unfolded 2 append.simps]]) simp
    with rolled_back [OF c2(1) ks gp c2(4)] c1 show ?thesis by simp
  next
    case 3
    obtain c2 where c2: "rotation_inv c2" "getOldKeySet c2 = getOldKeySet c1"
      "rotate_through ks tk clock uuids req (j + 1 + 1)
        [RotationPhaseUpdateServers, RotationPhaseRollback, RotationPhaseStandby] c2 = Inr ca'"
      "GetAdditionalTrustedKeys c2 = GetActiveKeys c1"
      by (rule run_step [OF c1(1) ks gp c1(4) [unfolded 3 append.simps]]) simp
    obtain c3 where c3: "rotation_inv c3" "getOldKeySet c3 = getOldKeySet c2" "phase_of c3 = RotationPhaseUpdateServers"
      "rotate_through ks tk clock uuids req (j + 1 + 1 + 1) [RotationPhaseRollback, RotationPhaseStandby] c3 = Inr ca'"
      "GetAdditionalTrustedKeys c3 = GetAdditionalTrustedKeys c2"
      by (rule run_step [OF c2(1) ks gp c2(3)]) simp
    with rolled_back [OF c3(1) ks gp c3(4)] c1 c2 show ?thesis by simp
  qed
qed

end
