(* ===== verification/Authority_Properties.thy ===== *)
theory Authority_Properties
  imports Rotation_Facts Examples
begin

text \<open>The properties of certificate authorities, of their storage and of their rotation.\<close>

section \<open>Examples\<close>

text \<open>Keys are strings: a private key starts with S, its public key with P.\<close>

definition example_parsers :: key_parsers where
  "example_parsers =
     \<lparr>ssh_ParseAuthorizedKey = (\<lambda>s. True), ssh_ParsePrivateKey = (\<lambda>s. None),
      pem_Decode = (\<lambda>s. case s of [] \<Rightarrow> None
        | c # cs \<Rightarrow> if c = CHR ''P'' then Some (''RSA PUBLIC KEY'', cs)
                    else if c = CHR ''S'' then Some (''RSA PRIVATE KEY'', cs) else None),
      x509_ParsePKCS1PrivateKey = (\<lambda>s. None), x509_ParsePKCS1PublicKey = (\<lambda>s. None)\<rparr>"

definition example_key_store :: key_store where
  "example_key_store =
     \<lparr>ks_GenerateRSA = (\<lambda>n. Inr (CHR ''S'' # replicate (Suc n) (CHR ''n''))), ks_SSHPublicKey = (\<lambda>k. Inr (CHR ''P'' # tl k)),
      ks_SelfSignedCA = (\<lambda>k name. Inr (CHR ''P'' # tl k)), ks_MarshalPublicKey = (\<lambda>k. Inr (CHR ''P'' # tl k)),
      ks_keySetHasLocalKeys = raw_keySetHasLocalKeys\<rparr>"

definition no_test_keys :: test_keys where
  "no_test_keys =
     \<lparr>tk_ParseRawPrivateKey = (\<lambda>s. Some BadParameter), tk_SSHPublicKey = (\<lambda>s. Inl BadParameter),
      tk_SelfSignedCA = (\<lambda>s n t. Inl BadParameter), tk_MarshalPrivateKey = (\<lambda>s. Inl BadParameter)\<rparr>"

definition jwt_keys :: "string \<Rightarrow> ca_key_set" where
  "jwt_keys s = \<lparr>ks_SSH = [], ks_TLS = [],
     ks_JWT = [\<lparr>jwt_PublicKey = CHR ''P'' # s, jwt_PrivateKey = CHR ''S'' # s, jwt_PrivateKeyType = RAW\<rparr>]\<rparr>"

definition jwt_ca :: cert_authority where
  "jwt_ca =
     \<lparr>ca_Kind = ''cert_authority'', ca_SubKind = JWTSigner, ca_Version = ''v2'',
      ca_Metadata = (named_metadata ''root'')\<lparr>md_Namespace := ''default''\<rparr>, ca_Type = JWTSigner, ca_ClusterName = ''root'', ca_CheckingKeys = [],
      ca_SigningKeys = [], ca_Roles = [], ca_RoleMap = [], ca_TLSKeyPairs = [], ca_JWTKeyPairs = [],
      ca_Rotation = Some (no_rotation\<lparr>rot_State := RotationStateStandby\<rparr>), ca_SigningAlg = UNKNOWN,
      ca_ActiveKeys = jwt_keys ''0'', ca_AdditionalTrustedKeys = no_keys\<rparr>"

definition example_req :: "string \<Rightarrow> cert_authority \<Rightarrow> rotation_req" where
  "example_req target ca =
     \<lparr>req_ca = ca, req_targetPhase = target, req_mode = RotationModeManual, req_gracePeriod = 3600 * second_ns,
      req_schedule = no_schedule, req_privateKey = [], req_caSigningAlg = None\<rparr>"

lemma jwt_ca_inv: "rotation_inv jwt_ca"
  by code_simp

lemma example_store_sensible: "sensible_store example_key_store"
  by (simp add: sensible_store_def example_key_store_def raw_store_sensible)

lemma jwt_ca_old: "getOldKeySet jwt_ca 1 = no_keys"
  by code_simp

lemma example_run:
  "req_gracePeriod (example_req [] jwt_ca) \<noteq> 0" "state_of jwt_ca \<noteq> RotationStateInProgress"
  "new_rotation_keys example_key_store no_test_keys 5 (2 * 0) (example_req [] jwt_ca) jwt_ca = Inr (jwt_keys ''n'')"
  "KeySet_CheckAndSetDefaults (jwt_keys ''n'') = Inr ()" "public_keys (jwt_keys ''n'') = {PublicJWT ''Pn''}"
  "signing jwt_ca = {PublicJWT ''P0''}"
  by code_simp+

section \<open>Rotation\<close>

text \<open>C16: which requests succeed. While a rotation runs only the table decides: init to update_clients to update_servers
  to standby, from each of the first three to rollback, and from rollback to standby. A new rotation cannot start then.
  Every other request is refused as a bad parameter, and one that succeeds leaves the requested phase.\<close>

theorem rotation_requests:
  assumes "rotation_inv (req_ca req)"
  shows "let outcome = processRotationRequest ks tk now uuid n req in
    (req_targetPhase req \<noteq> RotationPhaseInit \<longrightarrow>
      (if (phase_of (req_ca req), req_targetPhase req) \<in> transitions
       then \<exists>ca'. outcome = Inr ca' \<and> phase_of ca' = req_targetPhase req
       else outcome = Inl BadParameter)) \<and>
    (req_targetPhase req = RotationPhaseInit \<and> state_of (req_ca req) = RotationStateInProgress \<longrightarrow>
      outcome = Inl BadParameter)"
proof -
  have "processRotationRequest ks tk now uuid n req = Inl BadParameter"
    if "req_targetPhase req = RotationPhaseInit" "state_of (req_ca req) = RotationStateInProgress"
    using that by (simp add: processRotationRequest_def Let_def state_of_def)
  then show ?thesis using processRotationRequest_table [OF assms] unfolding Let_def by blast
qed

theorem rotation_requests_witness:
  "processRotationRequest example_key_store no_test_keys 5 ''id'' 0 (example_req RotationPhaseUpdateServers jwt_ca) =
     Inl BadParameter"
proof -
  let ?req = "example_req RotationPhaseUpdateServers jwt_ca"
  have req: "rotation_inv (req_ca ?req)" "req_targetPhase ?req \<noteq> RotationPhaseInit"
    using jwt_ca_inv by (simp_all add: example_req_def)
  have "(phase_of (req_ca ?req), req_targetPhase ?req) \<notin> transitions" by code_simp
  then show ?thesis using rotation_requests [OF req(1)] req(2) unfolding Let_def by metis
qed

text \<open>Runs of requests that are not forced, by any auth server at any time.\<close>

inductive rotates :: "key_store \<Rightarrow> test_keys \<Rightarrow> cert_authority \<Rightarrow> cert_authority \<Rightarrow> bool" for ks tk where
  start: "rotates ks tk ca ca"
| request: "rotates ks tk ca0 (req_ca req) \<Longrightarrow> \<not> forced req \<Longrightarrow> processRotationRequest ks tk now uuid n req = Inr ca \<Longrightarrow>
    rotates ks tk ca0 ca"

lemma rotates_inv: "rotates ks tk ca0 ca \<Longrightarrow> rotation_inv ca0 \<Longrightarrow> sensible_store ks \<Longrightarrow> rotation_inv ca"
  by (induction rule: rotates.induct) (use process_inv in blast)+

text \<open>C5: in any run of unforced requests from a standing authority, two versions one request apart can be used side by
  side: the keys that sign in either are trusted in the other. So a rotation never makes a server refuse a client of the
  next or the previous phase.\<close>

theorem rotation_phases_compatible:
  assumes "rotates ks tk ca0 (req_ca req)" "rotation_inv ca0" "sensible_store ks" "\<not> forced req"
    "processRotationRequest ks tk now uuid n req = Inr ca'"
  shows "signing ca' \<subseteq> trusted (req_ca req) \<and> signing (req_ca req) \<subseteq> trusted ca' \<and> ca_ActiveKeys ca' \<noteq> no_keys"
proof -
  have inv: "rotation_inv (req_ca req)" using rotates_inv assms(1-3) by blast
  have "rotation_inv ca'" using process_inv [OF inv assms(3,5)] .
  then have "ca_ActiveKeys ca' \<noteq> no_keys" by (auto simp: rotation_inv_def)
  moreover have "signing (req_ca req) \<subseteq> trusted ca'"
    using process_keys [OF inv assms(3,5)] assms(4) by (auto simp: signing_def trusted_def split: if_split_asm)
  ultimately show ?thesis using process_signing [OF inv assms(3,5,4)] by blast
qed

theorem rotation_phases_compatible_witness:
  "\<exists>ca'. processRotationRequest example_key_store no_test_keys 5 ''id'' 0 (example_req RotationPhaseInit jwt_ca) = Inr ca' \<and>
     signing ca' \<subseteq> trusted jwt_ca \<and> signing jwt_ca \<subseteq> trusted ca'"
proof -
  let ?req = "example_req RotationPhaseInit jwt_ca"
  have "is_ok (processRotationRequest example_key_store no_test_keys 5 ''id'' 0 ?req)" by code_simp
  then obtain ca' where ca': "processRotationRequest example_key_store no_test_keys 5 ''id'' 0 ?req = Inr ca'"
    by (auto simp: is_ok_iff)
  have "\<not> forced ?req" "req_ca ?req = jwt_ca" by (simp_all add: forced_def example_req_def second_ns_def)
  with rotation_phases_compatible [OF _ jwt_ca_inv example_store_sensible _ ca'] ca' show ?thesis
    by (auto intro: rotates.start)
qed

lemma start_ok:
  assumes "new_rotation_keys ks tk now n req (req_ca req) = Inr k" "KeySet_CheckAndSetDefaults k = Inr ()"
    "req_targetPhase req = RotationPhaseInit" "state_of (req_ca req) \<noteq> RotationStateInProgress" "rotation_inv (req_ca req)"
  shows "\<exists>ca'. processRotationRequest ks tk now uuid n req = Inr ca'"
proof -
  have "rot_State (GetRotation (req_ca req)) \<in> {RotationStateStandby, []}"
    using assms(4,5) by (auto simp: rotation_inv_def phase_fits_def state_of_def)
  then show ?thesis
    using assms(1-3)
    by (auto simp: processRotationRequest_def startNewRotation_def SetActiveKeys_def SetAdditionalTrustedKeys_def Let_def)
qed

fun path :: "string \<Rightarrow> string list \<Rightarrow> bool" where
  "path phase [] = True"
| "path phase (target # targets) = ((phase, target) \<in> transitions \<and> path target targets)"

lemma transitions_not_init: "(p, t) \<in> transitions \<Longrightarrow> t \<noteq> RotationPhaseInit"
  by (auto simp: transitions_def)

lemma path_ok:
  assumes "rotation_inv ca" "sensible_store ks" "path (phase_of ca) targets"
  shows "\<exists>ca'. rotate_through ks tk clock uuids req j targets ca = Inr ca'"
  using assms
proof (induction targets arbitrary: ca j)
  case (Cons target targets)
  let ?req = "req\<lparr>req_ca := ca, req_targetPhase := target\<rparr>"
  have t: "(phase_of ca, target) \<in> transitions" "path target targets" using Cons.prems(3) by simp_all
  have inv: "rotation_inv (req_ca ?req)" using Cons.prems(1) by simp
  have "\<exists>ca1. processRotationRequest ks tk (clock j) (uuids j) (2 * j) ?req = Inr ca1 \<and> phase_of ca1 = target"
    using processRotationRequest_table [OF inv, of ks tk "clock j" "uuids j" "2 * j"] t transitions_not_init by simp
  then obtain ca1 where ca1: "processRotationRequest ks tk (clock j) (uuids j) (2 * j) ?req = Inr ca1" "phase_of ca1 = target"
    by blast
  have "rotation_inv ca1" by (rule process_inv [OF inv Cons.prems(2) ca1(1)])
  then show ?case using Cons.IH [of ca1 "j + 1"] Cons.prems(2) t(2) ca1 by simp
qed simp

lemma start_path_ok:
  assumes inv: "rotation_inv ca" and ks: "sensible_store ks" and gp: "req_gracePeriod req \<noteq> 0"
    and standing: "state_of ca \<noteq> RotationStateInProgress"
    and k: "new_rotation_keys ks tk (clock j) (2 * j) req ca = Inr k" "KeySet_CheckAndSetDefaults k = Inr ()"
    and path: "path RotationPhaseInit targets"
  shows "\<exists>ca'. rotate_through ks tk clock uuids req j (RotationPhaseInit # targets) ca = Inr ca'"
proof -
  let ?req = "req\<lparr>req_ca := ca, req_targetPhase := RotationPhaseInit\<rparr>"
  have inv': "rotation_inv (req_ca ?req)" using inv by simp
  obtain ca1 where ca1: "processRotationRequest ks tk (clock j) (uuids j) (2 * j) ?req = Inr ca1"
    using start_ok [of ks tk "clock j" "2 * j" ?req k] k standing inv by (auto simp: new_keys_ca)
  have nf: "\<not> forced ?req" using gp by (simp add: forced_def)
  have "rotation_inv ca1" by (rule process_inv [OF inv' ks ca1])
  moreover have "phase_of ca1 = RotationPhaseInit" using process_phase [OF ca1 nf] by simp
  ultimately show ?thesis using path_ok [OF _ ks, of ca1 targets tk clock uuids req "j + 1"] path ca1 by simp
qed

text \<open>C10: a rotation that goes through all phases succeeds when new keys can be made: then exactly the new keys sign, and
  what else is trusted comes from the old schema of the stored authority alone, which no request clears.\<close>

theorem rotation_completes:
  assumes "rotation_inv ca" "sensible_store ks" "req_gracePeriod req \<noteq> 0" "state_of ca \<noteq> RotationStateInProgress"
    "new_rotation_keys ks tk (clock j) (2 * j) req ca = Inr k" "KeySet_CheckAndSetDefaults k = Inr ()"
  shows "\<exists>ca'. rotate_through ks tk clock uuids req j
      [RotationPhaseInit, RotationPhaseUpdateClients, RotationPhaseUpdateServers, RotationPhaseStandby] ca = Inr ca' \<and>
    phase_of ca' = RotationPhaseStandby \<and> GetActiveKeys ca' = k \<and> signing ca' = public_keys k \<and>
    trusted ca' = public_keys k \<union> public_keys (getOldKeySet ca 1)"
proof -
  have "path RotationPhaseInit [RotationPhaseUpdateClients, RotationPhaseUpdateServers, RotationPhaseStandby]"
    by (simp add: transitions_def)
  then obtain ca' where run: "rotate_through ks tk clock uuids req j
      [RotationPhaseInit, RotationPhaseUpdateClients, RotationPhaseUpdateServers, RotationPhaseStandby] ca = Inr ca'"
    using start_path_ok [where clock = clock and j = j, OF assms] by blast
  with full_rotation [OF assms(1-3) run] assms(5) show ?thesis
    by (intro exI [of _ ca']) (simp add: signing_def trusted_def)
qed

theorem rotation_completes_witness:
  "\<exists>ca'. rotate_through example_key_store no_test_keys (\<lambda>_. 5) (\<lambda>_. ''id'') (example_req [] jwt_ca) 0
      [RotationPhaseInit, RotationPhaseUpdateClients, RotationPhaseUpdateServers, RotationPhaseStandby] jwt_ca = Inr ca' \<and>
     signing ca' = {PublicJWT ''Pn''}"
proof -
  note ex = rotation_completes [where clock = "\<lambda>_. 5" and j = 0 and uuids = "\<lambda>_. ''id''",
      OF jwt_ca_inv example_store_sensible example_run(1,2) example_run(3) example_run(4)]
  then show ?thesis by (auto simp: example_run(5))
qed

text \<open>C13: a rotation can be rolled back from each of its phases; afterwards the keys that sign are those from before it
  started, and the new keys are not trusted any more.\<close>

theorem rotation_rolls_back:
  assumes "rotation_inv ca" "sensible_store ks" "req_gracePeriod req \<noteq> 0" "state_of ca \<noteq> RotationStateInProgress"
    "new_rotation_keys ks tk (clock j) (2 * j) req ca = Inr k" "KeySet_CheckAndSetDefaults k = Inr ()"
    "steps \<in> {[], [RotationPhaseUpdateClients], [RotationPhaseUpdateClients, RotationPhaseUpdateServers]}"
  shows "\<exists>ca'. rotate_through ks tk clock uuids req j
      (RotationPhaseInit # steps @ [RotationPhaseRollback, RotationPhaseStandby]) ca = Inr ca' \<and>
    phase_of ca' = RotationPhaseStandby \<and> GetActiveKeys ca' = GetActiveKeys ca \<and>
    trusted ca' = signing ca \<union> public_keys (getOldKeySet ca 1)"
proof -
  have "path RotationPhaseInit (steps @ [RotationPhaseRollback, RotationPhaseStandby])"
    using assms(7) by (auto simp: transitions_def)
  then obtain ca' where run: "rotate_through ks tk clock uuids req j
      (RotationPhaseInit # steps @ [RotationPhaseRollback, RotationPhaseStandby]) ca = Inr ca'"
    using start_path_ok [where clock = clock and j = j, OF assms(1-6)] by blast
  with rollback_restores [OF assms(1-3,7) run] show ?thesis
    by (intro exI [of _ ca']) (simp add: signing_def trusted_def)
qed

theorem rotation_rolls_back_witness:
  "\<exists>ca'. rotate_through example_key_store no_test_keys (\<lambda>_. 5) (\<lambda>_. ''id'') (example_req [] jwt_ca) 0
      [RotationPhaseInit, RotationPhaseUpdateClients, RotationPhaseRollback, RotationPhaseStandby] jwt_ca = Inr ca' \<and>
     trusted ca' = {PublicJWT ''P0''}"
proof -
  note ex = rotation_rolls_back [where clock = "\<lambda>_. 5" and j = 0 and uuids = "\<lambda>_. ''id''" and
      steps = "[RotationPhaseUpdateClients]",
      OF jwt_ca_inv example_store_sensible example_run(1,2) example_run(3) example_run(4)]
  then show ?thesis using jwt_ca_old by (auto simp: example_run(6))
qed


section \<open>Storage of authorities\<close>

text \<open>C19: an authority with keys in the new schema survives storage: what is marshalled can be read back, with the same
  active keys and the same trusted keys of each kind, and marshals to the same bytes again.\<close>

theorem cert_authority_roundtrip:
  assumes "MarshalCertAuthority kp ca = Inr stored" "haveNewCAKeys ca"
  shows "\<exists>ca'. UnmarshalCertAuthority kp resourceID stored = Inr ca' \<and> GetActiveKeys ca' = GetActiveKeys ca \<and>
    trusted_ssh ca' = trusted_ssh ca \<and> trusted_tls ca' = trusted_tls ca \<and> trusted_jwt ca' = trusted_jwt ca \<and>
    ca_Type ca' = ca_Type ca \<and> MarshalCertAuthority kp ca' = Inr stored"
proof -
  note facts = MarshalCertAuthority_stored [OF assms]
  then show ?thesis
    using stored_ca_read [of kp stored resourceID] by (intro exI [of _ "ca_SetResourceID resourceID stored"]) simp
qed

theorem cert_authority_roundtrip_witness:
  "\<exists>stored ca'. MarshalCertAuthority example_parsers jwt_ca = Inr stored \<and>
     UnmarshalCertAuthority example_parsers 7 stored = Inr ca' \<and> GetActiveKeys ca' = jwt_keys ''0''"
proof -
  have "is_ok (MarshalCertAuthority example_parsers jwt_ca)" "haveNewCAKeys jwt_ca" "GetActiveKeys jwt_ca = jwt_keys ''0''"
    by code_simp+
  moreover from this obtain stored where "MarshalCertAuthority example_parsers jwt_ca = Inr stored"
    by (auto simp: is_ok_iff)
  ultimately show ?thesis using cert_authority_roundtrip [of example_parsers jwt_ca stored 7] by auto
qed

text \<open>C8: rotations by several auth servers over one memory backend never lose an update: when one has read an authority
  and later swaps in its successor, the swap succeeds only if the stored authority is still the one that was read, whatever
  has happened to the store in between; then the store holds the successor.\<close>

theorem swap_loses_no_update:
  assumes "memory_inv s0" "isKeySafe (ca_key t n)" "holds kp (memory_view s0) (t, n)"
    "GetCertAuthority (Sanitizer (memory_backend cfg)) kp t0 (t, n) True s0 = (Inr existing, s1)"
    "ValidateCertAuthority kp new = Inr new1" "ca_Type new1 = t" "ca_name new1 = n" "memory_inv s2"
    "CompareAndSwapCertAuthority (Sanitizer (memory_backend cfg)) kp t2 new existing s2 = (Inr (), s3)"
  shows "value_at (memory_view (removeExpired cfg t2 s2)) (ca_key t n) =
      value_at (memory_view (removeExpired cfg t0 s0)) (ca_key t n) \<and>
    (\<exists>value. MarshalCertAuthority kp new = Inr value \<and>
       memory_view s3 = (memory_view (removeExpired cfg t2 s2))(ca_key t n \<mapsto> ca_item new1 value))"
  using ca_mem.no_lost_update [OF assms(1) _ assms(3-9)] assms(2) by (simp add: ca_key_ne)

definition stored_jwt_ca :: cert_authority where
  "stored_jwt_ca = jwt_ca\<lparr>ca_JWTKeyPairs := ks_JWT (jwt_keys ''0'')\<rparr>"

definition ca_memory :: "cert_authority memory" where
  "ca_memory = snd (memory_Create (auth_memory False) 1 (ca_item jwt_ca stored_jwt_ca) memory_New)"

definition next_jwt_ca :: cert_authority where
  "next_jwt_ca = jwt_ca\<lparr>ca_AdditionalTrustedKeys := jwt_keys ''1''\<rparr>"

lemma example_stored: "MarshalCertAuthority example_parsers jwt_ca = Inr stored_jwt_ca"
  by code_simp

lemma ca_memory_logged: "logged ca_memory"
  unfolding ca_memory_def
  by (rule memory_run_logged [OF memory_run.step [OF memory_run.start memory_step.create]]) (simp add: auth_memory_def)

lemma example_ca_key: "ca_key JWTSigner ''root'' = ''/authorities/jwt/root''" "isKeySafe ''/authorities/jwt/root''"
  by (code_simp, unfold isKeySafe_iff, code_simp)

lemma ca_memory_view: "memory_view ca_memory = [''/authorities/jwt/root'' \<mapsto> ca_item jwt_ca stored_jwt_ca]"
proof -
  have "m_buf ca_memory = [OpPut (ca_item jwt_ca stored_jwt_ca)]" "it_Key (ca_item jwt_ca stored_jwt_ca) = ''/authorities/jwt/root''"
    by code_simp+
  then show ?thesis using ca_memory_logged by (simp add: logged_def replay_def apply_event_def)
qed
lemma example_swap:
  "GetCertAuthority (Sanitizer (memory_backend (auth_memory False))) example_parsers 3 (JWTSigner, ''root'') True ca_memory =
     (Inr stored_jwt_ca, ca_memory)"
  "fst (CompareAndSwapCertAuthority (Sanitizer (memory_backend (auth_memory False))) example_parsers 3 next_jwt_ca
     stored_jwt_ca ca_memory) = Inr ()"
  "ValidateCertAuthority example_parsers next_jwt_ca = Inr next_jwt_ca" "ca_Type next_jwt_ca = JWTSigner"
  "ca_name next_jwt_ca = ''root''"
  by code_simp+

lemma ca_memory_holds: "holds example_parsers (memory_view ca_memory) (JWTSigner, ''root'')"
proof -
  have "stored_ca example_parsers stored_jwt_ca"
    using MarshalCertAuthority_stored [OF example_stored] by (simp add: haveNewCAKeys_def jwt_ca_def jwt_keys_def)
  moreover have "ca_Type stored_jwt_ca = JWTSigner \<and> ca_name stored_jwt_ca = ''root'' \<and> ca_Expiry jwt_ca = ca_Expiry stored_jwt_ca"
    by code_simp
  ultimately show ?thesis by (simp add: holds_def ca_memory_view example_ca_key ca_item_def)
qed

theorem swap_loses_no_update_witness:
  "\<exists>s3 value. CompareAndSwapCertAuthority (Sanitizer (memory_backend (auth_memory False))) example_parsers 3 next_jwt_ca
       stored_jwt_ca ca_memory = (Inr (), s3) \<and>
     memory_view s3 = (memory_view (removeExpired (auth_memory False) 3 ca_memory))
       (ca_key JWTSigner ''root'' \<mapsto> ca_item next_jwt_ca value)"
proof -
  obtain s3 where s3: "CompareAndSwapCertAuthority (Sanitizer (memory_backend (auth_memory False))) example_parsers 3 next_jwt_ca
       stored_jwt_ca ca_memory = (Inr (), s3)"
    using example_swap(2) by (metis prod.collapse)
  have inv: "memory_inv ca_memory" using ca_memory_logged by (simp add: logged_def)
  have safe: "isKeySafe (ca_key JWTSigner ''root'')" by (simp add: example_ca_key)
  show ?thesis
    using swap_loses_no_update [OF inv safe ca_memory_holds example_swap(1,3-5) inv s3] s3 by blast
qed

section \<open>The schedule\<close>

lemma GenerateSchedule_thirds:
  assumes "GenerateSchedule start gp = Inr sch" "gp < 2 ^ 62"
  shows "0 < gp \<and> sch_UpdateClients sch = start + gp div 3 \<and> sch_UpdateServers sch = start + 2 * gp div 3 \<and>
    sch_Standby sch = start + gp"
proof -
  have gp: "0 < gp" using assms(1) by (simp add: GenerateSchedule_def split: if_splits)
  then have "wrap64 (gp * 2) = gp * 2" using assms(2) by (intro wrap64_id) simp_all
  with gp assms(1) show ?thesis by (auto simp: GenerateSchedule_def div_towards_zero_def mult.commute)
qed

text \<open>C18: an automatic rotation keeps its schedule. The generated times are thirds of the grace period and in the order
  of the phases, when the period is below half the range of durations; and before the time of the next phase the periodic
  check changes nothing. So the old keys stay trusted for the whole grace period.\<close>

theorem automatic_rotation_waits:
  assumes "GenerateSchedule start gp = Inr (rot_Schedule (GetRotation ca))" "gp < 2 ^ 62"
    "phase_of ca = RotationPhaseInit \<and> clock 0 < start + gp div 3 \<or>
     phase_of ca = RotationPhaseUpdateClients \<and> clock 0 < start + 2 * gp div 3 \<or>
     phase_of ca = RotationPhaseUpdateServers \<and> clock 0 < start + gp"
  shows "autoRotate bk a clock ca s = (Inr (), s) \<and>
    start \<le> sch_UpdateClients (rot_Schedule (GetRotation ca)) \<and>
    sch_UpdateClients (rot_Schedule (GetRotation ca)) \<le> sch_UpdateServers (rot_Schedule (GetRotation ca)) \<and>
    sch_UpdateServers (rot_Schedule (GetRotation ca)) \<le> sch_Standby (rot_Schedule (GetRotation ca))"
proof -
  note third = GenerateSchedule_thirds [OF assms(1,2)]
  have "autoRotate bk a clock ca s = (Inr (), s)"
    using assms(3) third
    by (elim disjE conjE) (simp_all add: autoRotate_def next_auto_phase_def phase_of_def Let_def)
  moreover have "0 \<le> gp div 3" "gp div 3 \<le> 2 * gp div 3" "2 * gp div 3 \<le> gp" using third by linarith+
  ultimately show ?thesis using third by simp
qed

definition scheduled_ca :: cert_authority where
  "scheduled_ca = SetRotation (no_rotation\<lparr>rot_State := RotationStateInProgress, rot_Phase := RotationPhaseInit,
     rot_Mode := RotationModeAuto, rot_Schedule := \<lparr>sch_UpdateClients = 101, sch_UpdateServers = 102, sch_Standby = 103\<rparr>\<rparr>) jwt_ca"

definition example_server :: auth_server where
  "example_server =
     \<lparr>as_clusterName = Inr ''root'', as_keyStore = example_key_store, as_testKeys = no_test_keys,
      as_keyParsers = example_parsers, as_privateKey = [], as_caSigningAlg = None\<rparr>"

theorem automatic_rotation_waits_witness:
  "autoRotate (memory_backend (auth_memory False)) example_server (\<lambda>_. 100) scheduled_ca memory_New = (Inr (), memory_New)"
proof -
  have "GenerateSchedule 100 3 = Inr (rot_Schedule (GetRotation scheduled_ca))" "phase_of scheduled_ca = RotationPhaseInit"
    by code_simp+
  then show ?thesis
    using automatic_rotation_waits [of 100 3 scheduled_ca "\<lambda>_. 100" "memory_backend (auth_memory False)" example_server memory_New]
    by simp
qed

text \<open>For longer grace periods the doubled period wraps around, and the servers are due before the rotation starts.\<close>

lemma GenerateSchedule_wraps:
  "\<exists>sch. GenerateSchedule start (2 ^ 62) = Inr sch \<and> sch_UpdateServers sch < start"
  by (simp add: GenerateSchedule_def wrap64_def div_towards_zero_def)

text \<open>
  Where the old schema was filled from an authority with two keys, its second key is found again as an additional key
  after every rotation. A rotation takes it for a key of this server, makes no new one, and the second rotation leaves
  the signing key as it was.
\<close>

definition two_key_ca :: cert_authority where
  "two_key_ca = jwt_ca\<lparr>ca_JWTKeyPairs := ks_JWT (jwt_keys ''0'') @ ks_JWT (jwt_keys ''1''),
     ca_AdditionalTrustedKeys := jwt_keys ''1''\<rparr>"

definition rotate_once :: "cert_authority \<Rightarrow> cert_authority result" where
  "rotate_once ca = rotate_through example_key_store no_test_keys (\<lambda>_. 5) (\<lambda>_. ''id'') (example_req [] ca) 0
     [RotationPhaseInit, RotationPhaseUpdateClients, RotationPhaseUpdateServers, RotationPhaseStandby] ca"

lemma rotation_keeps_key:
  "MarshalCertAuthority example_parsers (jwt_ca\<lparr>ca_AdditionalTrustedKeys := jwt_keys ''1''\<rparr>) = Inr two_key_ca \<and>
   (case rotate_once two_key_ca of
      Inl _ \<Rightarrow> False
    | Inr ca1 \<Rightarrow> signing ca1 = {PublicJWT ''P1''} \<and> map_sum id signing (rotate_once ca1) = Inr {PublicJWT ''P1''})"
  by code_simp

end
