(* ===== verification/Backend_Properties.thy ===== *)
theory Backend_Properties
  imports Memory_Contract
begin

text \<open>The properties of storage: the memory backend, ranges of keys and the iteration over them.\<close>

section \<open>Examples\<close>

definition forever :: "string \<Rightarrow> nat \<Rightarrow> nat item" where
  "forever k v = \<lparr>it_Key = k, it_Value = v, it_Expires = zero_time, it_ID = 0, it_LeaseID = 0\<rparr>"

definition plain_memory :: memory_config where
  "plain_memory = auth_memory False"

definition create_two :: "string \<Rightarrow> string \<Rightarrow> nat memory" where
  "create_two k1 k2 =
     snd (memory_Create plain_memory 1 (forever k2 2) (snd (memory_Create plain_memory 1 (forever k1 1) memory_New)))"

lemma memory_run_two: "memory_run plain_memory (create_two k1 k2)"
  unfolding create_two_def
  by (rule memory_run.step [OF memory_run.step [OF memory_run.start memory_step.create] memory_step.create])

lemma memory_run_inv: "memory_run cfg m \<Longrightarrow> \<not> cfg_EventsOff cfg \<Longrightarrow> memory_inv m"
  using memory_run_logged by (auto simp: logged_def)

lemma plain_memory_simps [simp]: "\<not> cfg_EventsOff plain_memory" "\<not> cfg_Mirror plain_memory"
  by (simp_all add: plain_memory_def auth_memory_def)

lemma two_siblings:
  "memory_view (create_two ''/a/1'' ''/a/2'') = [''/a/1'' \<mapsto> forever ''/a/1'' 1, ''/a/2'' \<mapsto> forever ''/a/2'' 2]"
proof -
  have "m_buf (create_two ''/a/1'' ''/a/2'') = [OpPut (forever ''/a/1'' 1), OpPut (forever ''/a/2'' 2)]" by code_simp
  then show ?thesis
    using memory_run_logged [OF memory_run_two, of "''/a/1''" "''/a/2''"]
    by (simp add: logged_def replay_def apply_event_def forever_def)
qed

section \<open>The memory backend\<close>

text \<open>C6: the memory backend implements the contract of storage: over a finite map from keys to items, each operation
  first drops expired items and then does what its name says, with \<open>NotFound\<close>, \<open>AlreadyExists\<close> or
  \<open>CompareFailed\<close> where the key is missing, present or has another value. No live item is dropped, and no item
  stays whose expiry lies a full second back.\<close>

theorem memory_implements_storage:
  "kv_expiring (memory_backend (auth_memory eventsOff)) memory_inv memory_view (removeExpired (auth_memory eventsOff))
     (\<lambda>k. k \<noteq> [])"
  by (rule auth.kv_expiring_axioms)

text \<open>C12: whatever operations have run on a memory backend, replaying the emitted events from the empty map gives its
  contents, and the top of the heap is an expiring item with the earliest second of expiry.\<close>

theorem memory_history:
  assumes "memory_run cfg m" "\<not> cfg_EventsOff cfg"
  shows "memory_view m = replay (m_buf m) \<and>
    (\<forall>k i. memory_view m k = Some i \<and> it_Expires i \<noteq> zero_time \<longrightarrow>
       PeekEl m \<in> set (m_tree m) \<and> unix_seconds (it_Expires (ref_item m (PeekEl m))) \<le> unix_seconds (it_Expires i))"
proof -
  have inv: "memory_inv m" and view: "memory_view m = replay (m_buf m)"
    using memory_run_logged [OF assms] by (auto simp: logged_def)
  have heap: "heap_inv m" "set (m_heap m) = {r \<in> set (m_tree m). \<not> is_zero_time (it_Expires (ref_item m r))}"
    using inv by (simp_all add: memory_inv_def)
  have "PeekEl m \<in> set (m_tree m) \<and> ref_unix m (PeekEl m) \<le> unix_seconds (it_Expires i)"
    if item: "memory_view m k = Some i" "it_Expires i \<noteq> zero_time" for k i
  proof -
    obtain r where r: "r \<in> set (m_tree m)" "ref_item m r = i"
      using item(1) [unfolded memory_view_Some [OF inv]] by blast
    then have mem: "r \<in> set (m_heap m)" using heap(2) item(2) by (simp add: is_zero_time_def)
    then have "m_heap m \<noteq> []" by auto
    then have "PeekEl m \<in> set (m_heap m)" by (simp add: PeekEl_def)
    then show ?thesis using heap_inv_min [OF heap(1) mem] heap(2) r by (simp add: ref_unix_def)
  qed
  then show ?thesis using view unfolding ref_unix_def by blast
qed

theorem memory_history_witness:
  "memory_view (create_two ''/a/1'' ''/a/2'') = replay (m_buf (create_two ''/a/1'' ''/a/2''))"
  using memory_history [OF memory_run_two, of "''/a/1''" "''/a/2''"] by simp

section \<open>Ranges\<close>

lemma nextKey_ne: "nextKey k \<noteq> []"
proof -
  have "next_key_loop xs = Some r \<Longrightarrow> r \<noteq> []" for xs r
    by (induction xs) (auto split: if_splits)
  then show ?thesis by (auto simp: nextKey_def noEnd_def split: option.split)
qed

lemma sibling_range:
  "''/a/'' \<le> ''/a/1'' \<and> ''/a/'' \<le> ''/a/2'' \<and> ''/a/1'' < RangeEnd ''/a/'' \<and> ''/a/2'' < RangeEnd ''/a/'' \<and>
   ''/a/1'' \<le> ''/a/2'' \<and> RangeEnd ''/a/'' \<noteq> []"
  by code_simp

text \<open>C17: \<open>IterateRange\<close> over the memory backend returns: with a positive limit, it passes every item of the range to
  its callback, in the order of the keys and once, after at most as many rounds as there are keys and one more. For
  this no key of the range may be a proper prefix of another, and nothing in the range may expire meanwhile.\<close>

theorem IterateRange_visits_all:
  assumes "memory_run cfg m" "\<not> cfg_EventsOff cfg" "a \<noteq> []" "b \<noteq> []" "0 < limit" "prefix_free (memory_view m) a b"
    "\<forall>i\<in>set (range_items (memory_view m) a b). \<forall>n. lives (clock n) i"
    "length (range_keys (memory_view m) a b) < rounds"
  shows "\<exists>m'. IterateRange (memory_backend cfg) clock rounds a b limit collect [] m =
    Some (Inr (range_items (memory_view m) a b), m')"
  using mem.IterateRange_all [OF memory_run_inv [OF assms(1,2)] assms(3-7) _ assms(8), where acc = "[]"]
  by (auto simp: nextKey_ne)

theorem IterateRange_visits_all_witness:
  "\<exists>m'. IterateRange (memory_backend plain_memory) (\<lambda>_. 5) 3 ''/a/'' (RangeEnd ''/a/'') 1 collect []
     (create_two ''/a/1'' ''/a/2'') = Some (Inr [forever ''/a/1'' 1, forever ''/a/2'' 2], m')"
proof -
  let ?m = "create_two ''/a/1'' ''/a/2''" and ?b = "RangeEnd ''/a/''"
  have "{k \<in> dom (memory_view ?m). ''/a/'' \<le> k \<and> k < ?b} = {''/a/1'', ''/a/2''}"
    using sibling_range by (auto simp: two_siblings)
  then have keys: "range_keys (memory_view ?m) ''/a/'' ?b = [''/a/1'', ''/a/2'']"
    using sibling_range by (simp add: range_keys_def)
  then have items: "range_items (memory_view ?m) ''/a/'' ?b = [forever ''/a/1'' 1, forever ''/a/2'' 2]"
    by (simp add: range_items_def two_siblings)
  have free: "prefix_free (memory_view ?m) ''/a/'' ?b"
    by (auto simp: prefix_free_def keys)
  have "\<exists>m'. IterateRange (memory_backend plain_memory) (\<lambda>_. 5) 3 ''/a/'' ?b 1 collect [] ?m =
      Some (Inr (range_items (memory_view ?m) ''/a/'' ?b), m')"
    by (rule IterateRange_visits_all [OF memory_run_two])
      (use sibling_range free in \<open>simp_all add: keys items lives_def forever_def is_zero_time_def\<close>)
  then show ?thesis unfolding items .
qed

text \<open>Where a key is a proper prefix of another one, the iteration skips the longer key when the shorter ends a page.\<close>

theorem IterateRange_skips:
  "map_option fst (IterateRange (memory_backend plain_memory) (\<lambda>_. 5) 3 ''/a'' (RangeEnd ''/a'') 1 collect []
     (create_two ''/a'' ''/a/b'')) = Some (Inr [forever ''/a'' 1]) \<and>
   fst (memory_GetRange plain_memory 5 ''/a'' (RangeEnd ''/a'') 2 (create_two ''/a'' ''/a/b'')) =
     Inr [forever ''/a'' 1, forever ''/a/b'' 2]"
  by code_simp

section \<open>A backend with given items\<close>

text \<open>A memory backend that holds some items.\<close>

fun created :: "'v item list \<Rightarrow> 'v memory" where
  "created [] = memory_New"
| "created (i # is) = snd (memory_Create plain_memory 1 i (created is))"

lemma purge_forever:
  assumes "memory_inv m" "\<And>k i. memory_view m k = Some i \<Longrightarrow> lives now i"
  shows "memory_view (removeExpired cfg now m) = memory_view m"
proof
  fix k
  show "memory_view (removeExpired cfg now m) k = memory_view m k"
    using mem.purge_lives [OF assms(1), of k _ now cfg] mem.purge_old [OF assms(1), of cfg now k] assms(2) [of k]
    by (cases "memory_view m k"; cases "memory_view (removeExpired cfg now m) k") auto
qed

lemma created_view:
  assumes "distinct (map it_Key is)" "\<forall>i\<in>set is. it_Key i \<noteq> [] \<and> lives 1 i"
  shows "memory_inv (created is) \<and> memory_view (created is) = map_of (map (\<lambda>i. (it_Key i, i)) is)"
  using assms
proof (induction "is")
  case (Cons i "is")
  let ?m = "created is" and ?map = "map_of (map (\<lambda>i. (it_Key i, i)) is)"
  have m: "memory_inv ?m" "memory_view ?m = ?map" using Cons by simp_all
  have "?map k = Some j \<Longrightarrow> lives 1 j" for k j
    using Cons.prems(2) by (auto dest!: map_of_SomeD)
  then have p: "memory_view (removeExpired plain_memory 1 ?m) = ?map" using purge_forever [OF m(1)] m(2) by metis
  have new: "?map (it_Key i) = None" using Cons.prems(1) by (auto simp: map_of_eq_None_iff)
  obtain l s' where "b_Create (memory_backend plain_memory) 1 i ?m = (Inr l, s')" "memory_inv s'" "memory_view s' = ?map(it_Key i \<mapsto> i)"
    using mem.create [OF m(1), of i plain_memory 1] p new Cons.prems(2) by auto
  then show ?case by (auto simp: memory_backend_def)
qed (auto simp: fun_eq_iff)

end
