(* ===== verification/Semaphores.thy ===== *)
theory Semaphores
  imports Memory_Contract Role_Types
begin

text \<open>
  Distributed semaphores: the resource of \<open>api/types/semaphore.go\<close>, its storage form in
  \<open>lib/services/semaphore.go\<close> and the operations of \<open>lib/services/local/presence.go\<close> over a backend. The stored
  bytes are the resource itself. The clock readings of an operation are a function of their number, and \<open>others n\<close> is
  what other servers do to the store before its n-th access. Lease identifiers come from a source of unique strings.
\<close>

section \<open>The resource\<close>

record semaphore_lease_ref =
  slr_LeaseID :: string
  slr_Expires :: time
  slr_Holder :: string

record semaphore =
  sem_Kind :: string
  sem_SubKind :: string
  sem_Version :: string
  sem_Metadata :: metadata
  sem_Leases :: "semaphore_lease_ref list"

record semaphore_lease =
  sl_SemaphoreKind :: string
  sl_SemaphoreName :: string
  sl_LeaseID :: string
  sl_Expires :: time

record acquire_request =
  asr_SemaphoreKind :: string
  asr_SemaphoreName :: string
  asr_MaxLeases :: int
  asr_Expires :: time
  asr_Holder :: string

record semaphore_filter =
  sf_SemaphoreKind :: string
  sf_SemaphoreName :: string

definition sem_name :: "semaphore \<Rightarrow> string" where
  "sem_name c = md_Name (sem_Metadata c)"

definition sem_Expiry :: "semaphore \<Rightarrow> time" where
  "sem_Expiry c = (case md_Expires (sem_Metadata c) of None \<Rightarrow> zero_time | Some t \<Rightarrow> t)"

definition sem_SetExpiry :: "time \<Rightarrow> semaphore \<Rightarrow> semaphore" where
  "sem_SetExpiry t c = c\<lparr>sem_Metadata := (sem_Metadata c)\<lparr>md_Expires := Some t\<rparr>\<rparr>"

definition sem_SetResourceID :: "int \<Rightarrow> semaphore \<Rightarrow> semaphore" where
  "sem_SetResourceID i c = c\<lparr>sem_Metadata := (sem_Metadata c)\<lparr>md_ID := i\<rparr>\<rparr>"

definition sem_CheckAndSetDefaults :: "semaphore \<Rightarrow> semaphore result" where
  "sem_CheckAndSetDefaults c =
     (let c1 = c\<lparr>sem_Kind := ''semaphore'', sem_Version := ''v3''\<rparr>
      in case Metadata_CheckAndSetDefaults (sem_Metadata c1) of
           Inl e \<Rightarrow> Inl e
         | Inr m \<Rightarrow>
             (let c2 = c1\<lparr>sem_Metadata := m\<rparr>
              in if is_zero_time (sem_Expiry c2) then Inl BadParameter
                 else if sem_SubKind c2 = [] then Inl BadParameter
                 else Inr c2))"

definition acquire_Check :: "acquire_request \<Rightarrow> unit result" where
  "acquire_Check s =
     (if asr_SemaphoreKind s = [] then Inl BadParameter
      else if asr_SemaphoreName s = [] then Inl BadParameter
      else if asr_MaxLeases s = 0 then Inl BadParameter
      else if is_zero_time (asr_Expires s) then Inl BadParameter
      else Inr ())"

definition ConfigureSemaphore :: "acquire_request \<Rightarrow> semaphore result" where
  "ConfigureSemaphore s =
     sem_CheckAndSetDefaults
       (sem_SetExpiry (asr_Expires s)
         \<lparr>sem_Kind = [], sem_SubKind = asr_SemaphoreKind s, sem_Version = [],
          sem_Metadata = named_metadata (asr_SemaphoreName s), sem_Leases = []\<rparr>)"

definition lease_CheckAndSetDefaults :: "semaphore_lease \<Rightarrow> unit result" where
  "lease_CheckAndSetDefaults l =
     (if sl_SemaphoreKind l = [] then Inl BadParameter
      else if sl_SemaphoreName l = [] then Inl BadParameter
      else if sl_LeaseID l = [] then Inl BadParameter
      else if is_zero_time (sl_Expires l) then Inl BadParameter
      else Inr ())"

definition sem_Contains :: "semaphore_lease \<Rightarrow> semaphore \<Rightarrow> bool" where
  "sem_Contains l c =
     (if sl_SemaphoreKind l \<noteq> sem_SubKind c \<or> sl_SemaphoreName l \<noteq> sem_name c then False
      else \<exists>ref\<in>set (sem_Leases c). slr_LeaseID ref = sl_LeaseID l)"

definition leaseCount :: "semaphore \<Rightarrow> int" where
  "leaseCount c = int (length (sem_Leases c))"

definition sem_Acquire :: "string \<Rightarrow> acquire_request \<Rightarrow> semaphore \<Rightarrow> (semaphore \<times> semaphore_lease) result" where
  "sem_Acquire leaseID params c =
     (if asr_SemaphoreKind params \<noteq> sem_SubKind c \<or> asr_SemaphoreName params \<noteq> sem_name c then Inl BadParameter
      else if leaseCount c \<ge> asr_MaxLeases params then Inl LimitExceeded
      else if \<exists>ref\<in>set (sem_Leases c). slr_LeaseID ref = leaseID then Inl AlreadyExists
      else
        (let c1 = (if asr_Expires params > sem_Expiry c then sem_SetExpiry (asr_Expires params) c else c)
         in Inr (c1\<lparr>sem_Leases := sem_Leases c1 @
                     [\<lparr>slr_LeaseID = leaseID, slr_Expires = asr_Expires params, slr_Holder = asr_Holder params\<rparr>]\<rparr>,
                 \<lparr>sl_SemaphoreKind = asr_SemaphoreKind params, sl_SemaphoreName = asr_SemaphoreName params,
                  sl_LeaseID = leaseID, sl_Expires = asr_Expires params\<rparr>)))"

text \<open>The first lease with an identifier, with the rest of the list.\<close>

fun renew_lease :: "string \<Rightarrow> time \<Rightarrow> semaphore_lease_ref list \<Rightarrow> semaphore_lease_ref list option" where
  "renew_lease leaseID expires [] = None"
| "renew_lease leaseID expires (ref # refs) =
     (if slr_LeaseID ref = leaseID then Some (ref\<lparr>slr_Expires := expires\<rparr> # refs)
      else map_option (Cons ref) (renew_lease leaseID expires refs))"

fun drop_lease :: "string \<Rightarrow> semaphore_lease_ref list \<Rightarrow> semaphore_lease_ref list option" where
  "drop_lease leaseID [] = None"
| "drop_lease leaseID (ref # refs) =
     (if slr_LeaseID ref = leaseID then Some refs else map_option (Cons ref) (drop_lease leaseID refs))"

definition sem_KeepAlive :: "semaphore_lease \<Rightarrow> semaphore \<Rightarrow> semaphore result" where
  "sem_KeepAlive l c =
     (if sl_SemaphoreKind l \<noteq> sem_SubKind c \<or> sl_SemaphoreName l \<noteq> sem_name c then Inl BadParameter
      else case renew_lease (sl_LeaseID l) (sl_Expires l) (sem_Leases c) of
             None \<Rightarrow> Inl NotFound
           | Some refs \<Rightarrow>
               (let c1 = c\<lparr>sem_Leases := refs\<rparr>
                in Inr (if sl_Expires l > sem_Expiry c1 then sem_SetExpiry (sl_Expires l) c1 else c1)))"

definition sem_Cancel :: "semaphore_lease \<Rightarrow> semaphore \<Rightarrow> semaphore result" where
  "sem_Cancel l c =
     (if sl_SemaphoreKind l \<noteq> sem_SubKind c \<or> sl_SemaphoreName l \<noteq> sem_name c then Inl BadParameter
      else case drop_lease (sl_LeaseID l) (sem_Leases c) of
             None \<Rightarrow> Inl NotFound
           | Some refs \<Rightarrow> Inr (c\<lparr>sem_Leases := refs\<rparr>))"

definition RemoveExpiredLeases :: "time \<Rightarrow> semaphore \<Rightarrow> semaphore" where
  "RemoveExpiredLeases now c = c\<lparr>sem_Leases := filter (\<lambda>l. slr_Expires l > now) (sem_Leases c)\<rparr>"

definition filter_Match_semaphore :: "semaphore_filter \<Rightarrow> semaphore \<Rightarrow> bool" where
  "filter_Match_semaphore f c =
     (if sf_SemaphoreKind f \<noteq> [] \<and> sf_SemaphoreKind f \<noteq> sem_SubKind c then False
      else if sf_SemaphoreName f \<noteq> [] \<and> sf_SemaphoreName f \<noteq> sem_name c then False
      else True)"

definition MarshalSemaphore :: "semaphore \<Rightarrow> semaphore result" where
  "MarshalSemaphore c =
     (case sem_CheckAndSetDefaults c of Inl e \<Rightarrow> Inl e | Inr c1 \<Rightarrow> Inr (sem_SetResourceID 0 c1))"

definition UnmarshalSemaphore :: "int \<Rightarrow> time \<Rightarrow> semaphore \<Rightarrow> semaphore result" where
  "UnmarshalSemaphore resourceID expires stored =
     (case sem_CheckAndSetDefaults stored of
        Inl e \<Rightarrow> Inl e
      | Inr c \<Rightarrow>
          (let c1 = (if resourceID \<noteq> 0 then sem_SetResourceID resourceID c else c)
           in Inr (if \<not> is_zero_time expires then sem_SetExpiry expires c1 else c1)))"

section \<open>The service\<close>

definition semaphoresPrefix :: string where
  "semaphoresPrefix = ''semaphores''"

definition sem_key :: "string \<Rightarrow> string \<Rightarrow> string" where
  "sem_key kind name = Key [semaphoresPrefix, kind, name]"

definition sem_item :: "string \<Rightarrow> semaphore \<Rightarrow> semaphore item" where
  "sem_item key value = \<lparr>it_Key = key, it_Value = value, it_Expires = sem_Expiry value, it_ID = 0, it_LeaseID = 0\<rparr>"

text \<open>What the operations compute from the stored value, between reading it and swapping in another one.\<close>

definition acquired_value :: "time \<Rightarrow> string \<Rightarrow> acquire_request \<Rightarrow> semaphore \<Rightarrow> (semaphore \<times> semaphore_lease) result" where
  "acquired_value now leaseID req stored =
     (case UnmarshalSemaphore 0 zero_time stored of
        Inl e \<Rightarrow> Inl e
      | Inr sem \<Rightarrow>
          (case sem_Acquire leaseID req (RemoveExpiredLeases now sem) of
             Inl e \<Rightarrow> Inl e
           | Inr (sem1, lease) \<Rightarrow>
               (case MarshalSemaphore sem1 of Inl e \<Rightarrow> Inl e | Inr value \<Rightarrow> Inr (value, lease))))"

definition renewed_value :: "time \<Rightarrow> semaphore_lease \<Rightarrow> semaphore \<Rightarrow> semaphore result" where
  "renewed_value now lease stored =
     (case UnmarshalSemaphore 0 zero_time stored of
        Inl e \<Rightarrow> Inl e
      | Inr sem \<Rightarrow>
          (case sem_KeepAlive lease (RemoveExpiredLeases now sem) of
             Inl e \<Rightarrow> Inl e
           | Inr sem1 \<Rightarrow> MarshalSemaphore sem1))"

definition cancelled_value :: "semaphore_lease \<Rightarrow> semaphore \<Rightarrow> semaphore result" where
  "cancelled_value lease stored =
     (case UnmarshalSemaphore 0 zero_time stored of
        Inl e \<Rightarrow> Inl e
      | Inr sem \<Rightarrow> (case sem_Cancel lease sem of Inl e \<Rightarrow> Inl e | Inr sem1 \<Rightarrow> MarshalSemaphore sem1))"

definition initial_value :: "string \<Rightarrow> acquire_request \<Rightarrow> (semaphore \<times> semaphore_lease) result" where
  "initial_value leaseID req =
     (case ConfigureSemaphore req of
        Inl e \<Rightarrow> Inl e
      | Inr sem \<Rightarrow>
          (case sem_Acquire leaseID req sem of
             Inl e \<Rightarrow> Inl e
           | Inr (sem1, lease) \<Rightarrow>
               (case MarshalSemaphore sem1 of Inl e \<Rightarrow> Inl e | Inr value \<Rightarrow> Inr (value, lease))))"

definition initSemaphore ::
  "('s, semaphore) backend \<Rightarrow> time \<Rightarrow> string \<Rightarrow> string \<Rightarrow> acquire_request \<Rightarrow> 's \<Rightarrow> semaphore_lease result \<times> 's" where
  "initSemaphore bk now key leaseID req s =
     (case initial_value leaseID req of
        Inl e \<Rightarrow> (Inl e, s)
      | Inr (value, lease) \<Rightarrow>
          (case b_Create bk now (sem_item key value) s of
             (Inl e, s1) \<Rightarrow> (Inl e, s1)
           | (Inr _, s1) \<Rightarrow> (Inr lease, s1)))"

definition acquireSemaphore ::
  "('s, semaphore) backend \<Rightarrow> (nat \<Rightarrow> time) \<Rightarrow> (nat \<Rightarrow> 's \<Rightarrow> 's) \<Rightarrow> string \<Rightarrow> string \<Rightarrow> acquire_request \<Rightarrow> 's \<Rightarrow>
     semaphore_lease result \<times> 's" where
  "acquireSemaphore bk clock others key leaseID req s =
     (case b_Get bk (clock 0) key (others 0 s) of
        (Inl e, s1) \<Rightarrow> (Inl e, s1)
      | (Inr i, s1) \<Rightarrow>
          (case acquired_value (clock 1) leaseID req (it_Value i) of
             Inl e \<Rightarrow> (Inl e, s1)
           | Inr (value, lease) \<Rightarrow>
               (case b_CompareAndSwap bk (clock 2) i (sem_item key value) (others 1 s1) of
                  (Inl e, s2) \<Rightarrow> (Inl e, s2)
                | (Inr _, s2) \<Rightarrow> (Inr lease, s2))))"

definition acquireAttempts :: nat where
  "acquireAttempts = 6"

text \<open>The attempt i of \<open>AcquireSemaphore\<close>; \<open>cancelled i\<close> says that the context is done before it.\<close>

fun acquire_loop ::
  "('s, semaphore) backend \<Rightarrow> (nat \<Rightarrow> nat \<Rightarrow> time) \<Rightarrow> (nat \<Rightarrow> nat \<Rightarrow> 's \<Rightarrow> 's) \<Rightarrow> (nat \<Rightarrow> bool) \<Rightarrow> string \<Rightarrow> string \<Rightarrow>
     acquire_request \<Rightarrow> nat \<Rightarrow> nat \<Rightarrow> 's \<Rightarrow> semaphore_lease result \<times> 's" where
  "acquire_loop bk clock others cancelled key leaseID req i 0 s = (Inl LimitExceeded, s)"
| "acquire_loop bk clock others cancelled key leaseID req i (Suc n) s =
     (if i > 0 \<and> cancelled i then (Inl Unclassified, s)
      else case acquireSemaphore bk (clock i) (others i) key leaseID req s of
             (Inr lease, s1) \<Rightarrow> (Inr lease, s1)
           | (Inl e, s1) \<Rightarrow>
               if e = NotFound then
                 (case initSemaphore bk (clock i 3) key leaseID req (others i 2 s1) of
                    (Inr lease, s2) \<Rightarrow> (Inr lease, s2)
                  | (Inl e2, s2) \<Rightarrow>
                      if e2 = AlreadyExists then acquire_loop bk clock others cancelled key leaseID req (i + 1) n s2
                      else (Inl e2, s2))
               else if e = CompareFailed then acquire_loop bk clock others cancelled key leaseID req (i + 1) n s1
               else (Inl e, s1))"

definition AcquireSemaphore ::
  "('s, semaphore) backend \<Rightarrow> time \<Rightarrow> (nat \<Rightarrow> nat \<Rightarrow> time) \<Rightarrow> (nat \<Rightarrow> nat \<Rightarrow> 's \<Rightarrow> 's) \<Rightarrow> (nat \<Rightarrow> bool) \<Rightarrow> string \<Rightarrow>
     acquire_request \<Rightarrow> 's \<Rightarrow> semaphore_lease result \<times> 's" where
  "AcquireSemaphore bk now clock others cancelled leaseID req s =
     (case acquire_Check req of
        Inl e \<Rightarrow> (Inl e, s)
      | Inr _ \<Rightarrow>
          if asr_Expires req < now then (Inl BadParameter, s)
          else acquire_loop bk clock others cancelled (sem_key (asr_SemaphoreKind req) (asr_SemaphoreName req)) leaseID req
                 0 acquireAttempts s)"

definition KeepAliveSemaphoreLease ::
  "('s, semaphore) backend \<Rightarrow> (nat \<Rightarrow> time) \<Rightarrow> (nat \<Rightarrow> 's \<Rightarrow> 's) \<Rightarrow> semaphore_lease \<Rightarrow> 's \<Rightarrow> unit result \<times> 's" where
  "KeepAliveSemaphoreLease bk clock others lease s =
     (case lease_CheckAndSetDefaults lease of
        Inl e \<Rightarrow> (Inl e, s)
      | Inr _ \<Rightarrow>
          if sl_Expires lease < clock 0 then (Inl BadParameter, s)
          else
            (let key = sem_key (sl_SemaphoreKind lease) (sl_SemaphoreName lease)
             in case b_Get bk (clock 1) key (others 0 s) of
                  (Inl e, s1) \<Rightarrow> (Inl e, s1)
                | (Inr i, s1) \<Rightarrow>
                    (case renewed_value (clock 2) lease (it_Value i) of
                       Inl e \<Rightarrow> (Inl e, s1)
                     | Inr value \<Rightarrow>
                         (case b_CompareAndSwap bk (clock 3) i (sem_item key value) (others 1 s1) of
                            (Inl e, s2) \<Rightarrow> (Inl e, s2)
                          | (Inr _, s2) \<Rightarrow> (Inr (), s2)))))"

definition CancelSemaphoreLease ::
  "('s, semaphore) backend \<Rightarrow> (nat \<Rightarrow> time) \<Rightarrow> (nat \<Rightarrow> 's \<Rightarrow> 's) \<Rightarrow> semaphore_lease \<Rightarrow> 's \<Rightarrow> unit result \<times> 's" where
  "CancelSemaphoreLease bk clock others lease s =
     (case lease_CheckAndSetDefaults lease of
        Inl e \<Rightarrow> (Inl e, s)
      | Inr _ \<Rightarrow>
          if sl_Expires lease < clock 0 then (Inl BadParameter, s)
          else
            (let key = sem_key (sl_SemaphoreKind lease) (sl_SemaphoreName lease)
             in case b_Get bk (clock 1) key (others 0 s) of
                  (Inl e, s1) \<Rightarrow> (Inl e, s1)
                | (Inr i, s1) \<Rightarrow>
                    (case cancelled_value lease (it_Value i) of
                       Inl e \<Rightarrow> (Inl e, s1)
                     | Inr value \<Rightarrow>
                         (case b_CompareAndSwap bk (clock 2) i (sem_item key value) (others 1 s1) of
                            (Inl e, s2) \<Rightarrow> (Inl e, s2)
                          | (Inr _, s2) \<Rightarrow> (Inr (), s2)))))"

fun matching_semaphores :: "semaphore_filter \<Rightarrow> semaphore item list \<Rightarrow> semaphore list result" where
  "matching_semaphores f [] = Inr []"
| "matching_semaphores f (i # is) =
     (case UnmarshalSemaphore 0 zero_time (it_Value i) of
        Inl e \<Rightarrow> Inl e
      | Inr sem \<Rightarrow>
          (case matching_semaphores f is of
             Inl e \<Rightarrow> Inl e
           | Inr sems \<Rightarrow> Inr (if filter_Match_semaphore f sem then sem # sems else sems)))"

definition GetSemaphores ::
  "('s, semaphore) backend \<Rightarrow> time \<Rightarrow> semaphore_filter \<Rightarrow> 's \<Rightarrow> semaphore list result \<times> 's" where
  "GetSemaphores bk now f s =
     (if sf_SemaphoreKind f \<noteq> [] \<and> sf_SemaphoreName f \<noteq> [] then
        (case b_Get bk now (sem_key (sf_SemaphoreKind f) (sf_SemaphoreName f)) s of
           (Inl e, s1) \<Rightarrow> (if e = NotFound then Inr [] else Inl e, s1)
         | (Inr i, s1) \<Rightarrow> (matching_semaphores f [i], s1))
      else
        (let startKey = (if sf_SemaphoreKind f \<noteq> [] then Key [semaphoresPrefix, sf_SemaphoreKind f]
                         else Key [semaphoresPrefix])
         in case b_GetRange bk now startKey (RangeEnd startKey) NoLimit s of
              (Inl e, s1) \<Rightarrow> (if e = NotFound then Inr [] else Inl e, s1)
            | (Inr items, s1) \<Rightarrow> (matching_semaphores f items, s1)))"

definition DeleteSemaphore ::
  "('s, semaphore) backend \<Rightarrow> time \<Rightarrow> semaphore_filter \<Rightarrow> 's \<Rightarrow> unit result \<times> 's" where
  "DeleteSemaphore bk now f s =
     (if sf_SemaphoreKind f = [] \<or> sf_SemaphoreName f = [] then (Inl BadParameter, s)
      else b_Delete bk now (sem_key (sf_SemaphoreKind f) (sf_SemaphoreName f)) s)"

text \<open>\<open>SemaphoreLockConfig\<close>; the first field says that there is a service.\<close>

record semaphore_lock_config =
  slc_Service :: bool
  slc_Expiry :: duration
  slc_TickRate :: duration
  slc_Params :: acquire_request

definition SessionControlTimeout :: duration where
  "SessionControlTimeout = 120 * second_ns"

definition lock_config_CheckAndSetDefaults :: "time \<Rightarrow> semaphore_lock_config \<Rightarrow> semaphore_lock_config result" where
  "lock_config_CheckAndSetDefaults now l =
     (if \<not> slc_Service l then Inl BadParameter
      else
        (let l1 = (if slc_Expiry l = 0 then l\<lparr>slc_Expiry := SessionControlTimeout\<rparr> else l)
         in if slc_Expiry l1 < 1000000 then Inl BadParameter
            else
              (let l2 = (if slc_TickRate l1 = 0 then l1\<lparr>slc_TickRate := slc_Expiry l1 div 2\<rparr> else l1)
               in if slc_TickRate l2 \<ge> slc_Expiry l2 then Inl BadParameter
                  else
                    (let l3 = (if is_zero_time (asr_Expires (slc_Params l2))
                               then l2\<lparr>slc_Params := (slc_Params l2)\<lparr>asr_Expires := now + slc_Expiry l2\<rparr>\<rparr> else l2)
                     in case acquire_Check (slc_Params l3) of Inl e \<Rightarrow> Inl e | Inr _ \<Rightarrow> Inr l3))))"

end
