(* ===== verification/Semaphore_Safety.thy ===== *)
theory Semaphore_Safety
  imports Semaphores
begin

text \<open>
  What semaphores promise: however many servers acquire, renew and cancel leases of one semaphore at the same time, never
  more leases are held than the limit they all use. A run interleaves the accesses to the store; what a server computes
  between its read and its swap is one of the functions of the service.
\<close>

section \<open>Stored semaphores\<close>

lemma sem_check_Inr:
  assumes "sem_CheckAndSetDefaults c = Inr c'"
  shows "sem_Leases c' = sem_Leases c \<and> sem_Expiry c' = sem_Expiry c \<and> sem_SubKind c' = sem_SubKind c \<and>
    sem_name c' = sem_name c \<and> sem_CheckAndSetDefaults (sem_SetResourceID j c') = Inr (sem_SetResourceID j c')"
proof -
  let ?c1 = "c\<lparr>sem_Kind := ''semaphore'', sem_Version := ''v3''\<rparr>"
  obtain m where m: "Metadata_CheckAndSetDefaults (sem_Metadata c) = Inr m"
    and c': "\<not> is_zero_time (sem_Expiry (?c1\<lparr>sem_Metadata := m\<rparr>))" "sem_SubKind c \<noteq> []" "c' = ?c1\<lparr>sem_Metadata := m\<rparr>"
    using assms by (auto simp: sem_CheckAndSetDefaults_def Let_def case_result_Inr split: if_splits)
  have fields: "md_Name m = md_Name (sem_Metadata c)" "md_Expires m = md_Expires (sem_Metadata c)"
    using m by (auto simp: Metadata_CheckAndSetDefaults_def Let_def split: if_splits)
  have "md_Namespace m \<noteq> []" "Metadata_CheckAndSetDefaults m = Inr m" using Metadata_check_Inr [OF m] by simp_all
  then have "Metadata_CheckAndSetDefaults (m\<lparr>md_ID := j\<rparr>) = Inr (m\<lparr>md_ID := j\<rparr>)"
    by (auto simp: Metadata_CheckAndSetDefaults_def Origin_def Let_def split: if_splits)
  with fields c' show ?thesis
    by (simp add: sem_CheckAndSetDefaults_def sem_SetResourceID_def sem_Expiry_def sem_name_def Let_def)
qed

definition sem_stored :: "int \<Rightarrow> semaphore \<Rightarrow> bool" where
  "sem_stored limit c \<longleftrightarrow> sem_CheckAndSetDefaults c = Inr c \<and> leaseCount c \<le> limit \<and>
     (\<forall>l\<in>set (sem_Leases c). slr_Expires l \<le> sem_Expiry c)"

lemma sem_stored_read: "sem_stored limit c \<Longrightarrow> UnmarshalSemaphore 0 zero_time c = Inr c"
  by (simp add: sem_stored_def UnmarshalSemaphore_def is_zero_time_def)

lemma Marshal_stored:
  assumes "MarshalSemaphore c = Inr v" "leaseCount c \<le> limit" "\<forall>l\<in>set (sem_Leases c). slr_Expires l \<le> sem_Expiry c"
  shows "sem_stored limit v \<and> sem_Leases v = sem_Leases c \<and> sem_Expiry v = sem_Expiry c"
proof -
  obtain c1 where c1: "sem_CheckAndSetDefaults c = Inr c1" "v = sem_SetResourceID 0 c1"
    using assms(1) by (auto simp: MarshalSemaphore_def case_result_Inr)
  have "sem_Leases (sem_SetResourceID 0 c1) = sem_Leases c1" "sem_Expiry (sem_SetResourceID 0 c1) = sem_Expiry c1"
    by (simp_all add: sem_SetResourceID_def sem_Expiry_def)
  then show ?thesis
    using sem_check_Inr [OF c1(1), of 0] c1(2) assms(2,3) by (simp add: sem_stored_def leaseCount_def)
qed

text \<open>Leases of others that are still running stay where one lease is added, renewed or dropped.\<close>

definition leases_kept :: "time \<Rightarrow> string \<Rightarrow> semaphore \<Rightarrow> semaphore \<Rightarrow> bool" where
  "leases_kept now leaseID c c' \<longleftrightarrow>
     (\<forall>l\<in>set (sem_Leases c). now < slr_Expires l \<and> slr_LeaseID l \<noteq> leaseID \<longrightarrow> l \<in> set (sem_Leases c'))"

definition has_lease :: "string \<Rightarrow> time \<Rightarrow> semaphore \<Rightarrow> bool" where
  "has_lease leaseID expires c \<longleftrightarrow> (\<exists>l\<in>set (sem_Leases c). slr_LeaseID l = leaseID \<and> slr_Expires l = expires)"

lemma leases_kept_later: "leases_kept now leaseID c c' \<Longrightarrow> now \<le> later \<Longrightarrow> leases_kept later leaseID c c'"
  by (auto simp: leases_kept_def)

lemma SetExpiry_simps [simp]:
  "sem_Leases (sem_SetExpiry t c) = sem_Leases c" "sem_Expiry (sem_SetExpiry t c) = t"
  "sem_Expiry (c\<lparr>sem_Leases := ls\<rparr>) = sem_Expiry c" "leaseCount (c\<lparr>sem_Leases := ls\<rparr>) = int (length ls)"
  by (simp_all add: sem_SetExpiry_def sem_Expiry_def leaseCount_def)

lemma Acquire_Inr:
  assumes "sem_Acquire leaseID req c = Inr (c', lease)" "asr_MaxLeases req \<le> limit"
    "\<forall>l\<in>set (sem_Leases c). slr_Expires l \<le> sem_Expiry c"
  shows "leaseCount c' \<le> limit \<and> (\<forall>l\<in>set (sem_Leases c'). slr_Expires l \<le> sem_Expiry c') \<and>
    set (sem_Leases c) \<subseteq> set (sem_Leases c') \<and> has_lease leaseID (asr_Expires req) c' \<and>
    sl_LeaseID lease = leaseID \<and> sl_Expires lease = asr_Expires req"
  using assms
  by (auto simp: sem_Acquire_def Let_def has_lease_def leaseCount_def split: if_splits)
    (meson less_imp_le order_trans)

lemma acquired_value_Inr:
  assumes "acquired_value now leaseID req c = Inr (v, lease)" "asr_MaxLeases req \<le> limit" "sem_stored limit c"
  shows "sem_stored limit v \<and> leases_kept now leaseID c v \<and> has_lease leaseID (asr_Expires req) v \<and>
    sl_LeaseID lease = leaseID \<and> sl_Expires lease = asr_Expires req"
proof -
  let ?c = "RemoveExpiredLeases now c"
  obtain c1 where c1: "sem_Acquire leaseID req ?c = Inr (c1, lease)" and v: "MarshalSemaphore c1 = Inr v"
    using assms(1) sem_stored_read [OF assms(3)] by (auto simp: acquired_value_def case_result_Inr)
  have "\<forall>l\<in>set (sem_Leases ?c). slr_Expires l \<le> sem_Expiry ?c"
    using assms(3) by (simp add: RemoveExpiredLeases_def sem_stored_def)
  note a = Acquire_Inr [OF c1 assms(2) this]
  have "leases_kept now leaseID c c1"
    using a by (auto simp: leases_kept_def RemoveExpiredLeases_def)
  then show ?thesis using a Marshal_stored [OF v, of limit] by (simp add: leases_kept_def has_lease_def)
qed

lemma initial_value_Inr:
  assumes "initial_value leaseID req = Inr (v, lease)" "asr_MaxLeases req \<le> limit"
  shows "sem_stored limit v \<and> has_lease leaseID (asr_Expires req) v"
proof -
  obtain c c1 where c: "ConfigureSemaphore req = Inr c" and c1: "sem_Acquire leaseID req c = Inr (c1, lease)"
    and v: "MarshalSemaphore c1 = Inr v"
    using assms(1) by (auto simp: initial_value_def case_result_Inr split: sum.splits)
  have "sem_Leases c = []" using sem_check_Inr [OF c [unfolded ConfigureSemaphore_def]] by (simp add: sem_SetExpiry_def)
  with Acquire_Inr [OF c1 assms(2)] Marshal_stored [OF v, of limit] show ?thesis by (simp add: has_lease_def)
qed

lemma renew_lease_Some:
  "renew_lease leaseID e ls = Some ls' \<Longrightarrow> length ls' = length ls \<and>
     (\<forall>l\<in>set ls'. l \<in> set ls \<or> slr_Expires l = e) \<and> (\<forall>l\<in>set ls. slr_LeaseID l \<noteq> leaseID \<longrightarrow> l \<in> set ls') \<and>
     (\<exists>l\<in>set ls'. slr_LeaseID l = leaseID \<and> slr_Expires l = e)"
  by (induction ls arbitrary: ls') (auto split: if_splits)

lemma drop_lease_Some:
  "drop_lease leaseID ls = Some ls' \<Longrightarrow> length ls' \<le> length ls \<and> set ls' \<subseteq> set ls \<and>
     (\<forall>l\<in>set ls. slr_LeaseID l \<noteq> leaseID \<longrightarrow> l \<in> set ls')"
  by (induction ls arbitrary: ls') (fastforce split: if_splits)+

lemma renewed_value_Inr:
  assumes "renewed_value now lease c = Inr v" "sem_stored limit c"
  shows "sem_stored limit v \<and> leases_kept now (sl_LeaseID lease) c v \<and> has_lease (sl_LeaseID lease) (sl_Expires lease) v"
proof -
  let ?c = "RemoveExpiredLeases now c"
  obtain c1 where c1: "sem_KeepAlive lease ?c = Inr c1" and v: "MarshalSemaphore c1 = Inr v"
    using assms(1) sem_stored_read [OF assms(2)] by (auto simp: renewed_value_def case_result_Inr)
  obtain ls where ls: "renew_lease (sl_LeaseID lease) (sl_Expires lease) (sem_Leases ?c) = Some ls"
    and c1': "c1 = (if sl_Expires lease > sem_Expiry ?c then sem_SetExpiry (sl_Expires lease) (?c\<lparr>sem_Leases := ls\<rparr>)
      else ?c\<lparr>sem_Leases := ls\<rparr>)"
    using c1 by (auto simp: sem_KeepAlive_def Let_def split: if_splits option.splits)
  have leases: "sem_Leases c1 = ls" "sem_Expiry c1 = max (sl_Expires lease) (sem_Expiry c)"
    by (simp_all add: c1' RemoveExpiredLeases_def)
  have old: "\<forall>l\<in>set (sem_Leases ?c). slr_Expires l \<le> sem_Expiry c" "length (sem_Leases ?c) \<le> length (sem_Leases c)"
    using assms(2) by (simp_all add: RemoveExpiredLeases_def sem_stored_def)
  note r = renew_lease_Some [OF ls]
  have "leaseCount c1 \<le> limit" using r old(2) assms(2) leases by (simp add: leaseCount_def sem_stored_def)
  moreover have "\<forall>l\<in>set (sem_Leases c1). slr_Expires l \<le> sem_Expiry c1" using r old(1) leases by fastforce
  moreover have "leases_kept now (sl_LeaseID lease) c c1"
    using r leases by (auto simp: leases_kept_def RemoveExpiredLeases_def)
  ultimately show ?thesis
    using Marshal_stored [OF v, of limit] r leases by (simp add: leases_kept_def has_lease_def)
qed

lemma cancelled_value_Inr:
  assumes "cancelled_value lease c = Inr v" "sem_stored limit c"
  shows "sem_stored limit v \<and> leases_kept now (sl_LeaseID lease) c v"
proof -
  obtain c1 where c1: "sem_Cancel lease c = Inr c1" and v: "MarshalSemaphore c1 = Inr v"
    using assms(1) sem_stored_read [OF assms(2)] by (auto simp: cancelled_value_def case_result_Inr)
  obtain ls where ls: "drop_lease (sl_LeaseID lease) (sem_Leases c) = Some ls" "c1 = c\<lparr>sem_Leases := ls\<rparr>"
    using c1 by (auto simp: sem_Cancel_def split: if_splits option.splits)
  note d = drop_lease_Some [OF ls(1)]
  have "leaseCount c1 \<le> limit \<and> (\<forall>l\<in>set (sem_Leases c1). slr_Expires l \<le> sem_Expiry c1)"
    using d ls(2) assms(2) by (auto simp: sem_stored_def leaseCount_def)
  with d ls Marshal_stored [OF v, of limit] show ?thesis by (simp add: leases_kept_def)
qed

section \<open>Runs\<close>

text \<open>
  The world: the store, the time, for each lease identifier what its owner is about to swap in (the item it has read,
  the new value, and until when the lease then runs, \<open>None\<close> for a cancelled one), and the leases held.
\<close>

record 's sem_world =
  w_store :: 's
  w_now :: time
  w_pending :: "string \<Rightarrow> (time option \<times> semaphore item \<times> semaphore) option"
  w_held :: "string \<Rightarrow> time option"

inductive sem_step ::
  "('s, semaphore) backend \<Rightarrow> int \<Rightarrow> string \<Rightarrow> ('s \<Rightarrow> time \<Rightarrow> 's \<Rightarrow> bool) \<Rightarrow> 's sem_world \<Rightarrow> 's sem_world \<Rightarrow> bool"
  for bk limit key other where
  read_acquire: "b_Get bk t key (w_store w) = (Inr i, s1) \<Longrightarrow> w_now w \<le> t \<Longrightarrow> t \<le> t1 \<Longrightarrow>
    acquired_value t1 leaseID req (it_Value i) = Inr (v, lease) \<Longrightarrow> asr_MaxLeases req \<le> limit \<Longrightarrow>
    sem_step bk limit key other w
      (w\<lparr>w_store := s1, w_now := t1, w_pending := (w_pending w)(leaseID \<mapsto> (Some (asr_Expires req), i, v))\<rparr>)"
| read_renew: "b_Get bk t key (w_store w) = (Inr i, s1) \<Longrightarrow> w_now w \<le> t \<Longrightarrow> t \<le> t1 \<Longrightarrow>
    renewed_value t1 lease (it_Value i) = Inr v \<Longrightarrow>
    sem_step bk limit key other w
      (w\<lparr>w_store := s1, w_now := t1,
         w_pending := (w_pending w)(sl_LeaseID lease \<mapsto> (Some (sl_Expires lease), i, v))\<rparr>)"
| read_cancel: "b_Get bk t key (w_store w) = (Inr i, s1) \<Longrightarrow> w_now w \<le> t \<Longrightarrow>
    cancelled_value lease (it_Value i) = Inr v \<Longrightarrow>
    sem_step bk limit key other w
      (w\<lparr>w_store := s1, w_now := t, w_pending := (w_pending w)(sl_LeaseID lease \<mapsto> (None, i, v))\<rparr>)"
| swap: "w_pending w leaseID = Some (e, i, v) \<Longrightarrow> w_now w \<le> t \<Longrightarrow>
    b_CompareAndSwap bk t i (sem_item key v) (w_store w) = (r, s1) \<Longrightarrow>
    sem_step bk limit key other w
      (w\<lparr>w_store := s1, w_now := t, w_pending := (w_pending w)(leaseID := None),
         w_held := (if is_ok r then (w_held w)(leaseID := e) else w_held w)\<rparr>)"
| create: "initial_value leaseID req = Inr (v, lease) \<Longrightarrow> asr_MaxLeases req \<le> limit \<Longrightarrow> w_now w \<le> t \<Longrightarrow>
    b_Create bk t (sem_item key v) (w_store w) = (r, s1) \<Longrightarrow>
    sem_step bk limit key other w
      (w\<lparr>w_store := s1, w_now := t,
         w_held := (if is_ok r then (w_held w)(leaseID := Some (asr_Expires req)) else w_held w)\<rparr>)"
| other: "other (w_store w) t s1 \<Longrightarrow> w_now w \<le> t \<Longrightarrow> sem_step bk limit key other w (w\<lparr>w_store := s1, w_now := t\<rparr>)"

inductive sem_run ::
  "('s, semaphore) backend \<Rightarrow> int \<Rightarrow> string \<Rightarrow> ('s \<Rightarrow> time \<Rightarrow> 's \<Rightarrow> bool) \<Rightarrow> 's sem_world \<Rightarrow> 's sem_world \<Rightarrow> bool"
  for bk limit key other where
  refl: "sem_run bk limit key other w w"
| step: "sem_run bk limit key other w w1 \<Longrightarrow> sem_step bk limit key other w1 w2 \<Longrightarrow> sem_run bk limit key other w w2"

definition running :: "'s sem_world \<Rightarrow> string set" where
  "running w = {leaseID. \<exists>e. w_held w leaseID = Some e \<and> w_now w < e}"

definition idle :: "'s \<Rightarrow> time \<Rightarrow> 's sem_world" where
  "idle s t = \<lparr>w_store = s, w_now = t, w_pending = Map.empty, w_held = Map.empty\<rparr>"

locale semaphore_store = kv_store bk inv view purge safe
  for bk :: "('s, semaphore) backend" and inv and view :: "'s \<Rightarrow> string \<Rightarrow> semaphore item option"
    and purge and safe +
  fixes limit :: int and key :: string
  assumes safe_sem_key: "safe key"
begin

definition item_ok :: "semaphore item \<Rightarrow> bool" where
  "item_ok i \<longleftrightarrow> sem_stored limit (it_Value i) \<and> it_Expires i = sem_Expiry (it_Value i)"

definition world_ok :: "'s sem_world \<Rightarrow> bool" where
  "world_ok w \<longleftrightarrow> inv (w_store w) \<and> (\<forall>i. view (w_store w) key = Some i \<longrightarrow> item_ok i) \<and>
     (\<forall>leaseID e. w_held w leaseID = Some e \<and> w_now w < e \<longrightarrow>
        (\<exists>i. view (w_store w) key = Some i \<and> has_lease leaseID e (it_Value i))) \<and>
     (\<forall>leaseID e i v. w_pending w leaseID = Some (e, i, v) \<longrightarrow> it_Key i = key \<and> sem_stored limit v \<and>
        leases_kept (w_now w) leaseID (it_Value i) v \<and> (\<forall>t. e = Some t \<longrightarrow> has_lease leaseID t v))"

lemma item_lives:
  assumes "item_ok i" "has_lease leaseID e (it_Value i)" "t < e"
  shows "lives t i"
  using assms by (auto simp: item_ok_def has_lease_def sem_stored_def lives_def)

lemma purged_item:
  assumes "world_ok w" "view (purge t (w_store w)) key = Some i"
  shows "view (w_store w) key = Some i" "item_ok i"
  using assms purge_old by (auto simp: world_ok_def)

text \<open>The leases that are held outlive the purge at any time before they end.\<close>

lemma held_purged:
  assumes ok: "world_ok w" and held: "w_held w leaseID = Some e" and t: "w_now w \<le> t" "t < e"
  shows "\<exists>i. view (purge t (w_store w)) key = Some i \<and> has_lease leaseID e (it_Value i)"
proof -
  obtain i where i: "view (w_store w) key = Some i" "has_lease leaseID e (it_Value i)"
    using ok held order.strict_trans1 [OF t] unfolding world_ok_def by blast
  then have "item_ok i" using ok by (auto simp: world_ok_def)
  then have "lives t i" using item_lives i(2) t(2) by blast
  then show ?thesis using purge_lives i ok by (auto simp: world_ok_def)
qed

lemma advance:
  assumes ok: "world_ok w" and t: "w_now w \<le> t" "t \<le> t1" and s1: "inv s1" "view s1 key = view (purge t (w_store w)) key"
  shows "world_ok (w\<lparr>w_store := s1, w_now := t1\<rparr>)"
proof -
  have "\<exists>i. view s1 key = Some i \<and> has_lease leaseID e (it_Value i)" if "w_held w leaseID = Some e" "t1 < e" for leaseID e
    using held_purged [OF ok that(1) t(1)] that(2) t(2) s1(2) by simp
  moreover have "item_ok i" if "view s1 key = Some i" for i using purged_item(2) [OF ok] that s1(2) by simp
  moreover have "leases_kept t1 leaseID c v" if "leases_kept (w_now w) leaseID c v" for leaseID c v
    using that t by (meson leases_kept_later order_trans)
  ultimately show ?thesis using ok s1(1) by (simp add: world_ok_def)
qed

lemma set_pending:
  assumes "world_ok w" "it_Key i = key" "sem_stored limit v" "leases_kept (w_now w) leaseID (it_Value i) v"
    "\<forall>t. e = Some t \<longrightarrow> has_lease leaseID t v"
  shows "world_ok (w\<lparr>w_pending := (w_pending w)(leaseID \<mapsto> (e, i, v))\<rparr>)"
  using assms by (simp add: world_ok_def)

lemma read_ok:
  assumes ok: "world_ok w" and t: "w_now w \<le> t" "t \<le> t1" and get: "b_Get bk t key (w_store w) = (Inr i, s1)"
  shows "world_ok (w\<lparr>w_store := s1, w_now := t1\<rparr>) \<and> it_Key i = key \<and> sem_stored limit (it_Value i)"
proof -
  have inv: "inv (w_store w)" using ok by (simp add: world_ok_def)
  note g = get_Inr [OF inv safe_sem_key get]
  then show ?thesis
    using advance [OF ok t, of s1] purged_item(2) [OF ok, of t i] view_key [OF inv, of key i]
      purge_inv [OF inv, of t]
    by (simp add: item_ok_def)
qed

text \<open>A new value is stored that keeps what others hold.\<close>

lemma store_value:
  assumes ok: "world_ok w" and t: "w_now w \<le> t" and v: "sem_stored limit v" "\<forall>t. e = Some t \<longrightarrow> has_lease leaseID t v"
    and s1: "inv s1" "view s1 key = Some (sem_item key v)"
    and others: "\<And>i e1 leaseID1. view (purge t (w_store w)) key = Some i \<Longrightarrow> has_lease leaseID1 e1 (it_Value i) \<Longrightarrow> t < e1 \<Longrightarrow>
      leaseID1 \<noteq> leaseID \<Longrightarrow> has_lease leaseID1 e1 v"
  shows "world_ok (w\<lparr>w_store := s1, w_now := t, w_held := (w_held w)(leaseID := e)\<rparr>)"
proof -
  have "has_lease leaseID1 e1 v" if "((w_held w)(leaseID := e)) leaseID1 = Some e1" "t < e1" for leaseID1 e1
  proof (cases "leaseID1 = leaseID")
    case True
    then show ?thesis using that v(2) by simp
  next
    case False
    then show ?thesis using held_purged [OF ok _ t that(2)] that others by auto
  qed
  moreover have "item_ok (sem_item key v)" using v(1) by (simp add: item_ok_def sem_item_def)
  moreover have "leases_kept t leaseID1 c v1" if "leases_kept (w_now w) leaseID1 c v1" for leaseID1 c v1
    using that t by (rule leases_kept_later)
  ultimately show ?thesis using ok s1 by (simp add: world_ok_def sem_item_def)
qed

lemma drop_pending:
  "world_ok (w\<lparr>w_store := s1, w_now := t, w_held := h\<rparr>) \<Longrightarrow>
     world_ok (w\<lparr>w_store := s1, w_now := t, w_pending := (w_pending w)(leaseID := None), w_held := h\<rparr>)"
  by (simp add: world_ok_def)

lemma swap_ok:
  assumes ok: "world_ok w" and p: "w_pending w leaseID = Some (e, i, v)" and t: "w_now w \<le> t"
    and cas: "b_CompareAndSwap bk t i (sem_item key v) (w_store w) = (r, s1)"
  shows "world_ok (w\<lparr>w_store := s1, w_now := t, w_held := (if is_ok r then (w_held w)(leaseID := e) else w_held w)\<rparr>)"
proof -
  have inv: "inv (w_store w)" using ok by (simp add: world_ok_def)
  have pend: "it_Key i = key" "sem_stored limit v" "leases_kept (w_now w) leaseID (it_Value i) v"
    "\<forall>t. e = Some t \<longrightarrow> has_lease leaseID t v"
    using ok p unfolding world_ok_def by blast+
  have safe: "safe (it_Key i)" "it_Key (sem_item key v) = it_Key i"
    using pend(1) safe_sem_key by (simp_all add: sem_item_def)
  show ?thesis
  proof (cases r)
    case (Inl err)
    note c = compare_and_swap_Inl [OF inv safe cas [unfolded Inl]]
    then show ?thesis using advance [OF ok t order_refl, of s1] Inl by simp
  next
    case (Inr l)
    note c = compare_and_swap_Inr [OF inv safe cas [unfolded Inr]]
    have "has_lease id e1 v" if "view (purge t (w_store w)) key = Some j" "has_lease id e1 (it_Value j)" "t < e1" "id \<noteq> leaseID"
      for j id e1
    proof -
      have "it_Value j = it_Value i" using c that(1) pend(1) by (simp add: value_at_def)
      then show ?thesis
        using that leases_kept_later [OF pend(3) t] unfolding has_lease_def leases_kept_def by (metis (no_types))
    qed
    then show ?thesis
      using store_value [OF ok t pend(2,4), of s1] c pend(1) Inr by (simp add: sem_item_def)
  qed
qed

lemma create_ok:
  assumes ok: "world_ok w" and v: "initial_value leaseID req = Inr (v, lease)" "asr_MaxLeases req \<le> limit" and t: "w_now w \<le> t"
    and create: "b_Create bk t (sem_item key v) (w_store w) = (r, s1)"
  shows "world_ok (w\<lparr>w_store := s1, w_now := t,
    w_held := (if is_ok r then (w_held w)(leaseID := Some (asr_Expires req)) else w_held w)\<rparr>)"
proof -
  have inv: "inv (w_store w)" using ok by (simp add: world_ok_def)
  have safe: "safe (it_Key (sem_item key v))" using safe_sem_key by (simp add: sem_item_def)
  note iv = initial_value_Inr [OF v]
  show ?thesis
  proof (cases r)
    case (Inl err)
    note c = create_Inl [OF inv safe create [unfolded Inl]]
    then show ?thesis using advance [OF ok t order_refl, of s1] Inl by simp
  next
    case (Inr l)
    note c = create_Inr [OF inv safe create [unfolded Inr]]
    then show ?thesis
      using store_value [OF ok t, of v "Some (asr_Expires req)" leaseID s1] iv Inr by (simp add: sem_item_def)
  qed
qed

lemma step_ok:
  assumes "sem_step bk limit key (elsewhere inv view purge key) w w'" "world_ok w"
  shows "world_ok w'"
  using assms
proof (cases rule: sem_step.cases)
  case (read_acquire t i s1 t1 leaseID req v lease)
  note r = read_ok [OF assms(2) read_acquire(3,4,2)]
  from r acquired_value_Inr [OF read_acquire(5,6)] show ?thesis
    using set_pending [of "w\<lparr>w_store := s1, w_now := t1\<rparr>" i v leaseID "Some (asr_Expires req)"]
    by (simp add: read_acquire(1))
next
  case (read_renew t i s1 t1 lease v)
  note r = read_ok [OF assms(2) read_renew(3,4,2)]
  from r renewed_value_Inr [OF read_renew(5), of limit] show ?thesis
    using set_pending [of "w\<lparr>w_store := s1, w_now := t1\<rparr>" i v "sl_LeaseID lease" "Some (sl_Expires lease)"]
    by (simp add: read_renew(1))
next
  case (read_cancel t i s1 lease v)
  note r = read_ok [OF assms(2) read_cancel(3) order_refl read_cancel(2)]
  from r cancelled_value_Inr [OF read_cancel(4), of limit t] show ?thesis
    using set_pending [of "w\<lparr>w_store := s1, w_now := t\<rparr>" i v "sl_LeaseID lease" None]
    by (simp add: read_cancel(1))
next
  case (swap leaseID e i v t r s1)
  show ?thesis unfolding swap(1) by (rule drop_pending [OF swap_ok [OF assms(2) swap(2-4)]])
next
  case (create leaseID req v lease t r s1)
  then show ?thesis using create_ok [OF assms(2) create(2-5)] by simp
next
  case (other t s1)
  then show ?thesis using advance [OF assms(2) other(3) order_refl, of s1] by (simp add: elsewhere_def)
qed

lemma run_ok: "sem_run bk limit key (elsewhere inv view purge key) w w' \<Longrightarrow> world_ok w \<Longrightarrow> world_ok w'"
  by (induction rule: sem_run.induct) (use step_ok in blast)+

lemma running_bound:
  assumes "world_ok w" "0 \<le> limit"
  shows "finite (running w) \<and> int (card (running w)) \<le> limit"
proof (cases "running w = {}")
  case True
  then show ?thesis using assms(2) by simp
next
  case False
  then obtain leaseID e where "w_held w leaseID = Some e" "w_now w < e" by (auto simp: running_def)
  then obtain i where i: "view (w_store w) key = Some i" using assms(1) unfolding world_ok_def by blast
  have sub: "running w \<subseteq> slr_LeaseID ` set (sem_Leases (it_Value i))"
    using assms(1) i by (fastforce simp: running_def world_ok_def has_lease_def)
  then have fin: "finite (running w)" by (rule finite_subset) simp
  have "card (running w) \<le> card (slr_LeaseID ` set (sem_Leases (it_Value i)))" by (rule card_mono) (simp_all add: sub)
  also have "\<dots> \<le> length (sem_Leases (it_Value i))" by (meson card_image_le card_length finite_set le_trans)
  finally have "int (card (running w)) \<le> leaseCount (it_Value i)" by (simp add: leaseCount_def)
  also have "\<dots> \<le> limit" using assms(1) i by (auto simp: world_ok_def item_ok_def sem_stored_def)
  finally show ?thesis using fin by simp
qed

lemma idle_ok: "inv s \<Longrightarrow> view s key = None \<Longrightarrow> world_ok (idle s t)"
  by (simp add: world_ok_def idle_def)

theorem limit_respected:
  assumes "sem_run bk limit key (elsewhere inv view purge key) (idle s t) w" "inv s" "view s key = None" "0 \<le> limit"
  shows "finite (running w) \<and> int (card (running w)) \<le> limit"
  using running_bound [OF run_ok [OF assms(1)] assms(4)] idle_ok assms(2,3) by blast

text \<open>
  The function of the service follows a run: when it succeeds in a world that others move on between its two accesses,
  its lease is among those held.
\<close>

lemma acquireSemaphore_run:
  fixes others :: "nat \<Rightarrow> 's \<Rightarrow> 's"
  defines "run \<equiv> sem_run bk limit key (elsewhere inv view purge key)"
  assumes w: "run w0 w" "w_store w = others 0 s" and clock: "w_now w \<le> clock 0" "clock 0 \<le> clock 1"
    and limit: "asr_MaxLeases req \<le> limit"
    and move: "\<And>w1. run w0 w1 \<Longrightarrow> w_now w1 = clock 1 \<Longrightarrow>
      \<exists>w2. run w0 w2 \<and> w_store w2 = others 1 (w_store w1) \<and> w_pending w2 leaseID = w_pending w1 leaseID \<and> w_now w2 \<le> clock 2"
    and acquire: "acquireSemaphore bk clock others key leaseID req s = (Inr lease, s2)" and ok: "world_ok w0"
  shows "\<exists>w2. run w0 w2 \<and> w_store w2 = s2 \<and> w_held w2 leaseID = Some (sl_Expires lease) \<and>
    w_now w2 = clock 2 \<and> sl_LeaseID lease = leaseID"
proof -
  obtain i s1 v l where get: "b_Get bk (clock 0) key (others 0 s) = (Inr i, s1)"
    and v: "acquired_value (clock 1) leaseID req (it_Value i) = Inr (v, lease)"
    and cas: "b_CompareAndSwap bk (clock 2) i (sem_item key v) (others 1 s1) = (Inr l, s2)"
    using acquire by (auto simp: acquireSemaphore_def split: prod.splits sum.splits)
  have w_ok: "world_ok w" using run_ok w(1) ok unfolding run_def by blast
  have "sem_stored limit (it_Value i)"
    using read_ok [OF w_ok clock(1,2) get [folded w(2)]] by simp
  then have lease: "sl_Expires lease = asr_Expires req" "sl_LeaseID lease = leaseID"
    using acquired_value_Inr [OF v limit] by simp_all
  let ?w1 = "w\<lparr>w_store := s1, w_now := clock 1, w_pending := (w_pending w)(leaseID \<mapsto> (Some (asr_Expires req), i, v))\<rparr>"
  have "run w0 ?w1"
    unfolding run_def
    by (rule sem_run.step [OF w(1) [unfolded run_def] sem_step.read_acquire [OF get [folded w(2)] clock v limit]])
  then obtain w2 where w2: "run w0 w2" "w_store w2 = others 1 s1" "w_pending w2 leaseID = Some (Some (asr_Expires req), i, v)"
    "w_now w2 \<le> clock 2"
    using move [of ?w1] by auto
  have "run w0 (w2\<lparr>w_store := s2, w_now := clock 2, w_pending := (w_pending w2)(leaseID := None),
      w_held := (if is_ok (Inr l :: lease result) then (w_held w2)(leaseID := Some (asr_Expires req)) else w_held w2)\<rparr>)"
    unfolding run_def
    by (rule sem_run.step [OF w2(1) [unfolded run_def] sem_step.swap [OF w2(3,4) cas [folded w2(2)]]])
  then show ?thesis using lease by fastforce
qed

end

text \<open>The memory backend provides the store.\<close>

interpretation sem_mem: semaphore_store "memory_backend cfg" memory_inv memory_view "removeExpired cfg"
  "\<lambda>k. k \<noteq> []" limit "sem_key kind name" for cfg limit kind name
  by unfold_locales (simp add: sem_key_def Key_def)

end
