(* ===== verification/Backend_Lock.thy ===== *)
theory Backend_Lock
  imports Memory_Contract
begin

text \<open>
  The locks of \<open>lib/backend/helpers.go\<close>: an item under a key of its own holds the random identifier of the owner and
  expires with the lock. \<open>others n\<close> is what other servers do to the store before the n-th access, \<open>cancelled n\<close> says that
  the context is done when the lock waits for the n-th time, \<open>clock\<close> gives the readings of the clock. The random source
  is a parameter.
\<close>

definition locksPrefix :: string where
  "locksPrefix = ''.locks''"

record lock =
  lk_key :: string
  lk_id :: string
  lk_ttl :: duration

text \<open>\<open>filepath.Join\<close> of two elements, the first relative: the cleaned path.\<close>

fun split_slashes :: "string \<Rightarrow> string list" where
  "split_slashes [] = [[]]"
| "split_slashes (c # cs) =
     (if c = Separator then [] # split_slashes cs
      else case split_slashes cs of [] \<Rightarrow> [[c]] | p # ps \<Rightarrow> (c # p) # ps)"

fun clean_parts :: "string list \<Rightarrow> string list \<Rightarrow> string list" where
  "clean_parts acc [] = rev acc"
| "clean_parts acc (p # ps) =
     (if p = [] \<or> p = ''.'' then clean_parts acc ps
      else if p = ''..'' \<and> acc \<noteq> [] \<and> hd acc \<noteq> ''..'' then clean_parts (tl acc) ps
      else clean_parts (p # acc) ps)"

definition filepath_Join :: "string \<Rightarrow> string \<Rightarrow> string" where
  "filepath_Join a b =
     (let parts = clean_parts [] (split_slashes a @ split_slashes b)
      in if parts = [] then ''.'' else tl (Key parts))"

definition lock_item :: "string \<Rightarrow> string \<Rightarrow> time \<Rightarrow> string item" where
  "lock_item key lockID expires = \<lparr>it_Key = key, it_Value = lockID, it_Expires = expires, it_ID = 0, it_LeaseID = 0\<rparr>"

text \<open>The loop of \<open>AcquireLock\<close>; without rounds left the outcome is \<open>None\<close>.\<close>

fun acquire_lock_loop ::
  "('s, string) backend \<Rightarrow> (nat \<Rightarrow> time) \<Rightarrow> (nat \<Rightarrow> 's \<Rightarrow> 's) \<Rightarrow> (nat \<Rightarrow> bool) \<Rightarrow> string \<Rightarrow> string \<Rightarrow> duration \<Rightarrow> nat \<Rightarrow> nat \<Rightarrow> 's \<Rightarrow>
     (lock result \<times> 's) option" where
  "acquire_lock_loop bk clock others cancelled key lockID ttl n 0 s = None"
| "acquire_lock_loop bk clock others cancelled key lockID ttl n (Suc rounds) s =
     (let s1 = snd (b_Get bk (clock (3 * n)) key (others (2 * n) s))
      in case b_Create bk (clock (3 * n + 2)) (lock_item key lockID (clock (3 * n + 1) + ttl)) (others (2 * n + 1) s1) of
           (Inr _, s2) \<Rightarrow> Some (Inr \<lparr>lk_key = key, lk_id = lockID, lk_ttl = ttl\<rparr>, s2)
         | (Inl e, s2) \<Rightarrow>
             if e = AlreadyExists then
               (if cancelled n then Some (Inl Unclassified, s2)
                else acquire_lock_loop bk clock others cancelled key lockID ttl (n + 1) rounds s2)
             else Some (Inl e, s2))"

definition AcquireLock ::
  "('s, string) backend \<Rightarrow> (nat \<Rightarrow> time) \<Rightarrow> (nat \<Rightarrow> 's \<Rightarrow> 's) \<Rightarrow> (nat \<Rightarrow> bool) \<Rightarrow> string result \<Rightarrow> string \<Rightarrow> duration \<Rightarrow> nat \<Rightarrow> 's \<Rightarrow>
     (lock result \<times> 's) option" where
  "AcquireLock bk clock others cancelled randomID lockName ttl rounds s =
     (if lockName = [] then Some (Inl BadParameter, s)
      else case randomID of
             Inl e \<Rightarrow> Some (Inl e, s)
           | Inr lockID \<Rightarrow>
               acquire_lock_loop bk clock others cancelled (filepath_Join locksPrefix lockName) lockID ttl 0 rounds s)"

definition Release ::
  "('s, string) backend \<Rightarrow> (nat \<Rightarrow> time) \<Rightarrow> (nat \<Rightarrow> 's \<Rightarrow> 's) \<Rightarrow> lock \<Rightarrow> 's \<Rightarrow> unit result \<times> 's" where
  "Release bk clock others l s =
     (case b_Get bk (clock 0) (lk_key l) (others 0 s) of
        (Inl e, s1) \<Rightarrow> (Inl (if e = NotFound then CompareFailed else e), s1)
      | (Inr prev, s1) \<Rightarrow>
          if it_Value prev \<noteq> lk_id l then (Inl CompareFailed, s1)
          else b_Delete bk (clock 1) (lk_key l) (others 1 s1))"

definition resetTTL ::
  "('s, string) backend \<Rightarrow> (nat \<Rightarrow> time) \<Rightarrow> (nat \<Rightarrow> 's \<Rightarrow> 's) \<Rightarrow> lock \<Rightarrow> 's \<Rightarrow> unit result \<times> 's" where
  "resetTTL bk clock others l s =
     (case b_Get bk (clock 0) (lk_key l) (others 0 s) of
        (Inl e, s1) \<Rightarrow> (Inl (if e = NotFound then CompareFailed else e), s1)
      | (Inr prev, s1) \<Rightarrow>
          if it_Value prev \<noteq> lk_id l then (Inl CompareFailed, s1)
          else (case b_CompareAndSwap bk (clock 2) prev (prev\<lparr>it_Expires := clock 1 + lk_ttl l\<rparr>) (others 1 s1) of
                  (Inl e, s2) \<Rightarrow> (Inl e, s2)
                | (Inr _, s2) \<Rightarrow> (Inr (), s2)))"

section \<open>Runs\<close>

text \<open>
  The accesses of all owners to the key of one lock, in any order. \<open>l_read\<close> is the item an owner has read and found to be
  its own. With \<open>timely\<close>, a lock that is released is still running when its item is deleted.
\<close>

record 's lock_world =
  l_store :: 's
  l_now :: time
  l_read :: "string \<Rightarrow> string item option"
  l_held :: "string \<Rightarrow> time option"

inductive lock_step ::
  "('s, string) backend \<Rightarrow> bool \<Rightarrow> string \<Rightarrow> ('s \<Rightarrow> time \<Rightarrow> 's \<Rightarrow> bool) \<Rightarrow> 's lock_world \<Rightarrow> 's lock_world \<Rightarrow> bool"
  for bk timely key other where
  create: "l_now w \<le> t \<Longrightarrow> b_Create bk t (lock_item key lockID e) (l_store w) = (r, s1) \<Longrightarrow> e \<noteq> zero_time \<Longrightarrow>
    lock_step bk timely key other w
      (w\<lparr>l_store := s1, l_now := t, l_held := (if is_ok r then (l_held w)(lockID := Some e) else l_held w)\<rparr>)"
| read: "l_now w \<le> t \<Longrightarrow> b_Get bk t key (l_store w) = (r, s1) \<Longrightarrow>
    lock_step bk timely key other w
      (w\<lparr>l_store := s1, l_now := t, l_read := (case r of Inl _ \<Rightarrow> l_read w | Inr i \<Rightarrow> (l_read w)(it_Value i := Some i))\<rparr>)"
| refresh: "l_now w \<le> t \<Longrightarrow> l_read w lockID = Some i \<Longrightarrow> e \<noteq> zero_time \<Longrightarrow>
    b_CompareAndSwap bk t i (i\<lparr>it_Expires := e\<rparr>) (l_store w) = (r, s1) \<Longrightarrow>
    lock_step bk timely key other w
      (w\<lparr>l_store := s1, l_now := t, l_held := (if is_ok r then (l_held w)(lockID := Some e) else l_held w)\<rparr>)"
| release: "l_now w \<le> t \<Longrightarrow> l_read w lockID \<noteq> None \<Longrightarrow> b_Delete bk t key (l_store w) = (r, s1) \<Longrightarrow>
    timely \<longrightarrow> (\<exists>e. l_held w lockID = Some e \<and> t < e) \<Longrightarrow>
    lock_step bk timely key other w (w\<lparr>l_store := s1, l_now := t, l_held := (l_held w)(lockID := None)\<rparr>)"
| other: "other (l_store w) t s1 \<Longrightarrow> l_now w \<le> t \<Longrightarrow> lock_step bk timely key other w (w\<lparr>l_store := s1, l_now := t\<rparr>)"

inductive lock_run ::
  "('s, string) backend \<Rightarrow> bool \<Rightarrow> string \<Rightarrow> ('s \<Rightarrow> time \<Rightarrow> 's \<Rightarrow> bool) \<Rightarrow> 's lock_world \<Rightarrow> 's lock_world \<Rightarrow> bool"
  for bk timely key other where
  refl: "lock_run bk timely key other w w"
| step: "lock_run bk timely key other w w1 \<Longrightarrow> lock_step bk timely key other w1 w2 \<Longrightarrow> lock_run bk timely key other w w2"

definition unlocked :: "'s \<Rightarrow> time \<Rightarrow> 's lock_world" where
  "unlocked s t = \<lparr>l_store = s, l_now = t, l_read = Map.empty, l_held = Map.empty\<rparr>"

definition locked_by :: "'s lock_world \<Rightarrow> string \<Rightarrow> bool" where
  "locked_by w lockID = (case l_held w lockID of None \<Rightarrow> False | Some e \<Rightarrow> l_now w < e)"

locale lock_store = kv_store bk inv view purge safe
  for bk :: "('s, string) backend" and inv and view :: "'s \<Rightarrow> string \<Rightarrow> string item option" and purge and safe +
  fixes key :: string
  assumes safe_lock_key: "safe key"
begin

definition lock_ok :: "'s lock_world \<Rightarrow> bool" where
  "lock_ok w \<longleftrightarrow> inv (l_store w) \<and>
     (\<forall>lockID e. l_held w lockID = Some e \<and> l_now w < e \<longrightarrow>
        (\<exists>i. view (l_store w) key = Some i \<and> it_Value i = lockID \<and> it_Expires i = e)) \<and>
     (\<forall>lockID i. l_read w lockID = Some i \<longrightarrow> it_Key i = key \<and> it_Value i = lockID)"

lemma held_purged:
  assumes "lock_ok w" "l_held w lockID = Some e" "l_now w \<le> t" "t < e"
  shows "\<exists>i. view (purge t (l_store w)) key = Some i \<and> it_Value i = lockID \<and> it_Expires i = e"
proof -
  obtain i where "view (l_store w) key = Some i" "it_Value i = lockID" "it_Expires i = e"
    using assms(1,2) order.strict_trans1 [OF assms(3,4)] unfolding lock_ok_def by blast
  moreover from this have "lives t i" using assms(4) by (simp add: lives_def)
  ultimately show ?thesis using assms(1) purge_lives by (auto simp: lock_ok_def)
qed

lemma lock_advance:
  assumes "lock_ok w" "l_now w \<le> t" "inv s1" "view s1 key = view (purge t (l_store w)) key"
  shows "lock_ok (w\<lparr>l_store := s1, l_now := t\<rparr>)"
  using assms held_purged [OF assms(1) _ assms(2)] unfolding lock_ok_def by simp

text \<open>Nobody else holds the lock when the item has the identifier or is missing.\<close>

lemma lock_set:
  assumes ok: "lock_ok w" and t: "l_now w \<le> t" and inv: "inv s1"
    and mine: "\<And>i. view (purge t (l_store w)) key = Some i \<Longrightarrow> it_Value i = lockID"
    and e: "\<And>e'. e = Some e' \<Longrightarrow> \<exists>i. view s1 key = Some i \<and> it_Value i = lockID \<and> it_Expires i = e'"
  shows "lock_ok (w\<lparr>l_store := s1, l_now := t, l_held := (l_held w)(lockID := e)\<rparr>)"
proof -
  have "\<exists>i. view s1 key = Some i \<and> it_Value i = lockID1 \<and> it_Expires i = e1"
    if "((l_held w)(lockID := e)) lockID1 = Some e1" "t < e1" for lockID1 e1
  proof (cases "lockID1 = lockID")
    case True
    then show ?thesis using that e by simp
  next
    case False
    then show ?thesis using held_purged [OF ok _ t that(2)] that(1) mine by fastforce
  qed
  then show ?thesis using ok inv by (simp add: lock_ok_def)
qed

lemma lock_step_ok:
  assumes "lock_step bk True key (elsewhere inv view purge key) w w'" and ok: "lock_ok w"
  shows "lock_ok w'"
  using assms(1)
proof (cases rule: lock_step.cases)
  case (create t lockID e r s1)
  have inv: "inv (l_store w)" using ok by (simp add: lock_ok_def)
  have safe: "safe (it_Key (lock_item key lockID e))" using safe_lock_key by (simp add: lock_item_def)
  show ?thesis
  proof (cases r)
    case (Inl err)
    then show ?thesis
      using create_Inl [OF inv safe create(3) [unfolded Inl]] lock_advance [OF ok create(2), of s1] create(1) by simp
  next
    case (Inr l)
    then show ?thesis
      using create_Inr [OF inv safe create(3) [unfolded Inr]] lock_set [OF ok create(2), of s1 lockID "Some e"] create(1)
      by (simp add: lock_item_def)
  qed
next
  case (read t r s1)
  have inv: "inv (l_store w)" using ok by (simp add: lock_ok_def)
  show ?thesis
  proof (cases r)
    case (Inl err)
    have "s1 = purge t (l_store w)" using get [OF inv safe_lock_key, of t] read(3) by simp
    then have "lock_ok (w\<lparr>l_store := s1, l_now := t\<rparr>)"
      using lock_advance [OF ok read(2), of s1] purge_inv [OF inv, of t] by simp
    then show ?thesis by (simp add: read(1) Inl)
  next
    case (Inr i)
    note g = get_Inr [OF inv safe_lock_key read(3) [unfolded Inr]]
    have "lock_ok (w\<lparr>l_store := s1, l_now := t\<rparr>)" using lock_advance [OF ok read(2), of s1] g purge_inv [OF inv, of t] by simp
    moreover have "it_Key i = key" using view_key [OF inv] g by blast
    ultimately show ?thesis by (simp add: read(1) lock_ok_def Inr)
  qed
next
  case (refresh t lockID i e r s1)
  have inv: "inv (l_store w)" and i: "it_Key i = key" "it_Value i = lockID" using ok refresh(3) by (auto simp: lock_ok_def)
  have safe: "safe (it_Key i)" "it_Key (i\<lparr>it_Expires := e\<rparr>) = it_Key i" using safe_lock_key i by simp_all
  show ?thesis
  proof (cases r)
    case (Inl err)
    then show ?thesis
      using compare_and_swap_Inl [OF inv safe refresh(5) [unfolded Inl]] lock_advance [OF ok refresh(2), of s1] refresh(1) by simp
  next
    case (Inr l)
    then show ?thesis
      using compare_and_swap_Inr [OF inv safe refresh(5) [unfolded Inr]] lock_set [OF ok refresh(2), of s1 lockID "Some e"]
        refresh(1) i
      by (auto simp: value_at_def)
  qed
next
  case (release t lockID r s1)
  have inv: "inv (l_store w)" using ok by (simp add: lock_ok_def)
  note d = delete_Inr [OF inv safe_lock_key release(4)]
  obtain e where "l_held w lockID = Some e" "t < e" using release(5) by blast
  then obtain i where "view (purge t (l_store w)) key = Some i" "it_Value i = lockID"
    using held_purged [OF ok _ release(2)] by blast
  then show ?thesis using lock_set [OF ok release(2), of s1 lockID None] d release(1) by simp
next
  case (other t s1)
  then show ?thesis using lock_advance [OF ok other(3), of s1] by (simp add: elsewhere_def)
qed

lemma lock_run_ok: "lock_run bk True key (elsewhere inv view purge key) w w' \<Longrightarrow> lock_ok w \<Longrightarrow> lock_ok w'"
  by (induction rule: lock_run.induct) (use lock_step_ok in blast)+

lemma exclusive:
  assumes "lock_run bk True key (elsewhere inv view purge key) (unlocked s t) w" "inv s" "locked_by w a" "locked_by w b"
  shows "a = b"
proof -
  have "lock_ok (unlocked s t)" using assms(2) by (simp add: lock_ok_def unlocked_def)
  then have "lock_ok w" by (rule lock_run_ok [OF assms(1)])
  then have held: "\<exists>i. view (l_store w) key = Some i \<and> it_Value i = lockID" if "locked_by w lockID" for lockID
    using that unfolding lock_ok_def locked_by_def by (auto split: option.splits)
  obtain i j where "view (l_store w) key = Some i" "it_Value i = a" "view (l_store w) key = Some j" "it_Value j = b"
    using held [OF assms(3)] held [OF assms(4)] by blast
  then show ?thesis by simp
qed

text \<open>A lock is acquired only when its item is missing; an item that runs keeps everyone waiting.\<close>

lemma acquire_lock_loop_waits:
  assumes "\<And>n s. inv (others n s) \<and> (\<exists>i. view (others n s) key = Some i \<and> (\<forall>m < 3 * rounds + 3 * k. lives (clock m) i))"
  shows "acquire_lock_loop bk clock others (\<lambda>_. False) key lockID ttl k rounds s = None"
  using assms
proof (induction rounds arbitrary: k s)
  case (Suc rounds)
  let ?s = "others (2 * k + 1) (snd (b_Get bk (clock (3 * k)) key (others (2 * k) s)))"
  obtain i where i: "inv ?s" "view ?s key = Some i" "lives (clock (3 * k + 2)) i"
    using Suc.prems [of "2 * k + 1" "snd (b_Get bk (clock (3 * k)) key (others (2 * k) s))"] by fastforce
  then have "view (purge (clock (3 * k + 2)) ?s) key \<noteq> None" using purge_lives by blast
  then obtain s2 where "b_Create bk (clock (3 * k + 2)) (lock_item key lockID (clock (3 * k + 1) + ttl)) ?s = (Inl AlreadyExists, s2)"
    using create [OF i(1), of "lock_item key lockID (clock (3 * k + 1) + ttl)" "clock (3 * k + 2)"] safe_lock_key
    by (auto simp: lock_item_def)
  moreover have "acquire_lock_loop bk clock others (\<lambda>_. False) key lockID ttl (k + 1) rounds s2 = None"
    by (rule Suc.IH) (use Suc.prems in \<open>simp add: algebra_simps\<close>)
  ultimately show ?case by (simp add: Let_def)
qed simp

text \<open>
  \<open>AcquireLock\<close> and \<open>Release\<close> are made of these accesses: when the others' accesses in between extend the run, the run ends
  with the lock held, or without it.
\<close>

lemma acquire_lock_loop_run:
  fixes clock and others and timely
  defines "run \<equiv> lock_run bk timely key (elsewhere inv view purge key)"
    and "at \<equiv> \<lambda>m. clock (3 * (m div 2) + (if even m then 0 else 2))"
  assumes acquire: "acquire_lock_loop bk clock others cancelled key lockID ttl n rounds s = Some (Inr l, s')"
    and w: "run w0 w" "l_store w = s" "l_now w \<le> clock (3 * n)"
    and clock: "\<And>i. clock i \<le> clock (Suc i)" and ttl: "\<And>i. clock i + ttl \<noteq> zero_time"
    and move: "\<And>w1 m. run w0 w1 \<Longrightarrow> l_now w1 \<le> at m \<Longrightarrow>
      \<exists>w2. run w0 w2 \<and> l_store w2 = others m (l_store w1) \<and> l_now w2 \<le> at m"
  shows "\<exists>w2 e. run w0 w2 \<and> l_store w2 = s' \<and> l_held w2 lockID = Some e \<and> lk_id l = lockID"
  using acquire w
proof (induction rounds arbitrary: n s w)
  case (Suc rounds)
  have at: "at (2 * n) = clock (3 * n)" "at (2 * n + 1) = clock (3 * n + 2)" by (simp_all add: at_def)
  obtain w1 where w1: "run w0 w1" "l_store w1 = others (2 * n) s" "l_now w1 \<le> clock (3 * n)"
    using move [OF Suc.prems(2), of "2 * n"] Suc.prems(3,4) at(1) by auto
  obtain g s1 where get: "b_Get bk (clock (3 * n)) key (others (2 * n) s) = (g, s1)" by fastforce
  let ?w2 = "w1\<lparr>l_store := s1, l_now := clock (3 * n),
    l_read := (case g of Inl _ \<Rightarrow> l_read w1 | Inr i \<Rightarrow> (l_read w1)(it_Value i := Some i))\<rparr>"
  have "run w0 ?w2"
    unfolding run_def by (rule lock_run.step [OF w1(1) [unfolded run_def] lock_step.read [OF w1(3) get [folded w1(2)]]])
  moreover have "clock (3 * n) \<le> clock (3 * n + 2)" using clock [of "3 * n"] clock [of "3 * n + 1"] by simp
  ultimately obtain w3 where w3: "run w0 w3" "l_store w3 = others (2 * n + 1) s1" "l_now w3 \<le> clock (3 * n + 2)"
    using move [of ?w2 "2 * n + 1"] at(2) by auto
  obtain r s2 where create: "b_Create bk (clock (3 * n + 2)) (lock_item key lockID (clock (3 * n + 1) + ttl))
    (others (2 * n + 1) s1) = (r, s2)" by fastforce
  let ?w4 = "w3\<lparr>l_store := s2, l_now := clock (3 * n + 2),
    l_held := (if is_ok r then (l_held w3)(lockID := Some (clock (3 * n + 1) + ttl)) else l_held w3)\<rparr>"
  have w4: "run w0 ?w4"
    unfolding run_def
    by (rule lock_run.step [OF w3(1) [unfolded run_def] lock_step.create [OF w3(3) create [folded w3(2)] ttl]])
  show ?case
  proof (cases r)
    case (Inl err)
    then have "acquire_lock_loop bk clock others cancelled key lockID ttl (n + 1) rounds s2 = Some (Inr l, s')"
      using Suc.prems(1) get create by (auto simp: Let_def split: if_splits)
    moreover have "l_now ?w4 \<le> clock (3 * (n + 1))" using clock [of "3 * n + 2"] by (simp add: eval_nat_numeral)
    ultimately show ?thesis using Suc.IH [OF _ w4] by simp
  next
    case (Inr x)
    then show ?thesis using Suc.prems(1) get create w4 by (auto simp: Let_def)
  qed
qed simp

lemma Release_run:
  fixes others :: "nat \<Rightarrow> 's \<Rightarrow> 's"
  defines "run \<equiv> lock_run bk False key (elsewhere inv view purge key)"
  assumes w: "run w0 w" "l_store w = others 0 s" "l_now w \<le> clock 0"
    and move: "\<And>w1. run w0 w1 \<Longrightarrow> l_now w1 = clock 0 \<Longrightarrow>
      \<exists>w2. run w0 w2 \<and> l_store w2 = others 1 (l_store w1) \<and> l_read w2 = l_read w1 \<and> l_now w2 \<le> clock 1"
    and release: "Release bk clock others l s = (Inr x, s')" and key: "lk_key l = key"
  shows "\<exists>w2. run w0 w2 \<and> l_store w2 = s' \<and> l_held w2 (lk_id l) = None"
proof -
  obtain i s1 where get: "b_Get bk (clock 0) key (others 0 s) = (Inr i, s1)" and i: "it_Value i = lk_id l"
    and delete: "b_Delete bk (clock 1) key (others 1 s1) = (Inr x, s')"
    using release key by (auto simp: Release_def split: prod.splits sum.splits if_splits)
  let ?w1 = "w\<lparr>l_store := s1, l_now := clock 0, l_read := (l_read w)(it_Value i := Some i)\<rparr>"
  have "run w0 ?w1"
    using lock_run.step [OF w(1) [unfolded run_def] lock_step.read [OF w(3) get [folded w(2)]]] by (simp add: run_def)
  then obtain w2 where w2: "run w0 w2" "l_store w2 = others 1 s1" "l_read w2 (lk_id l) \<noteq> None" "l_now w2 \<le> clock 1"
    using move [of ?w1] i by auto
  have "run w0 (w2\<lparr>l_store := s', l_now := clock 1, l_held := (l_held w2)(lk_id l := None)\<rparr>)"
    unfolding run_def
    by (rule lock_run.step [OF w2(1) [unfolded run_def] lock_step.release [OF w2(4,3) delete [folded w2(2)]]]) simp
  then show ?thesis by fastforce
qed

end

interpretation lock_mem: lock_store "memory_backend cfg" memory_inv memory_view "removeExpired cfg" "\<lambda>k. k \<noteq> []" "''.locks/'' @ name"
  for cfg name
  by unfold_locales simp

end
