(* ===== verification/Lease_Properties.thy ===== *)
theory Lease_Properties
  imports Semaphore_Safety Backend_Lock Backend_Properties
begin

text \<open>
  What semaphores and locks promise to their owners, over the memory backend: the instances of the contracts of
  \<open>Semaphore_Safety\<close> and \<open>Backend_Lock\<close>. A run is any order of the accesses of all owners, with other keys of the store
  changed in between.
\<close>

definition sem_request :: "int \<Rightarrow> time \<Rightarrow> acquire_request" where
  "sem_request limit expires =
     \<lparr>asr_SemaphoreKind = ''k'', asr_SemaphoreName = ''n'', asr_MaxLeases = limit, asr_Expires = expires, asr_Holder = ''h''\<rparr>"

definition first_lease :: "string \<Rightarrow> semaphore" where
  "first_lease leaseID = (case initial_value leaseID (sem_request 1 50) of Inr (v, _) \<Rightarrow> v)"

definition one_lease :: "semaphore memory sem_world" where
  "one_lease =
     (idle memory_New 0)\<lparr>w_store := snd (memory_Create plain_memory 3 (sem_item (sem_key ''k'' ''n'') (first_lease ''a'')) memory_New),
        w_now := 3, w_held := [''a'' \<mapsto> 50]\<rparr>"

text \<open>C20: However the accesses of those who acquire, renew and cancel leases interleave, at no time run more leases of
  a semaphore than the limit that all of them ask for.\<close>

theorem semaphore_limit:
  assumes "sem_run (memory_backend cfg) limit (sem_key kind name)
      (elsewhere memory_inv memory_view (removeExpired cfg) (sem_key kind name)) (idle m t) w"
    and "memory_inv m" "memory_view m (sem_key kind name) = None" "0 \<le> limit"
  shows "finite (running w) \<and> int (card (running w)) \<le> limit"
  by (rule sem_mem.limit_respected [OF assms])

theorem semaphore_limit_witness: "finite (running one_lease) \<and> int (card (running one_lease)) \<le> 1"
proof (rule semaphore_limit [of plain_memory 1 "''k''" "''n''" memory_New 0])
  have l: "initial_value ''a'' (sem_request 1 50) = Inr (first_lease ''a'',
      \<lparr>sl_SemaphoreKind = ''k'', sl_SemaphoreName = ''n'', sl_LeaseID = ''a'', sl_Expires = 50\<rparr>)"
    by code_simp
  have c: "is_ok (fst (memory_Create plain_memory 3 (sem_item (sem_key ''k'' ''n'') (first_lease ''a'')) memory_New))"
    by code_simp
  have e: "asr_Expires (sem_request 1 50) = 50" "asr_MaxLeases (sem_request 1 50) \<le> 1" by (simp_all add: sem_request_def)
  have "b_Create (memory_backend plain_memory) 3 (sem_item (sem_key ''k'' ''n'') (first_lease ''a'')) (w_store (idle memory_New 0)) =
      (fst (memory_Create plain_memory 3 (sem_item (sem_key ''k'' ''n'') (first_lease ''a'')) memory_New),
       snd (memory_Create plain_memory 3 (sem_item (sem_key ''k'' ''n'') (first_lease ''a'')) memory_New))"
    by (simp add: memory_backend_def idle_def)
  note s = sem_step.create [OF l e(2) _ this, of "elsewhere memory_inv memory_view (removeExpired plain_memory) (sem_key ''k'' ''n'')"]
  show "sem_run (memory_backend plain_memory) 1 (sem_key ''k'' ''n'')
      (elsewhere memory_inv memory_view (removeExpired plain_memory) (sem_key ''k'' ''n'')) (idle memory_New 0) one_lease"
    using sem_run.step [OF sem_run.refl s] c by (simp add: one_lease_def e idle_def)
  show "memory_inv (memory_New :: semaphore memory)" "memory_view (memory_New :: semaphore memory) (sem_key ''k'' ''n'') = None"
    by simp_all
qed simp

text \<open>Runs as lists of accesses, to compute with.\<close>

datatype lock_access = TryLock time string time | ReadLock time | DeleteLock time string

fun lock_apply :: "('s, string) backend \<Rightarrow> bool \<Rightarrow> string \<Rightarrow> lock_access \<Rightarrow> 's lock_world \<Rightarrow> 's lock_world option" where
  "lock_apply bk timely key (TryLock t lockID e) w =
     (case b_Create bk t (lock_item key lockID e) (l_store w) of
        (r, s1) \<Rightarrow>
          if l_now w \<le> t \<and> e \<noteq> zero_time then
            Some (w\<lparr>l_store := s1, l_now := t, l_held := (if is_ok r then (l_held w)(lockID := Some e) else l_held w)\<rparr>)
          else None)"
| "lock_apply bk timely key (ReadLock t) w =
     (case b_Get bk t key (l_store w) of
        (r, s1) \<Rightarrow>
          if l_now w \<le> t then
            Some (w\<lparr>l_store := s1, l_now := t,
                    l_read := (case r of Inl _ \<Rightarrow> l_read w | Inr i \<Rightarrow> (l_read w)(it_Value i := Some i))\<rparr>)
          else None)"
| "lock_apply bk timely key (DeleteLock t lockID) w =
     (case b_Delete bk t key (l_store w) of
        (_, s1) \<Rightarrow>
          if l_now w \<le> t \<and> l_read w lockID \<noteq> None \<and>
             (timely \<longrightarrow> (case l_held w lockID of None \<Rightarrow> False | Some e \<Rightarrow> t < e)) then
            Some (w\<lparr>l_store := s1, l_now := t, l_held := (l_held w)(lockID := None)\<rparr>)
          else None)"

lemma lock_apply_step: "lock_apply bk timely key a w = Some w' \<Longrightarrow> lock_step bk timely key other w w'"
proof (cases a)
  case (TryLock t lockID e)
  obtain r s1 where c: "b_Create bk t (lock_item key lockID e) (l_store w) = (r, s1)" by fastforce
  show "lock_apply bk timely key a w = Some w' \<Longrightarrow> lock_step bk timely key other w w'"
    using lock_step.create [OF _ c] TryLock c by (cases "l_now w \<le> t \<and> e \<noteq> zero_time") auto
next
  case (ReadLock t)
  obtain r s1 where g: "b_Get bk t key (l_store w) = (r, s1)" by fastforce
  show "lock_apply bk timely key a w = Some w' \<Longrightarrow> lock_step bk timely key other w w'"
    using lock_step.read [OF _ g] ReadLock g by (cases "l_now w \<le> t") auto
next
  case (DeleteLock t lockID)
  then show "lock_apply bk timely key a w = Some w' \<Longrightarrow> lock_step bk timely key other w w'"
    by (auto split: prod.splits if_splits option.splits intro!: lock_step.release)
qed

fun lock_exec :: "('s, string) backend \<Rightarrow> bool \<Rightarrow> string \<Rightarrow> lock_access list \<Rightarrow> 's lock_world \<Rightarrow> 's lock_world option" where
  "lock_exec bk timely key [] w = Some w"
| "lock_exec bk timely key (a # as) w =
     (case lock_apply bk timely key a w of None \<Rightarrow> None | Some w1 \<Rightarrow> lock_exec bk timely key as w1)"

lemma lock_run_exec:
  "lock_run bk timely key other w0 w \<Longrightarrow> lock_exec bk timely key as w = Some w' \<Longrightarrow> lock_run bk timely key other w0 w'"
  by (induction as arbitrary: w) (auto split: option.splits dest: lock_apply_step [where other = other] intro: lock_run.step)

lemmas lock_exec_run = lock_run_exec [OF lock_run.refl]




text \<open>A slow owner deletes the lock of the next one, and a third one gets in.\<close>

theorem Release_race:
  "\<exists>w. lock_run (memory_backend plain_memory) False ''.locks/n'' other (unlocked memory_New 0) w \<and>
     locked_by w ''b'' \<and> locked_by w ''c''"
proof -
  let ?run = "lock_exec (memory_backend plain_memory) False ''.locks/n''
    [TryLock 1 ''a'' 3, ReadLock 2, TryLock 4 ''b'' 20, DeleteLock 5 ''a'', TryLock 6 ''c'' 20] (unlocked memory_New 0)"
  have "case ?run of None \<Rightarrow> False | Some w \<Rightarrow> locked_by w ''b'' \<and> locked_by w ''c''" by code_simp
  then obtain w where "?run = Some w" "locked_by w ''b'' \<and> locked_by w ''c''" by (auto split: option.splits)
  then show ?thesis using lock_exec_run by blast
qed

end
