(* ===== verification/Users.thy ===== *)
theory Users
  imports Role_Types Backend "HOL-Library.AList"
begin

text \<open>
  Users and what they authenticate with: \<open>api/types/user.go\<close>, the MFA devices and authentication preferences of
  \<open>api/types/authentication.go\<close>, the checks and storage form of \<open>lib/services/user.go\<close>, \<open>authentication.go\<close> and
  \<open>identity.go\<close>, the device checks of \<open>lib/auth/u2f\<close>, and reset tokens. Cryptography is third-party code: the
  fields of \<open>crypto\<close> are parameters. Go marshals to JSON and back; a stored value is the resource itself.
\<close>

section \<open>Third-party code\<close>

text \<open>
  \<open>bcrypt.Cost\<close>, \<open>CompareHashAndPassword\<close> and \<open>GenerateFromPassword\<close>; whether bytes parse as a public ECDSA key;
  \<open>totp.ValidateCustom\<close> of a token, a key and the time; \<open>HOTP.Scan\<close> of the marshalled generator, and whether it
  unmarshals; the U2F library's \<open>Authenticate\<close> of a response, a challenge, the key and the counter, its
  \<open>Register\<close> with the key handle and public key of the device, and whether the certificate in a registration
  verifies against the given authorities.
\<close>

record crypto =
  bcrypt_Cost :: "string \<Rightarrow> unit result"
  bcrypt_Compare :: "string \<Rightarrow> string \<Rightarrow> bool"
  bcrypt_Generate :: "string \<Rightarrow> string result"
  parse_ecdsa_key :: "string \<Rightarrow> bool"
  totp_Validate :: "string \<Rightarrow> string \<Rightarrow> time \<Rightarrow> bool result"
  hotp_Unmarshal :: "string \<Rightarrow> bool"
  hotp_Scan :: "string \<Rightarrow> string \<Rightarrow> nat \<Rightarrow> bool \<times> string"
  u2f_Authenticate :: "string \<Rightarrow> string \<Rightarrow> string \<times> string \<Rightarrow> int \<Rightarrow> int result"
  u2f_Register :: "string \<Rightarrow> string \<Rightarrow> (string \<times> string) result"
  u2f_attested :: "string list \<Rightarrow> string \<Rightarrow> bool"

section \<open>Resources\<close>

record external_identity =
  ei_ConnectorID :: string
  ei_Username :: string

definition identity_Check :: "external_identity \<Rightarrow> unit result" where
  "identity_Check i =
     (if ei_ConnectorID i = [] then Inl BadParameter
      else if ei_Username i = [] then Inl BadParameter
      else Inr ())"

record connector_ref =
  cr_Type :: string
  cr_ID :: string
  cr_Identity :: string

definition IsSameProvider :: "connector_ref \<Rightarrow> connector_ref option \<Rightarrow> bool" where
  "IsSameProvider r other =
     (case other of None \<Rightarrow> False | Some q \<Rightarrow> cr_Type q = cr_Type r \<and> cr_ID q = cr_ID r)"

record created_by =
  cb_Connector :: "connector_ref option"
  cb_Time :: time
  cb_User :: string

definition CreatedBy_IsEmpty :: "created_by \<Rightarrow> bool" where
  "CreatedBy_IsEmpty c = (cb_User c = [])"

record login_status =
  lst_IsLocked :: bool
  lst_LockedMessage :: string
  lst_LockedTime :: time
  lst_LockExpires :: time

datatype mfa_kind =
    TOTPDevice string
  | U2FDevice string string int

record mfa_device =
  mfa_Kind :: string
  mfa_SubKind :: string
  mfa_Version :: string
  mfa_Metadata :: metadata
  mfa_Id :: string
  mfa_AddedAt :: time
  mfa_LastUsed :: time
  mfa_Device :: "mfa_kind option"

definition mfa_name :: "mfa_device \<Rightarrow> string" where
  "mfa_name d = md_Name (mfa_Metadata d)"

definition NewMFADevice :: "string \<Rightarrow> string \<Rightarrow> time \<Rightarrow> mfa_device" where
  "NewMFADevice name i addedAt =
     \<lparr>mfa_Kind = [], mfa_SubKind = [], mfa_Version = [], mfa_Metadata = named_metadata name, mfa_Id = i,
      mfa_AddedAt = addedAt, mfa_LastUsed = addedAt, mfa_Device = None\<rparr>"

definition MFADevice_CheckAndSetDefaults :: "mfa_device \<Rightarrow> mfa_device result" where
  "MFADevice_CheckAndSetDefaults d =
     (let d1 = d\<lparr>mfa_Kind := ''mfa_device'', mfa_Version := ''v1''\<rparr>
      in case Metadata_CheckAndSetDefaults (mfa_Metadata d1) of
           Inl e \<Rightarrow> Inl e
         | Inr m \<Rightarrow>
             (let d2 = d1\<lparr>mfa_Metadata := m\<rparr>
              in if mfa_Id d2 = [] then Inl BadParameter
                 else if is_zero_time (mfa_AddedAt d2) then Inl BadParameter
                 else if is_zero_time (mfa_LastUsed d2) then Inl BadParameter
                 else if mfa_LastUsed d2 < mfa_AddedAt d2 then Inl BadParameter
                 else if mfa_Device d2 = None then Inl BadParameter
                 else Inr d2))"

definition MFAType :: "mfa_device \<Rightarrow> string" where
  "MFAType d =
     (case mfa_Device d of
        Some (TOTPDevice _) \<Rightarrow> ''TOTP''
      | Some (U2FDevice _ _ _) \<Rightarrow> ''U2F''
      | None \<Rightarrow> ''unknown'')"

definition GetTotp :: "mfa_device \<Rightarrow> string option" where
  "GetTotp d = (case mfa_Device d of Some (TOTPDevice key) \<Rightarrow> Some key | _ \<Rightarrow> None)"

definition GetU2F :: "mfa_device \<Rightarrow> (string \<times> string \<times> int) option" where
  "GetU2F d = (case mfa_Device d of Some (U2FDevice keyHandle pubKey counter) \<Rightarrow> Some (keyHandle, pubKey, counter) | _ \<Rightarrow> None)"

record u2f_registration_data =
  urd_Raw :: string
  urd_KeyHandle :: string
  urd_PubKey :: string

record local_auth_secrets =
  las_PasswordHash :: string
  las_TOTPKey :: string
  las_U2FRegistration :: "u2f_registration_data option"
  las_U2FCounter :: int
  las_MFA :: "mfa_device list"

record user =
  u_Kind :: string
  u_SubKind :: string
  u_Version :: string
  u_Metadata :: metadata
  u_OIDCIdentities :: "external_identity list"
  u_SAMLIdentities :: "external_identity list"
  u_GithubIdentities :: "external_identity list"
  u_Roles :: "string list"
  u_Traits :: traits
  u_Status :: login_status
  u_Expires :: time
  u_CreatedBy :: created_by
  u_LocalAuth :: "local_auth_secrets option"

definition user_name :: "user \<Rightarrow> string" where
  "user_name u = md_Name (u_Metadata u)"

fun check_identities :: "external_identity list \<Rightarrow> unit result" where
  "check_identities [] = Inr ()"
| "check_identities (i # is) = (case identity_Check i of Inl e \<Rightarrow> Inl e | Inr _ \<Rightarrow> check_identities is)"

definition user_CheckAndSetDefaults :: "user \<Rightarrow> user result" where
  "user_CheckAndSetDefaults u =
     (let u1 = u\<lparr>u_Kind := ''user'', u_Version := ''v2''\<rparr>
      in case Metadata_CheckAndSetDefaults (u_Metadata u1) of
           Inl e \<Rightarrow> Inl e
         | Inr m \<Rightarrow>
             (let u2 = u1\<lparr>u_Metadata := m\<rparr>
              in case check_identities (u_OIDCIdentities u2) of Inl e \<Rightarrow> Inl e | Inr _ \<Rightarrow> Inr u2))"

definition no_status :: login_status where
  "no_status = \<lparr>lst_IsLocked = False, lst_LockedMessage = [], lst_LockedTime = zero_time, lst_LockExpires = zero_time\<rparr>"

definition NewUser :: "string \<Rightarrow> user result" where
  "NewUser name =
     user_CheckAndSetDefaults
       \<lparr>u_Kind = [], u_SubKind = [], u_Version = [], u_Metadata = named_metadata name, u_OIDCIdentities = [],
        u_SAMLIdentities = [], u_GithubIdentities = [], u_Roles = [], u_Traits = [], u_Status = no_status,
        u_Expires = zero_time, u_CreatedBy = \<lparr>cb_Connector = None, cb_Time = zero_time, cb_User = []\<rparr>, u_LocalAuth = None\<rparr>"

definition WithoutSecrets :: "user \<Rightarrow> user" where
  "WithoutSecrets u = (if u_LocalAuth u = None then u else u\<lparr>u_LocalAuth := None\<rparr>)"

definition user_Expiry :: "user \<Rightarrow> time" where
  "user_Expiry u =
     (case md_Expires (u_Metadata u) of
        Some t \<Rightarrow> if \<not> is_zero_time t then t else u_Expires u
      | None \<Rightarrow> u_Expires u)"

definition user_SetExpiry :: "time \<Rightarrow> user \<Rightarrow> user" where
  "user_SetExpiry t u = u\<lparr>u_Metadata := (u_Metadata u)\<lparr>md_Expires := Some t\<rparr>\<rparr>"

definition user_SetResourceID :: "int \<Rightarrow> user \<Rightarrow> user" where
  "user_SetResourceID i u = u\<lparr>u_Metadata := (u_Metadata u)\<lparr>md_ID := i\<rparr>\<rparr>"

definition SetRoles :: "string list \<Rightarrow> user \<Rightarrow> user" where
  "SetRoles roles u = u\<lparr>u_Roles := Deduplicate roles\<rparr>"

definition AddRole :: "string \<Rightarrow> user \<Rightarrow> user" where
  "AddRole name u = (if name \<in> set (u_Roles u) then u else u\<lparr>u_Roles := u_Roles u @ [name]\<rparr>)"

definition SetLocked :: "time \<Rightarrow> string \<Rightarrow> user \<Rightarrow> user" where
  "SetLocked until reason u =
     u\<lparr>u_Status := (u_Status u)\<lparr>lst_IsLocked := True, lst_LockExpires := until, lst_LockedMessage := reason\<rparr>\<rparr>"

section \<open>Checks of credentials\<close>

definition ValidateDevice :: "crypto \<Rightarrow> string \<times> string \<times> int \<Rightarrow> unit result" where
  "ValidateDevice c d =
     (case d of (keyHandle, pubKey, _) \<Rightarrow>
        if keyHandle = [] then Inl BadParameter
        else if pubKey = [] then Inl BadParameter
        else if \<not> parse_ecdsa_key c pubKey then Inl BadParameter
        else Inr ())"

definition validateTOTPDevice :: "string \<Rightarrow> unit result" where
  "validateTOTPDevice key = (if key = [] then Inl BadParameter else Inr ())"

definition ValidateMFADevice :: "crypto \<Rightarrow> mfa_device \<Rightarrow> mfa_device result" where
  "ValidateMFADevice c d =
     (case MFADevice_CheckAndSetDefaults d of
        Inl e \<Rightarrow> Inl e
      | Inr d1 \<Rightarrow>
          (case mfa_Device d1 of
             Some (TOTPDevice key) \<Rightarrow> (case validateTOTPDevice key of Inl e \<Rightarrow> Inl e | Inr _ \<Rightarrow> Inr d1)
           | Some (U2FDevice keyHandle pubKey counter) \<Rightarrow>
               (case ValidateDevice c (keyHandle, pubKey, counter) of Inl e \<Rightarrow> Inl e | Inr _ \<Rightarrow> Inr d1)
           | None \<Rightarrow> Inl BadParameter))"

definition NewTOTPDevice :: "crypto \<Rightarrow> string \<Rightarrow> string \<Rightarrow> string \<Rightarrow> time \<Rightarrow> mfa_device result" where
  "NewTOTPDevice c newID name key addedAt =
     ValidateMFADevice c ((NewMFADevice name newID addedAt)\<lparr>mfa_Device := Some (TOTPDevice key)\<rparr>)"

text \<open>The devices after their defaults are set, unless a name occurs twice.\<close>

fun validate_devices :: "crypto \<Rightarrow> string list \<Rightarrow> mfa_device list \<Rightarrow> mfa_device list result" where
  "validate_devices c mfaNames [] = Inr []"
| "validate_devices c mfaNames (d # ds) =
     (case ValidateMFADevice c d of
        Inl e \<Rightarrow> Inl BadParameter
      | Inr d1 \<Rightarrow>
          if mfa_name d1 \<in> set mfaNames then Inl BadParameter
          else (case validate_devices c (mfa_name d1 # mfaNames) ds of Inl e \<Rightarrow> Inl e | Inr ds1 \<Rightarrow> Inr (d1 # ds1)))"

definition ValidateLocalAuthSecrets :: "crypto \<Rightarrow> local_auth_secrets \<Rightarrow> local_auth_secrets result" where
  "ValidateLocalAuthSecrets c l =
     (if las_PasswordHash l \<noteq> [] \<and> \<not> is_ok (bcrypt_Cost c (las_PasswordHash l)) then Inl BadParameter
      else case validate_devices c [] (las_MFA l) of Inl e \<Rightarrow> Inl e | Inr ds \<Rightarrow> Inr (l\<lparr>las_MFA := ds\<rparr>))"

definition ValidateUser :: "crypto \<Rightarrow> user \<Rightarrow> user result" where
  "ValidateUser c u =
     (case user_CheckAndSetDefaults u of
        Inl e \<Rightarrow> Inl e
      | Inr u1 \<Rightarrow>
          (case u_LocalAuth u1 of
             None \<Rightarrow> Inr u1
           | Some l \<Rightarrow>
               (case ValidateLocalAuthSecrets c l of Inl e \<Rightarrow> Inl e | Inr l1 \<Rightarrow> Inr (u1\<lparr>u_LocalAuth := Some l1\<rparr>))))"

definition UnmarshalUser :: "crypto \<Rightarrow> int \<Rightarrow> time \<Rightarrow> user \<Rightarrow> user result" where
  "UnmarshalUser c resourceID expires stored =
     (if u_Version stored \<noteq> ''v2'' then Inl BadParameter
      else case ValidateUser c stored of
             Inl e \<Rightarrow> Inl e
           | Inr u \<Rightarrow>
               (let u1 = (if resourceID \<noteq> 0 then user_SetResourceID resourceID u else u)
                in Inr (if \<not> is_zero_time expires then user_SetExpiry expires u1 else u1)))"

definition MarshalUser :: "crypto \<Rightarrow> user \<Rightarrow> user result" where
  "MarshalUser c u = (case ValidateUser c u of Inl e \<Rightarrow> Inl e | Inr u1 \<Rightarrow> Inr (user_SetResourceID 0 u1))"

section \<open>Login attempts and passwords\<close>

record login_attempt =
  la_Time :: time
  la_Success :: bool

definition attempt_Check :: "login_attempt \<Rightarrow> unit result" where
  "attempt_Check la = (if is_zero_time (la_Time la) then Inl BadParameter else Inr ())"

text \<open>The loop runs from the last attempt, so it is a recursion on the reversed list.\<close>

fun last_failed_loop :: "int \<Rightarrow> int \<Rightarrow> login_attempt list \<Rightarrow> bool" where
  "last_failed_loop x failed [] = False"
| "last_failed_loop x failed (a # as) =
     (if la_Success a then False
      else if failed + 1 \<ge> x then True
      else last_failed_loop x (failed + 1) as)"

definition LastFailed :: "int \<Rightarrow> login_attempt list \<Rightarrow> bool" where
  "LastFailed x attempts = last_failed_loop x 0 (rev attempts)"

text \<open>\<open>unicode.IsUpper\<close>, \<open>IsLower\<close> and \<open>IsDigit\<close> of the code point of one byte, from the Latin-1 table.\<close>

definition latin1_upper :: "char \<Rightarrow> bool" where
  "latin1_upper c = (let n = (of_char c :: nat) in 65 \<le> n \<and> n \<le> 90 \<or> 192 \<le> n \<and> n \<le> 222 \<and> n \<noteq> 215)"

definition latin1_lower :: "char \<Rightarrow> bool" where
  "latin1_lower c =
     (let n = (of_char c :: nat) in 97 \<le> n \<and> n \<le> 122 \<or> n = 181 \<or> 223 \<le> n \<and> n \<le> 255 \<and> n \<noteq> 247)"

definition latin1_digit :: "char \<Rightarrow> bool" where
  "latin1_digit c = (let n = (of_char c :: nat) in 48 \<le> n \<and> n \<le> 57)"

definition MinPasswordLength :: nat where
  "MinPasswordLength = 12"

definition MaxPasswordLength :: nat where
  "MaxPasswordLength = 128"

definition VerifyPassword :: "string \<Rightarrow> unit result" where
  "VerifyPassword password =
     (if length password < MinPasswordLength then Inl BadParameter
      else if length password > MaxPasswordLength then Inl BadParameter
      else
        (let hasUpper = (\<exists>c\<in>set password. latin1_upper c);
             hasLower = (\<exists>c\<in>set password. latin1_lower c);
             hasDigit = (\<exists>c\<in>set password. latin1_digit c)
         in if \<not> hasUpper \<or> \<not> hasLower \<or> \<not> hasDigit then Inl BadParameter else Inr ()))"

section \<open>Authentication preferences\<close>

record u2f_config =
  uc_AppID :: string
  uc_Facets :: "string list"
  uc_DeviceAttestationCAs :: "string list"

fun check_attestation_cas :: "(string \<Rightarrow> bool) \<Rightarrow> string list \<Rightarrow> unit result" where
  "check_attestation_cas parses [] = Inr ()"
| "check_attestation_cas parses (ca # cas) = (if parses ca then check_attestation_cas parses cas else Inl BadParameter)"

definition u2f_Check :: "(string \<Rightarrow> bool) \<Rightarrow> u2f_config \<Rightarrow> unit result" where
  "u2f_Check parses u =
     (if uc_AppID u = [] then Inl BadParameter
      else if uc_Facets u = [] then Inl BadParameter
      else check_attestation_cas parses (uc_DeviceAttestationCAs u))"

record auth_preference =
  ap_Kind :: string
  ap_Version :: string
  ap_Metadata :: metadata
  ap_Type :: string
  ap_SecondFactor :: string
  ap_ConnectorName :: string
  ap_U2F :: "u2f_config option"
  ap_RequireSessionMFA :: bool
  ap_DisconnectExpiredCert :: "bool option"
  ap_AllowLocalAuth :: "bool option"
  ap_MessageOfTheDay :: string
  ap_LockingMode :: string

definition SecondFactorOff :: string where "SecondFactorOff = ''off''"
definition SecondFactorOTP :: string where "SecondFactorOTP = ''otp''"
definition SecondFactorU2F :: string where "SecondFactorU2F = ''u2f''"
definition SecondFactorOn :: string where "SecondFactorOn = ''on''"
definition SecondFactorOptional :: string where "SecondFactorOptional = ''optional''"

lemmas second_factors = SecondFactorOff_def SecondFactorOTP_def SecondFactorU2F_def SecondFactorOn_def SecondFactorOptional_def

definition GetU2FConfig :: "auth_preference \<Rightarrow> u2f_config result" where
  "GetU2FConfig c = (case ap_U2F c of None \<Rightarrow> Inl NotFound | Some u \<Rightarrow> Inr u)"

text \<open>Reading the option of a preference that was not checked dereferences nil; the preference in use is checked.\<close>

definition GetAllowLocalAuth :: "auth_preference \<Rightarrow> bool" where
  "GetAllowLocalAuth c = (case ap_AllowLocalAuth c of Some b \<Rightarrow> b | None \<Rightarrow> False)"

definition GetDisconnectExpiredCert :: "auth_preference \<Rightarrow> bool" where
  "GetDisconnectExpiredCert c = (case ap_DisconnectExpiredCert c of Some b \<Rightarrow> b | None \<Rightarrow> False)"

definition SetOrigin :: "string \<Rightarrow> metadata \<Rightarrow> metadata" where
  "SetOrigin origin m = m\<lparr>md_Labels := AList.update OriginLabel origin (md_Labels m)\<rparr>"

definition pref_defaults :: "auth_preference \<Rightarrow> auth_preference" where
  "pref_defaults c =
     (let c1 = (if ap_Type c = [] then c\<lparr>ap_Type := ''local''\<rparr> else c);
          c2 = (if ap_SecondFactor c1 = [] then c1\<lparr>ap_SecondFactor := SecondFactorOTP\<rparr> else c1);
          c3 = (if ap_AllowLocalAuth c2 = None then c2\<lparr>ap_AllowLocalAuth := Some True\<rparr> else c2);
          c4 = (if ap_DisconnectExpiredCert c3 = None then c3\<lparr>ap_DisconnectExpiredCert := Some False\<rparr> else c3);
          c5 = (if ap_LockingMode c4 = [] then c4\<lparr>ap_LockingMode := ''best_effort''\<rparr> else c4)
      in if Origin (ap_Metadata c5) = [] then c5\<lparr>ap_Metadata := SetOrigin ''dynamic'' (ap_Metadata c5)\<rparr> else c5)"

definition pref_CheckAndSetDefaults :: "(string \<Rightarrow> bool) \<Rightarrow> auth_preference \<Rightarrow> auth_preference result" where
  "pref_CheckAndSetDefaults parses c =
     (let c1 = c\<lparr>ap_Kind := ''cluster_auth_preference'', ap_Version := ''v2'',
                ap_Metadata := (ap_Metadata c)\<lparr>md_Name := ''cluster-auth-preference''\<rparr>\<rparr>
      in case Metadata_CheckAndSetDefaults (ap_Metadata c1) of
           Inl e \<Rightarrow> Inl e
         | Inr m \<Rightarrow>
             (let c2 = pref_defaults (c1\<lparr>ap_Metadata := m\<rparr>);
                  second =
                    (if ap_SecondFactor c2 \<in> {SecondFactorOff, SecondFactorOTP} then Inr ()
                     else if ap_SecondFactor c2 \<in> {SecondFactorU2F, SecondFactorOn, SecondFactorOptional} then
                       (case ap_U2F c2 of None \<Rightarrow> Inl BadParameter | Some u \<Rightarrow> u2f_Check parses u)
                     else Inl BadParameter)
              in if ap_Type c2 \<notin> {''local'', ''oidc'', ''saml'', ''github''} then Inl BadParameter
                 else case second of
                        Inl e \<Rightarrow> Inl e
                      | Inr _ \<Rightarrow>
                          if ap_LockingMode c2 \<notin> {''best_effort'', ''strict''} then Inl BadParameter else Inr c2))"

section \<open>Reset tokens\<close>

record reset_token =
  rt_Kind :: string
  rt_Version :: string
  rt_Metadata :: metadata
  rt_User :: string
  rt_URL :: string
  rt_Created :: time

definition rt_name :: "reset_token \<Rightarrow> string" where
  "rt_name t = md_Name (rt_Metadata t)"

definition rt_Expiry :: "reset_token \<Rightarrow> time" where
  "rt_Expiry t = (case md_Expires (rt_Metadata t) of None \<Rightarrow> zero_time | Some e \<Rightarrow> e)"

text \<open>\<open>CheckAndSetDefaults\<close> has a value receiver: what it sets is lost.\<close>

definition rt_CheckAndSetDefaults :: "reset_token \<Rightarrow> unit result" where
  "rt_CheckAndSetDefaults t =
     (case Metadata_CheckAndSetDefaults (rt_Metadata t) of Inl e \<Rightarrow> Inl e | Inr _ \<Rightarrow> Inr ())"

definition NewResetPasswordToken :: "string \<Rightarrow> reset_token result" where
  "NewResetPasswordToken tokenID =
     (let t = \<lparr>rt_Kind = [], rt_Version = [], rt_Metadata = named_metadata tokenID, rt_User = [], rt_URL = [],
               rt_Created = zero_time\<rparr>
      in case rt_CheckAndSetDefaults t of Inl e \<Rightarrow> Inl e | Inr _ \<Rightarrow> Inr t)"

definition UnmarshalResetPasswordToken :: "reset_token \<Rightarrow> reset_token result" where
  "UnmarshalResetPasswordToken stored = (case rt_CheckAndSetDefaults stored of Inl e \<Rightarrow> Inl e | Inr _ \<Rightarrow> Inr stored)"

definition MarshalResetPasswordToken :: "reset_token \<Rightarrow> reset_token result" where
  "MarshalResetPasswordToken t = (case rt_CheckAndSetDefaults t of Inl e \<Rightarrow> Inl e | Inr _ \<Rightarrow> Inr t)"

record reset_token_secrets =
  rts_Metadata :: metadata
  rts_OTPKey :: string
  rts_QRCode :: string
  rts_Created :: time

definition rts_name :: "reset_token_secrets \<Rightarrow> string" where
  "rts_name t = md_Name (rts_Metadata t)"

definition rts_Expiry :: "reset_token_secrets \<Rightarrow> time" where
  "rts_Expiry t = (case md_Expires (rts_Metadata t) of None \<Rightarrow> zero_time | Some e \<Rightarrow> e)"

end
