(* ===== verification/Provisioning.thy ===== *)
theory Provisioning
  imports RoleSets Backend
begin

text \<open>
  Provisioning tokens, with which servers join the cluster: the system roles they grant
  (\<open>api/types/system_role.go\<close>), the token resource in both versions (\<open>api/types/provisioning.go\<close>), the static tokens of
  the configuration (\<open>api/types/statictokens.go\<close>) and their storage forms in \<open>lib/services\<close>.
\<close>

section \<open>System roles\<close>

type_synonym system_role = string

definition RoleAuth :: system_role where
  "RoleAuth = ''Auth''"

definition RoleNode :: system_role where
  "RoleNode = ''Node''"

definition RoleProxy :: system_role where
  "RoleProxy = ''Proxy''"

definition RoleAdmin :: system_role where
  "RoleAdmin = ''Admin''"

definition RoleProvisionToken :: system_role where
  "RoleProvisionToken = ''ProvisionToken''"

definition RoleTrustedCluster :: system_role where
  "RoleTrustedCluster = ''Trusted_cluster''"

definition RoleSignup :: system_role where
  "RoleSignup = ''Signup''"

definition RoleKube :: system_role where
  "RoleKube = ''Kube''"

definition RoleApp :: system_role where
  "RoleApp = ''App''"

definition RoleDatabase :: system_role where
  "RoleDatabase = ''Db''"

definition LegacyClusterTokenType :: system_role where
  "LegacyClusterTokenType = ''Trustedcluster''"

definition SystemRole_Check :: "system_role \<Rightarrow> unit result" where
  "SystemRole_Check r =
     (if r \<in> {RoleAuth, RoleNode, RoleApp, RoleDatabase, RoleAdmin, RoleProvisionToken, RoleTrustedCluster,
              LegacyClusterTokenType, RoleSignup, RoleProxy, RoleNop, RoleKube}
      then Inr () else Inl BadParameter)"

fun system_roles_loop :: "system_role list \<Rightarrow> system_role list \<Rightarrow> unit result" where
  "system_roles_loop seen [] = Inr ()"
| "system_roles_loop seen (r # rs) =
     (case SystemRole_Check r of
        Inl e \<Rightarrow> Inl e
      | Inr _ \<Rightarrow> if r \<in> set seen then Inl BadParameter else system_roles_loop (r # seen) rs)"

definition SystemRoles_Check :: "system_role list \<Rightarrow> unit result" where
  "SystemRoles_Check roles = system_roles_loop [] roles"

definition NewSiriusecRoles :: "string list \<Rightarrow> system_role list result" where
  "NewSiriusecRoles is = (case SystemRoles_Check is of Inl e \<Rightarrow> Inl e | Inr _ \<Rightarrow> Inr is)"

fun Include :: "system_role list \<Rightarrow> system_role \<Rightarrow> bool" where
  "Include [] role1 = False"
| "Include (r # rs) role1 = (if r = role1 then True else Include rs role1)"

definition SystemRoles_Equals :: "system_role list \<Rightarrow> system_role list \<Rightarrow> bool" where
  "SystemRoles_Equals roles other =
     (let rs = set roles; os = set other
      in if card rs \<noteq> card os then False else \<forall>r\<in>rs. r \<in> os)"

definition SystemRole_String :: "system_role \<Rightarrow> string" where
  "SystemRole_String r =
     (if r = RoleSignup then ''Password''
      else if r = RoleTrustedCluster \<or> r = LegacyClusterTokenType then ''trusted_cluster'' else r)"

definition StringSlice :: "system_role list \<Rightarrow> string list" where
  "StringSlice roles = map SystemRole_String roles"

section \<open>Tokens\<close>

record token_rule =
  tr_AWSAccount :: string
  tr_AWSRegions :: "string list"
  tr_AWSRole :: string

record provision_token =
  pt_Kind :: string
  pt_SubKind :: string
  pt_Version :: string
  pt_Metadata :: metadata
  pt_Roles :: "system_role list"
  pt_Allow :: "token_rule list"
  pt_AWSIIDTTL :: duration

record provision_token_v1 =
  v1_Roles :: "system_role list"
  v1_Expires :: time
  v1_Token :: string

definition V2 :: string where
  "V2 = ''v2''"

definition KindToken :: string where
  "KindToken = ''token''"

definition pt_name :: "provision_token \<Rightarrow> string" where
  "pt_name t = md_Name (pt_Metadata t)"

definition pt_Expiry :: "provision_token \<Rightarrow> time" where
  "pt_Expiry t = (case md_Expires (pt_Metadata t) of None \<Rightarrow> zero_time | Some e \<Rightarrow> e)"

definition pt_SetExpiry :: "time \<Rightarrow> provision_token \<Rightarrow> provision_token" where
  "pt_SetExpiry e t = t\<lparr>pt_Metadata := (pt_Metadata t)\<lparr>md_Expires := Some e\<rparr>\<rparr>"

definition pt_SetResourceID :: "int \<Rightarrow> provision_token \<Rightarrow> provision_token" where
  "pt_SetResourceID i t = t\<lparr>pt_Metadata := (pt_Metadata t)\<lparr>md_ID := i\<rparr>\<rparr>"

definition pt_setStaticFields :: "provision_token \<Rightarrow> provision_token" where
  "pt_setStaticFields t = t\<lparr>pt_Kind := KindToken, pt_Version := V2\<rparr>"

definition minute_ns :: duration where
  "minute_ns = 60 * second_ns"

definition pt_CheckAndSetDefaults :: "provision_token \<Rightarrow> provision_token result" where
  "pt_CheckAndSetDefaults t =
     (let t1 = pt_setStaticFields t
      in case Metadata_CheckAndSetDefaults (pt_Metadata t1) of
           Inl e \<Rightarrow> Inl e
         | Inr m \<Rightarrow>
             (let t2 = t1\<lparr>pt_Metadata := m\<rparr>
              in if pt_Roles t2 = [] then Inl BadParameter
                 else case SystemRoles_Check (pt_Roles t2) of
                        Inl e \<Rightarrow> Inl e
                      | Inr _ \<Rightarrow> Inr (if pt_AWSIIDTTL t2 = 0 then t2\<lparr>pt_AWSIIDTTL := 5 * minute_ns\<rparr> else t2)))"

definition NewProvisionTokenFromSpec ::
  "string \<Rightarrow> time \<Rightarrow> system_role list \<Rightarrow> token_rule list \<Rightarrow> duration \<Rightarrow> provision_token result" where
  "NewProvisionTokenFromSpec token expires roles allow ttl =
     pt_CheckAndSetDefaults
       \<lparr>pt_Kind = [], pt_SubKind = [], pt_Version = [],
        pt_Metadata = \<lparr>md_Name = token, md_Namespace = [], md_Labels = [], md_Expires = Some expires, md_ID = 0\<rparr>,
        pt_Roles = roles, pt_Allow = allow, pt_AWSIIDTTL = ttl\<rparr>"

definition NewProvisionToken :: "string \<Rightarrow> system_role list \<Rightarrow> time \<Rightarrow> provision_token result" where
  "NewProvisionToken token roles expires = NewProvisionTokenFromSpec token expires roles [] 0"

definition token_V1 :: "provision_token \<Rightarrow> provision_token_v1" where
  "token_V1 t = \<lparr>v1_Roles = pt_Roles t, v1_Expires = pt_Expiry t, v1_Token = pt_name t\<rparr>"

text \<open>The error of the check is dropped; a token that fails it has only its defaults up to the failure, which are there
  already.\<close>

definition token_V2 :: "provision_token_v1 \<Rightarrow> provision_token" where
  "token_V2 p =
     (let t = \<lparr>pt_Kind = KindToken, pt_SubKind = [], pt_Version = V2,
               pt_Metadata = \<lparr>md_Name = v1_Token p, md_Namespace = default_namespace, md_Labels = [], md_Expires = None, md_ID = 0\<rparr>,
               pt_Roles = v1_Roles p, pt_Allow = [], pt_AWSIIDTTL = 0\<rparr>;
          t1 = (if \<not> is_zero_time (v1_Expires p) then pt_SetExpiry (v1_Expires p) t else t)
      in case pt_CheckAndSetDefaults t1 of Inl _ \<Rightarrow> t1 | Inr t2 \<Rightarrow> t2)"

definition ProvisionTokensToV1 :: "provision_token list \<Rightarrow> provision_token_v1 list" where
  "ProvisionTokensToV1 = map token_V1"

definition ProvisionTokensFromV1 :: "provision_token_v1 list \<Rightarrow> provision_token list" where
  "ProvisionTokensFromV1 = map token_V2"

text \<open>What is stored: a value without a version is read in the first version.\<close>

datatype stored_token = StoredV1 provision_token_v1 | StoredV2 provision_token

definition UnmarshalProvisionToken :: "int \<Rightarrow> stored_token \<Rightarrow> provision_token result" where
  "UnmarshalProvisionToken resourceID stored =
     (case stored of
        StoredV1 p \<Rightarrow> (let t = token_V2 p in Inr (if resourceID \<noteq> 0 then pt_SetResourceID resourceID t else t))
      | StoredV2 p \<Rightarrow>
          if pt_Version p \<noteq> V2 then Inl BadParameter
          else case pt_CheckAndSetDefaults p of
                 Inl e \<Rightarrow> Inl e
               | Inr t \<Rightarrow> Inr (if resourceID \<noteq> 0 then pt_SetResourceID resourceID t else t))"

text \<open>The token after the check, which fills in its defaults, and what is stored.\<close>

definition MarshalProvisionToken :: "provision_token \<Rightarrow> (provision_token \<times> stored_token) result" where
  "MarshalProvisionToken t =
     (case pt_CheckAndSetDefaults t of Inl e \<Rightarrow> Inl e | Inr t1 \<Rightarrow> Inr (t1, StoredV2 (pt_SetResourceID 0 t1)))"

section \<open>Static tokens\<close>

record static_tokens =
  st_Kind :: string
  st_SubKind :: string
  st_Version :: string
  st_Metadata :: metadata
  st_StaticTokens :: "provision_token_v1 list"

definition KindStaticTokens :: string where
  "KindStaticTokens = ''static_tokens''"

definition MetaNameStaticTokens :: string where
  "MetaNameStaticTokens = ''static-tokens''"

definition st_setStaticFields :: "static_tokens \<Rightarrow> static_tokens" where
  "st_setStaticFields c =
     c\<lparr>st_Kind := KindStaticTokens, st_Version := V2, st_Metadata := (st_Metadata c)\<lparr>md_Name := MetaNameStaticTokens\<rparr>\<rparr>"

definition st_CheckAndSetDefaults :: "static_tokens \<Rightarrow> static_tokens result" where
  "st_CheckAndSetDefaults c =
     (let c1 = st_setStaticFields c
      in case Metadata_CheckAndSetDefaults (st_Metadata c1) of Inl e \<Rightarrow> Inl e | Inr m \<Rightarrow> Inr (c1\<lparr>st_Metadata := m\<rparr>))"

definition NewStaticTokens :: "provision_token_v1 list \<Rightarrow> static_tokens result" where
  "NewStaticTokens tokens =
     st_CheckAndSetDefaults
       \<lparr>st_Kind = [], st_SubKind = [], st_Version = [],
        st_Metadata = \<lparr>md_Name = [], md_Namespace = [], md_Labels = [], md_Expires = None, md_ID = 0\<rparr>, st_StaticTokens = tokens\<rparr>"

definition st_Expiry :: "static_tokens \<Rightarrow> time" where
  "st_Expiry c = (case md_Expires (st_Metadata c) of None \<Rightarrow> zero_time | Some e \<Rightarrow> e)"

definition st_SetExpiry :: "time \<Rightarrow> static_tokens \<Rightarrow> static_tokens" where
  "st_SetExpiry e c = c\<lparr>st_Metadata := (st_Metadata c)\<lparr>md_Expires := Some e\<rparr>\<rparr>"

definition st_SetResourceID :: "int \<Rightarrow> static_tokens \<Rightarrow> static_tokens" where
  "st_SetResourceID i c = c\<lparr>st_Metadata := (st_Metadata c)\<lparr>md_ID := i\<rparr>\<rparr>"

definition GetStaticTokens :: "static_tokens \<Rightarrow> provision_token list" where
  "GetStaticTokens c = ProvisionTokensFromV1 (st_StaticTokens c)"

definition SetStaticTokens :: "provision_token list \<Rightarrow> static_tokens \<Rightarrow> static_tokens" where
  "SetStaticTokens tokens c = c\<lparr>st_StaticTokens := ProvisionTokensToV1 tokens\<rparr>"

definition UnmarshalStaticTokens :: "int \<Rightarrow> time \<Rightarrow> static_tokens \<Rightarrow> static_tokens result" where
  "UnmarshalStaticTokens resourceID expires stored =
     (case st_CheckAndSetDefaults stored of
        Inl e \<Rightarrow> Inl e
      | Inr c \<Rightarrow>
          (let c1 = (if resourceID \<noteq> 0 then st_SetResourceID resourceID c else c)
           in Inr (if \<not> is_zero_time expires then st_SetExpiry expires c1 else c1)))"

definition MarshalStaticTokens :: "static_tokens \<Rightarrow> (static_tokens \<times> static_tokens) result" where
  "MarshalStaticTokens c =
     (case st_CheckAndSetDefaults c of Inl e \<Rightarrow> Inl e | Inr c1 \<Rightarrow> Inr (c1, st_SetResourceID 0 c1))"

section \<open>Facts\<close>

lemma Include_iff [simp]: "Include roles r \<longleftrightarrow> r \<in> set roles"
  by (induction roles) auto

lemma system_roles_loop_ok:
  "is_ok (system_roles_loop seen rs) \<longleftrightarrow> (\<forall>r\<in>set rs. is_ok (SystemRole_Check r)) \<and> distinct rs \<and> set rs \<inter> set seen = {}"
  by (induction rs arbitrary: seen) (auto split: sum.splits simp: is_ok_iff)

text \<open>The comparison of two lists of roles is that of the sets.\<close>

lemma SystemRoles_Equals_iff: "SystemRoles_Equals a b \<longleftrightarrow> set a = set b"
  by (auto simp: SystemRoles_Equals_def Let_def subset_iff intro: card_subset_eq [symmetric] dest: card_subset_eq [OF finite_set, rotated])

lemma Metadata_check_fields:
  "Metadata_CheckAndSetDefaults m = Inr m' \<Longrightarrow> md_Expires m' = md_Expires m \<and> md_Labels m' = md_Labels m \<and> md_ID m' = md_ID m"
  by (auto simp: Metadata_CheckAndSetDefaults_def Let_def split: if_splits)

lemma pt_check_cases:
  assumes "pt_CheckAndSetDefaults t = Inr t'"
  obtains m where "Metadata_CheckAndSetDefaults (pt_Metadata t) = Inr m" "pt_Roles t \<noteq> []" "SystemRoles_Check (pt_Roles t) = Inr ()"
    "t' = t\<lparr>pt_Kind := KindToken, pt_Version := V2, pt_Metadata := m,
            pt_AWSIIDTTL := if pt_AWSIIDTTL t = 0 then 5 * minute_ns else pt_AWSIIDTTL t\<rparr>"
  using assms by (auto simp: pt_CheckAndSetDefaults_def pt_setStaticFields_def Let_def split: sum.splits if_splits)

lemma pt_check_Inr:
  assumes "pt_CheckAndSetDefaults t = Inr t'"
  shows "pt_Roles t' = pt_Roles t" "pt_Allow t' = pt_Allow t" "pt_Expiry t' = pt_Expiry t" "pt_name t' = pt_name t" "pt_name t \<noteq> []"
    "md_Labels (pt_Metadata t') = md_Labels (pt_Metadata t)" "pt_Version t' = V2" "pt_Roles t \<noteq> []"
    "pt_CheckAndSetDefaults t' = Inr t'"
proof -
  obtain m where t: "Metadata_CheckAndSetDefaults (pt_Metadata t) = Inr m" "pt_Roles t \<noteq> []" "SystemRoles_Check (pt_Roles t) = Inr ()"
    "t' = t\<lparr>pt_Kind := KindToken, pt_Version := V2, pt_Metadata := m,
            pt_AWSIIDTTL := if pt_AWSIIDTTL t = 0 then 5 * minute_ns else pt_AWSIIDTTL t\<rparr>"
    by (rule pt_check_cases [OF assms])
  note m = Metadata_check_Inr [OF t(1)] Metadata_check_fields [OF t(1)]
  show "pt_Roles t' = pt_Roles t" "pt_Allow t' = pt_Allow t" "pt_Expiry t' = pt_Expiry t" "pt_name t' = pt_name t" "pt_name t \<noteq> []"
    "md_Labels (pt_Metadata t') = md_Labels (pt_Metadata t)" "pt_Version t' = V2" "pt_Roles t \<noteq> []"
    using m t(2) by (auto simp: t(4) pt_Expiry_def pt_name_def)
  show "pt_CheckAndSetDefaults t' = Inr t'"
    using m t(2,3) by (simp add: t(4) pt_CheckAndSetDefaults_def pt_setStaticFields_def minute_ns_def second_ns_def)
qed

lemma pt_SetResourceID_fields [simp]:
  "pt_Roles (pt_SetResourceID i t) = pt_Roles t" "pt_Allow (pt_SetResourceID i t) = pt_Allow t"
  "pt_AWSIIDTTL (pt_SetResourceID i t) = pt_AWSIIDTTL t" "pt_Expiry (pt_SetResourceID i t) = pt_Expiry t"
  "pt_name (pt_SetResourceID i t) = pt_name t" "md_Labels (pt_Metadata (pt_SetResourceID i t)) = md_Labels (pt_Metadata t)"
  "pt_Version (pt_SetResourceID i t) = pt_Version t"
  "pt_SetResourceID i (pt_SetResourceID j t) = pt_SetResourceID i t"
  by (simp_all add: pt_SetResourceID_def pt_Expiry_def pt_name_def)

lemma pt_check_SetResourceID:
  "pt_CheckAndSetDefaults (pt_SetResourceID i t) =
     (case pt_CheckAndSetDefaults t of Inl e \<Rightarrow> Inl e | Inr t' \<Rightarrow> Inr (pt_SetResourceID i t'))"
  by (auto simp: pt_CheckAndSetDefaults_def pt_setStaticFields_def pt_SetResourceID_def Metadata_CheckAndSetDefaults_def Origin_def
      Let_def split: sum.splits)

text \<open>What is stored reads back as it was checked, with the identifier of the item.\<close>

lemma provision_token_roundtrip:
  assumes "MarshalProvisionToken t = Inr (t1, stored)"
  shows "UnmarshalProvisionToken i stored = Inr (pt_SetResourceID i t1)"
proof -
  have t: "pt_CheckAndSetDefaults t = Inr t1" "stored = StoredV2 (pt_SetResourceID 0 t1)"
    using assms by (simp_all add: MarshalProvisionToken_def split: sum.splits)
  then show ?thesis using pt_check_Inr [OF t(1)] by (simp add: UnmarshalProvisionToken_def pt_check_SetResourceID)
qed

end
