(* ===== verification/Identity.thy ===== *)
theory Identity
  imports Users Provisioning Memory_Contract
begin

text \<open>
  The identity service over a backend: \<open>lib/services/local/users.go\<close> and \<open>resetpasswordtokens.go\<close>, with the
  collector of the items of a user in \<open>resource.go\<close>. What is stored under a key is one of the kinds of \<open>stored\<close>;
  reading a value as another kind is a decoding error. \<open>clock i\<close> is the time of the i-th access of an operation.
  Fresh identifiers are parameters.
\<close>

section \<open>What is stored\<close>

datatype stored =
    StUser user
  | StBytes string
  | StAttempt login_attempt
  | StDevice mfa_device
  | StRegistration u2f_registration_data
  | StCounter int
  | StChallenge string
  | StToken reset_token
  | StSecrets reset_token_secrets
  | StProvision stored_token
  | StStatic static_tokens

fun as_user :: "stored \<Rightarrow> user result" where
  "as_user (StUser u) = Inr u"
| "as_user _ = Inl Unclassified"

fun as_bytes :: "stored \<Rightarrow> string result" where
  "as_bytes (StBytes b) = Inr b"
| "as_bytes _ = Inl Unclassified"

fun as_attempt :: "stored \<Rightarrow> login_attempt result" where
  "as_attempt (StAttempt a) = Inr a"
| "as_attempt _ = Inl Unclassified"

fun as_device :: "stored \<Rightarrow> mfa_device result" where
  "as_device (StDevice d) = Inr d"
| "as_device _ = Inl Unclassified"

fun as_registration :: "stored \<Rightarrow> u2f_registration_data result" where
  "as_registration (StRegistration r) = Inr r"
| "as_registration _ = Inl Unclassified"

fun as_counter :: "stored \<Rightarrow> int result" where
  "as_counter (StCounter n) = Inr n"
| "as_counter _ = Inl Unclassified"

fun as_challenge :: "stored \<Rightarrow> string result" where
  "as_challenge (StChallenge ch) = Inr ch"
| "as_challenge _ = Inl Unclassified"

fun as_token :: "stored \<Rightarrow> reset_token result" where
  "as_token (StToken t) = Inr t"
| "as_token _ = Inl BadParameter"

fun as_secrets :: "stored \<Rightarrow> reset_token_secrets result" where
  "as_secrets (StSecrets t) = Inr t"
| "as_secrets _ = Inl BadParameter"

fun as_provision :: "stored \<Rightarrow> stored_token result" where
  "as_provision (StProvision t) = Inr t"
| "as_provision _ = Inl Unclassified"

fun as_static :: "stored \<Rightarrow> static_tokens result" where
  "as_static (StStatic t) = Inr t"
| "as_static _ = Inl BadParameter"

definition stored_item :: "string \<Rightarrow> stored \<Rightarrow> time \<Rightarrow> int \<Rightarrow> stored item" where
  "stored_item key value expires resourceID =
     \<lparr>it_Key = key, it_Value = value, it_Expires = expires, it_ID = resourceID, it_LeaseID = 0\<rparr>"

definition users_key :: "string list \<Rightarrow> string" where
  "users_key parts = Key (''web'' # ''users'' # parts)"

definition paramsPrefix :: string where "paramsPrefix = ''params''"
definition attemptsPrefix :: string where "attemptsPrefix = ''attempts''"
definition pwdPrefix :: string where "pwdPrefix = ''pwd''"
definition hotpPrefix :: string where "hotpPrefix = ''hotp''"
definition usedTOTPPrefix :: string where "usedTOTPPrefix = ''used_totp''"
definition mfaDevicePrefix :: string where "mfaDevicePrefix = ''mfa''"
definition u2fSignChallengePrefix :: string where "u2fSignChallengePrefix = ''u2fsignchallenge''"
definition u2fRegChalPrefix :: string where "u2fRegChalPrefix = ''adduseru2fchallenges''"
definition totpPrefix :: string where "totpPrefix = ''totp''"
definition u2fRegistrationPrefix :: string where "u2fRegistrationPrefix = ''u2fregistration''"
definition u2fRegistrationCounterPrefix :: string where "u2fRegistrationCounterPrefix = ''u2fregistrationcounter''"
definition passwordTokensPrefix :: string where "passwordTokensPrefix = ''resetpasswordtokens''"
definition secretsPrefix :: string where "secretsPrefix = ''secrets''"

lemmas prefix_defs = paramsPrefix_def attemptsPrefix_def pwdPrefix_def hotpPrefix_def usedTOTPPrefix_def mfaDevicePrefix_def
  u2fSignChallengePrefix_def u2fRegChalPrefix_def totpPrefix_def u2fRegistrationPrefix_def u2fRegistrationCounterPrefix_def
  passwordTokensPrefix_def secretsPrefix_def

definition usedTOTPTTL :: duration where
  "usedTOTPTTL = 30 * second_ns"

definition U2FChallengeTimeout :: duration where
  "U2FChallengeTimeout = 5 * 60 * second_ns"

section \<open>The items of a user\<close>

record user_items =
  ui_params :: "stored item option"
  ui_pwd :: "stored item option"
  ui_mfa :: "stored item list"
  ui_totp :: "stored item option"
  ui_u2fRegistration :: "stored item option"
  ui_u2fCounter :: "stored item option"

definition no_items :: user_items where
  "no_items = \<lparr>ui_params = None, ui_pwd = None, ui_mfa = [], ui_totp = None, ui_u2fRegistration = None, ui_u2fCounter = None\<rparr>"

text \<open>\<open>Set\<close> says whether it knows the suffix; it changes nothing when it does not.\<close>

definition items_Set :: "string \<Rightarrow> stored item \<Rightarrow> user_items \<Rightarrow> user_items \<times> bool" where
  "items_Set suffix i u =
     (if suffix = paramsPrefix then (u\<lparr>ui_params := Some i\<rparr>, True)
      else if suffix = pwdPrefix then (u\<lparr>ui_pwd := Some i\<rparr>, True)
      else if suffix = totpPrefix then (u\<lparr>ui_totp := Some i\<rparr>, True)
      else if suffix = u2fRegistrationPrefix then (u\<lparr>ui_u2fRegistration := Some i\<rparr>, True)
      else if suffix = u2fRegistrationCounterPrefix then (u\<lparr>ui_u2fCounter := Some i\<rparr>, True)
      else if has_prefix suffix mfaDevicePrefix then (u\<lparr>ui_mfa := ui_mfa u @ [i]\<rparr>, True)
      else (u, False))"

definition items_Len :: "user_items \<Rightarrow> nat" where
  "items_Len u = (if ui_params u \<noteq> None then 1 else 0) + (if ui_pwd u \<noteq> None then 1 else 0) + length (ui_mfa u)"

definition items_complete :: "user_items \<Rightarrow> bool" where
  "items_complete u = (ui_params u \<noteq> None)"

definition fullUsersPrefix :: string where
  "fullUsersPrefix = users_key [] @ ''/''"

text \<open>The bytes before the first slash and those after it.\<close>

fun cut_slash :: "string \<Rightarrow> (string \<times> string) option" where
  "cut_slash [] = None"
| "cut_slash (c # cs) =
     (if c = Separator then Some ([], cs)
      else case cut_slash cs of None \<Rightarrow> None | Some (a, b) \<Rightarrow> Some (c # a, b))"

definition splitUsernameAndSuffix :: "string \<Rightarrow> (string \<times> string) result" where
  "splitUsernameAndSuffix key =
     (if \<not> has_prefix key fullUsersPrefix then Inl BadParameter
      else case cut_slash (trim_prefix key fullUsersPrefix) of
             None \<Rightarrow> Inl BadParameter
           | Some (name, suffix) \<Rightarrow> if name = [] then Inl BadParameter else Inr (name, suffix))"

text \<open>
  The collectors by user name, as an association list in the order in which names occur; Go's map has no order. The
  second result are the items that belong to no user.
\<close>

fun collect_items ::
  "stored item list \<Rightarrow> (string \<times> user_items) list \<Rightarrow> stored item list \<Rightarrow> ((string \<times> user_items) list \<times> stored item list) result" where
  "collect_items [] users rem = Inr (users, rem)"
| "collect_items (i # is) users rem =
     (if \<not> has_prefix (it_Key i) fullUsersPrefix then collect_items is users (rem @ [i])
      else case splitUsernameAndSuffix (it_Key i) of
             Inl e \<Rightarrow> Inl e
           | Inr (name, suffix) \<Rightarrow>
               (case items_Set suffix i (case map_of users name of None \<Rightarrow> no_items | Some u \<Rightarrow> u) of
                  (u, ok) \<Rightarrow>
                    if \<not> ok then collect_items is users (rem @ [i])
                    else collect_items is (AList.update name u users) rem))"

definition collectUserItems :: "stored item list \<Rightarrow> ((string \<times> user_items) list \<times> stored item list) result" where
  "collectUserItems items =
     (case collect_items items [] [] of
        Inl e \<Rightarrow> Inl e
      | Inr (users, rem) \<Rightarrow> Inr (filter (\<lambda>(_, u). items_complete u) users, rem))"

fun read_devices :: "stored item list \<Rightarrow> mfa_device list result" where
  "read_devices [] = Inr []"
| "read_devices (i # is) =
     (case as_device (it_Value i) of
        Inl e \<Rightarrow> Inl e
      | Inr d \<Rightarrow> (case read_devices is of Inl e \<Rightarrow> Inl e | Inr ds \<Rightarrow> Inr (d # ds)))"

definition option_item :: "(stored \<Rightarrow> 'a result) \<Rightarrow> stored item option \<Rightarrow> 'a option result" where
  "option_item dec io =
     (case io of None \<Rightarrow> Inr None | Some i \<Rightarrow> (case dec (it_Value i) of Inl e \<Rightarrow> Inl e | Inr a \<Rightarrow> Inr (Some a)))"

definition itemToLocalAuthSecrets :: "crypto \<Rightarrow> user_items \<Rightarrow> local_auth_secrets result" where
  "itemToLocalAuthSecrets c items =
     (case option_item as_bytes (ui_pwd items) of
        Inl e \<Rightarrow> Inl e
      | Inr pwd \<Rightarrow>
     (case read_devices (ui_mfa items) of
        Inl e \<Rightarrow> Inl e
      | Inr mfa \<Rightarrow>
     (case option_item as_bytes (ui_totp items) of
        Inl e \<Rightarrow> Inl e
      | Inr totp \<Rightarrow>
     (case option_item as_registration (ui_u2fRegistration items) of
        Inl e \<Rightarrow> Inl e
      | Inr reg \<Rightarrow>
     (case option_item as_counter (ui_u2fCounter items) of
        Inl e \<Rightarrow> Inl e
      | Inr counter \<Rightarrow>
          ValidateLocalAuthSecrets c
            \<lparr>las_PasswordHash = (case pwd of None \<Rightarrow> [] | Some b \<Rightarrow> b),
             las_TOTPKey = (case totp of None \<Rightarrow> [] | Some b \<Rightarrow> b), las_U2FRegistration = reg,
             las_U2FCounter = (case counter of None \<Rightarrow> 0 | Some n \<Rightarrow> n), las_MFA = mfa\<rparr>)))))"

definition itemToUser :: "crypto \<Rightarrow> stored item \<Rightarrow> user result" where
  "itemToUser c i =
     (case as_user (it_Value i) of
        Inl e \<Rightarrow> Inl e
      | Inr stored \<Rightarrow>
          (case UnmarshalUser c (it_ID i) (it_Expires i) stored of
             Inl e \<Rightarrow> Inl e
           | Inr u \<Rightarrow> ValidateUser c u))"

definition userFromUserItems :: "crypto \<Rightarrow> string \<Rightarrow> user_items \<Rightarrow> user result" where
  "userFromUserItems c name items =
     (case ui_params items of
        None \<Rightarrow> Inl BadParameter
      | Some i \<Rightarrow>
          (case itemToUser c i of
             Inl e \<Rightarrow> Inl e
           | Inr u \<Rightarrow>
               if items_Len items < 2 then Inr u
               else (case itemToLocalAuthSecrets c items of
                       Inl e \<Rightarrow> Inl e
                     | Inr auth \<Rightarrow> Inr (u\<lparr>u_LocalAuth := Some auth\<rparr>))))"

definition device_item :: "string \<Rightarrow> mfa_device \<Rightarrow> stored item" where
  "device_item user d = stored_item (users_key [user, mfaDevicePrefix, mfa_Id d]) (StDevice d) zero_time 0"

definition itemsFromLocalAuthSecrets :: "crypto \<Rightarrow> string \<Rightarrow> local_auth_secrets \<Rightarrow> stored item list result" where
  "itemsFromLocalAuthSecrets c user auth =
     (case ValidateLocalAuthSecrets c auth of
        Inl e \<Rightarrow> Inl e
      | Inr auth1 \<Rightarrow>
          Inr ((if las_PasswordHash auth1 \<noteq> []
                then [stored_item (users_key [user, pwdPrefix]) (StBytes (las_PasswordHash auth1)) zero_time 0] else []) @
               map (device_item user) (las_MFA auth1)))"

section \<open>Users\<close>

fun read_users :: "crypto \<Rightarrow> stored item list \<Rightarrow> user list result" where
  "read_users c [] = Inr []"
| "read_users c (i # is) =
     (if \<not> has_suffix (it_Key i) paramsPrefix then read_users c is
      else case as_user (it_Value i) of
             Inl e \<Rightarrow> Inl e
           | Inr stored \<Rightarrow>
               (case UnmarshalUser c (it_ID i) (it_Expires i) stored of
                  Inl e \<Rightarrow> Inl e
                | Inr u \<Rightarrow> (case read_users c is of Inl e \<Rightarrow> Inl e | Inr us \<Rightarrow> Inr (u\<lparr>u_LocalAuth := None\<rparr> # us))))"

fun users_from_items :: "crypto \<Rightarrow> (string \<times> user_items) list \<Rightarrow> user list result" where
  "users_from_items c [] = Inr []"
| "users_from_items c ((name, items) # rest) =
     (case userFromUserItems c name items of
        Inl e \<Rightarrow> Inl e
      | Inr u \<Rightarrow> (case users_from_items c rest of Inl e \<Rightarrow> Inl e | Inr us \<Rightarrow> Inr (u # us)))"

definition DeleteAllUsers :: "('s, stored) backend \<Rightarrow> time \<Rightarrow> 's \<Rightarrow> unit result \<times> 's" where
  "DeleteAllUsers bk now s = b_DeleteRange bk now (users_key []) (RangeEnd (users_key [])) s"

definition GetUsers :: "crypto \<Rightarrow> ('s, stored) backend \<Rightarrow> time \<Rightarrow> bool \<Rightarrow> 's \<Rightarrow> user list result \<times> 's" where
  "GetUsers c bk now withSecrets s =
     (case b_GetRange bk now (users_key []) (RangeEnd (users_key [])) NoLimit s of
        (Inl e, s1) \<Rightarrow> (Inl e, s1)
      | (Inr items, s1) \<Rightarrow>
          if withSecrets then
            (case collectUserItems items of
               Inl e \<Rightarrow> (Inl e, s1)
             | Inr (collected, _) \<Rightarrow> (users_from_items c collected, s1))
          else (read_users c items, s1))"

fun collect_user :: "string \<Rightarrow> stored item list \<Rightarrow> user_items \<Rightarrow> user_items" where
  "collect_user startKey [] u = u"
| "collect_user startKey (i # is) u =
     collect_user startKey is (fst (items_Set (trim_prefix (it_Key i) (startKey @ [Separator])) i u))"

definition getUserWithSecrets :: "crypto \<Rightarrow> ('s, stored) backend \<Rightarrow> time \<Rightarrow> string \<Rightarrow> 's \<Rightarrow> user result \<times> 's" where
  "getUserWithSecrets c bk now user s =
     (if user = [] then (Inl BadParameter, s)
      else
        (let startKey = users_key [user]
         in case b_GetRange bk now startKey (RangeEnd startKey) NoLimit s of
              (Inl e, s1) \<Rightarrow> (Inl e, s1)
            | (Inr items, s1) \<Rightarrow> (userFromUserItems c user (collect_user startKey items no_items), s1)))"

definition GetUser :: "crypto \<Rightarrow> ('s, stored) backend \<Rightarrow> time \<Rightarrow> string \<Rightarrow> bool \<Rightarrow> 's \<Rightarrow> user result \<times> 's" where
  "GetUser c bk now user withSecrets s =
     (if withSecrets then getUserWithSecrets c bk now user s
      else if user = [] then (Inl BadParameter, s)
      else case b_Get bk now (users_key [user, paramsPrefix]) s of
             (Inl e, s1) \<Rightarrow> (Inl NotFound, s1)
           | (Inr i, s1) \<Rightarrow>
               (case as_user (it_Value i) of
                  Inl e \<Rightarrow> (Inl e, s1)
                | Inr stored \<Rightarrow>
                    (case UnmarshalUser c (it_ID i) (it_Expires i) stored of
                       Inl e \<Rightarrow> (Inl e, s1)
                     | Inr u \<Rightarrow> (Inr (u\<lparr>u_LocalAuth := None\<rparr>), s1))))"

definition user_item :: "user \<Rightarrow> user \<Rightarrow> int \<Rightarrow> stored item" where
  "user_item u value resourceID = stored_item (users_key [user_name u, paramsPrefix]) (StUser value) (user_Expiry u) resourceID"

text \<open>\<open>CreateUser\<close> up to the secrets; for a user without secrets that is all of it.\<close>

definition create_user_item ::
  "crypto \<Rightarrow> ('s, stored) backend \<Rightarrow> (nat \<Rightarrow> time) \<Rightarrow> user \<Rightarrow> 's \<Rightarrow> user result \<times> 's" where
  "create_user_item c bk clock user s =
     (case ValidateUser c user of
        Inl e \<Rightarrow> (Inl e, s)
      | Inr u \<Rightarrow>
          (case GetUser c bk (clock 0) (user_name u) False s of
             (Inr _, s1) \<Rightarrow> (Inl AlreadyExists, s1)
           | (Inl e, s1) \<Rightarrow>
               if e \<noteq> NotFound then (Inl e, s1)
               else (case MarshalUser c (WithoutSecrets u) of
                       Inl e \<Rightarrow> (Inl e, s1)
                     | Inr value \<Rightarrow>
                         (case b_Create bk (clock 1) (user_item u value 0) s1 of
                            (Inl e, s2) \<Rightarrow> (Inl e, s2)
                          | (Inr _, s2) \<Rightarrow> (Inr u, s2)))))"

definition UpsertPasswordHash ::
  "crypto \<Rightarrow> ('s, stored) backend \<Rightarrow> (nat \<Rightarrow> time) \<Rightarrow> string \<Rightarrow> string \<Rightarrow> 's \<Rightarrow> unit result \<times> 's" where
  "UpsertPasswordHash c bk clock username hash s =
     (case NewUser username of
        Inl e \<Rightarrow> (Inl e, s)
      | Inr prototype \<Rightarrow>
          (case unit_of (create_user_item c bk clock prototype s) of
             (r, s1) \<Rightarrow>
               if r \<noteq> Inr () \<and> r \<noteq> Inl AlreadyExists then (r, s1)
               else unit_of (b_Put bk (clock 2) (stored_item (users_key [username, pwdPrefix]) (StBytes hash) zero_time 0) s1)))"

definition GetMFADevices :: "('s, stored) backend \<Rightarrow> time \<Rightarrow> string \<Rightarrow> 's \<Rightarrow> mfa_device list result \<times> 's" where
  "GetMFADevices bk now user s =
     (if user = [] then (Inl BadParameter, s)
      else
        (let startKey = users_key [user, mfaDevicePrefix]
         in case b_GetRange bk now startKey (RangeEnd startKey) NoLimit s of
              (Inl e, s1) \<Rightarrow> (Inl e, s1)
            | (Inr items, s1) \<Rightarrow> (read_devices items, s1)))"

definition UpsertMFADevice ::
  "('s, stored) backend \<Rightarrow> (nat \<Rightarrow> time) \<Rightarrow> string \<Rightarrow> mfa_device \<Rightarrow> 's \<Rightarrow> unit result \<times> 's" where
  "UpsertMFADevice bk clock user d s =
     (if user = [] then (Inl BadParameter, s)
      else case MFADevice_CheckAndSetDefaults d of
             Inl e \<Rightarrow> (Inl e, s)
           | Inr d1 \<Rightarrow>
               (case GetMFADevices bk (clock 0) user s of
                  (Inl e, s1) \<Rightarrow> (Inl e, s1)
                | (Inr devs, s1) \<Rightarrow>
                    if \<exists>dd\<in>set devs. mfa_name d1 = mfa_name dd \<and> mfa_Id d1 \<noteq> mfa_Id dd then (Inl AlreadyExists, s1)
                    else unit_of (b_Put bk (clock 1) (device_item user d1) s1)))"

definition DeleteMFADevice :: "('s, stored) backend \<Rightarrow> time \<Rightarrow> string \<Rightarrow> string \<Rightarrow> 's \<Rightarrow> unit result \<times> 's" where
  "DeleteMFADevice bk now user i s =
     (if user = [] then (Inl BadParameter, s)
      else if i = [] then (Inl BadParameter, s)
      else b_Delete bk now (users_key [user, mfaDevicePrefix, i]) s)"

fun upsert_devices ::
  "('s, stored) backend \<Rightarrow> (nat \<Rightarrow> time) \<Rightarrow> nat \<Rightarrow> string \<Rightarrow> mfa_device list \<Rightarrow> 's \<Rightarrow> unit result \<times> 's" where
  "upsert_devices bk clock n user [] s = (Inr (), s)"
| "upsert_devices bk clock n user (d # ds) s =
     (case UpsertMFADevice bk (\<lambda>i. clock (n + i)) user d s of
        (Inl e, s1) \<Rightarrow> (Inl e, s1)
      | (Inr _, s1) \<Rightarrow> upsert_devices bk clock (n + 2) user ds s1)"

definition upsertLocalAuthSecrets ::
  "crypto \<Rightarrow> ('s, stored) backend \<Rightarrow> (nat \<Rightarrow> time) \<Rightarrow> string \<Rightarrow> local_auth_secrets \<Rightarrow> 's \<Rightarrow> unit result \<times> 's" where
  "upsertLocalAuthSecrets c bk clock user auth s =
     (case (if las_PasswordHash auth \<noteq> [] then UpsertPasswordHash c bk clock user (las_PasswordHash auth) s else (Inr (), s)) of
        (Inl e, s1) \<Rightarrow> (Inl e, s1)
      | (Inr _, s1) \<Rightarrow> upsert_devices bk clock 3 user (las_MFA auth) s1)"

definition upsert_secrets ::
  "crypto \<Rightarrow> ('s, stored) backend \<Rightarrow> (nat \<Rightarrow> time) \<Rightarrow> user \<Rightarrow> 's \<Rightarrow> unit result \<times> 's" where
  "upsert_secrets c bk clock u s =
     (case u_LocalAuth u of
        None \<Rightarrow> (Inr (), s)
      | Some auth \<Rightarrow> upsertLocalAuthSecrets c bk clock (user_name u) auth s)"

definition CreateUser ::
  "crypto \<Rightarrow> ('s, stored) backend \<Rightarrow> (nat \<Rightarrow> time) \<Rightarrow> user \<Rightarrow> 's \<Rightarrow> unit result \<times> 's" where
  "CreateUser c bk clock user s =
     (case create_user_item c bk clock user s of
        (Inl e, s1) \<Rightarrow> (Inl e, s1)
      | (Inr u, s1) \<Rightarrow> upsert_secrets c bk (\<lambda>i. clock (i + 2)) u s1)"

definition UpdateUser ::
  "crypto \<Rightarrow> ('s, stored) backend \<Rightarrow> (nat \<Rightarrow> time) \<Rightarrow> user \<Rightarrow> 's \<Rightarrow> unit result \<times> 's" where
  "UpdateUser c bk clock user s =
     (case ValidateUser c user of
        Inl e \<Rightarrow> (Inl e, s)
      | Inr u \<Rightarrow>
          (case GetUser c bk (clock 0) (user_name u) False s of
             (Inl e, s1) \<Rightarrow> (Inl e, s1)
           | (Inr _, s1) \<Rightarrow>
               (case MarshalUser c (WithoutSecrets u) of
                  Inl e \<Rightarrow> (Inl e, s1)
                | Inr value \<Rightarrow>
                    (case b_Update bk (clock 1) (user_item u value (md_ID (u_Metadata u))) s1 of
                       (Inl e, s2) \<Rightarrow> (Inl e, s2)
                     | (Inr _, s2) \<Rightarrow> upsert_secrets c bk (\<lambda>i. clock (i + 2)) u s2))))"

definition UpsertUser ::
  "crypto \<Rightarrow> ('s, stored) backend \<Rightarrow> (nat \<Rightarrow> time) \<Rightarrow> user \<Rightarrow> 's \<Rightarrow> unit result \<times> 's" where
  "UpsertUser c bk clock user s =
     (case ValidateUser c user of
        Inl e \<Rightarrow> (Inl e, s)
      | Inr u \<Rightarrow>
          (case MarshalUser c (WithoutSecrets u) of
             Inl e \<Rightarrow> (Inl e, s)
           | Inr value \<Rightarrow>
               (case b_Put bk (clock 0) (user_item u value (md_ID (u_Metadata u))) s of
                  (Inl e, s1) \<Rightarrow> (Inl e, s1)
                | (Inr _, s1) \<Rightarrow> upsert_secrets c bk (\<lambda>i. clock (i + 1)) u s1)))"

text \<open>The end of the range is that of the name as a prefix.\<close>

definition DeleteUser :: "crypto \<Rightarrow> ('s, stored) backend \<Rightarrow> (nat \<Rightarrow> time) \<Rightarrow> string \<Rightarrow> 's \<Rightarrow> unit result \<times> 's" where
  "DeleteUser c bk clock user s =
     (case GetUser c bk (clock 0) user False s of
        (Inl e, s1) \<Rightarrow> (Inl e, s1)
      | (Inr _, s1) \<Rightarrow>
          (let startKey = users_key [user] in b_DeleteRange bk (clock 1) startKey (RangeEnd startKey) s1))"

definition user_by_identity ::
  "(user \<Rightarrow> external_identity list) \<Rightarrow> crypto \<Rightarrow> ('s, stored) backend \<Rightarrow> time \<Rightarrow> external_identity \<Rightarrow> 's \<Rightarrow> user result \<times> 's" where
  "user_by_identity identities c bk now uid s =
     (case GetUsers c bk now False s of
        (Inl e, s1) \<Rightarrow> (Inl e, s1)
      | (Inr us, s1) \<Rightarrow> (case find (\<lambda>u. uid \<in> set (identities u)) us of None \<Rightarrow> (Inl NotFound, s1) | Some u \<Rightarrow> (Inr u, s1)))"

definition GetUserByOIDCIdentity :: "crypto \<Rightarrow> ('s, stored) backend \<Rightarrow> time \<Rightarrow> external_identity \<Rightarrow> 's \<Rightarrow> user result \<times> 's" where
  "GetUserByOIDCIdentity c bk now uid s = user_by_identity u_OIDCIdentities c bk now uid s"

definition GetUserBySAMLIdentity :: "crypto \<Rightarrow> ('s, stored) backend \<Rightarrow> time \<Rightarrow> external_identity \<Rightarrow> 's \<Rightarrow> user result \<times> 's" where
  "GetUserBySAMLIdentity c bk now uid s = user_by_identity u_SAMLIdentities c bk now uid s"

definition GetUserByGithubIdentity :: "crypto \<Rightarrow> ('s, stored) backend \<Rightarrow> time \<Rightarrow> external_identity \<Rightarrow> 's \<Rightarrow> user result \<times> 's" where
  "GetUserByGithubIdentity c bk now uid s = user_by_identity u_GithubIdentities c bk now uid s"

section \<open>Passwords, tokens of one use, attempts, challenges\<close>

definition get_bytes :: "(stored \<Rightarrow> 'a result) \<Rightarrow> ('s, stored) backend \<Rightarrow> time \<Rightarrow> string \<Rightarrow> 's \<Rightarrow> 'a result \<times> 's" where
  "get_bytes dec bk now key s =
     (case b_Get bk now key s of (Inl e, s1) \<Rightarrow> (Inl e, s1) | (Inr i, s1) \<Rightarrow> (dec (it_Value i), s1))"

definition GetPasswordHash :: "('s, stored) backend \<Rightarrow> time \<Rightarrow> string \<Rightarrow> 's \<Rightarrow> string result \<times> 's" where
  "GetPasswordHash bk now user s =
     (if user = [] then (Inl BadParameter, s) else get_bytes as_bytes bk now (users_key [user, pwdPrefix]) s)"

definition UpsertPassword ::
  "crypto \<Rightarrow> ('s, stored) backend \<Rightarrow> (nat \<Rightarrow> time) \<Rightarrow> string \<Rightarrow> string \<Rightarrow> 's \<Rightarrow> unit result \<times> 's" where
  "UpsertPassword c bk clock user password s =
     (if user = [] then (Inl BadParameter, s)
      else case VerifyPassword password of
             Inl e \<Rightarrow> (Inl e, s)
           | Inr _ \<Rightarrow>
               (case bcrypt_Generate c password of
                  Inl e \<Rightarrow> (Inl e, s)
                | Inr hash \<Rightarrow> UpsertPasswordHash c bk clock user hash s))"

definition UpsertHOTP :: "('s, stored) backend \<Rightarrow> time \<Rightarrow> string \<Rightarrow> string \<Rightarrow> 's \<Rightarrow> unit result \<times> 's" where
  "UpsertHOTP bk now user otp s =
     (if user = [] then (Inl BadParameter, s)
      else unit_of (b_Put bk now (stored_item (users_key [user, hotpPrefix]) (StBytes otp) zero_time 0) s))"

definition GetHOTP :: "crypto \<Rightarrow> ('s, stored) backend \<Rightarrow> time \<Rightarrow> string \<Rightarrow> 's \<Rightarrow> string result \<times> 's" where
  "GetHOTP c bk now user s =
     (if user = [] then (Inl BadParameter, s)
      else case get_bytes as_bytes bk now (users_key [user, hotpPrefix]) s of
             (Inl e, s1) \<Rightarrow> (Inl e, s1)
           | (Inr b, s1) \<Rightarrow> (if hotp_Unmarshal c b then Inr b else Inl Unclassified, s1))"

definition UpsertUsedTOTPToken :: "('s, stored) backend \<Rightarrow> (nat \<Rightarrow> time) \<Rightarrow> string \<Rightarrow> string \<Rightarrow> 's \<Rightarrow> unit result \<times> 's" where
  "UpsertUsedTOTPToken bk clock user otpToken s =
     (if user = [] then (Inl BadParameter, s)
      else unit_of (b_Put bk (clock 1)
             (stored_item (users_key [user, usedTOTPPrefix]) (StBytes otpToken) (clock 0 + usedTOTPTTL) 0) s))"

definition GetUsedTOTPToken :: "('s, stored) backend \<Rightarrow> time \<Rightarrow> string \<Rightarrow> 's \<Rightarrow> string result \<times> 's" where
  "GetUsedTOTPToken bk now user s =
     (if user = [] then (Inl BadParameter, s)
      else case b_Get bk now (users_key [user, usedTOTPPrefix]) s of
             (Inl e, s1) \<Rightarrow> (if e = NotFound then Inr ''0'' else Inl e, s1)
           | (Inr i, s1) \<Rightarrow> (as_bytes (it_Value i), s1))"

definition DeleteUsedTOTPToken :: "('s, stored) backend \<Rightarrow> time \<Rightarrow> string \<Rightarrow> 's \<Rightarrow> unit result \<times> 's" where
  "DeleteUsedTOTPToken bk now user s =
     (if user = [] then (Inl BadParameter, s) else b_Delete bk now (users_key [user, usedTOTPPrefix]) s)"

definition AddUserLoginAttempt ::
  "('s, stored) backend \<Rightarrow> (nat \<Rightarrow> time) \<Rightarrow> string \<Rightarrow> string \<Rightarrow> login_attempt \<Rightarrow> duration \<Rightarrow> 's \<Rightarrow> unit result \<times> 's" where
  "AddUserLoginAttempt bk clock newID user attempt ttl s =
     (case attempt_Check attempt of
        Inl e \<Rightarrow> (Inl e, s)
      | Inr _ \<Rightarrow>
          unit_of (b_Put bk (clock 1)
            (stored_item (users_key [user, attemptsPrefix, newID]) (StAttempt attempt) (Expiry_after (clock 0) ttl) 0) s))"

fun read_attempts :: "stored item list \<Rightarrow> login_attempt list result" where
  "read_attempts [] = Inr []"
| "read_attempts (i # is) =
     (case as_attempt (it_Value i) of
        Inl e \<Rightarrow> Inl e
      | Inr a \<Rightarrow> (case read_attempts is of Inl e \<Rightarrow> Inl e | Inr as \<Rightarrow> Inr (a # as)))"

text \<open>Go's \<open>sort.Sort\<close> leaves the order of attempts of the same time open; here it is that of their keys.\<close>

definition GetUserLoginAttempts :: "('s, stored) backend \<Rightarrow> time \<Rightarrow> string \<Rightarrow> 's \<Rightarrow> login_attempt list result \<times> 's" where
  "GetUserLoginAttempts bk now user s =
     (let startKey = users_key [user, attemptsPrefix]
      in case b_GetRange bk now startKey (RangeEnd startKey) NoLimit s of
           (Inl e, s1) \<Rightarrow> (Inl e, s1)
         | (Inr items, s1) \<Rightarrow>
             (case read_attempts items of Inl e \<Rightarrow> (Inl e, s1) | Inr as \<Rightarrow> (Inr (sort_key la_Time as), s1)))"

definition DeleteUserLoginAttempts :: "('s, stored) backend \<Rightarrow> time \<Rightarrow> string \<Rightarrow> 's \<Rightarrow> unit result \<times> 's" where
  "DeleteUserLoginAttempts bk now user s =
     (if user = [] then (Inl BadParameter, s)
      else (let startKey = users_key [user, attemptsPrefix] in b_DeleteRange bk now startKey (RangeEnd startKey) s))"

definition UpsertU2FRegisterChallenge :: "('s, stored) backend \<Rightarrow> (nat \<Rightarrow> time) \<Rightarrow> string \<Rightarrow> string \<Rightarrow> 's \<Rightarrow> unit result \<times> 's" where
  "UpsertU2FRegisterChallenge bk clock token challenge s =
     (if token = [] then (Inl BadParameter, s)
      else unit_of (b_Put bk (clock 1)
             (stored_item (Key [u2fRegChalPrefix, token]) (StChallenge challenge) (clock 0 + U2FChallengeTimeout) 0) s))"

definition GetU2FRegisterChallenge :: "('s, stored) backend \<Rightarrow> time \<Rightarrow> string \<Rightarrow> 's \<Rightarrow> string result \<times> 's" where
  "GetU2FRegisterChallenge bk now token s =
     (if token = [] then (Inl BadParameter, s) else get_bytes as_challenge bk now (Key [u2fRegChalPrefix, token]) s)"

definition UpsertU2FSignChallenge :: "('s, stored) backend \<Rightarrow> (nat \<Rightarrow> time) \<Rightarrow> string \<Rightarrow> string \<Rightarrow> 's \<Rightarrow> unit result \<times> 's" where
  "UpsertU2FSignChallenge bk clock user challenge s =
     (if user = [] then (Inl BadParameter, s)
      else unit_of (b_Put bk (clock 1)
             (stored_item (users_key [user, u2fSignChallengePrefix]) (StChallenge challenge) (clock 0 + U2FChallengeTimeout) 0) s))"

definition GetU2FSignChallenge :: "('s, stored) backend \<Rightarrow> time \<Rightarrow> string \<Rightarrow> 's \<Rightarrow> string result \<times> 's" where
  "GetU2FSignChallenge bk now user s =
     (if user = [] then (Inl BadParameter, s)
      else get_bytes as_challenge bk now (users_key [user, u2fSignChallengePrefix]) s)"

section \<open>Reset tokens\<close>

definition token_key :: "string list \<Rightarrow> string" where
  "token_key parts = Key (passwordTokensPrefix # parts)"

fun read_tokens :: "stored item list \<Rightarrow> reset_token list result" where
  "read_tokens [] = Inr []"
| "read_tokens (i # is) =
     (if \<not> has_suffix (it_Key i) paramsPrefix then read_tokens is
      else case as_token (it_Value i) of
             Inl e \<Rightarrow> Inl e
           | Inr stored \<Rightarrow>
               (case UnmarshalResetPasswordToken stored of
                  Inl e \<Rightarrow> Inl e
                | Inr t \<Rightarrow> (case read_tokens is of Inl e \<Rightarrow> Inl e | Inr ts \<Rightarrow> Inr (t # ts))))"

definition GetResetPasswordTokens :: "('s, stored) backend \<Rightarrow> time \<Rightarrow> 's \<Rightarrow> reset_token list result \<times> 's" where
  "GetResetPasswordTokens bk now s =
     (case b_GetRange bk now (token_key []) (RangeEnd (token_key [])) NoLimit s of
        (Inl e, s1) \<Rightarrow> (Inl e, s1)
      | (Inr items, s1) \<Rightarrow> (read_tokens items, s1))"

definition GetResetPasswordToken :: "('s, stored) backend \<Rightarrow> time \<Rightarrow> string \<Rightarrow> 's \<Rightarrow> reset_token result \<times> 's" where
  "GetResetPasswordToken bk now tokenID s =
     (case get_bytes as_token bk now (token_key [tokenID, paramsPrefix]) s of
        (Inl e, s1) \<Rightarrow> (Inl e, s1)
      | (Inr stored, s1) \<Rightarrow> (UnmarshalResetPasswordToken stored, s1))"

definition DeleteResetPasswordToken :: "('s, stored) backend \<Rightarrow> (nat \<Rightarrow> time) \<Rightarrow> string \<Rightarrow> 's \<Rightarrow> unit result \<times> 's" where
  "DeleteResetPasswordToken bk clock tokenID s =
     (case GetResetPasswordToken bk (clock 0) tokenID s of
        (Inl e, s1) \<Rightarrow> (Inl e, s1)
      | (Inr _, s1) \<Rightarrow>
          (let startKey = token_key [tokenID] in b_DeleteRange bk (clock 1) startKey (RangeEnd startKey) s1))"

definition CreateResetToken :: "('s, stored) backend \<Rightarrow> time \<Rightarrow> reset_token \<Rightarrow> 's \<Rightarrow> reset_token result \<times> 's" where
  "CreateResetToken bk now t s =
     (case rt_CheckAndSetDefaults t of
        Inl e \<Rightarrow> (Inl e, s)
      | Inr _ \<Rightarrow>
          (case MarshalResetPasswordToken t of
             Inl e \<Rightarrow> (Inl e, s)
           | Inr value \<Rightarrow>
               (case b_Create bk now (stored_item (token_key [rt_name t, paramsPrefix]) (StToken value) (rt_Expiry t) 0) s of
                  (Inl e, s1) \<Rightarrow> (Inl e, s1)
                | (Inr _, s1) \<Rightarrow> (Inr t, s1))))"

definition GetResetPasswordTokenSecrets :: "('s, stored) backend \<Rightarrow> time \<Rightarrow> string \<Rightarrow> 's \<Rightarrow> reset_token_secrets result \<times> 's" where
  "GetResetPasswordTokenSecrets bk now tokenID s =
     (case get_bytes as_secrets bk now (token_key [tokenID, secretsPrefix]) s of
        (Inl e, s1) \<Rightarrow> (Inl e, s1)
      | (Inr t, s1) \<Rightarrow> (case Metadata_CheckAndSetDefaults (rts_Metadata t) of Inl e \<Rightarrow> (Inl e, s1) | Inr _ \<Rightarrow> (Inr t, s1)))"

definition UpsertResetPasswordTokenSecrets :: "('s, stored) backend \<Rightarrow> time \<Rightarrow> reset_token_secrets \<Rightarrow> 's \<Rightarrow> unit result \<times> 's" where
  "UpsertResetPasswordTokenSecrets bk now t s =
     (case Metadata_CheckAndSetDefaults (rts_Metadata t) of
        Inl e \<Rightarrow> (Inl e, s)
      | Inr _ \<Rightarrow>
          unit_of (b_Put bk now (stored_item (token_key [rts_name t, secretsPrefix]) (StSecrets t) (rts_Expiry t) 0) s))"

end
