(* ===== verification/Login.thy ===== *)
theory Login
  imports Identity
begin

text \<open>
  Local authentication: \<open>WithUserLock\<close> and the U2F check of \<open>lib/auth/auth.go\<close>, \<open>lib/auth/methods.go\<close>,
  \<open>password.go\<close> and \<open>resetpasswordtoken.go\<close>, and the server steps of \<open>lib/auth/u2f\<close>. The authentication preference is
  an argument, as the result of reading it. Audit events, logging and the making of sessions are left out; random
  identifiers, the random password and the URL of a token are parameters.
\<close>

section \<open>The lock of an account\<close>

definition MaxLoginAttempts :: int where
  "MaxLoginAttempts = 5"

definition AccountLockInterval :: duration where
  "AccountLockInterval = 20 * 60 * second_ns"

definition AttemptTTL :: duration where
  "AttemptTTL = 30 * 60 * second_ns"

text \<open>
  \<open>authenticateFn\<close> is any authentication, with its effect on the store. The test for a connection problem looks at
  \<open>err\<close>, the error of reading the user, which is nil there.
\<close>

definition WithUserLock ::
  "crypto \<Rightarrow> ('s, stored) backend \<Rightarrow> (nat \<Rightarrow> time) \<Rightarrow> string \<Rightarrow> string \<Rightarrow> ('s \<Rightarrow> 'a result \<times> 's) \<Rightarrow> 's \<Rightarrow> 'a result \<times> 's" where
  "WithUserLock c bk clock newID username authenticateFn s =
     (case GetUser c bk (clock 0) username False s of
        (Inl e, s1) \<Rightarrow> if e = NotFound then authenticateFn s1 else (Inl e, s1)
      | (Inr u, s1) \<Rightarrow>
          (let status = u_Status u
           in if lst_IsLocked status \<and> clock 1 < lst_LockExpires status then (Inl AccessDenied, s1)
              else
                (case authenticateFn s1 of
                   (Inr x, s2) \<Rightarrow>
                     (case DeleteUserLoginAttempts bk (clock 2) username s2 of
                        (Inl e, s3) \<Rightarrow> if e \<noteq> NotFound then (Inl e, s3) else (Inr x, s3)
                      | (Inr _, s3) \<Rightarrow> (Inr x, s3))
                 | (Inl fnErr, s2) \<Rightarrow>
                     (let err = (None :: trace_error option)
                      in if err = Some ConnectionProblem then (Inl fnErr, s2)
                         else
                           (case AddUserLoginAttempt bk (\<lambda>i. clock (3 + i)) newID username
                                   \<lparr>la_Time = clock 2, la_Success = False\<rparr> AttemptTTL s2 of
                              (Inl _, s3) \<Rightarrow> (Inl fnErr, s3)
                            | (Inr _, s3) \<Rightarrow>
                                (case GetUserLoginAttempts bk (clock 5) username s3 of
                                   (Inl _, s4) \<Rightarrow> (Inl fnErr, s4)
                                 | (Inr loginAttempts, s4) \<Rightarrow>
                                     if \<not> LastFailed MaxLoginAttempts loginAttempts then (Inl fnErr, s4)
                                     else
                                       (let locked = SetLocked (clock 6 + AccountLockInterval)
                                              ''user has exceeded maximum failed login attempts'' u
                                        in case UpsertUser c bk (\<lambda>i. clock (7 + i)) locked s4 of
                                             (Inl _, s5) \<Rightarrow> (Inl fnErr, s5)
                                           | (Inr _, s5) \<Rightarrow> (Inl AccessDenied, s5))))))))"

section \<open>Passwords and one-time tokens\<close>

definition fakePasswordHash :: string where
  "fakePasswordHash = ''$2a$10$Yy.e6BmS2SrGbBDsyDLVkOANZmvjjMR890nUGSXFJHBXWzxe7T44m''"

definition checkPasswordWOToken ::
  "crypto \<Rightarrow> ('s, stored) backend \<Rightarrow> time \<Rightarrow> string \<Rightarrow> string \<Rightarrow> 's \<Rightarrow> unit result \<times> 's" where
  "checkPasswordWOToken c bk now user password s =
     (if \<not> is_ok (VerifyPassword password) then (Inl BadParameter, s)
      else case GetPasswordHash bk now user s of
             (Inl e, s1) \<Rightarrow>
               if e \<noteq> NotFound then (Inl e, s1)
               else if \<not> bcrypt_Compare c fakePasswordHash password then (Inl BadParameter, s1)
               else (Inl BadParameter, s1)
           | (Inr hash, s1) \<Rightarrow>
               if \<not> bcrypt_Compare c hash password then (Inl BadParameter, s1) else (Inr (), s1))"

definition HOTPFirstTokensRange :: nat where
  "HOTPFirstTokensRange = 4"

datatype otp_type = HOTP | TOTP

definition getOTPType :: "crypto \<Rightarrow> ('s, stored) backend \<Rightarrow> time \<Rightarrow> string \<Rightarrow> 's \<Rightarrow> otp_type result \<times> 's" where
  "getOTPType c bk now user s =
     (case GetHOTP c bk now user s of
        (Inl e, s1) \<Rightarrow> (if e = NotFound then Inr TOTP else Inl e, s1)
      | (Inr _, s1) \<Rightarrow> (Inr HOTP, s1))"

text \<open>The token validates for the time of clock 0; the used token and the device are stored after that.\<close>

definition checkTOTP ::
  "crypto \<Rightarrow> ('s, stored) backend \<Rightarrow> (nat \<Rightarrow> time) \<Rightarrow> string \<Rightarrow> string \<Rightarrow> mfa_device \<Rightarrow> 's \<Rightarrow> mfa_device result \<times> 's" where
  "checkTOTP c bk clock user otpToken dev s =
     (case GetTotp dev of
        None \<Rightarrow> (Inl BadParameter, s)
      | Some key \<Rightarrow>
          (case totp_Validate c otpToken key (clock 0) of
             Inl _ \<Rightarrow> (Inl AccessDenied, s)
           | Inr valid \<Rightarrow>
               if \<not> valid then (Inl AccessDenied, s)
               else
                 (case UpsertUsedTOTPToken bk (\<lambda>i. clock (1 + i)) user otpToken s of
                    (Inl e, s1) \<Rightarrow> (Inl e, s1)
                  | (Inr _, s1) \<Rightarrow>
                      (let dev1 = dev\<lparr>mfa_LastUsed := clock 3\<rparr>
                       in case UpsertMFADevice bk (\<lambda>i. clock (4 + i)) user dev1 s1 of
                            (Inl e, s2) \<Rightarrow> (Inl e, s2)
                          | (Inr _, s2) \<Rightarrow> (Inr dev1, s2)))))"

fun check_totp_devices ::
  "crypto \<Rightarrow> ('s, stored) backend \<Rightarrow> (nat \<Rightarrow> time) \<Rightarrow> nat \<Rightarrow> string \<Rightarrow> string \<Rightarrow> mfa_device list \<Rightarrow> 's \<Rightarrow> mfa_device result \<times> 's" where
  "check_totp_devices c bk clock n user otpToken [] s = (Inl AccessDenied, s)"
| "check_totp_devices c bk clock n user otpToken (dev # devs) s =
     (if GetTotp dev = None then check_totp_devices c bk clock n user otpToken devs s
      else case checkTOTP c bk (\<lambda>i. clock (n + i)) user otpToken dev s of
             (Inl _, s1) \<Rightarrow> check_totp_devices c bk clock (n + 6) user otpToken devs s1
           | (Inr dev1, s1) \<Rightarrow> (Inr dev1, s1))"

definition checkOTP ::
  "crypto \<Rightarrow> ('s, stored) backend \<Rightarrow> (nat \<Rightarrow> time) \<Rightarrow> string \<Rightarrow> string \<Rightarrow> 's \<Rightarrow> mfa_device option result \<times> 's" where
  "checkOTP c bk clock user otpToken s =
     (case getOTPType c bk (clock 0) user s of
        (Inl e, s1) \<Rightarrow> (Inl e, s1)
      | (Inr HOTP, s1) \<Rightarrow>
          (case GetHOTP c bk (clock 1) user s1 of
             (Inl e, s2) \<Rightarrow> (Inl e, s2)
           | (Inr otp, s2) \<Rightarrow>
               (case hotp_Scan c otp otpToken HOTPFirstTokensRange of
                  (ok, otp1) \<Rightarrow>
                    if \<not> ok then (Inl BadParameter, s2)
                    else (case UpsertHOTP bk (clock 2) user otp1 s2 of
                            (Inl e, s3) \<Rightarrow> (Inl e, s3)
                          | (Inr _, s3) \<Rightarrow> (Inr None, s3))))
      | (Inr TOTP, s1) \<Rightarrow>
          (case GetUsedTOTPToken bk (clock 1) user s1 of
             (Inl e, s2) \<Rightarrow> (Inl e, s2)
           | (Inr usedToken, s2) \<Rightarrow>
               if otpToken = usedToken then (Inl BadParameter, s2)
               else
                 (case GetMFADevices bk (clock 2) user s2 of
                    (Inl e, s3) \<Rightarrow> (Inl e, s3)
                  | (Inr devs, s3) \<Rightarrow>
                      (case check_totp_devices c bk clock 3 user otpToken devs s3 of
                         (Inl e, s4) \<Rightarrow> (Inl e, s4)
                       | (Inr dev, s4) \<Rightarrow> (Inr (Some dev), s4)))))"

definition checkPassword ::
  "crypto \<Rightarrow> ('s, stored) backend \<Rightarrow> (nat \<Rightarrow> time) \<Rightarrow> string \<Rightarrow> string \<Rightarrow> string \<Rightarrow> 's \<Rightarrow>
     mfa_device option result \<times> 's" where
  "checkPassword c bk clock user password otpToken s =
     (case checkPasswordWOToken c bk (clock 0) user password s of
        (Inl e, s1) \<Rightarrow> (Inl e, s1)
      | (Inr _, s1) \<Rightarrow> checkOTP c bk (\<lambda>i. clock (1 + i)) user otpToken s1)"

section \<open>U2F\<close>

record sign_response =
  sr_KeyHandle :: string
  sr_Response :: string

definition AuthenticateVerify ::
  "crypto \<Rightarrow> ('s, stored) backend \<Rightarrow> (nat \<Rightarrow> time) \<Rightarrow> string \<Rightarrow> mfa_device \<Rightarrow> string \<Rightarrow> 's \<Rightarrow> mfa_device result \<times> 's" where
  "AuthenticateVerify c bk clock storageKey dev resp s =
     (case GetU2F dev of
        None \<Rightarrow> (Inl BadParameter, s)
      | Some (keyHandle, pubKey, counter) \<Rightarrow>
          if \<not> parse_ecdsa_key c pubKey then (Inl Unclassified, s)
          else
            (case GetU2FSignChallenge bk (clock 0) storageKey s of
               (Inl e, s1) \<Rightarrow> (Inl e, s1)
             | (Inr challenge, s1) \<Rightarrow>
                 (case u2f_Authenticate c resp challenge (keyHandle, pubKey) counter of
                    Inl e \<Rightarrow> (Inl e, s1)
                  | Inr counter1 \<Rightarrow>
                      (let dev1 = dev\<lparr>mfa_Device := Some (U2FDevice keyHandle pubKey counter1), mfa_LastUsed := clock 1\<rparr>
                       in case UpsertMFADevice bk (\<lambda>i. clock (2 + i)) storageKey dev1 s1 of
                            (Inl e, s2) \<Rightarrow> (Inl e, s2)
                          | (Inr _, s2) \<Rightarrow> (Inr dev1, s2)))))"

text \<open>\<open>encode\<close> is the unpadded base64 encoding for URLs of the standard library.\<close>

fun base64_char :: "nat \<Rightarrow> char" where
  "base64_char n =
     (if n < 26 then char_of (65 + n) else if n < 52 then char_of (71 + n) else if n < 62 then char_of (n - 4)
      else if n = 62 then CHR ''-'' else CHR ''_'')"

fun RawURLEncoding :: "string \<Rightarrow> string" where
  "RawURLEncoding [] = []"
| "RawURLEncoding [a] =
     (let x = of_char a :: nat in [base64_char (x div 4), base64_char (x mod 4 * 16)])"
| "RawURLEncoding [a, b] =
     (let x = of_char a * 256 + of_char b :: nat
      in [base64_char (x div 1024), base64_char (x div 16 mod 64), base64_char (x mod 16 * 4)])"
| "RawURLEncoding (a # b # d # cs) =
     (let x = of_char a * 65536 + of_char b * 256 + of_char d :: nat
      in [base64_char (x div 262144), base64_char (x div 4096 mod 64), base64_char (x div 64 mod 64), base64_char (x mod 64)] @
         RawURLEncoding cs)"

fun matching_device :: "string \<Rightarrow> mfa_device list \<Rightarrow> mfa_device option" where
  "matching_device keyHandle [] = None"
| "matching_device keyHandle (dev # devs) =
     (case GetU2F dev of
        None \<Rightarrow> matching_device keyHandle devs
      | Some (kh, _, _) \<Rightarrow> if RawURLEncoding kh \<noteq> keyHandle then matching_device keyHandle devs else Some dev)"

definition checkU2F ::
  "crypto \<Rightarrow> ('s, stored) backend \<Rightarrow> (nat \<Rightarrow> time) \<Rightarrow> string \<Rightarrow> sign_response \<Rightarrow> 's \<Rightarrow> mfa_device result \<times> 's" where
  "checkU2F c bk clock user res s =
     (case GetMFADevices bk (clock 0) user s of
        (Inl e, s1) \<Rightarrow> (Inl e, s1)
      | (Inr devs, s1) \<Rightarrow>
          (case matching_device (sr_KeyHandle res) devs of
             None \<Rightarrow> (Inl AccessDenied, s1)
           | Some dev \<Rightarrow>
               (case AuthenticateVerify c bk (\<lambda>i. clock (1 + i)) user dev (sr_Response res) s1 of
                  (Inl _, s2) \<Rightarrow> (Inl AccessDenied, s2)
                | (Inr dev1, s2) \<Rightarrow> (Inr dev1, s2))))"

definition CheckU2FSignResponse ::
  "crypto \<Rightarrow> ('s, stored) backend \<Rightarrow> auth_preference result \<Rightarrow> (nat \<Rightarrow> time) \<Rightarrow> string \<Rightarrow> sign_response \<Rightarrow> 's \<Rightarrow>
     mfa_device result \<times> 's" where
  "CheckU2FSignResponse c bk pref clock user response s =
     (case pref of
        Inl e \<Rightarrow> (Inl e, s)
      | Inr cap \<Rightarrow>
          (case GetU2FConfig cap of Inl e \<Rightarrow> (Inl e, s) | Inr _ \<Rightarrow> checkU2F c bk clock user response s))"

section \<open>Authentication\<close>

record authenticate_request =
  ar_Username :: string
  ar_Pass :: "string option"
  ar_U2F :: "sign_response option"
  ar_OTP :: "(string \<times> string) option"
  ar_Session :: "string option"

definition authenticate_Check :: "authenticate_request \<Rightarrow> unit result" where
  "authenticate_Check a =
     (if ar_Username a = [] then Inl BadParameter
      else if ar_Pass a = None \<and> ar_U2F a = None \<and> ar_OTP a = None \<and> ar_Session a = None then Inl BadParameter
      else Inr ())"

text \<open>The errors of an attempt are hidden behind one that says nothing about the cause.\<close>

definition obscured :: "'a result \<times> 's \<Rightarrow> 'a result \<times> 's" where
  "obscured r = (case r of (Inl _, s) \<Rightarrow> (Inl AccessDenied, s) | (Inr x, s) \<Rightarrow> (Inr x, s))"

definition authenticateUser ::
  "crypto \<Rightarrow> ('s, stored) backend \<Rightarrow> auth_preference result \<Rightarrow> (nat \<Rightarrow> time) \<Rightarrow> (nat \<Rightarrow> time) \<Rightarrow> string \<Rightarrow>
     authenticate_request \<Rightarrow> 's \<Rightarrow> mfa_device option result \<times> 's" where
  "authenticateUser c bk pref lock_clock clock newID req s =
     (case authenticate_Check req of
        Inl e \<Rightarrow> (Inl e, s)
      | Inr _ \<Rightarrow>
     (case pref of
        Inl e \<Rightarrow> (Inl e, s)
      | Inr authPreference \<Rightarrow>
          (case ar_U2F req of
             Some response \<Rightarrow>
               (case obscured (WithUserLock c bk lock_clock newID (ar_Username req)
                       (CheckU2FSignResponse c bk pref clock (ar_Username req) response) s) of
                  (Inl e, s1) \<Rightarrow> (Inl e, s1)
                | (Inr dev, s1) \<Rightarrow> (Inr (Some dev), s1))
           | None \<Rightarrow>
          (case ar_OTP req of
             Some (password, token) \<Rightarrow>
               obscured (WithUserLock c bk lock_clock newID (ar_Username req)
                 (checkPassword c bk clock (ar_Username req) password token) s)
           | None \<Rightarrow>
          (case ar_Pass req of
             Some password \<Rightarrow>
               (let attempt =
                  (\<lambda>s. case obscured (WithUserLock c bk lock_clock newID (ar_Username req)
                            (checkPasswordWOToken c bk (clock 0) (ar_Username req) password) s) of
                         (Inl e, s1) \<Rightarrow> (Inl e, s1)
                       | (Inr _, s1) \<Rightarrow> (Inr None, s1))
                in if ap_SecondFactor authPreference = SecondFactorOff then attempt s
                   else if ap_SecondFactor authPreference = SecondFactorOptional then
                     (case GetMFADevices bk (clock 1) (ar_Username req) s of
                        (Inl e, s1) \<Rightarrow> if e \<noteq> NotFound then (Inl e, s1) else attempt s1
                      | (Inr devs, s1) \<Rightarrow> if devs \<noteq> [] then (Inl AccessDenied, s1) else attempt s1)
                   else (Inl AccessDenied, s))
           | None \<Rightarrow> (Inl AccessDenied, s))))))"

text \<open>
  The web login and the login for a certificate start with the preference for local authentication and then
  authenticate; \<open>session\<close> reads a web session.
\<close>

definition AuthenticateWebUser ::
  "crypto \<Rightarrow> ('s, stored) backend \<Rightarrow> auth_preference result \<Rightarrow> (nat \<Rightarrow> time) \<Rightarrow> (nat \<Rightarrow> time) \<Rightarrow> string \<Rightarrow>
     (string \<Rightarrow> string \<Rightarrow> 'w result) \<Rightarrow> (user \<Rightarrow> 'w result) \<Rightarrow> authenticate_request \<Rightarrow> 's \<Rightarrow> 'w result \<times> 's" where
  "AuthenticateWebUser c bk pref lock_clock clock newID session createUserWebSession req s =
     (case pref of
        Inl e \<Rightarrow> (Inl e, s)
      | Inr authPref \<Rightarrow>
          if \<not> GetAllowLocalAuth authPref \<and> ar_Session req = None then (Inl AccessDenied, s)
          else
            (case ar_Session req of
               Some i \<Rightarrow> (case session (ar_Username req) i of Inl _ \<Rightarrow> (Inl AccessDenied, s) | Inr w \<Rightarrow> (Inr w, s))
             | None \<Rightarrow>
                 (case authenticateUser c bk pref lock_clock clock newID req s of
                    (Inl e, s1) \<Rightarrow> (Inl e, s1)
                  | (Inr _, s1) \<Rightarrow>
                      (case GetUser c bk (lock_clock 9) (ar_Username req) False s1 of
                         (Inl e, s2) \<Rightarrow> (Inl e, s2)
                       | (Inr u, s2) \<Rightarrow> (createUserWebSession u, s2)))))"

section \<open>Changing and resetting passwords\<close>

record change_password =
  cp_User :: string
  cp_OldPassword :: string
  cp_NewPassword :: string
  cp_SecondFactorToken :: string
  cp_U2FSignResponse :: "sign_response option"

definition change_password_check ::
  "crypto \<Rightarrow> ('s, stored) backend \<Rightarrow> auth_preference \<Rightarrow> (nat \<Rightarrow> time) \<Rightarrow> change_password \<Rightarrow> 's \<Rightarrow> unit result \<times> 's" where
  "change_password_check c bk authPreference clock req s =
     (let userID = cp_User req;
          otp = unit_of (checkPassword c bk clock userID (cp_OldPassword req) (cp_SecondFactorToken req) s);
          u2f = (\<lambda>r. unit_of (CheckU2FSignResponse c bk (Inr authPreference) clock userID r s));
          secondFactor = ap_SecondFactor authPreference
      in if secondFactor = SecondFactorOff then checkPasswordWOToken c bk (clock 0) userID (cp_OldPassword req) s
         else if secondFactor = SecondFactorOTP then otp
         else if secondFactor = SecondFactorU2F then
           (case cp_U2FSignResponse req of None \<Rightarrow> (Inl AccessDenied, s) | Some r \<Rightarrow> u2f r)
         else if secondFactor = SecondFactorOn then
           (if cp_SecondFactorToken req \<noteq> [] then otp
            else case cp_U2FSignResponse req of None \<Rightarrow> (Inl AccessDenied, s) | Some r \<Rightarrow> u2f r)
         else if secondFactor = SecondFactorOptional then
           (if cp_SecondFactorToken req \<noteq> [] then otp
            else case cp_U2FSignResponse req of
                   Some r \<Rightarrow> u2f r
                 | None \<Rightarrow>
                     (case checkPasswordWOToken c bk (clock 0) userID (cp_OldPassword req) s of
                        (Inl e, s1) \<Rightarrow> (Inl e, s1)
                      | (Inr _, s1) \<Rightarrow>
                          (case GetMFADevices bk (clock 1) userID s1 of
                             (Inl e, s2) \<Rightarrow> if e \<noteq> NotFound then (Inl e, s2) else (Inr (), s2)
                           | (Inr devs, s2) \<Rightarrow> if devs \<noteq> [] then (Inl AccessDenied, s2) else (Inr (), s2))))
         else (Inl BadParameter, s))"

definition ChangePassword ::
  "crypto \<Rightarrow> ('s, stored) backend \<Rightarrow> auth_preference result \<Rightarrow> (nat \<Rightarrow> time) \<Rightarrow> (nat \<Rightarrow> time) \<Rightarrow> string \<Rightarrow>
     change_password \<Rightarrow> 's \<Rightarrow> unit result \<times> 's" where
  "ChangePassword c bk pref lock_clock clock newID req s =
     (case VerifyPassword (cp_NewPassword req) of
        Inl e \<Rightarrow> (Inl e, s)
      | Inr _ \<Rightarrow>
     (case pref of
        Inl e \<Rightarrow> (Inl e, s)
      | Inr authPreference \<Rightarrow>
          (case WithUserLock c bk lock_clock newID (cp_User req) (change_password_check c bk authPreference clock req) s of
             (Inl e, s1) \<Rightarrow> (Inl e, s1)
           | (Inr _, s1) \<Rightarrow> UpsertPassword c bk (\<lambda>i. lock_clock (9 + i)) (cp_User req) (cp_NewPassword req) s1)))"

definition ResetPasswordLength :: nat where
  "ResetPasswordLength = 16"

fun hex_digit :: "nat \<Rightarrow> char" where
  "hex_digit n = (if n < 10 then char_of (48 + n) else char_of (87 + n))"

definition EncodeToString :: "string \<Rightarrow> string" where
  "EncodeToString bs = concat (map (\<lambda>b. let n = of_char b :: nat in [hex_digit (n div 16), hex_digit (n mod 16)]) bs)"

text \<open>\<open>strings.ToUpper\<close> of ASCII text.\<close>

definition ascii_upper :: "char \<Rightarrow> char" where
  "ascii_upper c = (let n = (of_char c :: nat) in if 97 \<le> n \<and> n \<le> 122 then char_of (n - 32) else c)"

definition random_password :: "string \<Rightarrow> string" where
  "random_password randomBytes =
     (let password = EncodeToString randomBytes
      in if 2 \<le> length password then map ascii_upper (take 2 password) @ drop 2 password else password)"

text \<open>\<open>random\<close> are the bytes that the random source gives for the length.\<close>

definition ResetPassword ::
  "crypto \<Rightarrow> ('s, stored) backend \<Rightarrow> (nat \<Rightarrow> string result) \<Rightarrow> (nat \<Rightarrow> time) \<Rightarrow> string \<Rightarrow> 's \<Rightarrow> string result \<times> 's" where
  "ResetPassword c bk random clock username s =
     (case GetUser c bk (clock 0) username False s of
        (Inl e, s1) \<Rightarrow> (Inl e, s1)
      | (Inr u, s1) \<Rightarrow>
          (case random ResetPasswordLength of
             Inl e \<Rightarrow> (Inl e, s1)
           | Inr randomBytes \<Rightarrow>
               (let password = random_password randomBytes
                in case UpsertPassword c bk (\<lambda>i. clock (1 + i)) (user_name u) password s1 of
                     (Inl e, s2) \<Rightarrow> (Inl e, s2)
                   | (Inr _, s2) \<Rightarrow> (Inr password, s2))))"

record reset_request =
  rr_Name :: string
  rr_TTL :: duration
  rr_Type :: string

definition hour_ns :: duration where
  "hour_ns = 3600 * second_ns"

definition reset_request_Check :: "reset_request \<Rightarrow> reset_request result" where
  "reset_request_Check r =
     (if rr_Name r = [] then Inl BadParameter
      else if rr_TTL r < 0 then Inl BadParameter
      else
        (let r1 = (if rr_Type r = [] then r\<lparr>rr_Type := ''password''\<rparr> else r)
         in if rr_Type r1 = ''invite'' then
              (let r2 = (if rr_TTL r1 = 0 then r1\<lparr>rr_TTL := hour_ns\<rparr> else r1)
               in if rr_TTL r2 > 48 * hour_ns then Inl BadParameter else Inr r2)
            else if rr_Type r1 = ''password'' then
              (let r2 = (if rr_TTL r1 = 0 then r1\<lparr>rr_TTL := 8 * hour_ns\<rparr> else r1)
               in if rr_TTL r2 > 24 * hour_ns then Inl BadParameter else Inr r2)
            else Inl BadParameter))"

text \<open>All deletions are tried; any failure makes the aggregate an error.\<close>

fun delete_devices ::
  "('s, stored) backend \<Rightarrow> (nat \<Rightarrow> time) \<Rightarrow> nat \<Rightarrow> string \<Rightarrow> mfa_device list \<Rightarrow> bool \<Rightarrow> 's \<Rightarrow> unit result \<times> 's" where
  "delete_devices bk clock n user [] failed s = (if failed then Inl Unclassified else Inr (), s)"
| "delete_devices bk clock n user (d # ds) failed s =
     (case DeleteMFADevice bk (clock n) user (mfa_Id d) s of
        (r, s1) \<Rightarrow> delete_devices bk clock (n + 1) user ds (failed \<or> \<not> is_ok r) s1)"

definition resetMFA :: "('s, stored) backend \<Rightarrow> (nat \<Rightarrow> time) \<Rightarrow> string \<Rightarrow> 's \<Rightarrow> unit result \<times> 's" where
  "resetMFA bk clock user s =
     (case GetMFADevices bk (clock 0) user s of
        (Inl e, s1) \<Rightarrow> (Inl e, s1)
      | (Inr devs, s1) \<Rightarrow> delete_devices bk clock 1 user devs False s1)"

fun delete_tokens ::
  "('s, stored) backend \<Rightarrow> (nat \<Rightarrow> time) \<Rightarrow> nat \<Rightarrow> string \<Rightarrow> reset_token list \<Rightarrow> 's \<Rightarrow> unit result \<times> 's" where
  "delete_tokens bk clock n username [] s = (Inr (), s)"
| "delete_tokens bk clock n username (t # ts) s =
     (if rt_User t \<noteq> username then delete_tokens bk clock n username ts s
      else case DeleteResetPasswordToken bk (\<lambda>i. clock (n + i)) (rt_name t) s of
             (Inl e, s1) \<Rightarrow> (Inl e, s1)
           | (Inr _, s1) \<Rightarrow> delete_tokens bk clock (n + 2) username ts s1)"

definition deleteResetPasswordTokens :: "('s, stored) backend \<Rightarrow> (nat \<Rightarrow> time) \<Rightarrow> string \<Rightarrow> 's \<Rightarrow> unit result \<times> 's" where
  "deleteResetPasswordTokens bk clock username s =
     (case GetResetPasswordTokens bk (clock 0) s of
        (Inl e, s1) \<Rightarrow> (Inl e, s1)
      | (Inr tokens, s1) \<Rightarrow> delete_tokens bk clock 1 username tokens s1)"

definition newResetPasswordToken :: "string \<Rightarrow> string \<Rightarrow> (nat \<Rightarrow> time) \<Rightarrow> reset_request \<Rightarrow> reset_token result" where
  "newResetPasswordToken tokenID url clock req =
     (case NewResetPasswordToken tokenID of
        Inl e \<Rightarrow> Inl e
      | Inr t \<Rightarrow>
          Inr (t\<lparr>rt_Metadata := (rt_Metadata t)\<lparr>md_Expires := Some (clock 0 + rr_TTL req)\<rparr>, rt_User := rr_Name req,
                 rt_Created := clock 1, rt_URL := url\<rparr>))"

definition CreateResetPasswordToken ::
  "crypto \<Rightarrow> ('s, stored) backend \<Rightarrow> (nat \<Rightarrow> string result) \<Rightarrow> string \<Rightarrow> string \<Rightarrow> (nat \<Rightarrow> nat \<Rightarrow> time) \<Rightarrow> reset_request \<Rightarrow> 's \<Rightarrow>
     reset_token result \<times> 's" where
  "CreateResetPasswordToken c bk random tokenID url clock req s =
     (case reset_request_Check req of
        Inl e \<Rightarrow> (Inl e, s)
      | Inr req1 \<Rightarrow>
     (case GetUser c bk (clock 0 0) (rr_Name req1) False s of
        (Inl e, s1) \<Rightarrow> (Inl e, s1)
      | (Inr _, s1) \<Rightarrow>
     (case ResetPassword c bk random (clock 1) (rr_Name req1) s1 of
        (Inl e, s2) \<Rightarrow> (Inl e, s2)
      | (Inr _, s2) \<Rightarrow>
     (case resetMFA bk (clock 2) (rr_Name req1) s2 of
        (Inl e, s3) \<Rightarrow> (Inl e, s3)
      | (Inr _, s3) \<Rightarrow>
     (case newResetPasswordToken tokenID url (clock 3) req1 of
        Inl e \<Rightarrow> (Inl e, s3)
      | Inr token \<Rightarrow>
     (case deleteResetPasswordTokens bk (clock 4) (rr_Name req1) s3 of
        (Inl e, s4) \<Rightarrow> (Inl e, s4)
      | (Inr _, s4) \<Rightarrow>
     (case CreateResetToken bk (clock 5 0) token s4 of
        (Inl e, s5) \<Rightarrow> (Inl e, s5)
      | (Inr _, s5) \<Rightarrow> GetResetPasswordToken bk (clock 5 1) (rt_name token) s5)))))))"

text \<open>Registration of a U2F device: the response registers against the challenge, is attested if the cluster asks for it.\<close>

record register_params =
  rp_Resp :: string
  rp_DevName :: string
  rp_ChallengeStorageKey :: string
  rp_RegistrationStorageKey :: string
  rp_AttestationCAs :: "string list"

definition NewDevice :: "crypto \<Rightarrow> string \<Rightarrow> string \<Rightarrow> string \<times> string \<Rightarrow> time \<Rightarrow> mfa_device result" where
  "NewDevice c newID name reg addedAt =
     (case reg of (keyHandle, pubKey) \<Rightarrow>
        (case MFADevice_CheckAndSetDefaults
                ((NewMFADevice name newID addedAt)\<lparr>mfa_Device := Some (U2FDevice keyHandle pubKey 0)\<rparr>) of
           Inl e \<Rightarrow> Inl e
         | Inr d \<Rightarrow> (case ValidateDevice c (keyHandle, pubKey, 0) of Inl e \<Rightarrow> Inl e | Inr _ \<Rightarrow> Inr d)))"

definition RegisterVerify ::
  "crypto \<Rightarrow> ('s, stored) backend \<Rightarrow> (nat \<Rightarrow> time) \<Rightarrow> string \<Rightarrow> register_params \<Rightarrow> 's \<Rightarrow> mfa_device result \<times> 's" where
  "RegisterVerify c bk clock newID params s =
     (case GetU2FRegisterChallenge bk (clock 0) (rp_ChallengeStorageKey params) s of
        (Inl e, s1) \<Rightarrow> (Inl e, s1)
      | (Inr challenge, s1) \<Rightarrow>
     (case u2f_Register c (rp_Resp params) challenge of
        Inl _ \<Rightarrow> (Inl BadParameter, s1)
      | Inr (keyHandle, pubKey) \<Rightarrow>
          if rp_AttestationCAs params \<noteq> [] \<and> \<not> u2f_attested c (rp_AttestationCAs params) (rp_Resp params) then
            (Inl BadParameter, s1)
          else
     (case NewDevice c newID (rp_DevName params) (keyHandle, pubKey) (clock 1) of
        Inl e \<Rightarrow> (Inl e, s1)
      | Inr dev \<Rightarrow>
          (let register = (\<lambda>existingDevs s.
             if \<exists>d\<in>set existingDevs. (case GetU2F d of Some (_, pk, _) \<Rightarrow> pk = pubKey | None \<Rightarrow> False) then (Inl BadParameter, s)
             else (case UpsertMFADevice bk (\<lambda>i. clock (3 + i)) (rp_RegistrationStorageKey params) dev s of
                     (Inl e, s3) \<Rightarrow> (Inl e, s3)
                   | (Inr _, s3) \<Rightarrow> (Inr dev, s3)))
           in case GetMFADevices bk (clock 2) (rp_RegistrationStorageKey params) s1 of
                (Inl e, s2) \<Rightarrow> if e \<noteq> NotFound then (Inl e, s2) else register [] s2
              | (Inr existingDevs, s2) \<Rightarrow> register existingDevs s2))))"

record change_with_token =
  ct_SecondFactorToken :: string
  ct_TokenID :: string
  ct_Password :: string
  ct_U2FRegisterResponse :: "string option"

definition changeUserSecondFactor ::
  "crypto \<Rightarrow> ('s, stored) backend \<Rightarrow> auth_preference \<Rightarrow> (nat \<Rightarrow> time) \<Rightarrow> string \<Rightarrow> change_with_token \<Rightarrow> reset_token \<Rightarrow> 's \<Rightarrow>
     unit result \<times> 's" where
  "changeUserSecondFactor c bk cap clock newID req token s =
     (let username = rt_User token; secondFactor = ap_SecondFactor cap
      in if secondFactor = SecondFactorOff then (Inr (), s)
         else if ct_SecondFactorToken req \<noteq> [] then
           (if secondFactor = SecondFactorU2F then (Inl BadParameter, s)
            else case GetResetPasswordTokenSecrets bk (clock 0) (ct_TokenID req) s of
                   (Inl e, s1) \<Rightarrow> (Inl e, s1)
                 | (Inr secrets, s1) \<Rightarrow>
                     (case NewTOTPDevice c newID ''otp'' (rts_OTPKey secrets) (clock 1) of
                        Inl e \<Rightarrow> (Inl e, s1)
                      | Inr dev \<Rightarrow>
                          (case checkTOTP c bk (\<lambda>i. clock (2 + i)) username (ct_SecondFactorToken req) dev s1 of
                             (Inl e, s2) \<Rightarrow> (Inl e, s2)
                           | (Inr dev1, s2) \<Rightarrow> UpsertMFADevice bk (\<lambda>i. clock (8 + i)) username dev1 s2)))
         else case ct_U2FRegisterResponse req of
                Some resp \<Rightarrow>
                  if secondFactor = SecondFactorOTP then (Inl BadParameter, s)
                  else (case GetU2FConfig cap of
                          Inl e \<Rightarrow> (Inl e, s)
                        | Inr cfg \<Rightarrow>
                            unit_of (RegisterVerify c bk clock newID
                              \<lparr>rp_Resp = resp, rp_DevName = ''u2f'', rp_ChallengeStorageKey = ct_TokenID req,
                               rp_RegistrationStorageKey = username, rp_AttestationCAs = uc_DeviceAttestationCAs cfg\<rparr> s))
              | None \<Rightarrow> if secondFactor \<noteq> SecondFactorOptional then (Inl BadParameter, s) else (Inr (), s))"

definition changePasswordWithToken ::
  "crypto \<Rightarrow> ('s, stored) backend \<Rightarrow> auth_preference result \<Rightarrow> (nat \<Rightarrow> nat \<Rightarrow> time) \<Rightarrow> string \<Rightarrow> change_with_token \<Rightarrow> 's \<Rightarrow>
     user result \<times> 's" where
  "changePasswordWithToken c bk pref clock newID req s =
     (case pref of
        Inl e \<Rightarrow> (Inl e, s)
      | Inr authPref \<Rightarrow>
          if \<not> GetAllowLocalAuth authPref then (Inl AccessDenied, s)
          else
     (case VerifyPassword (ct_Password req) of
        Inl e \<Rightarrow> (Inl e, s)
      | Inr _ \<Rightarrow>
     (case GetResetPasswordToken bk (clock 0 0) (ct_TokenID req) s of
        (Inl e, s1) \<Rightarrow> (Inl e, s1)
      | (Inr token, s1) \<Rightarrow>
          if rt_Expiry token < clock 0 1 then (Inl BadParameter, s1)
          else
     (case changeUserSecondFactor c bk authPref (clock 1) newID req token s1 of
        (Inl e, s2) \<Rightarrow> (Inl e, s2)
      | (Inr _, s2) \<Rightarrow>
     (case deleteResetPasswordTokens bk (clock 2) (rt_User token) s2 of
        (Inl e, s3) \<Rightarrow> (Inl e, s3)
      | (Inr _, s3) \<Rightarrow>
     (case UpsertPassword c bk (clock 3) (rt_User token) (ct_Password req) s3 of
        (Inl e, s4) \<Rightarrow> (Inl e, s4)
      | (Inr _, s4) \<Rightarrow> GetUser c bk (clock 4 0) (rt_User token) False s4))))))"

end
