(* ===== verification/Login_Safety.thy ===== *)
theory Login_Safety
  imports Login
begin

text \<open>
  What the lock of an account guarantees, over any backend: the number of authentications that a sequence of calls of
  \<open>WithUserLock\<close> runs, when all of them fail. The locale \<open>login_store\<close> extends the contract of a backend by the name of
  the user; the memory backend provides it.
\<close>

section \<open>Users in normal form\<close>

lemma Metadata_check:
  "Metadata_CheckAndSetDefaults m =
     (if md_Name m \<noteq> [] \<and> (\<forall>(key, v)\<in>set (md_Labels m). IsValidLabelKey key) \<and>
         (Origin m \<noteq> [] \<longrightarrow> slice_contains OriginValues (Origin m))
      then Inr (m\<lparr>md_Namespace := (if md_Namespace m = [] then default_namespace else md_Namespace m)\<rparr>)
      else Inl BadParameter)"
  by (auto simp: Metadata_CheckAndSetDefaults_def Origin_def Let_def)

definition metadata_ok :: "metadata \<Rightarrow> bool" where
  "metadata_ok m \<longleftrightarrow> is_ok (Metadata_CheckAndSetDefaults m)"

definition with_namespace :: "metadata \<Rightarrow> metadata" where
  "with_namespace m = m\<lparr>md_Namespace := (if md_Namespace m = [] then default_namespace else md_Namespace m)\<rparr>"

lemma Metadata_ok_check: "Metadata_CheckAndSetDefaults m = (if metadata_ok m then Inr (with_namespace m) else Inl BadParameter)"
  by (simp add: metadata_ok_def Metadata_check with_namespace_def)

lemma metadata_ok_simps [simp]:
  "metadata_ok (with_namespace m) = metadata_ok m" "metadata_ok (m\<lparr>md_Expires := t\<rparr>) = metadata_ok m"
  "metadata_ok (m\<lparr>md_ID := i\<rparr>) = metadata_ok m" "with_namespace (with_namespace m) = with_namespace m"
  "with_namespace (m\<lparr>md_Expires := t\<rparr>) = (with_namespace m)\<lparr>md_Expires := t\<rparr>"
  "with_namespace (m\<lparr>md_ID := i\<rparr>) = (with_namespace m)\<lparr>md_ID := i\<rparr>"
  "md_Name (with_namespace m) = md_Name m" "md_Expires (with_namespace m) = md_Expires m" "md_ID (with_namespace m) = md_ID m"
  by (auto simp: metadata_ok_def Metadata_check with_namespace_def Origin_def default_namespace_def)

definition user_ok :: "user \<Rightarrow> bool" where
  "user_ok u \<longleftrightarrow> metadata_ok (u_Metadata u) \<and> is_ok (check_identities (u_OIDCIdentities u))"

definition with_defaults :: "user \<Rightarrow> user" where
  "with_defaults u = u\<lparr>u_Kind := ''user'', u_Version := ''v2'', u_Metadata := with_namespace (u_Metadata u)\<rparr>"

lemma check_identities_BadParameter: "check_identities is = Inl e \<Longrightarrow> e = BadParameter"
  by (induction "is") (auto simp: identity_Check_def split: if_splits sum.splits)

lemma user_check: "user_CheckAndSetDefaults u = (if user_ok u then Inr (with_defaults u) else Inl BadParameter)"
proof (cases "check_identities (u_OIDCIdentities u)")
  case (Inl e)
  then show ?thesis
    using check_identities_BadParameter [OF Inl]
    by (simp add: user_CheckAndSetDefaults_def user_ok_def Metadata_ok_check Let_def)
next
  case (Inr x)
  then show ?thesis
    by (simp add: user_CheckAndSetDefaults_def user_ok_def Metadata_ok_check with_defaults_def Let_def)
qed

lemma user_ok_simps [simp]:
  "user_ok (with_defaults u) = user_ok u" "user_ok (user_SetResourceID i u) = user_ok u" "user_ok (user_SetExpiry t u) = user_ok u"
  "user_ok (SetLocked t r u) = user_ok u" "user_ok (u\<lparr>u_LocalAuth := a\<rparr>) = user_ok u"
  by (simp_all add: user_ok_def with_defaults_def user_SetResourceID_def user_SetExpiry_def SetLocked_def)

lemma with_defaults_simps [simp]:
  "with_defaults (with_defaults u) = with_defaults u" "u_Version (with_defaults u) = ''v2''"
  "u_LocalAuth (with_defaults u) = u_LocalAuth u" "u_Status (with_defaults u) = u_Status u"
  "user_Expiry (with_defaults u) = user_Expiry u" "user_name (with_defaults u) = user_name u"
  by (simp_all add: with_defaults_def user_Expiry_def user_name_def split: option.split)

lemma user_field_simps [simp]:
  "u_LocalAuth (user_SetResourceID i u) = u_LocalAuth u" "u_Status (user_SetResourceID i u) = u_Status u"
  "user_Expiry (user_SetResourceID i u) = user_Expiry u" "user_name (user_SetResourceID i u) = user_name u"
  "u_Version (user_SetResourceID i u) = u_Version u"
  "u_LocalAuth (user_SetExpiry t u) = u_LocalAuth u" "u_Status (user_SetExpiry t u) = u_Status u"
  "user_name (user_SetExpiry t u) = user_name u" "u_Version (user_SetExpiry t u) = u_Version u"
  "u_LocalAuth (SetLocked t r u) = u_LocalAuth u" "user_Expiry (SetLocked t r u) = user_Expiry u"
  "user_name (SetLocked t r u) = user_name u" "u_Version (SetLocked t r u) = u_Version u"
  "lst_IsLocked (u_Status (SetLocked t r u))" "lst_LockExpires (u_Status (SetLocked t r u)) = t"
  by (simp_all add: user_SetResourceID_def user_SetExpiry_def SetLocked_def user_Expiry_def user_name_def split: option.split)

lemma user_SetExpiry_Expiry: "\<not> is_zero_time t \<Longrightarrow> user_Expiry (user_SetExpiry t u) = t"
  by (simp add: user_SetExpiry_def user_Expiry_def)

lemma LastFailed_failures: "\<forall>a\<in>set as. \<not> la_Success a \<Longrightarrow> 0 < x \<Longrightarrow> LastFailed x as \<longleftrightarrow> x \<le> int (length as)"
proof -
  have "last_failed_loop x n bs \<longleftrightarrow> bs \<noteq> [] \<and> x \<le> n + int (length bs)" if "\<forall>a\<in>set bs. \<not> la_Success a" "n < x" for bs n
    using that by (induction bs arbitrary: n) auto
  from this [of "rev as" 0] show "\<forall>a\<in>set as. \<not> la_Success a \<Longrightarrow> 0 < x \<Longrightarrow> LastFailed x as \<longleftrightarrow> x \<le> int (length as)"
    by (auto simp: LastFailed_def)
qed

text \<open>A user without secrets that the service has stored: reading it and storing it again keeps what matters for the lock.\<close>

definition stored_user :: "string \<Rightarrow> stored item \<Rightarrow> bool" where
  "stored_user name i \<longleftrightarrow>
     (\<exists>v. it_Value i = StUser v \<and> u_Version v = ''v2'' \<and> user_ok v \<and> u_LocalAuth v = None \<and> user_name v = name \<and>
          it_Expires i = user_Expiry v)"

definition stored_status :: "stored item \<Rightarrow> login_status" where
  "stored_status i = (case it_Value i of StUser v \<Rightarrow> u_Status v)"

lemma read_stored_user:
  assumes "stored_user name i" "it_Value i = StUser v"
  shows "\<exists>u. UnmarshalUser c (it_ID i) (it_Expires i) v = Inr u \<and> user_ok u \<and> u_LocalAuth u = None \<and> user_name u = name \<and>
    u_Status u = stored_status i \<and> user_Expiry u = it_Expires i"
  using assms
  by (cases "is_zero_time (it_Expires i)")
    (auto simp: stored_user_def UnmarshalUser_def ValidateUser_def user_check Let_def stored_status_def user_SetExpiry_Expiry)

lemma write_stored_user:
  assumes "user_ok u" "u_LocalAuth u = None"
  shows "\<exists>u1 value. ValidateUser c u = Inr u1 \<and> MarshalUser c (WithoutSecrets u1) = Inr value \<and> u_LocalAuth u1 = None \<and>
    (\<forall>i. stored_user (user_name u) (user_item u1 value i) \<and> stored_status (user_item u1 value i) = u_Status u \<and>
       it_Expires (user_item u1 value i) = user_Expiry u \<and> it_Key (user_item u1 value i) = users_key [user_name u, paramsPrefix])"
  using assms
  by (simp add: ValidateUser_def user_check MarshalUser_def WithoutSecrets_def stored_user_def stored_status_def
      user_item_def stored_item_def)

section \<open>Attempts on one account\<close>

text \<open>
  A call of \<open>WithUserLock\<close>: its clock, the identifier for its attempt, the authentication it guards. \<open>admits\<close> says
  that the authentication is run at all.
\<close>

record ('s, 'a) login_call =
  lc_clock :: "nat \<Rightarrow> time"
  lc_newID :: string
  lc_fn :: "'s \<Rightarrow> 'a result \<times> 's"

definition admits :: "crypto \<Rightarrow> ('s, stored) backend \<Rightarrow> (nat \<Rightarrow> time) \<Rightarrow> string \<Rightarrow> 's \<Rightarrow> bool" where
  "admits c bk clock username s =
     (case GetUser c bk (clock 0) username False s of
        (Inl e, _) \<Rightarrow> e = NotFound
      | (Inr u, _) \<Rightarrow> \<not> (lst_IsLocked (u_Status u) \<and> clock 1 < lst_LockExpires (u_Status u)))"

lemma not_admitted:
  "\<not> admits c bk clock username s \<Longrightarrow>
     WithUserLock c bk clock newID username fn s = WithUserLock c bk clock newID username fn' s \<and>
     (\<exists>e s'. WithUserLock c bk clock newID username fn s = (Inl e, s'))"
proof -
  assume n: "\<not> admits c bk clock username s"
  obtain r s1 where g: "GetUser c bk (clock 0) username False s = (r, s1)" by fastforce
  show ?thesis using n by (cases r) (simp_all add: admits_def WithUserLock_def g Let_def)
qed

definition run_call :: "crypto \<Rightarrow> ('s, stored) backend \<Rightarrow> string \<Rightarrow> ('s, 'a) login_call \<Rightarrow> 's \<Rightarrow> 'a result \<times> 's" where
  "run_call c bk username call s = WithUserLock c bk (lc_clock call) (lc_newID call) username (lc_fn call) s"

text \<open>The number of authentications that a sequence of calls runs.\<close>

fun tries :: "crypto \<Rightarrow> ('s, stored) backend \<Rightarrow> string \<Rightarrow> ('s, 'a) login_call list \<Rightarrow> 's \<Rightarrow> nat" where
  "tries c bk username [] s = 0"
| "tries c bk username (call # calls) s =
     (if admits c bk (lc_clock call) username s then 1 else 0) + tries c bk username calls (snd (run_call c bk username call s))"

text \<open>The calls take place one after the other, from a time on and before another.\<close>

fun calls_between :: "time \<Rightarrow> time \<Rightarrow> ('s, 'a) login_call list \<Rightarrow> bool" where
  "calls_between from until [] = True"
| "calls_between from until (call # calls) =
     (from \<le> lc_clock call 0 \<and> (\<forall>j<8. lc_clock call j \<le> lc_clock call (Suc j)) \<and> lc_clock call 8 < until \<and>
      calls_between (lc_clock call 8) until calls)"

definition attempts_key :: "string \<Rightarrow> string" where
  "attempts_key name = users_key [name, attemptsPrefix]"

definition attempt_key :: "string \<Rightarrow> string \<Rightarrow> string" where
  "attempt_key name newID = users_key [name, attemptsPrefix, newID]"

definition params_key :: "string \<Rightarrow> string" where
  "params_key name = users_key [name, paramsPrefix]"

lemma attempt_key_eq: "attempt_key name newID = attempts_key name @ Separator # newID"
  by (simp add: attempt_key_def attempts_key_def users_key_def Key_def)

lemma attempts_params: "\<not> has_prefix (params_key name) (attempts_key name)"
  by (simp add: params_key_def attempts_key_def users_key_def Key_def prefix_defs has_prefix_iff)

lemma attempts_range: "attempts_key name \<le> k \<and> k < RangeEnd (attempts_key name) \<longleftrightarrow> has_prefix k (attempts_key name)"
  unfolding RangeEnd_def by (rule nextKey_range) (auto simp: attempts_key_def users_key_def Key_def Separator_def)

lemma read_attempts_failures:
  "\<forall>i\<in>set is. \<exists>a. it_Value i = StAttempt a \<and> \<not> la_Success a \<Longrightarrow>
     \<exists>as. read_attempts is = Inr as \<and> length as = length is \<and> (\<forall>a\<in>set as. \<not> la_Success a)"
  by (induction "is") fastforce+

text \<open>
  \<open>retains W P m m'\<close>: of what is stored under the keys of \<open>P\<close> only items that are dead at \<open>W\<close> are lost; \<open>kept\<close> is
  this for the keys that the lock of the user needs.
  \<open>surviving W name m\<close>: the attempts that are still stored at \<open>W\<close>.
\<close>

definition login_key :: "string \<Rightarrow> string \<Rightarrow> bool" where
  "login_key name k \<longleftrightarrow> k = params_key name \<or> has_prefix k (attempts_key name)"

definition retains :: "time \<Rightarrow> (string \<Rightarrow> bool) \<Rightarrow> (string \<Rightarrow> stored item option) \<Rightarrow> (string \<Rightarrow> stored item option) \<Rightarrow> bool" where
  "retains W P m m' \<longleftrightarrow> (\<forall>k. P k \<longrightarrow> m' k = m k \<or> m' k = None \<and> (\<exists>i. m k = Some i \<and> \<not> lives W i))"

abbreviation kept :: "time \<Rightarrow> string \<Rightarrow> (string \<Rightarrow> stored item option) \<Rightarrow> (string \<Rightarrow> stored item option) \<Rightarrow> bool" where
  "kept W name \<equiv> retains W (login_key name)"

definition surviving :: "time \<Rightarrow> string \<Rightarrow> (string \<Rightarrow> stored item option) \<Rightarrow> string set" where
  "surviving W name m = {k. has_prefix k (attempts_key name) \<and> (\<exists>i. m k = Some i \<and> lives W i)}"

definition failures_only :: "string \<Rightarrow> (string \<Rightarrow> stored item option) \<Rightarrow> bool" where
  "failures_only name m \<longleftrightarrow>
     (\<forall>k i. has_prefix k (attempts_key name) \<and> m k = Some i \<longrightarrow> (\<exists>a. it_Value i = StAttempt a \<and> \<not> la_Success a))"

definition user_at :: "time \<Rightarrow> string \<Rightarrow> (string \<Rightarrow> stored item option) \<Rightarrow> stored item \<Rightarrow> bool" where
  "user_at W name m i \<longleftrightarrow> m (params_key name) = Some i \<and> stored_user name i \<and> lives W i"

definition locked_over :: "time \<Rightarrow> stored item \<Rightarrow> bool" where
  "locked_over W i \<longleftrightarrow> lst_IsLocked (stored_status i) \<and> W \<le> lst_LockExpires (stored_status i)"

lemma retains_refl [simp]: "retains W P m m" by (simp add: retains_def)

lemma retains_trans: "retains W P m m1 \<Longrightarrow> retains W P m1 m2 \<Longrightarrow> retains W P m m2"
  unfolding retains_def by metis

lemma retains_update: "retains W P m m1 \<Longrightarrow> \<not> P k \<Longrightarrow> retains W P m (m1(k := x))"
  by (auto simp: retains_def)

lemma retains_lives: "retains W P m m' \<Longrightarrow> P k \<Longrightarrow> m k = Some i \<Longrightarrow> lives W i \<Longrightarrow> m' k = Some i"
  unfolding retains_def by (metis option.inject)

lemma retains_None: "retains W P m m' \<Longrightarrow> P k \<Longrightarrow> m k = None \<Longrightarrow> m' k = None"
  unfolding retains_def by (metis option.distinct(1))

lemma kept_user: "kept W name m m' \<Longrightarrow> user_at W name m i \<Longrightarrow> user_at W name m' i"
  unfolding retains_def user_at_def login_key_def by (metis option.inject)

lemma kept_surviving: "kept W name m m' \<Longrightarrow> surviving W name m' = surviving W name m"
  unfolding retains_def surviving_def login_key_def by (metis (lifting) option.distinct(1) option.inject)

lemma kept_failures: "kept W name m m' \<Longrightarrow> failures_only name m \<Longrightarrow> failures_only name m'"
  unfolding retains_def failures_only_def login_key_def by (metis option.distinct(1))

lemma kept_None: "kept W name m m' \<Longrightarrow> has_prefix k (attempts_key name) \<Longrightarrow> m k = None \<Longrightarrow> m' k = None"
  unfolding retains_def login_key_def by (metis option.distinct(1))

lemma stored_user_ID [simp]: "stored_user name (i\<lparr>it_ID := j\<rparr>) = stored_user name i" "stored_status (i\<lparr>it_ID := j\<rparr>) = stored_status i"
  by (simp_all add: stored_user_def stored_status_def)

text \<open>
  An authentication that always fails while the store holds \<open>held\<close>, the hash of another password for example, and
  loses nothing of that and of what is stored for the lock.
\<close>

definition holds :: "time \<Rightarrow> string \<Rightarrow> (string \<Rightarrow> stored item option) \<Rightarrow> (string \<Rightarrow> stored item option) \<Rightarrow> bool" where
  "holds W name held m \<longleftrightarrow> (\<forall>k i. held k = Some i \<longrightarrow> m k = Some i \<and> lives W i \<and> \<not> login_key name k)"

definition always_fails ::
  "('s \<Rightarrow> bool) \<Rightarrow> ('s \<Rightarrow> string \<Rightarrow> stored item option) \<Rightarrow> time \<Rightarrow> string \<Rightarrow> (string \<Rightarrow> stored item option) \<Rightarrow>
     ('s \<Rightarrow> 'a result \<times> 's) \<Rightarrow> bool" where
  "always_fails ok contents W name held fn \<longleftrightarrow>
     (\<forall>s. ok s \<and> holds W name held (contents s) \<longrightarrow>
        (\<exists>e s'. fn s = (Inl e, s') \<and> ok s' \<and> kept W name (contents s) (contents s') \<and> holds W name held (contents s')))"

lemma held_update [simp]:
  "holds W name held m \<Longrightarrow> holds W name held (m(attempt_key name newID \<mapsto> i))"
  "holds W name held m \<Longrightarrow> holds W name held (m(params_key name \<mapsto> i))"
  by (auto simp: holds_def login_key_def attempt_key_eq) (metis has_prefix_append)+

lemma calls_clock:
  assumes "\<forall>j<8. clock j \<le> clock (Suc j)" "j \<le> (8 :: nat)"
  shows "clock 0 \<le> (clock j :: time) \<and> clock j \<le> clock 8"
proof -
  have "clock 0 \<le> clock j" using assms(2)
  proof (induction j)
    case (Suc j)
    then show ?case using assms(1) by (meson Suc_le_lessD Suc_leD order_trans)
  qed simp
  moreover have "clock (8 - k) \<le> clock 8" if "k \<le> 8" for k using that
  proof (induction k)
    case (Suc k)
    then have "clock (8 - Suc k) \<le> clock (Suc (8 - Suc k))" using assms(1) by simp
    moreover have "Suc (8 - Suc k) = 8 - k" using Suc.prems by simp
    ultimately show ?case using Suc by simp
  qed simp
  from this [of "8 - j"] have "clock j \<le> clock 8" using assms(2) by simp
  ultimately show ?thesis ..
qed

lemma surviving_update:
  "k = attempt_key name newID \<Longrightarrow> lives W i \<Longrightarrow> surviving W name (m(k \<mapsto> i)) = insert k (surviving W name m)"
  by (auto simp: surviving_def attempt_key_eq)

lemma surviving_params [simp]: "surviving W name (m(params_key name \<mapsto> i)) = surviving W name m"
  using attempts_params [of name] by (auto simp: surviving_def)

lemma failures_params [simp]: "failures_only name (m(params_key name \<mapsto> i)) = failures_only name m"
  using attempts_params [of name] by (auto simp: failures_only_def) metis

lemma attempt_not_params [simp]: "attempt_key name newID \<noteq> params_key name" "params_key name \<noteq> attempt_key name newID"
  using attempts_params [of name] by (metis attempt_key_eq has_prefix_append)+

locale login_store = kv_store bk inv view purge safe
  for bk :: "('s, stored) backend" and inv and view :: "'s \<Rightarrow> string \<Rightarrow> stored item option" and purge and safe +
  fixes c :: crypto and name :: string
  assumes named: "name \<noteq> []"
    and safe_login: "safe (params_key name)" "safe (attempts_key name)"
begin

lemma purge_retains: "inv s \<Longrightarrow> t \<le> W \<Longrightarrow> retains W P (view s) (view (purge t s))"
proof -
  assume inv: "inv s" and t: "t \<le> W"
  have "view (purge t s) k = view s k \<or> view (purge t s) k = None \<and> (\<exists>i. view s k = Some i \<and> \<not> lives W i)" for k
  proof (cases "view (purge t s) k")
    case None
    then have "\<not> lives W i" if "view s k = Some i" for i
      using purge_lives [OF inv that, of t] t by (auto simp: lives_def)
    with None show ?thesis by (cases "view s k") auto
  next
    case (Some i)
    then show ?thesis using purge_old [OF inv Some] by simp
  qed
  then show ?thesis by (simp add: retains_def)
qed

lemma purge_holds: "inv s \<Longrightarrow> t \<le> W \<Longrightarrow> holds W name held (view s) \<Longrightarrow> holds W name held (view (purge t s))"
  unfolding holds_def by (meson lives_def order_le_less_trans purge_lives)

lemma get_user:
  assumes "inv s" "user_at W name (view s) i" "t \<le> W"
  shows "\<exists>u. GetUser c bk t name False s = (Inr u, purge t s) \<and> user_ok u \<and> u_LocalAuth u = None \<and> user_name u = name \<and>
    u_Status u = stored_status i \<and> user_Expiry u = it_Expires i"
proof -
  have at: "user_at W name (view (purge t s)) i" using kept_user purge_retains assms by blast
  then obtain v where v: "it_Value i = StUser v" "stored_user name i" by (auto simp: user_at_def stored_user_def)
  obtain u where u: "UnmarshalUser c (it_ID i) (it_Expires i) v = Inr u" "user_ok u" "u_LocalAuth u = None" "user_name u = name"
    "u_Status u = stored_status i" "user_Expiry u = it_Expires i"
    using read_stored_user [OF v(2,1)] by blast
  have "b_Get bk t (params_key name) s = (Inr i, purge t s)" using get [OF assms(1) safe_login(1)] at by (simp add: user_at_def)
  then have "GetUser c bk t name False s = (Inr (u\<lparr>u_LocalAuth := None\<rparr>), purge t s)"
    using named v(1) u(1) by (simp add: GetUser_def params_key_def)
  moreover have "u\<lparr>u_LocalAuth := None\<rparr> = u" using u(3) by simp
  ultimately show ?thesis using u by auto
qed

lemma add_attempt:
  assumes "inv s" "safe (attempt_key name newID)" "t \<noteq> zero_time"
  shows "\<exists>s' i. AddUserLoginAttempt bk clock newID name \<lparr>la_Time = t, la_Success = False\<rparr> AttemptTTL s = (Inr (), s') \<and> inv s' \<and>
    view s' = (view (purge (clock 1) s))(attempt_key name newID \<mapsto> i) \<and>
    it_Value i = StAttempt \<lparr>la_Time = t, la_Success = False\<rparr> \<and> it_Expires i = clock 0 + AttemptTTL"
proof -
  let ?i = "stored_item (attempt_key name newID) (StAttempt \<lparr>la_Time = t, la_Success = False\<rparr>) (clock 0 + AttemptTTL) 0"
  obtain l j s' where "b_Put bk (clock 1) ?i s = (Inr l, s')" "inv s'"
    "view s' = (view (purge (clock 1) s))(attempt_key name newID \<mapsto> ?i\<lparr>it_ID := j\<rparr>)"
    using put [OF assms(1), of ?i "clock 1"] assms(2) by (auto simp: stored_item_def)
  moreover have "Expiry_after (clock 0) AttemptTTL = clock 0 + AttemptTTL"
    by (simp add: Expiry_after_def AttemptTTL_def second_ns_def)
  ultimately show ?thesis
    using assms(3) by (auto simp: AddUserLoginAttempt_def attempt_Check_def is_zero_time_def attempt_key_def stored_item_def)
qed

lemma get_attempts:
  assumes inv: "inv s" and failures: "failures_only name (view s)"
  shows "\<exists>as. GetUserLoginAttempts bk t name s = (Inr as, purge t s) \<and> (\<forall>a\<in>set as. \<not> la_Success a) \<and>
    length as = min 30000 (card {k \<in> dom (view (purge t s)). has_prefix k (attempts_key name)})"
proof -
  let ?m = "view (purge t s)" and ?a = "attempts_key name"
  have keys: "{k \<in> dom ?m. ?a \<le> k \<and> k < RangeEnd ?a} = {k \<in> dom ?m. has_prefix k ?a}" using attempts_range by blast
  have fin: "finite {k \<in> dom ?m. has_prefix k ?a}" using finite_view [OF purge_inv [OF inv]] by simp
  have "RangeEnd ?a \<noteq> []" using attempts_range [of name ?a] by (auto simp: has_prefix_iff)
  then have range: "b_GetRange bk t ?a (RangeEnd ?a) NoLimit s = (Inr (take 30000 (range_items ?m ?a (RangeEnd ?a))), purge t s)"
    using get_range [OF inv safe_login(2)] by (simp add: range_limit_def NoLimit_def DefaultLargeLimit_def)
  have "failures_only name ?m" using failures purge_old [OF inv] unfolding failures_only_def by blast
  moreover have "set (range_keys ?m ?a (RangeEnd ?a)) = {k \<in> dom ?m. has_prefix k ?a}" using fin by (simp add: range_keys_def keys)
  ultimately have "\<forall>i\<in>set (range_items ?m ?a (RangeEnd ?a)). \<exists>a. it_Value i = StAttempt a \<and> \<not> la_Success a"
    by (auto simp: range_items_def failures_only_def)
  then obtain as where as: "read_attempts (take 30000 (range_items ?m ?a (RangeEnd ?a))) = Inr as"
    "length as = length (take 30000 (range_items ?m ?a (RangeEnd ?a)))" "\<forall>a\<in>set as. \<not> la_Success a"
    using read_attempts_failures [of "take 30000 (range_items ?m ?a (RangeEnd ?a))"] by (meson in_set_takeD)
  have "length (range_items ?m ?a (RangeEnd ?a)) = card {k \<in> dom ?m. has_prefix k ?a}"
    using fin by (simp add: range_items_def range_keys_def keys)
  then show ?thesis using range as by (simp add: GetUserLoginAttempts_def attempts_key_def Let_def)
qed

lemma upsert_user:
  assumes "inv s" "user_ok u" "u_LocalAuth u = None" "user_name u = name"
  shows "\<exists>s' i. UpsertUser c bk clock u s = (Inr (), s') \<and> inv s' \<and> view s' = (view (purge (clock 0) s))(params_key name \<mapsto> i) \<and>
    stored_user name i \<and> stored_status i = u_Status u \<and> it_Expires i = user_Expiry u"
proof -
  obtain u1 v where w: "ValidateUser c u = Inr u1" "MarshalUser c (WithoutSecrets u1) = Inr v" "u_LocalAuth u1 = None"
    and i: "stored_user name (user_item u1 v (md_ID (u_Metadata u1)))" "stored_status (user_item u1 v (md_ID (u_Metadata u1))) = u_Status u"
    "it_Expires (user_item u1 v (md_ID (u_Metadata u1))) = user_Expiry u" "it_Key (user_item u1 v (md_ID (u_Metadata u1))) = params_key name"
    using write_stored_user [OF assms(2,3), of c] assms(4) unfolding params_key_def by blast
  let ?i = "user_item u1 v (md_ID (u_Metadata u1))"
  obtain l j s' where "b_Put bk (clock 0) ?i s = (Inr l, s')" "inv s'" "view s' = (view (purge (clock 0) s))(params_key name \<mapsto> ?i\<lparr>it_ID := j\<rparr>)"
    using put [OF assms(1), of ?i "clock 0"] i(4) safe_login(1) by auto
  then show ?thesis using w i by (auto simp: UpsertUser_def upsert_secrets_def)
qed

lemma failed_call:
  assumes inv: "inv s" and at: "user_at W name (view s) i" and failures: "failures_only name (view s)"
    and clock: "\<forall>j<8. clock j \<le> clock (Suc j)" "T \<le> clock 0" "clock 8 < W" "W \<le> T + AccountLockInterval" "0 < T"
    and new: "view s (attempt_key name newID) = None" "safe (attempt_key name newID)"
    and held: "holds W name held (view s)" and fn: "always_fails inv view W name held fn"
    and free: "\<not> (lst_IsLocked (stored_status i) \<and> clock 1 < lst_LockExpires (stored_status i))"
  shows "\<exists>e s' i'. WithUserLock c bk clock newID name fn s = (Inl e, s') \<and> inv s' \<and> user_at W name (view s') i' \<and>
    failures_only name (view s') \<and> surviving W name (view s') = insert (attempt_key name newID) (surviving W name (view s)) \<and>
    (\<forall>k. has_prefix k (attempts_key name) \<and> view s k = None \<and> k \<noteq> attempt_key name newID \<longrightarrow> view s' k = None) \<and>
    (5 \<le> card (surviving W name (view s')) \<longrightarrow> locked_over W i') \<and> holds W name held (view s')"
proof -
  let ?k = "attempt_key name newID" and ?p = "params_key name"
  have c: "T \<le> clock j" "clock j \<le> W" if "j \<le> 8" for j
    using calls_clock [OF clock(1) that] clock(2,3) by linarith+
  obtain u where u: "GetUser c bk (clock 0) name False s = (Inr u, purge (clock 0) s)" "user_ok u" "u_LocalAuth u = None"
    "user_name u = name" "u_Status u = stored_status i" "user_Expiry u = it_Expires i"
    using get_user [OF inv at, of "clock 0"] c [of 0] by auto
  obtain e s2 where fn2: "fn (purge (clock 0) s) = (Inl e, s2)" "inv s2" "kept W name (view (purge (clock 0) s)) (view s2)"
    "holds W name held (view s2)"
    using fn purge_inv [OF inv] purge_holds [OF inv _ held] c [of 0] unfolding always_fails_def by (meson zero_le)
  have h4: "holds W name held (view (purge (clock 4) s2))" using purge_holds [OF fn2(2) _ fn2(4)] c [of 4] by simp
  have k2: "kept W name (view s) (view (purge (clock 4) s2))"
    using purge_retains [OF inv] purge_retains [OF fn2(2)] fn2(3) c [of 0] c [of 4] retains_trans by (metis zero_le numeral_le_iff semiring_norm(68,69,71,73))
  obtain s3 ia where add: "AddUserLoginAttempt bk (\<lambda>i. clock (3 + i)) newID name \<lparr>la_Time = clock 2, la_Success = False\<rparr> AttemptTTL s2 = (Inr (), s3)"
    "inv s3" "view s3 = (view (purge (clock 4) s2))(?k \<mapsto> ia)" "it_Value ia = StAttempt \<lparr>la_Time = clock 2, la_Success = False\<rparr>"
    "it_Expires ia = clock 3 + AttemptTTL"
    using add_attempt [OF fn2(2) new(2), of "clock 2" "\<lambda>i. clock (3 + i)"] c [of 2] clock(5) by (auto simp: zero_time_def)
  have "W < clock 3 + AttemptTTL" using c [of 3] clock(4) by (simp add: AccountLockInterval_def AttemptTTL_def second_ns_def)
  then have ia: "lives W ia" by (simp add: lives_def add(5))
  have m3: "failures_only name (view s3)" "surviving W name (view s3) = insert ?k (surviving W name (view s))"
    "user_at W name (view s3) i" "\<forall>k. has_prefix k (attempts_key name) \<and> view s k = None \<and> k \<noteq> ?k \<longrightarrow> view s3 k = None"
    using kept_failures [OF k2 failures] kept_surviving [OF k2] kept_user [OF k2 at] kept_None [OF k2] ia add(4)
    by (auto simp: add(3) surviving_update failures_only_def user_at_def)
  obtain as where as: "GetUserLoginAttempts bk (clock 5) name s3 = (Inr as, purge (clock 5) s3)" "\<forall>a\<in>set as. \<not> la_Success a"
    "length as = min 30000 (card {k \<in> dom (view (purge (clock 5) s3)). has_prefix k (attempts_key name)})"
    using get_attempts [OF add(2) m3(1)] by blast
  let ?s4 = "purge (clock 5) s3"
  have inv4: "inv ?s4" using purge_inv [OF add(2)] .
  have "holds W name held (view s3)" using h4 by (simp add: add(3))
  then have h5: "holds W name held (view ?s4)" using purge_holds [OF add(2)] c [of 5] by simp
  have k4: "kept W name (view s3) (view ?s4)" using purge_retains [OF add(2)] c [of 5] by simp
  have m4: "failures_only name (view ?s4)" "surviving W name (view ?s4) = insert ?k (surviving W name (view s))"
    "user_at W name (view ?s4) i" "\<forall>k. has_prefix k (attempts_key name) \<and> view s k = None \<and> k \<noteq> ?k \<longrightarrow> view ?s4 k = None"
    using kept_failures [OF k4 m3(1)] kept_surviving [OF k4] kept_user [OF k4 m3(3)] kept_None [OF k4] m3 by auto
  have "card (surviving W name (view ?s4)) \<le> card {k \<in> dom (view ?s4). has_prefix k (attempts_key name)}"
    using finite_view [OF inv4] by (intro card_mono) (auto simp: surviving_def)
  then have failed: "LastFailed MaxLoginAttempts as" if "5 \<le> card (surviving W name (view ?s4))"
    using that as(2,3) LastFailed_failures [of as MaxLoginAttempts] by (simp add: MaxLoginAttempts_def)
  show ?thesis
  proof (cases "LastFailed MaxLoginAttempts as")
    case False
    then have "WithUserLock c bk clock newID name fn s = (Inl e, ?s4)"
      using u(1,5) free fn2(1) add(1) as(1)
      by (cases "lst_IsLocked (stored_status i)") (simp_all add: WithUserLock_def Let_def)
    then show ?thesis using inv4 m4 failed False h5 by blast
  next
    case True
    let ?u = "SetLocked (clock 6 + AccountLockInterval) ''user has exceeded maximum failed login attempts'' u"
    obtain s5 iu where s5: "UpsertUser c bk (\<lambda>i. clock (7 + i)) ?u ?s4 = (Inr (), s5)" "inv s5"
      "view s5 = (view (purge (clock 7) ?s4))(?p \<mapsto> iu)" "stored_user name iu" "stored_status iu = u_Status ?u" "it_Expires iu = it_Expires i"
      using upsert_user [OF inv4, of ?u "\<lambda>i. clock (7 + i)"] u by auto
    have k5: "kept W name (view ?s4) (view (purge (clock 7) ?s4))" using purge_retains [OF inv4] c [of 7] by simp
    have "lives W iu" using at s5(6) by (simp add: user_at_def lives_def)
    then have m5: "failures_only name (view s5)" "surviving W name (view s5) = insert ?k (surviving W name (view s))"
      "user_at W name (view s5) iu" "\<forall>k. has_prefix k (attempts_key name) \<and> view s k = None \<and> k \<noteq> ?k \<longrightarrow> view s5 k = None"
      using kept_failures [OF k5 m4(1)] kept_surviving [OF k5] kept_None [OF k5] m4 s5(4) attempts_params [of name]
      by (auto simp: s5(3) user_at_def)
    have "locked_over W iu" using s5(5) c [of 6] clock(4) by (simp add: locked_over_def)
    moreover have "WithUserLock c bk clock newID name fn s = (Inl AccessDenied, s5)"
      using True u(1,5) free fn2(1) add(1) as(1) s5(1)
      by (cases "lst_IsLocked (stored_status i)") (simp_all add: WithUserLock_def Let_def)
    moreover have "holds W name held (view s5)" using purge_holds [OF inv4 _ h5] c [of 7] by (simp add: s5(3))
    ultimately show ?thesis using s5(2) m5 by blast
  qed
qed

lemma tries_bound:
  assumes "inv s" "user_at W name (view s) i" "failures_only name (view s)" "calls_between from W calls" "T \<le> from"
    and bounds: "W \<le> T + AccountLockInterval" "0 < T"
    and "\<forall>call\<in>set calls. view s (attempt_key name (lc_newID call)) = None \<and> safe (attempt_key name (lc_newID call)) \<and>
      always_fails inv view W name held (lc_fn call)"
    and "distinct (map lc_newID calls)" "holds W name held (view s)"
  shows "tries c bk name calls s \<le> (if locked_over W i then 0 else max 1 (5 - card (surviving W name (view s))))"
  using assms(1-5,8-10)
proof (induction calls arbitrary: s i "from")
  case (Cons call calls)
  let ?t = "lc_clock call" and ?id = "lc_newID call"
  have clock: "\<forall>j<8. ?t j \<le> ?t (Suc j)" "T \<le> ?t 0" "?t 8 < W" and rest: "calls_between (?t 8) W calls"
    using Cons.prems(4,5) by simp_all
  have c: "?t 0 \<le> W" "?t 1 < W" "T \<le> ?t 8" using calls_clock [OF clock(1), of 1] calls_clock [OF clock(1), of 8] clock(2,3) by simp_all
  obtain u where u: "GetUser c bk (?t 0) name False s = (Inr u, purge (?t 0) s)" "u_Status u = stored_status i"
    using get_user [OF Cons.prems(1,2) c(1)] by blast
  have new: "view s (attempt_key name ?id) = None" "safe (attempt_key name ?id)" "always_fails inv view W name held (lc_fn call)"
    using Cons.prems(6) by simp_all
  show ?case
  proof (cases "lst_IsLocked (stored_status i) \<and> ?t 1 < lst_LockExpires (stored_status i)")
    case True
    have k: "kept W name (view s) (view (purge (?t 0) s))" using purge_retains [OF Cons.prems(1) c(1)] .
    have "tries c bk name calls (purge (?t 0) s) \<le>
        (if locked_over W i then 0 else max 1 (5 - card (surviving W name (view (purge (?t 0) s)))))"
      using kept_user [OF k Cons.prems(2)] kept_failures [OF k Cons.prems(3)] purge_inv [OF Cons.prems(1)] rest c(3) Cons.prems(6,7)
        kept_None [OF k] purge_holds [OF Cons.prems(1) c(1) Cons.prems(8)]
      by (intro Cons.IH) (auto simp: attempt_key_eq)
    moreover have "snd (run_call c bk name call s) = purge (?t 0) s" "\<not> admits c bk ?t name s"
      using True u by (simp_all add: run_call_def WithUserLock_def admits_def)
    ultimately show ?thesis by (simp add: kept_surviving [OF k] split: if_splits)
  next
    case False
    obtain e s' i' where s': "WithUserLock c bk ?t ?id name (lc_fn call) s = (Inl e, s')" "inv s'" "user_at W name (view s') i'"
      "failures_only name (view s')" "surviving W name (view s') = insert (attempt_key name ?id) (surviving W name (view s))"
      "\<forall>k. has_prefix k (attempts_key name) \<and> view s k = None \<and> k \<noteq> attempt_key name ?id \<longrightarrow> view s' k = None"
      "5 \<le> card (surviving W name (view s')) \<longrightarrow> locked_over W i'" "holds W name held (view s')"
      using failed_call [OF Cons.prems(1-3) clock bounds new(1,2) Cons.prems(8) new(3) False] by blast
    have "attempt_key name ?id \<notin> surviving W name (view s)" using new(1) by (simp add: surviving_def)
    moreover have "finite (surviving W name (view s))"
      by (rule finite_subset [OF _ finite_view [OF Cons.prems(1)]]) (auto simp: surviving_def)
    ultimately have card: "card (surviving W name (view s')) = Suc (card (surviving W name (view s)))" by (simp add: s'(5))
    have "view s' (attempt_key name (lc_newID x)) = None" if x: "x \<in> set calls" for x
    proof -
      have "lc_newID x \<noteq> ?id" using Cons.prems(7) imageI [OF x, of lc_newID] by auto
      then have "attempt_key name (lc_newID x) \<noteq> attempt_key name ?id" by (simp add: attempt_key_eq)
      moreover have "view s (attempt_key name (lc_newID x)) = None" "has_prefix (attempt_key name (lc_newID x)) (attempts_key name)"
        using Cons.prems(6) x by (simp_all add: attempt_key_eq)
      ultimately show ?thesis using s'(6) by blast
    qed
    then have "tries c bk name calls s' \<le> (if locked_over W i' then 0 else max 1 (5 - card (surviving W name (view s'))))"
      using s'(2-4,8) rest c(3) Cons.prems(6,7) by (intro Cons.IH) simp_all
    moreover have "\<not> locked_over W i" using False c(2) by (auto simp: locked_over_def)
    moreover have "snd (run_call c bk name call s) = s'" "admits c bk ?t name s"
      using s'(1) u False by (simp_all add: run_call_def admits_def)
    ultimately show ?thesis using s'(7) card by (auto split: if_splits)
  qed
qed simp

text \<open>A wrong password is such an authentication.\<close>

lemma wrong_password_fails:
  assumes "held (users_key [name, pwdPrefix]) = Some i" "it_Value i = StBytes hash" "\<not> bcrypt_Compare c hash password" "t \<le> W"
    "safe (users_key [name, pwdPrefix])"
  shows "always_fails inv view W name held (checkPasswordWOToken c bk t name password)"
  unfolding always_fails_def
proof (intro allI impI)
  fix s
  assume s: "inv s \<and> holds W name held (view s)"
  then have p: "view (purge t s) (users_key [name, pwdPrefix]) = Some i"
    using purge_holds [of s t W held] assms(1,4) by (simp add: holds_def)
  have "checkPasswordWOToken c bk t name password s = (Inl BadParameter, s) \<or>
      checkPasswordWOToken c bk t name password s = (Inl BadParameter, purge t s)"
    using get [of s "users_key [name, pwdPrefix]" t] s p assms(2,3,5) named
    by (simp add: checkPasswordWOToken_def GetPasswordHash_def get_bytes_def)
  then show "\<exists>e s'. checkPasswordWOToken c bk t name password s = (Inl e, s') \<and> inv s' \<and> kept W name (view s) (view s') \<and>
      holds W name held (view s')"
    using s purge_retains [of s t W] purge_holds [of s t W held] purge_inv [of s t] assms(4) retains_refl by metis
qed

end

interpretation login_mem: login_store "memory_backend cfg" memory_inv memory_view "removeExpired cfg" "\<lambda>k. k \<noteq> []" c "x # name"
  for cfg c x name
  by unfold_locales (simp_all add: params_key_def attempts_key_def users_key_def Key_def)

end
