(* ===== verification/Login_Facts.thy ===== *)
theory Login_Facts
  imports Login_Safety
begin

text \<open>
  More of what local authentication does to the store: passwords are checked against the one stored last, a used
  one-time token is refused while it is remembered, a password without its second factor does not authenticate.
\<close>

section \<open>Passwords\<close>

lemma authenticateUser_password_only:
  assumes "authenticateUser c bk pref lock_clock clock newID req s = (Inr d, s')" "ar_U2F req = None" "ar_OTP req = None"
  shows "\<exists>p. pref = Inr p \<and> (ap_SecondFactor p = SecondFactorOff \<or>
    ap_SecondFactor p = SecondFactorOptional \<and>
    fst (GetMFADevices bk (clock 1) (ar_Username req) s) \<in> {Inr [], Inl NotFound})"
proof -
  obtain g s1 where g: "GetMFADevices bk (clock (Suc 0)) (ar_Username req) s = (g, s1)" by fastforce
  show ?thesis
    using assms by (cases g) (auto simp: authenticateUser_def Let_def g split: sum.splits option.splits if_splits)
qed

context login_store
begin

lemma put_spec:
  "inv s \<Longrightarrow> safe (it_Key i) \<Longrightarrow> b_Put bk t i s = (r, s') \<Longrightarrow>
     is_ok r \<and> inv s' \<and> (\<exists>j. view s' = (view (purge t s))(it_Key i \<mapsto> i\<lparr>it_ID := j\<rparr>))"
  using put [of s i t] by auto

lemma get_user_state:
  "inv s \<Longrightarrow> GetUser c bk t name False s = (r, s') \<Longrightarrow> s' = purge t s"
  using get [of s "params_key name" t] safe_login(1) named
  by (auto simp: GetUser_def params_key_def split: prod.splits sum.splits option.splits)

lemma create_user_inv:
  assumes "inv s" "user_name u = name" "create_user_item c bk clock u s = (r, s')"
  shows "inv s'"
proof -
  have n: "user_name u1 = name" if "ValidateUser c u = Inr u1" for u1
    using that assms(2) by (auto simp: ValidateUser_def user_check user_name_def with_defaults_def split: if_splits option.splits sum.splits)
  obtain g s1 where g: "GetUser c bk (clock 0) name False s = (g, s1)" by fastforce
  have s1: "inv s1" using get_user_state [OF assms(1) g] purge_inv [OF assms(1)] by simp
  have k: "safe (it_Key (user_item u1 v 0))" if "user_name u1 = name" for u1 v
    using that safe_login(1) by (simp add: user_item_def stored_item_def params_key_def)
  show ?thesis
  proof (cases "ValidateUser c u")
    case (Inl e)
    then show ?thesis using assms by (simp add: create_user_item_def)
  next
    case (Inr u1)
    show ?thesis
    proof (cases "g = Inl NotFound \<and> is_ok (MarshalUser c (WithoutSecrets u1))")
      case False
      then show ?thesis
        using assms(3) Inr n [OF Inr] g s1
        by (cases g; cases "MarshalUser c (WithoutSecrets u1)") (auto simp: create_user_item_def split: if_splits)
    next
      case True
      then obtain v where v: "MarshalUser c (WithoutSecrets u1) = Inr v" by (auto simp: is_ok_iff)
      obtain l s2 where "b_Create bk (clock 1) (user_item u1 v 0) s1 = (l, s2)" by fastforce
      moreover from this have "inv s2" using create [OF s1 k [OF n [OF Inr], of v], of "clock 1"] by auto
      ultimately show ?thesis
        using assms(3) Inr n [OF Inr] g True v by (cases l) (auto simp: create_user_item_def)
    qed
  qed
qed

lemma put_password:
  assumes "inv s" "safe (users_key [name, pwdPrefix])" "UpsertPasswordHash c bk clock name hash s = (Inr (), s')"
  shows "inv s' \<and> (\<exists>i. view s' (users_key [name, pwdPrefix]) = Some i \<and> it_Value i = StBytes hash \<and> it_Expires i = zero_time)"
proof -
  let ?i = "stored_item (users_key [name, pwdPrefix]) (StBytes hash) zero_time 0"
  obtain u where u: "NewUser name = Inr u"
    using assms(3) by (cases "NewUser name") (auto simp: UpsertPasswordHash_def)
  then have "user_name u = name" by (auto simp: NewUser_def user_check user_name_def with_defaults_def named_metadata_def split: if_splits)
  obtain r s1 where c: "create_user_item c bk clock u s = (r, s1)" by fastforce
  have s1: "inv s1" using create_user_inv [OF assms(1) \<open>user_name u = name\<close> c] .
  obtain l s2 where p: "b_Put bk (clock 2) ?i s1 = (l, s2)" by fastforce
  have "s' = s2"
    using assms(3) u c p by (cases r; cases l) (auto simp: UpsertPasswordHash_def split: if_splits)
  then show ?thesis using put_spec [OF s1 _ p] assms(2) by (auto simp: stored_item_def)
qed

text \<open>A password that was just stored is accepted, as long as nobody changes it: its item never expires.\<close>

lemma stored_password_checks:
  assumes "inv s" "safe (users_key [name, pwdPrefix])" "UpsertPassword c bk clock name password s = (Inr (), s')"
    and "\<And>hash. bcrypt_Generate c password = Inr hash \<Longrightarrow> bcrypt_Compare c hash password"
  shows "fst (checkPasswordWOToken c bk t name password s') = Inr ()"
proof -
  obtain hash where v: "is_ok (VerifyPassword password)" "bcrypt_Generate c password = Inr hash"
    "UpsertPasswordHash c bk clock name hash s = (Inr (), s')"
    using assms(3) by (auto simp: UpsertPassword_def split: sum.splits if_splits)
  obtain i where i: "inv s'" "view s' (users_key [name, pwdPrefix]) = Some i" "it_Value i = StBytes hash" "it_Expires i = zero_time"
    using put_password [OF assms(1,2) v(3)] by blast
  then have "view (purge t s') (users_key [name, pwdPrefix]) = Some i"
    using purge_lives [OF i(1,2)] by (simp add: lives_def is_zero_time_def)
  then show ?thesis
    using get [OF i(1) assms(2), of t] i(3) v(1) assms(4) [OF v(2)] named
    by (simp add: checkPasswordWOToken_def GetPasswordHash_def get_bytes_def)
qed

text \<open>With its second factor, too, a wrong password fails before the second factor is looked at.\<close>

lemma wrong_password_OTP_fails:
  assumes "always_fails inv view W name held (checkPasswordWOToken c bk (clock 0) name password)"
  shows "always_fails inv view W name held (checkPassword c bk clock name password otpToken)"
  using assms unfolding always_fails_def checkPassword_def by fastforce

end

section \<open>One-time tokens\<close>

definition used_key :: "string \<Rightarrow> string" where
  "used_key name = users_key [name, usedTOTPPrefix]"

definition hotp_key :: "string \<Rightarrow> string" where
  "hotp_key name = users_key [name, hotpPrefix]"

definition mfa_key :: "string \<Rightarrow> string" where
  "mfa_key name = users_key [name, mfaDevicePrefix]"

lemma key_prefixes [simp]:
  "\<not> has_prefix (used_key name) (mfa_key name)" "\<not> has_prefix (hotp_key name) (mfa_key name)" "used_key name \<noteq> hotp_key name" "hotp_key name \<noteq> used_key name"
  "has_prefix (it_Key (device_item name d)) (mfa_key name)"
  by (simp_all add: used_key_def hotp_key_def mfa_key_def device_item_def stored_item_def users_key_def Key_def prefix_defs has_prefix_iff)

text \<open>The token is remembered as used until some time, and the account has no counter-based generator.\<close>

definition remembers :: "string \<Rightarrow> string \<Rightarrow> time \<Rightarrow> (string \<Rightarrow> stored item option) \<Rightarrow> bool" where
  "remembers name otpToken until m \<longleftrightarrow>
     (\<exists>i. m (used_key name) = Some i \<and> it_Value i = StBytes otpToken \<and> until \<le> it_Expires i) \<and> m (hotp_key name) = None"

lemma remembers_retained:
  assumes "retains W (\<lambda>k. \<not> has_prefix k (mfa_key name)) m m'" "remembers name otpToken until m" "W < until"
  shows "remembers name otpToken until m'"
proof -
  obtain i where i: "m (used_key name) = Some i" "it_Value i = StBytes otpToken" "until \<le> it_Expires i" "m (hotp_key name) = None"
    using assms(2) by (auto simp: remembers_def)
  then have "lives W i" using assms(3) by (simp add: lives_def)
  then show ?thesis
    using retains_lives [OF assms(1) _ i(1)] retains_None [OF assms(1) _ i(4)] i(2,3) by (simp add: remembers_def)
qed

context login_store
begin

lemma get_devices_state:
  "inv s \<Longrightarrow> safe (mfa_key name) \<Longrightarrow> GetMFADevices bk t name s = (r, s') \<Longrightarrow> s' = purge t s"
proof -
  assume a: "inv s" "safe (mfa_key name)" "GetMFADevices bk t name s = (r, s')"
  have "RangeEnd (mfa_key name) \<noteq> []"
    unfolding RangeEnd_def using nextKey_range [of "mfa_key name" "mfa_key name"]
    by (auto simp: mfa_key_def users_key_def Key_def Separator_def)
  then show "s' = purge t s"
    using a(3) get_range [OF a(1,2)] named by (simp add: GetMFADevices_def Let_def mfa_key_def)
qed

lemma GetHOTP_state:
  assumes "inv s" "safe (hotp_key name)" "GetHOTP c bk t name s = (r, s')"
  shows "s' = purge t s \<and> (r = Inl NotFound \<longrightarrow> view s' (hotp_key name) = None)"
proof -
  have "as_bytes x \<noteq> Inl NotFound" for x by (cases x) simp_all
  then show ?thesis
    using get [OF assms(1,2), of t] assms(3) named
    by (auto simp: GetHOTP_def get_bytes_def hotp_key_def split: option.splits sum.splits if_splits)
qed

lemma upsert_device:
  assumes "inv s" "\<And>parts. safe (users_key (name # parts))" "clock 0 \<le> W" "clock 1 \<le> W"
    "UpsertMFADevice bk clock name d s = (r, s')"
  shows "inv s' \<and> retains W (\<lambda>k. \<not> has_prefix k (mfa_key name)) (view s) (view s')"
proof (cases "MFADevice_CheckAndSetDefaults d")
  case (Inl e)
  then show ?thesis using assms(1,5) named by (simp add: UpsertMFADevice_def)
next
  case (Inr d1)
  let ?P = "\<lambda>k. \<not> has_prefix k (mfa_key name)"
  obtain g s1 where g: "GetMFADevices bk (clock 0) name s = (g, s1)" by fastforce
  have "s1 = purge (clock 0) s" using get_devices_state [OF assms(1) _ g] assms(2) by (simp add: mfa_key_def)
  then have s1: "inv s1" "retains W ?P (view s) (view s1)"
    using purge_inv [OF assms(1)] purge_retains [OF assms(1,3)] by simp_all
  show ?thesis
  proof (cases "s' = s1")
    case True
    then show ?thesis using s1 by simp
  next
    case False
    obtain r2 s2 where p: "b_Put bk (clock 1) (device_item name d1) s1 = (r2, s2)" by fastforce
    have "s' = s2"
      using assms(5) named Inr g p False by (cases g; cases r2) (auto simp: UpsertMFADevice_def split: if_splits)
    moreover have "safe (it_Key (device_item name d1))" using assms(2) by (simp add: device_item_def stored_item_def)
    ultimately obtain j where "inv s'" "view s' = (view (purge (clock 1) s1))(it_Key (device_item name d1) \<mapsto> (device_item name d1)\<lparr>it_ID := j\<rparr>)"
      using put_spec [OF s1(1) _ p] by auto
    then show ?thesis
      using retains_trans [OF s1(2) purge_retains [OF s1(1) assms(4)]] by (simp add: retains_update)
  qed
qed

lemma check_totp:
  assumes inv: "inv s" and safe: "\<And>parts. safe (users_key (name # parts))"
    and clock: "\<And>j. t0 \<le> clock j" "\<And>j. clock j \<le> W" "W < t0 + usedTOTPTTL"
    and hotp: "view s (hotp_key name) = None" and r: "checkTOTP c bk clock name otpToken dev s = (r, s')"
  shows "inv s' \<and> view s' (hotp_key name) = None \<and> (is_ok r \<longrightarrow> remembers name otpToken (t0 + usedTOTPTTL) (view s'))"
proof (cases "s' = s \<and> \<not> is_ok r")
  case True
  then show ?thesis using inv hotp by simp
next
  case False
  let ?i = "stored_item (used_key name) (StBytes otpToken) (clock 1 + usedTOTPTTL) 0"
  obtain l s1 where p: "b_Put bk (clock 2) ?i s = (l, s1)" by fastforce
  then obtain j where s1: "is_ok l" "inv s1" "view s1 = (view (purge (clock 2) s))(used_key name \<mapsto> ?i\<lparr>it_ID := j\<rparr>)"
    using put_spec [OF inv _ p] safe by (auto simp: stored_item_def used_key_def)
  have "view (purge (clock 2) s) (hotp_key name) = None"
    using purge_old [OF inv, of "clock 2" "hotp_key name"] hotp by (cases "view (purge (clock 2) s) (hotp_key name)") auto
  then have rem: "remembers name otpToken (t0 + usedTOTPTTL) (view s1)"
    using clock(1) [of 1] by (simp add: remembers_def s1(3) stored_item_def)
  let ?dev = "dev\<lparr>mfa_LastUsed := clock 3\<rparr>"
  obtain r2 s2 where d: "UpsertMFADevice bk (\<lambda>i. clock (4 + i)) name ?dev s1 = (r2, s2)" by fastforce
  have "s' = s2"
    using r False p d s1(1) named
    by (cases l; cases r2)
      (auto simp: checkTOTP_def UpsertUsedTOTPToken_def used_key_def numeral_2_eq_2 split: option.splits sum.splits if_splits)
  moreover have "inv s2 \<and> retains W (\<lambda>k. \<not> has_prefix k (mfa_key name)) (view s1) (view s2)"
    by (rule upsert_device [OF s1(2) safe _ _ d]) (simp_all add: clock(2))
  ultimately show ?thesis using remembers_retained [OF _ rem clock(3)] by (simp add: remembers_def)
qed

lemma check_totp_devices:
  assumes "\<And>parts. safe (users_key (name # parts))"
    and "\<And>j. t0 \<le> clock j" "\<And>j. clock j \<le> W" "W < t0 + usedTOTPTTL"
    and "inv s" "view s (hotp_key name) = None" "check_totp_devices c bk clock n name otpToken devs s = (Inr dev, s')"
  shows "inv s' \<and> remembers name otpToken (t0 + usedTOTPTTL) (view s')"
  using assms(5-)
proof (induction devs arbitrary: n s)
  case (Cons d devs)
  show ?case
  proof (cases "GetTotp d")
    case None
    then show ?thesis using Cons by simp
  next
    case (Some key)
    obtain r s1 where r: "checkTOTP c bk (\<lambda>i. clock (n + i)) name otpToken d s = (r, s1)" by fastforce
    note t = check_totp [OF Cons.prems(1) assms(1) _ _ assms(4) Cons.prems(2) r, OF assms(2,3)]
    show ?thesis
    proof (cases r)
      case (Inl e)
      then show ?thesis using Cons.IH [of s1 "n + 6"] Cons.prems(3) Some r t by simp
    next
      case (Inr d1)
      then show ?thesis using Cons.prems(3) Some r t by auto
    qed
  qed
qed simp

lemma used_token_remembered:
  assumes safe: "\<And>parts. safe (users_key (name # parts))"
    and clock: "\<And>j. t0 \<le> clock j" "\<And>j. clock j \<le> W" "W < t0 + usedTOTPTTL"
    and inv: "inv s" and check: "checkOTP c bk clock name otpToken s = (Inr (Some dev), s')"
  shows "inv s' \<and> remembers name otpToken (t0 + usedTOTPTTL) (view s')"
proof -
  have none: "view (purge t x) k = None" if "inv x" "view x k = None" for t x k
    using purge_old [OF that(1), of t k] that(2) by (cases "view (purge t x) k") auto
  obtain g s1 where g: "GetHOTP c bk (clock 0) name s = (g, s1)" by fastforce
  obtain u s2 where u: "GetUsedTOTPToken bk (clock 1) name s1 = (u, s2)" by fastforce
  obtain ds s3 where ds: "GetMFADevices bk (clock 2) name s2 = (ds, s3)" by fastforce
  have gn: "g = Inl NotFound"
    using check g by (cases g) (auto simp: checkOTP_def getOTPType_def split: prod.splits sum.splits if_splits)
  then obtain usedToken devs where ok: "u = Inr usedToken" "ds = Inr devs"
    "check_totp_devices c bk clock 3 name otpToken devs s3 = (Inr dev, s')"
    using check g u ds
    by (cases u; cases ds) (auto simp: checkOTP_def getOTPType_def numeral_2_eq_2 split: if_splits prod.splits sum.splits)
  have s1: "s1 = purge (clock 0) s" "inv s1" "view s1 (hotp_key name) = None"
    using GetHOTP_state [OF inv _ g] safe gn purge_inv [OF inv] by (auto simp: hotp_key_def)
  have "s2 = purge (clock 1) s1"
    using u get [OF s1(2), of "used_key name" "clock 1"] safe named
    by (auto simp: GetUsedTOTPToken_def used_key_def split: option.splits)
  then have s2: "inv s2" "view s2 (hotp_key name) = None" using purge_inv [OF s1(2)] none [OF s1(2,3)] by simp_all
  have "s3 = purge (clock 2) s2" using get_devices_state [OF s2(1) _ ds] safe by (simp add: mfa_key_def)
  then have s3: "inv s3" "view s3 (hotp_key name) = None" using purge_inv [OF s2(1)] none [OF s2] by simp_all
  show ?thesis by (rule check_totp_devices [OF safe clock s3 ok(3)])
qed

lemma remembered_token_refused:
  assumes "inv s" "remembers name otpToken until (view s)" "clock 0 < until" "clock 1 < until"
    "\<And>parts. safe (users_key (name # parts))"
  shows "fst (checkOTP c bk clock name otpToken s) = Inl BadParameter"
proof -
  obtain i where i: "view s (used_key name) = Some i" "it_Value i = StBytes otpToken" "until \<le> it_Expires i"
    "view s (hotp_key name) = None"
    using assms(2) by (auto simp: remembers_def)
  have "view (purge (clock 0) s) (hotp_key name) = None"
    using purge_old [OF assms(1), of "clock 0" "hotp_key name"] i(4) by (cases "view (purge (clock 0) s) (hotp_key name)") auto
  then have "GetHOTP c bk (clock 0) name s = (Inl NotFound, purge (clock 0) s)"
    using get [OF assms(1), of "hotp_key name" "clock 0"] assms(5) named by (simp add: GetHOTP_def get_bytes_def hotp_key_def)
  moreover have "view (purge (clock 0) s) (used_key name) = Some i"
    using purge_lives [OF assms(1) i(1)] i(3) assms(3) by (simp add: lives_def)
  then have "view (purge (clock 1) (purge (clock 0) s)) (used_key name) = Some i"
    using purge_lives [OF purge_inv [OF assms(1)]] i(3) assms(4) by (simp add: lives_def)
  then have "GetUsedTOTPToken bk (clock 1) name (purge (clock 0) s) = (Inr otpToken, purge (clock 1) (purge (clock 0) s))"
    using get [OF purge_inv [OF assms(1)], of "used_key name" "clock 1"] assms(5) named i(2)
    by (simp add: GetUsedTOTPToken_def used_key_def)
  ultimately show ?thesis by (simp add: checkOTP_def getOTPType_def)
qed

end

end
