(* ===== verification/Reset_Facts.thy ===== *)
theory Reset_Facts
  imports Login_Facts
begin

text \<open>
  A reset token works once: what changes a password with it removes it, and nothing that runs after that stores
  another token.
\<close>

definition shrinks :: "(string \<Rightarrow> bool) \<Rightarrow> (string \<Rightarrow> stored item option) \<Rightarrow> (string \<Rightarrow> stored item option) \<Rightarrow> bool" where
  "shrinks P m m' \<longleftrightarrow> (\<forall>k i. P k \<and> m' k = Some i \<longrightarrow> m k = Some i)"

lemma shrinks_refl [simp]: "shrinks P m m" by (simp add: shrinks_def)

lemma shrinks_trans: "shrinks P m m1 \<Longrightarrow> shrinks P m1 m2 \<Longrightarrow> shrinks P m m2"
  unfolding shrinks_def by blast

lemma shrinks_update: "shrinks P m m1 \<Longrightarrow> \<not> P k \<Longrightarrow> shrinks P m (m1(k := x))"
  by (auto simp: shrinks_def)

lemma shrinks_None: "shrinks P m m' \<Longrightarrow> P k \<Longrightarrow> m k = None \<Longrightarrow> m' k = None"
  unfolding shrinks_def by (metis not_None_eq option.distinct(1))

definition is_token_key :: "string \<Rightarrow> bool" where
  "is_token_key k \<longleftrightarrow> has_prefix k (token_key [])"

lemma users_keys [simp]: "\<not> is_token_key (users_key parts)"
  by (simp add: is_token_key_def token_key_def users_key_def Key_def passwordTokensPrefix_def)

lemma token_keys [simp]: "is_token_key (token_key parts)"
  unfolding is_token_key_def by (rule has_prefix_iff [THEN iffD2]) (auto simp: token_key_def Key_def)

declare RangeEnd_Key [simp]

text \<open>The items whose key starts with a prefix.\<close>

lemma range_items_prefix:
  assumes "finite (dom m)"
  shows "set (range_items m (Key (p # ps)) (RangeEnd (Key (p # ps)))) = {i. \<exists>k. m k = Some i \<and> has_prefix k (Key (p # ps))}"
    and "length (range_items m (Key (p # ps)) (RangeEnd (Key (p # ps)))) = card {k \<in> dom m. has_prefix k (Key (p # ps))}"
  using assms by (auto simp: range_items_def range_keys_def Key_range image_iff) force

lemma token_under: "has_prefix (token_key (name # parts)) (token_key [name])"
  using has_prefix_append [of "token_key [name]" "Key parts"] by (simp add: token_key_def Key_def)

lemma read_tokens_set:
  assumes "read_tokens is = Inr ts" "i \<in> set is" "has_suffix (it_Key i) paramsPrefix" "it_Value i = StToken t"
  shows "t \<in> set ts"
  using assms
proof (induction "is" arbitrary: ts)
  case (Cons j "is")
  then show ?case
    by (auto simp: UnmarshalResetPasswordToken_def split: if_splits sum.splits)
qed simp

definition token_at :: "string \<Rightarrow> string \<Rightarrow> stored item \<Rightarrow> bool" where
  "token_at user tokenID i \<longleftrightarrow>
     it_Key i = token_key [tokenID, paramsPrefix] \<and> (\<exists>t. it_Value i = StToken t \<and> rt_User t = user \<and> rt_name t = tokenID)"

locale identity_store = kv_keyed bk inv view purge safe
  for bk :: "('s, stored) backend" and inv and view :: "'s \<Rightarrow> string \<Rightarrow> stored item option" and purge and safe +
  fixes c :: crypto
begin

abbreviation tame :: "'s \<Rightarrow> 's \<Rightarrow> bool" where
  "tame s s' \<equiv> inv s' \<and> shrinks is_token_key (view s) (view s')"

lemma tame_trans: "tame s s1 \<Longrightarrow> tame s1 s2 \<Longrightarrow> tame s s2"
  using shrinks_trans by blast

lemma purge_tame: "inv s \<Longrightarrow> tame s (purge t s)"
  using purge_inv purge_old unfolding shrinks_def by blast

lemma safe_users [simp]: "safe (users_key parts)"
  using all_safe(1) by (simp add: users_key_def)

lemma safe_token [simp]: "safe (token_key parts)"
  using all_safe(1) by (simp add: token_key_def)

lemma put_tame:
  assumes "inv s" "safe (it_Key i)" "\<not> is_token_key (it_Key i)" "b_Put bk t i s = (r, s')"
  shows "tame s s' \<and> is_ok r"
proof -
  obtain l j where "r = Inr l" "inv s'" "view s' = (view (purge t s))(it_Key i \<mapsto> i\<lparr>it_ID := j\<rparr>)"
    using put [OF assms(1,2), of t] assms(4) by auto
  then show ?thesis using purge_tame [OF assms(1), of t] assms(3) by (simp add: shrinks_update)
qed

lemma get_state: "inv s \<Longrightarrow> safe k \<Longrightarrow> b_Get bk t k s = (r, s') \<Longrightarrow> s' = purge t s"
  using get by simp

lemma get_bytes_tame: "inv s \<Longrightarrow> safe k \<Longrightarrow> get_bytes dec bk t k s = (r, s') \<Longrightarrow> tame s s'"
  using get [of s k t] purge_tame [of s t] by (simp add: get_bytes_def split: option.splits)

lemma devices_tame: "inv s \<Longrightarrow> GetMFADevices bk t user s = (r, s') \<Longrightarrow> tame s s'"
proof (cases "user = []")
  case False
  assume a: "inv s" "GetMFADevices bk t user s = (r, s')"
  have "RangeEnd (users_key [user, mfaDevicePrefix]) \<noteq> []"
    unfolding RangeEnd_def using nextKey_range [of "users_key [user, mfaDevicePrefix]" "users_key [user, mfaDevicePrefix]"]
    by (auto simp: users_key_def Key_def Separator_def)
  then have "s' = purge t s" using a(2) get_range [OF a(1)] False by (simp add: GetMFADevices_def Let_def)
  then show "tame s s'" using purge_tame [OF a(1)] by simp
qed (simp add: GetMFADevices_def)

lemma upsert_device_tame:
  assumes "inv s" "UpsertMFADevice bk clock user d s = (r, s')"
  shows "tame s s'"
proof (cases "s' = s")
  case False
  obtain d1 where d1: "MFADevice_CheckAndSetDefaults d = Inr d1" and u: "user \<noteq> []"
    using assms(2) False by (cases "MFADevice_CheckAndSetDefaults d") (auto simp: UpsertMFADevice_def split: if_splits)
  obtain g s1 where g: "GetMFADevices bk (clock 0) user s = (g, s1)" by fastforce
  note s1 = devices_tame [OF assms(1) g]
  obtain r2 s2 where p: "b_Put bk (clock 1) (device_item user d1) s1 = (r2, s2)" by fastforce
  have "safe (it_Key (device_item user d1))" "\<not> is_token_key (it_Key (device_item user d1))"
    by (simp_all add: device_item_def stored_item_def)
  then have s2: "tame s1 s2" using put_tame [OF _ _ _ p] s1 by blast
  have "s' = s1 \<or> s' = s2"
    using assms(2) u d1 g p by (cases g; cases r2) (auto simp: UpsertMFADevice_def split: if_splits)
  then show ?thesis using s1 s2 tame_trans by blast
qed (simp add: assms(1))

lemma check_totp_tame:
  assumes "inv s" "checkTOTP c bk clock user otpToken dev s = (r, s')"
  shows "tame s s'"
proof (cases "s' = s")
  case False
  let ?i = "stored_item (users_key [user, usedTOTPPrefix]) (StBytes otpToken) (clock 1 + usedTOTPTTL) 0"
  let ?dev = "dev\<lparr>mfa_LastUsed := clock 3\<rparr>"
  obtain l s1 where p: "b_Put bk (clock 2) ?i s = (l, s1)" by fastforce
  have s1: "tame s s1" "is_ok l" using put_tame [OF assms(1) _ _ p] by (simp_all add: stored_item_def)
  obtain r2 s2 where d: "UpsertMFADevice bk (\<lambda>i. clock (4 + i)) user ?dev s1 = (r2, s2)" by fastforce
  have "s' = s2"
    using assms(2) False p d s1(2)
    by (cases l; cases r2)
      (auto simp: checkTOTP_def UpsertUsedTOTPToken_def numeral_2_eq_2 split: option.splits sum.splits if_splits)
  moreover have "tame s1 s2" using upsert_device_tame [OF _ d] s1(1) by blast
  ultimately show ?thesis using tame_trans s1(1) by blast
qed (simp add: assms(1))

lemma register_tame:
  assumes "inv s" "RegisterVerify c bk clock newID params s = (r, s')"
  shows "tame s s'"
proof -
  obtain g s1 where g: "GetU2FRegisterChallenge bk (clock 0) (rp_ChallengeStorageKey params) s = (g, s1)" by fastforce
  have s1: "tame s s1"
    using g assms(1) get_bytes_tame [OF assms(1) all_safe(1), of as_challenge "clock 0" u2fRegChalPrefix "[rp_ChallengeStorageKey params]" g s1]
    by (cases "rp_ChallengeStorageKey params = []") (simp_all add: GetU2FRegisterChallenge_def)
  obtain ds s2 where ds: "GetMFADevices bk (clock 2) (rp_RegistrationStorageKey params) s1 = (ds, s2)" by fastforce
  have s2: "tame s1 s2" using devices_tame [OF _ ds] s1 by blast
  have "s' = s1 \<or> s' = s2 \<or> (\<exists>dev r3. UpsertMFADevice bk (\<lambda>i. clock (3 + i)) (rp_RegistrationStorageKey params) dev s2 = (r3, s'))"
    using assms(2) g ds
    by (auto simp: RegisterVerify_def Let_def numeral_2_eq_2 split: sum.splits prod.splits if_splits)
  then show ?thesis using upsert_device_tame [of s2] s1 s2 tame_trans by metis
qed

lemma secrets_tame: "inv s \<Longrightarrow> GetResetPasswordTokenSecrets bk t tokenID s = (r, s') \<Longrightarrow> tame s s'"
  using get_bytes_tame [of s "token_key [tokenID, secretsPrefix]" as_secrets t]
  by (auto simp: GetResetPasswordTokenSecrets_def split: sum.splits prod.splits)

lemma second_factor_tame:
  assumes "inv s" "changeUserSecondFactor c bk cap clock newID req token s = (r, s')"
  shows "tame s s'"
proof (cases "s' = s")
  case False
  show ?thesis
  proof (cases "ct_SecondFactorToken req = []")
    case True
    then have "\<exists>params r3. RegisterVerify c bk clock newID params s = (r3, s')"
      using assms(2) False
      by (auto simp: changeUserSecondFactor_def Let_def unit_of_def split: if_splits option.splits sum.splits prod.splits)
    then obtain params r3 where "RegisterVerify c bk clock newID params s = (r3, s')" by blast
    then show ?thesis by (rule register_tame [OF assms(1)])
  next
    case given: False
    then have use: "changeUserSecondFactor c bk cap clock newID req token s =
        (case GetResetPasswordTokenSecrets bk (clock 0) (ct_TokenID req) s of
           (Inl e, s1) \<Rightarrow> (Inl e, s1)
         | (Inr secrets, s1) \<Rightarrow>
             (case NewTOTPDevice c newID ''otp'' (rts_OTPKey secrets) (clock 1) of
                Inl e \<Rightarrow> (Inl e, s1)
              | Inr dev \<Rightarrow>
                  (case checkTOTP c bk (\<lambda>i. clock (2 + i)) (rt_User token) (ct_SecondFactorToken req) dev s1 of
                     (Inl e, s2) \<Rightarrow> (Inl e, s2)
                   | (Inr dev1, s2) \<Rightarrow> UpsertMFADevice bk (\<lambda>i. clock (8 + i)) (rt_User token) dev1 s2)))"
      using assms(2) False by (simp add: changeUserSecondFactor_def Let_def split: if_splits)
    obtain g s1 where g: "GetResetPasswordTokenSecrets bk (clock 0) (ct_TokenID req) s = (g, s1)" by fastforce
    note s1 = secrets_tame [OF assms(1) g]
    show ?thesis
    proof (cases "s' = s1")
      case False
      then obtain secrets dev where dev: "g = Inr secrets" "NewTOTPDevice c newID ''otp'' (rts_OTPKey secrets) (clock 1) = Inr dev"
        using use g assms(2) by (auto split: sum.splits)
      obtain t s2 where t: "checkTOTP c bk (\<lambda>i. clock (2 + i)) (rt_User token) (ct_SecondFactorToken req) dev s1 = (t, s2)" by fastforce
      have s2: "tame s s2" using check_totp_tame [OF _ t] s1 tame_trans by blast
      show ?thesis
      proof (cases t)
        case (Inl e)
        then have "s' = s2" using use g dev t assms(2) by simp
        then show ?thesis using s2 by simp
      next
        case (Inr dev1)
        then have "UpsertMFADevice bk (\<lambda>i. clock (8 + i)) (rt_User token) dev1 s2 = (r, s')" using use g dev t assms(2) by simp
        then show ?thesis using upsert_device_tame [of s2] s2 tame_trans by blast
      qed
    qed (use s1 in simp)
  qed
qed (simp add: assms(1))

lemma delete_token:
  assumes "inv s" "DeleteResetPasswordToken bk clock tokenID s = (Inr (), s')"
  shows "tame s s' \<and> view s' (token_key (tokenID # parts)) = None"
proof -
  let ?k = "token_key [tokenID]"
  obtain g s1 where g: "GetResetPasswordToken bk (clock 0) tokenID s = (g, s1)" by fastforce
  have s1: "tame s s1"
    using get_bytes_tame [OF assms(1), of "token_key [tokenID, paramsPrefix]" as_token "clock 0"] g
    by (auto simp: GetResetPasswordToken_def split: prod.splits sum.splits)
  obtain r where "b_DeleteRange bk (clock 1) ?k (RangeEnd ?k) s1 = (r, s')"
    using assms(2) g by (auto simp: DeleteResetPasswordToken_def Let_def split: sum.splits)
  then have s': "inv s'" "view s' = (\<lambda>k. if ?k \<le> k \<and> k < RangeEnd ?k then None else view (purge (clock 1) s1) k)"
    using delete_range [of s1 ?k "RangeEnd ?k" "clock 1"] s1 all_safe(2) safe_token [of "[tokenID]"]
    by (auto simp: token_key_def simp del: safe_token)
  have "shrinks is_token_key (view s) (view (purge (clock 1) s1))" using purge_tame s1 tame_trans by blast
  then have "tame s s'" using s' by (auto simp: shrinks_def)
  moreover have "?k \<le> token_key (tokenID # parts) \<and> token_key (tokenID # parts) < RangeEnd ?k"
    using token_under [of tokenID parts] Key_range [of passwordTokensPrefix "[tokenID]"] by (simp add: token_key_def)
  ultimately show ?thesis using s'(2) by simp
qed

lemma delete_tokens_all:
  assumes "inv s" "delete_tokens bk clock n user ts s = (Inr (), s')"
  shows "tame s s' \<and> (\<forall>t\<in>set ts. rt_User t = user \<longrightarrow> view s' (token_key (rt_name t # parts)) = None)"
  using assms
proof (induction ts arbitrary: n s)
  case (Cons t ts)
  show ?case
  proof (cases "rt_User t = user")
    case False
    then show ?thesis using Cons by simp
  next
    case True
    obtain s1 where d: "DeleteResetPasswordToken bk (\<lambda>i. clock (n + i)) (rt_name t) s = (Inr (), s1)"
      "delete_tokens bk clock (n + 2) user ts s1 = (Inr (), s')"
      using Cons.prems(2) True by (auto split: prod.splits sum.splits)
    note s1 = delete_token [OF Cons.prems(1) d(1), of parts]
    then have "tame s1 s' \<and> (\<forall>t\<in>set ts. rt_User t = user \<longrightarrow> view s' (token_key (rt_name t # parts)) = None)"
      using Cons.IH [OF _ d(2)] by blast
    then show ?thesis using s1 tame_trans shrinks_None [of is_token_key "view s1" "view s'"] by auto
  qed
qed simp

lemma delete_user_tokens:
  assumes inv: "inv s" and d: "deleteResetPasswordTokens bk clock user s = (Inr (), s')"
    and i: "\<And>i. view s (token_key [tokenID, paramsPrefix]) = Some i \<Longrightarrow> token_at user tokenID i"
    and few: "card {k \<in> dom (view s). is_token_key k} \<le> 30000"
  shows "tame s s' \<and> view s' (token_key [tokenID, paramsPrefix]) = None"
proof -
  let ?k = "token_key [tokenID, paramsPrefix]" and ?s = "purge (clock 0) s" and ?a = "token_key []"
  let ?is = "range_items (view ?s) ?a (RangeEnd ?a)"
  have s: "tame s ?s" using purge_tame [OF inv] .
  have fin: "finite (dom (view s))" "finite (dom (view ?s))" using finite_view inv s by blast+
  have "{k \<in> dom (view ?s). is_token_key k} \<subseteq> {k \<in> dom (view s). is_token_key k}" using purge_old [OF inv] by blast
  moreover have "finite {k \<in> dom (view s). is_token_key k}" using fin(1) by simp
  ultimately have "card {k \<in> dom (view ?s). is_token_key k} \<le> 30000" using few card_mono le_trans by blast
  then have "length ?is \<le> 30000"
    using range_items_prefix(2) [OF fin(2), of passwordTokensPrefix "[]"] by (simp add: token_key_def is_token_key_def)
  then have "b_GetRange bk (clock 0) ?a (RangeEnd ?a) NoLimit s = (Inr ?is, ?s)"
    using get_range [OF inv safe_token [of "[]"], where b = "RangeEnd ?a" and now = "clock 0" and limit = NoLimit] \<open>length ?is \<le> 30000\<close>
    by (simp add: range_limit_def NoLimit_def DefaultLargeLimit_def token_key_def)
  then obtain ts where ts: "read_tokens ?is = Inr ts" "delete_tokens bk clock 1 user ts ?s = (Inr (), s')"
    using d by (auto simp: deleteResetPasswordTokens_def GetResetPasswordTokens_def split: sum.splits)
  note t = delete_tokens_all [OF _ ts(2), of "[paramsPrefix]"]
  have "view s' ?k = None"
  proof (cases "view ?s ?k")
    case None
    then show ?thesis using t s shrinks_None [of is_token_key "view ?s" "view s'" ?k] token_keys by blast
  next
    case (Some j)
    then have "token_at user tokenID j" using i purge_old [OF inv] by blast
    then obtain tok where tok: "it_Key j = ?k" "it_Value j = StToken tok" "rt_User tok = user" "rt_name tok = tokenID"
      by (auto simp: token_at_def)
    have "j \<in> set ?is"
      using Some range_items_prefix(1) [OF fin(2), of passwordTokensPrefix "[]"] token_keys [of "[tokenID, paramsPrefix]"]
      by (auto simp: is_token_key_def token_key_def)
    moreover have "has_suffix (it_Key j) paramsPrefix"
      by (simp add: tok(1) token_key_def Key_def has_suffix_iff)
    ultimately have "tok \<in> set ts" using read_tokens_set [OF ts(1)] tok(2) by blast
    then have "rt_User tok = user \<longrightarrow> view s' (token_key [rt_name tok, paramsPrefix]) = None"
      by (rule bspec [OF conjunct2 [OF t [OF conjunct1 [OF s]]]])
    then show ?thesis using tok(3,4) by simp
  qed
  then show ?thesis using t [OF conjunct1 [OF s]] s tame_trans by blast
qed

lemma get_user_tame: "inv s \<Longrightarrow> GetUser c bk t user False s = (r, s') \<Longrightarrow> tame s s'"
proof -
  assume a: "inv s" "GetUser c bk t user False s = (r, s')"
  have "s' = s \<or> s' = purge t s"
    using a(2) get [OF a(1), of "users_key [user, paramsPrefix]" t]
    by (auto simp: GetUser_def split: sum.splits option.splits if_splits)
  then show "tame s s'" using purge_tame [OF a(1)] a(1) by auto
qed

lemma create_user_tame:
  assumes "inv s" "create_user_item c bk clock u s = (r, s')"
  shows "tame s s'"
proof (cases "ValidateUser c u")
  case (Inl e)
  then show ?thesis using assms by (simp add: create_user_item_def)
next
  case (Inr u1)
  obtain g s1 where g: "GetUser c bk (clock 0) (user_name u1) False s = (g, s1)" by fastforce
  note s1 = get_user_tame [OF assms(1) g]
  show ?thesis
  proof (cases "g = Inl NotFound \<and> is_ok (MarshalUser c (WithoutSecrets u1))")
    case False
    then show ?thesis
      using assms(2) Inr g s1
      by (cases g; cases "MarshalUser c (WithoutSecrets u1)") (auto simp: create_user_item_def split: if_splits)
  next
    case True
    then obtain v where v: "MarshalUser c (WithoutSecrets u1) = Inr v" by (auto simp: is_ok_iff)
    obtain l s2 where p: "b_Create bk (clock 1) (user_item u1 v 0) s1 = (l, s2)" by fastforce
    have "safe (it_Key (user_item u1 v 0))" "\<not> is_token_key (it_Key (user_item u1 v 0))"
      by (simp_all add: user_item_def stored_item_def)
    then have "tame (purge (clock 1) s1) s2"
      using create [of s1 "user_item u1 v 0" "clock 1"] s1 p by (auto simp: shrinks_update)
    then have "tame s s2" using purge_tame s1 tame_trans by blast
    then show ?thesis using assms(2) Inr g True v p by (cases l) (auto simp: create_user_item_def)
  qed
qed

lemma upsert_password_tame:
  assumes "inv s" "UpsertPassword c bk clock user password s = (Inr (), s')"
  shows "tame s s'"
proof -
  obtain hash where "UpsertPasswordHash c bk clock user hash s = (Inr (), s')"
    using assms(2) by (auto simp: UpsertPassword_def split: if_splits sum.splits)
  then obtain u where h: "NewUser user = Inr u" "UpsertPasswordHash c bk clock user hash s = (Inr (), s')"
    by (cases "NewUser user") (auto simp: UpsertPasswordHash_def)
  let ?i = "stored_item (users_key [user, pwdPrefix]) (StBytes hash) zero_time 0"
  obtain r s1 where c: "create_user_item c bk clock u s = (r, s1)" by fastforce
  note s1 = create_user_tame [OF assms(1) c]
  obtain l s2 where p: "b_Put bk (clock 2) ?i s1 = (l, s2)" by fastforce
  have "s' = s2" using h c p by (cases r; cases l) (auto simp: UpsertPasswordHash_def split: if_splits)
  then show ?thesis using put_tame [OF _ _ _ p] s1 tame_trans by (auto simp: stored_item_def)
qed

text \<open>What changes a password with a token uses the token up.\<close>

theorem token_used_up:
  assumes inv: "inv s" and change: "changePasswordWithToken c bk pref clock newID req s = (Inr u, s')"
    and i: "view s (token_key [ct_TokenID req, paramsPrefix]) = Some i" "token_at user (ct_TokenID req) i"
    and few: "card {k \<in> dom (view s). is_token_key k} \<le> 30000"
  shows "inv s' \<and> view s' (token_key [ct_TokenID req, paramsPrefix]) = None"
proof -
  let ?k = "token_key [ct_TokenID req, paramsPrefix]"
  obtain cap where cap: "pref = Inr cap" using change by (cases pref) (auto simp: changePasswordWithToken_def)
  obtain token s1 where token: "GetResetPasswordToken bk (clock 0 0) (ct_TokenID req) s = (Inr token, s1)"
    using change cap by (auto simp: changePasswordWithToken_def split: if_splits sum.splits prod.splits)
  obtain s2 where s2: "changeUserSecondFactor c bk cap (clock 1) newID req token s1 = (Inr (), s2)"
    using change cap token by (auto simp: changePasswordWithToken_def split: if_splits sum.splits prod.splits)
  obtain s3 where s3: "deleteResetPasswordTokens bk (clock 2) (rt_User token) s2 = (Inr (), s3)"
    using change cap token s2 by (auto simp: changePasswordWithToken_def split: if_splits sum.splits prod.splits)
  obtain s4 where s4: "UpsertPassword c bk (clock 3) (rt_User token) (ct_Password req) s3 = (Inr (), s4)"
    "GetUser c bk (clock 4 0) (rt_User token) False s4 = (Inr u, s')"
    using change cap token s2 s3 by (auto simp: changePasswordWithToken_def split: if_splits sum.splits prod.splits)
  obtain stored where st: "get_bytes as_token bk (clock 0 0) ?k s = (Inr stored, s1)" "UnmarshalResetPasswordToken stored = Inr token"
    using token by (auto simp: GetResetPasswordToken_def split: prod.splits sum.splits)
  then have "token = stored" by (auto simp: UnmarshalResetPasswordToken_def split: sum.splits)
  have t1: "tame s s1" by (rule get_bytes_tame [OF inv _ st(1)]) simp
  have "view (purge (clock 0 0) s) ?k = Some i"
    using st(1) get [OF inv, of ?k "clock 0 0"] purge_old [OF inv, of "clock 0 0" ?k] i(1)
    by (auto simp: get_bytes_def split: option.splits)
  then have "rt_User token = user"
    using st(1) get [OF inv, of ?k "clock 0 0"] i(2) \<open>token = stored\<close> by (auto simp: get_bytes_def token_at_def)
  have t2: "tame s s2" using second_factor_tame [OF _ s2] t1 tame_trans by blast
  have at: "token_at (rt_User token) (ct_TokenID req) j" if "view s2 ?k = Some j" for j
    using that t2 i \<open>rt_User token = user\<close> token_keys [of "[ct_TokenID req, paramsPrefix]"] unfolding shrinks_def by fastforce
  have "{k \<in> dom (view s2). is_token_key k} \<subseteq> {k \<in> dom (view s). is_token_key k}" using t2 unfolding shrinks_def by blast
  moreover have "finite {k \<in> dom (view s). is_token_key k}" using finite_view [OF inv] by simp
  ultimately have "card {k \<in> dom (view s2). is_token_key k} \<le> 30000" using few card_mono le_trans by blast
  then have s3': "tame s2 s3" "view s3 ?k = None" using delete_user_tokens [OF _ s3 at] t2 by blast+
  have "tame s3 s4" using upsert_password_tame [OF _ s4(1)] s3' by blast
  moreover from this have "tame s4 s'" using get_user_tame [OF _ s4(2)] by blast
  ultimately show ?thesis using s3'(2) shrinks_None token_keys by metis
qed

lemma no_token_no_change:
  assumes "inv s" "view s (token_key [ct_TokenID req, paramsPrefix]) = None"
  shows "\<not> is_ok (fst (changePasswordWithToken c bk pref clock newID req s))"
proof -
  let ?k = "token_key [ct_TokenID req, paramsPrefix]"
  have "view (purge t s) ?k = None" for t
    using purge_old [OF assms(1), of t ?k] assms(2) by (cases "view (purge t s) ?k") auto
  then have "GetResetPasswordToken bk t (ct_TokenID req) s = (Inl NotFound, purge t s)" for t
    using get [OF assms(1), of ?k t] by (simp add: GetResetPasswordToken_def get_bytes_def)
  then show ?thesis by (simp add: changePasswordWithToken_def split: sum.splits)
qed

end

interpretation identity_mem: identity_store "memory_backend cfg" memory_inv memory_view "removeExpired cfg" "\<lambda>k. k \<noteq> []" c
  for cfg c ..

end
