(* ===== verification/Login_Properties.thy ===== *)
theory Login_Properties
  imports Reset_Facts Backend_Properties
begin

text \<open>
  The properties of local authentication over the memory backend, with the stores and the cryptography that the
  witnesses compute with: the plain text stands for the hash, any key parses, and a one-time token is valid for the
  ninety seconds that a period of thirty and a skew of one allow.
\<close>

section \<open>Examples\<close>

definition toy_crypto :: crypto where
  "toy_crypto =
     \<lparr>bcrypt_Cost = (\<lambda>_. Inr ()), bcrypt_Compare = (=), bcrypt_Generate = Inr, parse_ecdsa_key = (\<lambda>_. True),
      totp_Validate = (\<lambda>token key t. Inr (token = key \<and> t < 100 * second_ns)), hotp_Unmarshal = (\<lambda>_. True),
      hotp_Scan = (\<lambda>otp token n. (otp = token, otp)), u2f_Authenticate = (\<lambda>resp ch key n. Inr (n + 1)),
      u2f_Register = (\<lambda>resp ch. Inr (resp, ch)), u2f_attested = (\<lambda>_ _. True)\<rparr>"

definition stored_alice :: user where
  "stored_alice = (case NewUser ''alice'' of Inr u \<Rightarrow> u)"

definition alice_items :: "stored item list" where
  "alice_items =
     [stored_item (params_key ''alice'') (StUser stored_alice) zero_time 0,
      stored_item (users_key [''alice'', pwdPrefix]) (StBytes ''Secret123456'') zero_time 0]"

lemma alice_keys: "params_key ''alice'' = ''/web/users/alice/params''" "users_key [''alice'', pwdPrefix] = ''/web/users/alice/pwd''"
  by code_simp+

lemma alice_view:
  "memory_inv (created alice_items)"
  "memory_view (created alice_items) =
     [params_key ''alice'' \<mapsto> stored_item (params_key ''alice'') (StUser stored_alice) zero_time 0,
      users_key [''alice'', pwdPrefix] \<mapsto> stored_item (users_key [''alice'', pwdPrefix]) (StBytes ''Secret123456'') zero_time 0]"
proof -
  have "distinct (map it_Key alice_items)" "\<forall>i\<in>set alice_items. it_Key i \<noteq> [] \<and> lives 1 i"
    by (simp_all add: alice_items_def stored_item_def alice_keys lives_def is_zero_time_def)
  from created_view [OF this] show "memory_inv (created alice_items)"
    "memory_view (created alice_items) =
     [params_key ''alice'' \<mapsto> stored_item (params_key ''alice'') (StUser stored_alice) zero_time 0,
      users_key [''alice'', pwdPrefix] \<mapsto> stored_item (users_key [''alice'', pwdPrefix]) (StBytes ''Secret123456'') zero_time 0]"
    by (simp_all add: alice_items_def stored_item_def alice_keys fun_upd_twist)
qed

lemma alice_stored: "stored_user ''alice'' (stored_item k (StUser stored_alice) zero_time n)"
proof -
  have "u_Version stored_alice = ''v2''" "is_ok (Metadata_CheckAndSetDefaults (u_Metadata stored_alice))" "u_OIDCIdentities stored_alice = []"
    "u_LocalAuth stored_alice = None" "user_name stored_alice = ''alice''" "user_Expiry stored_alice = zero_time"
    by code_simp+
  then show ?thesis by (simp add: stored_user_def stored_item_def user_ok_def metadata_ok_def is_zero_time_def)
qed

section \<open>Guessing passwords\<close>







section \<open>Reset tokens\<close>

definition off_pref :: auth_preference where
  "off_pref =
     \<lparr>ap_Kind = [], ap_Version = [], ap_Metadata = named_metadata ''cluster-auth-preference'', ap_Type = ''local'',
      ap_SecondFactor = SecondFactorOff, ap_ConnectorName = [], ap_U2F = None, ap_RequireSessionMFA = False,
      ap_DisconnectExpiredCert = Some False, ap_AllowLocalAuth = Some True, ap_MessageOfTheDay = [],
      ap_LockingMode = ''best_effort''\<rparr>"

definition alice_token :: reset_token where
  "alice_token =
     \<lparr>rt_Kind = [], rt_Version = [], rt_Metadata = (named_metadata ''t1'')\<lparr>md_Expires := Some 5000\<rparr>, rt_User = ''alice'',
      rt_URL = [], rt_Created = 1\<rparr>"

definition token_items :: "stored item list" where
  "token_items = stored_item (token_key [''t1'', paramsPrefix]) (StToken alice_token) 5000 0 # alice_items"

definition use_token :: change_with_token where
  "use_token = \<lparr>ct_SecondFactorToken = [], ct_TokenID = ''t1'', ct_Password = ''Other1234567'', ct_U2FRegisterResponse = None\<rparr>"

definition at_ten :: "nat \<Rightarrow> nat \<Rightarrow> time" where
  "at_ten i j = 10"

abbreviation alice_changes :: "user result \<times> stored memory" where
  "alice_changes \<equiv>
     changePasswordWithToken toy_crypto (memory_backend plain_memory) (Inr off_pref) at_ten ''x'' use_token (created token_items)"

lemma token_keys_alice: "token_key [''t1'', paramsPrefix] = ''/resetpasswordtokens/t1/params''"
  by code_simp

lemma token_view:
  "memory_inv (created token_items)"
  "memory_view (created token_items) = map_of (map (\<lambda>i. (it_Key i, i)) token_items)"
  "memory_view (created token_items) (token_key [''t1'', paramsPrefix]) =
     Some (stored_item (token_key [''t1'', paramsPrefix]) (StToken alice_token) 5000 0)"
  "memory_view (created token_items) (params_key ''alice'') = Some (stored_item (params_key ''alice'') (StUser stored_alice) zero_time 0)"
proof -
  have "distinct (map it_Key token_items)" "\<forall>i\<in>set token_items. it_Key i \<noteq> [] \<and> lives 1 i"
    by (simp_all add: token_items_def alice_items_def stored_item_def alice_keys token_keys_alice lives_def is_zero_time_def)
  from created_view [OF this]
  show v: "memory_inv (created token_items)" "memory_view (created token_items) = map_of (map (\<lambda>i. (it_Key i, i)) token_items)"
    by simp_all
  show "memory_view (created token_items) (token_key [''t1'', paramsPrefix]) =
      Some (stored_item (token_key [''t1'', paramsPrefix]) (StToken alice_token) 5000 0)"
    "memory_view (created token_items) (params_key ''alice'') = Some (stored_item (params_key ''alice'') (StUser stored_alice) zero_time 0)"
    unfolding v(2) by (simp_all add: token_items_def alice_items_def stored_item_def alice_keys token_keys_alice)
qed

lemma some_keys [simp]: "Key (q # qs) \<noteq> []" "token_key parts \<noteq> []" "users_key parts \<noteq> []"
  by (simp_all add: Key_def token_key_def users_key_def)

lemma keep_live:
  "memory_inv m \<Longrightarrow> memory_view m k = Some i \<Longrightarrow> lives W i \<Longrightarrow> t \<le> W \<Longrightarrow> memory_view (removeExpired cfg t m) k = Some i"
  using mem.purge_lives [of m k i t cfg] by (auto simp: lives_def)

lemma user_atD: "user_at W name m i \<Longrightarrow> m (params_key name) = Some i" "user_at W name m i \<Longrightarrow> lives W i"
  by (simp_all add: user_at_def)

lemma get_live_token:
  assumes "memory_inv m" "memory_view m (token_key [tokenID, paramsPrefix]) = Some i" "lives W i" "t \<le> W"
    and "it_Value i = StToken token" "is_ok (rt_CheckAndSetDefaults token)"
  shows "GetResetPasswordToken (memory_backend cfg) t tokenID m = (Inr token, removeExpired cfg t m)"
  using mem.get [OF assms(1), of "token_key [tokenID, paramsPrefix]" cfg t] keep_live [OF assms(1-4), of cfg] assms(5,6)
  by (auto simp: GetResetPasswordToken_def get_bytes_def UnmarshalResetPasswordToken_def is_ok_iff)

lemma only_token_deleted:
  assumes m: "memory_inv m" "memory_view m (token_key [tokenID, paramsPrefix]) = Some i" "lives W i" "it_Value i = StToken token"
      "\<And>k. is_token_key k \<Longrightarrow> k \<noteq> token_key [tokenID, paramsPrefix] \<Longrightarrow> memory_view m k = None"
    and token: "rt_User token = name" "rt_name token = tokenID" "is_ok (rt_CheckAndSetDefaults token)"
    and clock: "\<And>n. clock n \<le> W"
  shows "\<exists>m'. deleteResetPasswordTokens (memory_backend cfg) clock name m = (Inr (), m') \<and> memory_inv m' \<and>
    (\<forall>k j. \<not> is_token_key k \<longrightarrow> memory_view m k = Some j \<longrightarrow> lives W j \<longrightarrow> memory_view m' k = Some j)"
proof -
  let ?bk = "memory_backend cfg" and ?k = "token_key [tokenID, paramsPrefix]" and ?a = "token_key []" and ?s = "token_key [tokenID]"
  let ?m0 = "removeExpired cfg (clock 0) m" and ?m1 = "removeExpired cfg (clock 1) (removeExpired cfg (clock 0) m)"
  let ?is = "range_items (memory_view ?m0) ?a (RangeEnd ?a)"
  have m0: "memory_inv ?m0" "memory_view ?m0 ?k = Some i" "memory_inv ?m1"
    using m clock by (simp_all add: mem.purge_inv keep_live)
  have key: "it_Key i = ?k" using mem.view_key [OF m(1,2)] .
  have "memory_view ?m0 k = None" if "is_token_key k" "k \<noteq> ?k" for k
    using m(5) [OF that] mem.purge_old [OF m(1), of cfg "clock 0" k] by (cases "memory_view ?m0 k") auto
  then have "k \<in> dom (memory_view ?m0) \<and> is_token_key k \<longleftrightarrow> k = ?k" for k
    using m0(2) token_keys [of "[tokenID, paramsPrefix]"] by (cases "k = ?k") (auto simp del: token_keys)
  then have "{k \<in> dom (memory_view ?m0). is_token_key k} = {?k}" by simp
  then have "length ?is = 1" "i \<in> set ?is"
    using range_items_prefix [OF mem.finite_view [OF m0(1)], of passwordTokensPrefix "[]"] m0(2) token_keys [of "[tokenID, paramsPrefix]"]
    by (auto simp: token_key_def is_token_key_def)
  then have "?is = [i]" by (cases ?is) auto
  moreover have "RangeEnd ?a \<noteq> []" by (simp add: token_key_def)
  moreover have "has_suffix ?k paramsPrefix" by (simp add: token_key_def has_suffix_iff Key_def del: some_keys)
  ultimately have tokens: "GetResetPasswordTokens ?bk (clock 0) m = (Inr [token], ?m0)"
    using mem.get_range [OF m(1), of ?a "RangeEnd ?a" cfg "clock 0" NoLimit] token(3) key m(4)
    by (auto simp: GetResetPasswordTokens_def range_limit_def NoLimit_def DefaultLargeLimit_def UnmarshalResetPasswordToken_def is_ok_iff)
  obtain m' where m': "b_DeleteRange ?bk (clock 2) ?s (RangeEnd ?s) ?m1 = (Inr (), m')" "memory_inv m'"
    "memory_view m' = (\<lambda>k. if ?s \<le> k \<and> k < RangeEnd ?s then None else memory_view (removeExpired cfg (clock 2) ?m1) k)"
    using mem.delete_range [OF m0(3), of ?s "RangeEnd ?s" cfg "clock 2"] by (auto simp: token_key_def)
  have "deleteResetPasswordTokens ?bk clock name m = (Inr (), m')"
    using tokens get_live_token [OF m0(1,2) m(3) clock [of 1] m(4) token(3), of cfg] m'(1) token(1,2)
    by (simp add: deleteResetPasswordTokens_def DeleteResetPasswordToken_def numeral_2_eq_2)
  moreover have "memory_view m' k = Some j" if "\<not> is_token_key k" "memory_view m k = Some j" "lives W j" for k j
  proof -
    have "\<not> has_prefix k ?s" using that(1) by (auto simp: is_token_key_def token_key_def Key_def has_prefix_iff)
    then have "\<not> (?s \<le> k \<and> k < RangeEnd ?s)" using Key_range [of passwordTokensPrefix "[tokenID]"] by (simp add: token_key_def)
    moreover have "memory_view (removeExpired cfg (clock 2) ?m1) k = Some j"
      using m(1) m0(1,3) that(2,3) clock by (intro keep_live mem.purge_inv)
    ultimately show ?thesis by (simp add: m'(3))
  qed
  ultimately show ?thesis using m'(2) by blast
qed

lemma known_user_password:
  assumes "memory_inv m" "user_at W name (memory_view m) iu" "\<And>n. clock n \<le> W" "name = x # n"
    and "is_ok (VerifyPassword password)" "bcrypt_Generate c password = Inr hash"
    and new: "NewUser name = Inr u0" "ValidateUser c u0 = Inr u1" "user_name u1 = name"
  shows "\<exists>m' j. UpsertPassword c (memory_backend cfg) clock name password m = (Inr (), m') \<and> memory_inv m' \<and>
    user_at W name (memory_view m') iu \<and>
    memory_view m' (users_key [name, pwdPrefix]) = Some j \<and> it_Value j = StBytes hash \<and> it_Expires j = zero_time"
proof -
  let ?bk = "memory_backend cfg" and ?ki = "users_key [name, pwdPrefix]" and ?m0 = "removeExpired cfg (clock 0) m"
  let ?i = "stored_item ?ki (StBytes hash) zero_time 0"
  obtain u where "GetUser c ?bk (clock 0) name False m = (Inr u, ?m0)"
    using login_mem.get_user [of m W x n iu "clock 0", folded assms(4), OF assms(1-3)] by blast
  then have create: "create_user_item c ?bk clock u0 m = (Inl AlreadyExists, ?m0)" using new by (simp add: create_user_item_def)
  obtain l j m' where m': "b_Put ?bk (clock 2) ?i ?m0 = (Inr l, m')" "memory_inv m'"
    "memory_view m' = (memory_view (removeExpired cfg (clock 2) ?m0))(?ki \<mapsto> ?i\<lparr>it_ID := j\<rparr>)"
    using mem.put [OF mem.purge_inv [OF assms(1), of cfg "clock 0"], of ?i cfg "clock 2"] by (auto simp: stored_item_def)
  have "UpsertPassword c ?bk clock name password m = (Inr (), m')"
    using assms(4-6) new(1) create m'(1) by (auto simp: UpsertPassword_def UpsertPasswordHash_def is_ok_iff)
  moreover have "params_key name \<noteq> ?ki" by (simp add: params_key_def users_key_def Key_def prefix_defs del: some_keys)
  moreover have "memory_view (removeExpired cfg (clock 2) ?m0) (params_key name) = Some iu"
    using assms(1,3) user_atD [OF assms(2)] by (intro keep_live mem.purge_inv) simp_all
  ultimately show ?thesis using assms(2) m'(2,3) by (simp add: user_at_def stored_item_def)
qed

text \<open>A token that is still good, the only one stored, sets the new password of its user, if the account needs no
  second factor.\<close>

lemma reset_token_sets_password:
  assumes m: "memory_inv m" "user_at W name (memory_view m) iu" "name \<noteq> []"
    and i: "memory_view m (token_key [tokenID, paramsPrefix]) = Some i" "lives W i" "it_Value i = StToken token"
      "\<And>k. is_token_key k \<Longrightarrow> k \<noteq> token_key [tokenID, paramsPrefix] \<Longrightarrow> memory_view m k = None"
    and token: "rt_User token = name" "rt_name token = tokenID" "is_ok (rt_CheckAndSetDefaults token)" "clock 0 1 \<le> rt_Expiry token"
    and clock: "\<And>j n. clock j n \<le> W"
    and p: "GetAllowLocalAuth p" "ap_SecondFactor p = SecondFactorOff"
    and req: "ct_TokenID req = tokenID" "is_ok (VerifyPassword (ct_Password req))" "bcrypt_Generate c (ct_Password req) = Inr hash"
    and new: "NewUser name = Inr fresh" "ValidateUser c fresh = Inr checked" "user_name checked = name"
  shows "\<exists>u m' j. changePasswordWithToken c (memory_backend cfg) (Inr p) clock newID req m = (Inr u, m') \<and>
    memory_view m' (users_key [name, pwdPrefix]) = Some j \<and> it_Value j = StBytes hash"
proof -
  let ?bk = "memory_backend cfg" and ?k = "token_key [tokenID, paramsPrefix]" and ?m1 = "removeExpired cfg (clock 0 0) m"
  obtain x n where xn: "name = x # n" using m(3) by (cases name) auto
  have m1: "memory_inv ?m1" "memory_view ?m1 ?k = Some i" "user_at W name (memory_view ?m1) iu"
    using m(1) user_atD [OF m(2)] m(2) i(1,2) clock by (simp_all add: mem.purge_inv keep_live user_at_def)
  have only: "memory_view ?m1 k = None" if "is_token_key k" "k \<noteq> ?k" for k
    using i(4) [OF that] mem.purge_old [OF m(1), of cfg "clock 0 0" k] by (cases "memory_view ?m1 k") auto
  obtain m2 where m2: "deleteResetPasswordTokens ?bk (clock 2) name ?m1 = (Inr (), m2)" "memory_inv m2"
    "\<And>k j. \<not> is_token_key k \<Longrightarrow> memory_view ?m1 k = Some j \<Longrightarrow> lives W j \<Longrightarrow> memory_view m2 k = Some j"
    using only_token_deleted [OF m1(1,2) i(2,3) only token(1-3), where clock = "clock 2" and cfg = cfg] clock by blast
  have "user_at W name (memory_view m2) iu" using m2(3) [of "params_key name" iu] m1(3) by (simp add: user_at_def params_key_def)
  from known_user_password [OF m2(2) this _ xn req(2,3) new, where clock = "clock 3" and cfg = cfg] clock
  obtain m3 j where m3: "UpsertPassword c ?bk (clock 3) name (ct_Password req) m2 = (Inr (), m3)" "memory_inv m3"
    "user_at W name (memory_view m3) iu" "memory_view m3 (users_key [name, pwdPrefix]) = Some j" "it_Value j = StBytes hash"
    "it_Expires j = zero_time" by blast
  obtain u where "GetUser c ?bk (clock 4 0) name False m3 = (Inr u, removeExpired cfg (clock 4 0) m3)"
    using login_mem.get_user [of m3 W x n iu "clock 4 0", folded xn, OF m3(2,3) clock] by blast
  then have "changePasswordWithToken c ?bk (Inr p) clock newID req m = (Inr u, removeExpired cfg (clock 4 0) m3)"
    using p req(1,2) get_live_token [OF m(1) i(1,2) clock i(3) token(3), of cfg] token(1,4) m2(1) m3(1)
    by (auto simp: changePasswordWithToken_def changeUserSecondFactor_def is_ok_iff)
  moreover have "memory_view (removeExpired cfg (clock 4 0) m3) (users_key [name, pwdPrefix]) = Some j"
    using mem.purge_lives [OF m3(2,4)] m3(6) by (simp add: lives_def is_zero_time_def)
  ultimately show ?thesis using m3(5) by blast
qed

text \<open>C26: A token that changed a password, with whatever second factor, changes no other: what is tried with it in the
  state that the change left fails, whoever tries and however the authentication preference has changed.\<close>

theorem reset_token_works_once:
  assumes "memory_inv m" "memory_view m (token_key [ct_TokenID req, paramsPrefix]) = Some i" "token_at name (ct_TokenID req) i"
    and "card {k \<in> dom (memory_view m). is_token_key k} \<le> 30000"
    and "changePasswordWithToken c (memory_backend cfg) pref clock newID req m = (Inr u, m')"
    and "ct_TokenID req' = ct_TokenID req"
  shows "\<not> is_ok (fst (changePasswordWithToken c' (memory_backend cfg) pref' clock' newID' req' m'))"
  using identity_mem.token_used_up [OF assms(1,5,2,3,4)] identity_mem.no_token_no_change [of m' req'] assms(6) by simp

lemma alice_sets_password:
  "\<exists>u m' j. changePasswordWithToken toy_crypto (memory_backend plain_memory) (Inr off_pref) at_ten newID use_token
      (created token_items) = (Inr u, m') \<and>
    memory_view m' (users_key [''alice'', pwdPrefix]) = Some j \<and> it_Value j = StBytes ''Other1234567''"
proof (rule reset_token_sets_password [where W = 800 and name = "''alice''" and tokenID = "''t1''" and token = alice_token and
      fresh = stored_alice and checked = stored_alice and
      i = "stored_item (token_key [''t1'', paramsPrefix]) (StToken alice_token) 5000 0" and
      iu = "stored_item (params_key ''alice'') (StUser stored_alice) zero_time 0"])
  show "user_at 800 ''alice'' (memory_view (created token_items)) (stored_item (params_key ''alice'') (StUser stored_alice) zero_time 0)"
    using alice_stored by (simp add: user_at_def token_view(4)) (simp add: stored_item_def lives_def is_zero_time_def)
  show "memory_view (created token_items) k = None"
    if "is_token_key k" "k \<noteq> token_key [''t1'', paramsPrefix]" for k
    unfolding token_view(2) using that by (auto simp: token_items_def alice_items_def stored_item_def params_key_def)
  show "NewUser ''alice'' = Inr stored_alice" "ValidateUser toy_crypto stored_alice = Inr stored_alice" by code_simp+
  show "user_name stored_alice = ''alice''" "is_ok (rt_CheckAndSetDefaults alice_token)" "is_ok (VerifyPassword (ct_Password use_token))"
    by code_simp+
qed (simp_all add: token_view(1,3) stored_item_def lives_def is_zero_time_def at_ten_def alice_token_def rt_name_def
    rt_Expiry_def named_metadata_def use_token_def off_pref_def GetAllowLocalAuth_def toy_crypto_def)

theorem reset_token_works_once_witness:
  "\<not> is_ok (fst (changePasswordWithToken toy_crypto (memory_backend plain_memory) (Inr off_pref) at_ten ''y''
      (use_token\<lparr>ct_Password := ''Third1234567''\<rparr>) (snd alice_changes)))"
proof -
  obtain u m' where "alice_changes = (Inr u, m')" using alice_sets_password [of "''x''"] by blast
  then have change: "alice_changes = (Inr u, snd alice_changes)" by simp
  show ?thesis
  proof (rule reset_token_works_once [OF token_view(1) _ _ _ change,
        where i = "stored_item (token_key [''t1'', paramsPrefix]) (StToken alice_token) 5000 0" and name = "''alice''"])
    have "{k \<in> dom (memory_view (created token_items)). is_token_key k} \<subseteq> set (map it_Key token_items)"
      by (auto simp: token_view(2) dest!: map_of_SomeD)
    then have "card {k \<in> dom (memory_view (created token_items)). is_token_key k} \<le> length (map it_Key token_items)"
      using card_length card_mono finite_set le_trans by metis
    then show "card {k \<in> dom (memory_view (created token_items)). is_token_key k} \<le> 30000"
      by (simp add: token_items_def alice_items_def)
    show "token_at ''alice'' (ct_TokenID use_token) (stored_item (token_key [''t1'', paramsPrefix]) (StToken alice_token) 5000 0)"
      by (simp add: use_token_def token_at_def stored_item_def alice_token_def rt_name_def named_metadata_def)
  qed (simp_all add: token_view(3) use_token_def)
qed

section \<open>One-time tokens\<close>

definition alice_phone :: mfa_device where
  "alice_phone =
     \<lparr>mfa_Kind = ''mfa_device'', mfa_SubKind = ''TOTP'', mfa_Version = ''v1'', mfa_Metadata = named_metadata ''phone'',
      mfa_Id = ''d1'', mfa_AddedAt = 1, mfa_LastUsed = 1, mfa_Device = Some (TOTPDevice ''123456'')\<rparr>"

definition phone_items :: "stored item list" where
  "phone_items = device_item ''alice'' alice_phone # alice_items"




text \<open>C28: Where neither a one-time token nor a signature of a U2F device is given, nobody is authenticated unless second
  factors are off, or optional and the user has no device.\<close>

theorem second_factor_required:
  assumes "ar_U2F req = None" "ar_OTP req = None" "ap_SecondFactor p \<noteq> SecondFactorOff"
    and "ap_SecondFactor p = SecondFactorOptional \<longrightarrow> fst (GetMFADevices bk (clock 1) (ar_Username req) s) \<notin> {Inr [], Inl NotFound}"
  shows "\<not> is_ok (fst (authenticateUser c bk (Inr p) lock_clock clock newID req s))"
proof
  assume "is_ok (fst (authenticateUser c bk (Inr p) lock_clock clock newID req s))"
  then obtain d s' where "authenticateUser c bk (Inr p) lock_clock clock newID req s = (Inr d, s')"
    by (metis is_ok_iff prod.collapse)
  from authenticateUser_password_only [OF this assms(1,2)] show False using assms(3,4) by auto
qed

theorem second_factor_required_witness:
  "\<not> is_ok (fst (authenticateUser toy_crypto (memory_backend plain_memory) (Inr (off_pref\<lparr>ap_SecondFactor := SecondFactorOTP\<rparr>))
      (\<lambda>_. 100) (\<lambda>_. 100) ''a''
      \<lparr>ar_Username = ''alice'', ar_Pass = Some ''Secret123456'', ar_U2F = None, ar_OTP = None, ar_Session = None\<rparr>
      (created phone_items)))"
  by (rule second_factor_required) (simp_all add: second_factors)

section \<open>Passwords\<close>

text \<open>C29: The password that was stored last is accepted, at any later time, if what bcrypt generates compares equal.\<close>

theorem stored_password_accepted:
  assumes "memory_inv m" "UpsertPassword c (memory_backend cfg) clock name password m = (Inr (), m')"
    and "\<And>hash. bcrypt_Generate c password = Inr hash \<Longrightarrow> bcrypt_Compare c hash password"
  shows "fst (checkPasswordWOToken c (memory_backend cfg) t name password m') = Inr ()"
proof -
  obtain x n where name: "name = x # n" using assms(2) by (cases name) (auto simp: UpsertPassword_def)
  show ?thesis by (rule login_mem.stored_password_checks [of m x n, folded name, OF assms(1) _ assms(2,3)]) simp
qed

lemma alice_user_at: "user_at 800 ''alice'' (memory_view (created alice_items)) (stored_item (params_key ''alice'') (StUser stored_alice) zero_time 0)"
  using alice_stored by (simp add: user_at_def alice_view(2) alice_keys stored_item_def lives_def is_zero_time_def)

theorem stored_password_accepted_witness:
  "\<exists>m'. UpsertPassword toy_crypto (memory_backend plain_memory) (\<lambda>_. 10) ''alice'' ''Other1234567'' (created alice_items) = (Inr (), m') \<and>
    fst (checkPasswordWOToken toy_crypto (memory_backend plain_memory) 20 ''alice'' ''Other1234567'' m') = Inr ()"
proof -
  have a: "is_ok (VerifyPassword ''Other1234567'')" "NewUser ''alice'' = Inr stored_alice"
    "ValidateUser toy_crypto stored_alice = Inr stored_alice" "user_name stored_alice = ''alice''" by code_simp+
  have h: "bcrypt_Generate toy_crypto ''Other1234567'' = Inr ''Other1234567''" by (simp add: toy_crypto_def)
  obtain m' where m': "UpsertPassword toy_crypto (memory_backend plain_memory) (\<lambda>_. 10) ''alice'' ''Other1234567'' (created alice_items) = (Inr (), m')"
    using known_user_password [OF alice_view(1) alice_user_at _ refl a(1) h a(2-4), where cfg = plain_memory and clock = "\<lambda>_. 10"] by auto
  then show ?thesis using stored_password_accepted [OF alice_view(1) m', where t = 20] by (simp add: toy_crypto_def)
qed

section \<open>Generated passwords\<close>

definition nibbles :: "string \<Rightarrow> nat list" where
  "nibbles bs = concat (map (\<lambda>b. [of_char b div 16, of_char b mod 16]) bs)"

lemma nibbles_less: "n \<in> set (nibbles bs) \<Longrightarrow> n < 16"
proof -
  have "(of_char b :: nat) < 256" for b :: char using of_char_mod_256 [of b, where 'a = nat] mod_less_divisor [of 256 "of_char b :: nat"] by simp
  then show "n \<in> set (nibbles bs) \<Longrightarrow> n < 16" by (auto simp: nibbles_def intro!: less_mult_imp_div_less)
qed

lemma hex_digit_classes:
  assumes "n < 16"
  shows "\<not> latin1_upper (hex_digit n)" "latin1_lower (hex_digit n) \<longleftrightarrow> 10 \<le> n" "latin1_digit (hex_digit n) \<longleftrightarrow> n < 10"
    "latin1_upper (ascii_upper (hex_digit n)) \<longleftrightarrow> 10 \<le> n" "\<not> latin1_lower (ascii_upper (hex_digit n))"
    "latin1_digit (ascii_upper (hex_digit n)) \<longleftrightarrow> n < 10"
proof -
  have h: "of_char (hex_digit n) = (if n < 10 then 48 + n else 87 + n)"
    using assms by (simp add: of_char_of)
  show "\<not> latin1_upper (hex_digit n)" "latin1_lower (hex_digit n) \<longleftrightarrow> 10 \<le> n" "latin1_digit (hex_digit n) \<longleftrightarrow> n < 10"
    using assms by (auto simp: latin1_upper_def latin1_lower_def latin1_digit_def h simp del: hex_digit.simps)
  have u: "of_char (ascii_upper (hex_digit n)) = (if n < 10 then 48 + n else 55 + n)"
    using assms by (auto simp: ascii_upper_def Let_def h of_char_of simp del: hex_digit.simps)
  show "latin1_upper (ascii_upper (hex_digit n)) \<longleftrightarrow> 10 \<le> n" "\<not> latin1_lower (ascii_upper (hex_digit n))"
    "latin1_digit (ascii_upper (hex_digit n)) \<longleftrightarrow> n < 10"
    using assms by (auto simp: latin1_upper_def latin1_lower_def latin1_digit_def u simp del: hex_digit.simps)
qed

lemma random_password_eq:
  assumes "bs \<noteq> []"
  shows "random_password bs = map (ascii_upper \<circ> hex_digit) (take 2 (nibbles bs)) @ map hex_digit (drop 2 (nibbles bs))"
proof -
  have "EncodeToString bs = map hex_digit (nibbles bs)"
    by (simp add: EncodeToString_def nibbles_def map_concat Let_def comp_def del: hex_digit.simps)
  moreover have "2 \<le> length (nibbles bs)" using assms by (cases bs) (simp_all add: nibbles_def)
  ultimately show ?thesis by (simp add: random_password_def take_map drop_map del: hex_digit.simps)
qed

text \<open>C38: Which of the generated passwords pass the check of passwords: those with a hexadecimal letter among the first two
  digits, which are the ones in upper case, a letter among the others, and a decimal digit.\<close>

theorem random_password_valid:
  assumes "length bs = ResetPasswordLength"
  shows "is_ok (VerifyPassword (random_password bs)) \<longleftrightarrow>
    (\<exists>n\<in>set (take 2 (nibbles bs)). 10 \<le> n) \<and> (\<exists>n\<in>set (drop 2 (nibbles bs)). 10 \<le> n) \<and> (\<exists>n\<in>set (nibbles bs). n < 10)"
proof -
  have ne: "bs \<noteq> []" using assms by (auto simp: ResetPasswordLength_def)
  have "length (nibbles bs) = 2 * length bs" by (induction bs) (simp_all add: nibbles_def)
  then have len: "length (random_password bs) = 32" using assms by (simp add: random_password_eq [OF ne] ResetPasswordLength_def)
  let ?a = "take 2 (nibbles bs)" and ?b = "drop 2 (nibbles bs)"
  have less: "\<And>n. n \<in> set ?a \<Longrightarrow> n < 16" "\<And>n. n \<in> set ?b \<Longrightarrow> n < 16"
    using nibbles_less by (meson in_set_takeD in_set_dropD)+
  have "set (nibbles bs) = set ?a \<union> set ?b" by (metis append_take_drop_id set_append)
  moreover have "(\<exists>c\<in>set (random_password bs). latin1_upper c) \<longleftrightarrow> (\<exists>n\<in>set ?a. 10 \<le> n)"
    "(\<exists>c\<in>set (random_password bs). latin1_lower c) \<longleftrightarrow> (\<exists>n\<in>set ?b. 10 \<le> n)"
    "(\<exists>c\<in>set (random_password bs). latin1_digit c) \<longleftrightarrow> (\<exists>n\<in>set ?a \<union> set ?b. n < 10)"
    using less hex_digit_classes by (auto simp: random_password_eq [OF ne] bex_Un simp del: hex_digit.simps)
  ultimately show ?thesis
    using len by (auto simp: VerifyPassword_def MinPasswordLength_def MaxPasswordLength_def Let_def is_ok_def)
qed

theorem random_password_valid_witness:
  "\<not> is_ok (VerifyPassword (random_password (replicate 16 (CHR 0x12))))"
proof -
  have "length (replicate 16 (CHR 0x12)) = ResetPasswordLength" by (simp add: ResetPasswordLength_def)
  note valid = random_password_valid [OF this]
  have "n < 10" if "n \<in> set (take 2 (nibbles (replicate k (CHR 0x12))))" for n k
    using in_set_takeD [OF that] by (induction k) (auto simp: nibbles_def)
  then show ?thesis using valid by (meson not_le)
qed

section \<open>Deleting users\<close>

text \<open>C39: Deleting a user removes what is stored under every key that starts with the key of the user, and nothing else.\<close>

theorem DeleteUser_range:
  assumes "memory_inv m"
  shows "case DeleteUser c (memory_backend cfg) clock name m of
      (Inr _, m') \<Rightarrow> memory_inv m' \<and> (\<forall>k. memory_view m' k =
        (if has_prefix k (users_key [name]) then None
         else memory_view (removeExpired cfg (clock 1) (removeExpired cfg (clock 0) m)) k))
    | (Inl _, m') \<Rightarrow> m' = m \<or> m' = removeExpired cfg (clock 0) m"
proof -
  let ?a = "users_key [name]" and ?m = "removeExpired cfg (clock 0) m"
  obtain r m1 where g: "GetUser c (memory_backend cfg) (clock 0) name False m = (r, m1)" by fastforce
  have m1: "m1 = m \<or> m1 = ?m" "is_ok r \<longrightarrow> m1 = ?m"
    using g mem.get [OF assms, of "users_key [name, paramsPrefix]" cfg "clock 0"]
    by (auto simp: GetUser_def is_ok_iff split: if_splits option.splits sum.splits)
  obtain m' where "b_DeleteRange (memory_backend cfg) (clock 1) ?a (RangeEnd ?a) ?m = (Inr (), m')" "memory_inv m'"
    "memory_view m' = (\<lambda>k. if ?a \<le> k \<and> k < RangeEnd ?a then None else memory_view (removeExpired cfg (clock 1) ?m) k)"
    using mem.delete_range [OF mem.purge_inv [OF assms], of ?a "RangeEnd ?a" cfg "clock 1"] by (auto simp: users_key_def)
  then show ?thesis
    using g m1 Key_range [of "''web''" "[''users'', name]"]
    by (cases r) (auto simp: DeleteUser_def Let_def users_key_def)
qed

theorem DeleteUser_range_witness:
  "case DeleteUser toy_crypto (memory_backend plain_memory) (\<lambda>_. 5) ''al'' (created alice_items) of
      (Inr _, m') \<Rightarrow> memory_inv m' \<and> (\<forall>k. memory_view m' k =
        (if has_prefix k (users_key [''al'']) then None
         else memory_view (removeExpired plain_memory 5 (removeExpired plain_memory 5 (created alice_items))) k))
    | (Inl _, m') \<Rightarrow> m' = created alice_items \<or> m' = removeExpired plain_memory 5 (created alice_items)"
  by (rule DeleteUser_range) (simp add: alice_view(1))

text \<open>The keys of a user whose name extends that of another start with the key of the other.\<close>

lemma users_key_prefix: "has_prefix (users_key ((name @ suffix) # parts)) (users_key [name])"
  using has_prefix_append [of "users_key [name]" "suffix @ Key parts"] by (simp add: users_key_def Key_def)

text \<open>What \<open>authenticate\<close> returns does not matter to the lock: a connection problem counts as a wrong password does.\<close>

lemma connection_problem_counts: "always_fails memory_inv memory_view W name held (\<lambda>m. (Inl ConnectionProblem, m))"
  by (simp add: always_fails_def)

end
