(* ===== verification/Access_Store.thy ===== *)
theory Access_Store
  imports Request_Validator Backend
begin

text \<open>
  The store of access requests and of the data that plugins keep with them: \<open>lib/services/local/dynamic_access.go\<close>,
  \<open>api/types/plugin_data.go\<close> and the storage forms in \<open>lib/services\<close>. Updates read an item, compute its successor and
  swap it in; when another one was faster they start again, at most seven times. \<open>others i j\<close> is what other servers do
  before access j of attempt i, \<open>clock i j\<close> its time, and \<open>cancelled i\<close> says that the context is done while attempt i
  waits. A value is stored in JSON; here it is the resource itself, and reading it as the other kind fails.
\<close>

section \<open>Plugin data\<close>

record plugin_data =
  pd_Kind :: string
  pd_SubKind :: string
  pd_Version :: string
  pd_Metadata :: metadata
  pd_Entries :: "(string \<times> (string \<times> string) list) list"

record plugin_update =
  pu_Kind :: string
  pu_Resource :: string
  pu_Plugin :: string
  pu_Set :: "(string \<times> string) list"
  pu_Expect :: "(string \<times> string) list"

record plugin_filter =
  pf_Kind :: string
  pf_Resource :: string
  pf_Plugin :: string

definition KindAccessRequest :: string where
  "KindAccessRequest = ''access_request''"

definition pd_name :: "plugin_data \<Rightarrow> string" where
  "pd_name d = md_Name (pd_Metadata d)"

definition pd_Expiry :: "plugin_data \<Rightarrow> time" where
  "pd_Expiry d = (case md_Expires (pd_Metadata d) of None \<Rightarrow> zero_time | Some t \<Rightarrow> t)"

definition pd_SetExpiry :: "time \<Rightarrow> plugin_data \<Rightarrow> plugin_data" where
  "pd_SetExpiry t d = d\<lparr>pd_Metadata := (pd_Metadata d)\<lparr>md_Expires := Some t\<rparr>\<rparr>"

definition pd_SetResourceID :: "int \<Rightarrow> plugin_data \<Rightarrow> plugin_data" where
  "pd_SetResourceID i d = d\<lparr>pd_Metadata := (pd_Metadata d)\<lparr>md_ID := i\<rparr>\<rparr>"

definition pd_CheckAndSetDefaults :: "plugin_data \<Rightarrow> plugin_data result" where
  "pd_CheckAndSetDefaults d =
     (let d1 = d\<lparr>pd_Kind := ''plugin_data'', pd_Version := V3\<rparr>
      in case Metadata_CheckAndSetDefaults (pd_Metadata d1) of
           Inl e \<Rightarrow> Inl e
         | Inr m \<Rightarrow> if pd_SubKind d1 = [] then Inl BadParameter else Inr (d1\<lparr>pd_Metadata := m\<rparr>))"

definition NewPluginData :: "string \<Rightarrow> string \<Rightarrow> plugin_data result" where
  "NewPluginData resourceName resourceKind =
     pd_CheckAndSetDefaults
       \<lparr>pd_Kind = [], pd_SubKind = resourceKind, pd_Version = [],
        pd_Metadata = \<lparr>md_Name = resourceName, md_Namespace = [], md_Labels = [], md_Expires = None, md_ID = 0\<rparr>,
        pd_Entries = []\<rparr>"

text \<open>What is not there reads as the empty string.\<close>

definition field :: "(string \<times> string) list \<Rightarrow> string \<Rightarrow> string" where
  "field data key = (case map_of data key of None \<Rightarrow> [] | Some val \<Rightarrow> val)"

definition checkExpectations :: "string \<Rightarrow> (string \<times> string) list \<Rightarrow> plugin_data \<Rightarrow> unit result" where
  "checkExpectations plugin expect d =
     (case map_of (pd_Entries d) plugin of
        None \<Rightarrow> if \<exists>(key, val)\<in>set expect. val \<noteq> [] then Inl CompareFailed else Inr ()
      | Some data \<Rightarrow> if \<exists>(key, val)\<in>set expect. field data key \<noteq> val then Inl CompareFailed else Inr ())"

fun set_fields :: "(string \<times> string) list \<Rightarrow> (string \<times> string) list \<Rightarrow> (string \<times> string) list" where
  "set_fields [] data = data"
| "set_fields ((key, val) # rest) data =
     set_fields rest (if val = [] then AList.delete key data else AList.update key val data)"

definition pd_Update :: "plugin_update \<Rightarrow> plugin_data \<Rightarrow> plugin_data result" where
  "pd_Update p d =
     (if pu_Kind p \<noteq> pd_SubKind d then Inl BadParameter
      else if pu_Resource p \<noteq> pd_name d then Inl BadParameter
      else case checkExpectations (pu_Plugin p) (pu_Expect p) d of
             Inl e \<Rightarrow> Inl e
           | Inr _ \<Rightarrow>
               (let data = set_fields (pu_Set p) (case map_of (pd_Entries d) (pu_Plugin p) of None \<Rightarrow> [] | Some data \<Rightarrow> data)
                in Inr (d\<lparr>pd_Entries := if data = [] then AList.delete (pu_Plugin p) (pd_Entries d)
                                       else AList.update (pu_Plugin p) data (pd_Entries d)\<rparr>)))"

definition pf_Match :: "plugin_filter \<Rightarrow> plugin_data \<Rightarrow> bool" where
  "pf_Match f d =
     (if pf_Kind f \<noteq> [] \<and> pf_Kind f \<noteq> pd_SubKind d then False
      else if pf_Resource f \<noteq> [] \<and> pf_Resource f \<noteq> pd_name d then False
      else if pf_Plugin f \<noteq> [] \<and> map_of (pd_Entries d) (pf_Plugin f) = None then False
      else True)"

definition MarshalPluginData :: "plugin_data \<Rightarrow> plugin_data result" where
  "MarshalPluginData d = (case pd_CheckAndSetDefaults d of Inl e \<Rightarrow> Inl e | Inr d1 \<Rightarrow> Inr (pd_SetResourceID 0 d1))"

definition UnmarshalPluginData :: "int \<Rightarrow> time \<Rightarrow> plugin_data \<Rightarrow> plugin_data result" where
  "UnmarshalPluginData resourceID expires stored =
     (case pd_CheckAndSetDefaults stored of
        Inl e \<Rightarrow> Inl e
      | Inr d \<Rightarrow>
          (let d1 = (if resourceID \<noteq> 0 then pd_SetResourceID resourceID d else d)
           in Inr (if \<not> is_zero_time expires then pd_SetExpiry expires d1 else d1)))"

section \<open>Items\<close>

datatype access_stored = StRequest access_request | StPluginData plugin_data

definition request_Expiry :: "access_request \<Rightarrow> time" where
  "request_Expiry r = (case md_Expires (ar_Metadata r) of None \<Rightarrow> zero_time | Some t \<Rightarrow> t)"

definition request_SetResourceID :: "int \<Rightarrow> access_request \<Rightarrow> access_request" where
  "request_SetResourceID i r = r\<lparr>ar_Metadata := (ar_Metadata r)\<lparr>md_ID := i\<rparr>\<rparr>"

text \<open>The request after the check, which fills in its defaults, and what is stored.\<close>

definition MarshalAccessRequest :: "(string \<Rightarrow> bool) \<Rightarrow> access_request \<Rightarrow> (access_request \<times> access_request) result" where
  "MarshalAccessRequest is_uuid req =
     (case ValidateAccessRequest is_uuid req of Inl e \<Rightarrow> Inl e | Inr req1 \<Rightarrow> Inr (req1, request_SetResourceID 0 req1))"

definition UnmarshalAccessRequest :: "(string \<Rightarrow> bool) \<Rightarrow> int \<Rightarrow> time \<Rightarrow> access_request \<Rightarrow> access_request result" where
  "UnmarshalAccessRequest is_uuid resourceID expires stored =
     (case ValidateAccessRequest is_uuid stored of
        Inl e \<Rightarrow> Inl e
      | Inr req \<Rightarrow>
          (let req1 = (if resourceID \<noteq> 0 then request_SetResourceID resourceID req else req)
           in Inr (if \<not> is_zero_time expires then request_SetExpiry expires req1 else req1)))"

definition accessRequestsPrefix :: string where
  "accessRequestsPrefix = ''access_requests''"

definition pluginDataPrefix :: string where
  "pluginDataPrefix = ''plugin_data''"

definition request_paramsPrefix :: string where
  "request_paramsPrefix = ''params''"

definition accessRequestKey :: "string \<Rightarrow> string" where
  "accessRequestKey name = Key [accessRequestsPrefix, name, request_paramsPrefix]"

definition pluginDataKey :: "string \<Rightarrow> string \<Rightarrow> string" where
  "pluginDataKey kind name = Key [pluginDataPrefix, kind, name, request_paramsPrefix]"

definition itemFromAccessRequest :: "(string \<Rightarrow> bool) \<Rightarrow> access_request \<Rightarrow> (access_request \<times> access_stored item) result" where
  "itemFromAccessRequest is_uuid req =
     (case MarshalAccessRequest is_uuid req of
        Inl e \<Rightarrow> Inl e
      | Inr (req1, value) \<Rightarrow>
          Inr (req1, \<lparr>it_Key = accessRequestKey (request_name req1), it_Value = StRequest value, it_Expires = request_Expiry req1,
                      it_ID = md_ID (ar_Metadata req1), it_LeaseID = 0\<rparr>))"

definition itemToAccessRequest :: "(string \<Rightarrow> bool) \<Rightarrow> access_stored item \<Rightarrow> access_request result" where
  "itemToAccessRequest is_uuid i =
     (case it_Value i of
        StRequest stored \<Rightarrow> UnmarshalAccessRequest is_uuid (it_ID i) (it_Expires i) stored
      | StPluginData _ \<Rightarrow> Inl Unclassified)"

text \<open>\<open>size\<close> is the length of the JSON text.\<close>

definition MaxResourceSize :: int where
  "MaxResourceSize = 1000000"

definition itemFromPluginData :: "(plugin_data \<Rightarrow> int) \<Rightarrow> plugin_data \<Rightarrow> access_stored item result" where
  "itemFromPluginData json_size d =
     (case pd_CheckAndSetDefaults d of
        Inl e \<Rightarrow> Inl e
      | Inr d1 \<Rightarrow>
          (case MarshalPluginData d1 of
             Inl e \<Rightarrow> Inl e
           | Inr value \<Rightarrow>
               if json_size value > MaxResourceSize then Inl BadParameter
               else Inr \<lparr>it_Key = pluginDataKey (pd_SubKind d1) (pd_name d1), it_Value = StPluginData value,
                         it_Expires = pd_Expiry d1, it_ID = md_ID (pd_Metadata d1), it_LeaseID = 0\<rparr>))"

definition itemToPluginData :: "access_stored item \<Rightarrow> plugin_data result" where
  "itemToPluginData i =
     (case it_Value i of
        StPluginData stored \<Rightarrow> UnmarshalPluginData (it_ID i) (it_Expires i) stored
      | StRequest _ \<Rightarrow> Inl Unclassified)"

section \<open>Requests\<close>

type_synonym 's access_backend = "('s, access_stored) backend"

definition CreateAccessRequest :: "'s access_backend \<Rightarrow> (string \<Rightarrow> bool) \<Rightarrow> time \<Rightarrow> access_request \<Rightarrow> 's \<Rightarrow> unit result \<times> 's" where
  "CreateAccessRequest bk is_uuid now req s =
     (case ValidateAccessRequest is_uuid req of
        Inl e \<Rightarrow> (Inl e, s)
      | Inr req1 \<Rightarrow>
          (case itemFromAccessRequest is_uuid req1 of
             Inl e \<Rightarrow> (Inl e, s)
           | Inr (_, i) \<Rightarrow>
               (case b_Create bk now i s of (Inl e, s1) \<Rightarrow> (Inl e, s1) | (Inr _, s1) \<Rightarrow> (Inr (), s1))))"

definition UpsertAccessRequest :: "'s access_backend \<Rightarrow> (string \<Rightarrow> bool) \<Rightarrow> time \<Rightarrow> access_request \<Rightarrow> 's \<Rightarrow> unit result \<times> 's" where
  "UpsertAccessRequest bk is_uuid now req s =
     (case ValidateAccessRequest is_uuid req of
        Inl e \<Rightarrow> (Inl e, s)
      | Inr req1 \<Rightarrow>
          (case itemFromAccessRequest is_uuid req1 of
             Inl e \<Rightarrow> (Inl e, s)
           | Inr (_, i) \<Rightarrow>
               (case b_Put bk now i s of (Inl e, s1) \<Rightarrow> (Inl e, s1) | (Inr _, s1) \<Rightarrow> (Inr (), s1))))"

text \<open>What an update makes of the item it has read, and the request it returns.\<close>

definition updated_item ::
  "(string \<Rightarrow> bool) \<Rightarrow> access_request_update \<Rightarrow> access_stored item \<Rightarrow> (access_request \<times> access_stored item) result" where
  "updated_item is_uuid params i =
     (case itemToAccessRequest is_uuid i of
        Inl e \<Rightarrow> Inl e
      | Inr req \<Rightarrow>
          (case SetState (upd_State params) req of
             Inl e \<Rightarrow> Inl e
           | Inr req1 \<Rightarrow>
               (let req2 = req1\<lparr>ar_ResolveReason := upd_Reason params, ar_ResolveAnnotations := upd_Annotations params\<rparr>
                in if \<not> (\<forall>r\<in>set (upd_Roles params). r \<in> set (ar_Roles req2)) then Inl BadParameter
                   else
                     (let req3 = (if upd_Roles params \<noteq> [] then req2\<lparr>ar_Roles := upd_Roles params\<rparr> else req2);
                          req4 = (if IsApproved (upd_State params) then request_SetExpiry (ar_Expires req3) req3 else req3)
                      in itemFromAccessRequest is_uuid req4))))"

definition reviewed_item ::
  "(string \<Rightarrow> bool) \<Rightarrow> (review_checker \<Rightarrow> access_request \<Rightarrow> predicate_parser result) \<Rightarrow> filter_parser \<Rightarrow> review_checker \<Rightarrow>
     access_review \<Rightarrow> access_stored item \<Rightarrow> (access_request \<times> access_stored item) result" where
  "reviewed_item is_uuid newParser newThresholdFilterParser checker review i =
     (case itemToAccessRequest is_uuid i of
        Inl e \<Rightarrow> Inl e
      | Inr req \<Rightarrow>
          (case CanReviewRequest newParser checker req of
             Inl e \<Rightarrow> Inl e
           | Inr ok \<Rightarrow>
               if \<not> ok then Inl AccessDenied
               else case ApplyAccessReview newThresholdFilterParser req review (user_Name (rc_User checker)) of
                      Inl e \<Rightarrow> Inl e
                    | Inr req1 \<Rightarrow> itemFromAccessRequest is_uuid req1))"

definition maxCmpAttempts :: nat where
  "maxCmpAttempts = 7"

text \<open>The loop of both: \<open>step\<close> computes what to swap in.\<close>

fun swap_loop ::
  "'s access_backend \<Rightarrow> (nat \<Rightarrow> nat \<Rightarrow> time) \<Rightarrow> (nat \<Rightarrow> nat \<Rightarrow> 's \<Rightarrow> 's) \<Rightarrow> (nat \<Rightarrow> bool) \<Rightarrow> string \<Rightarrow>
     (access_stored item \<Rightarrow> (access_request \<times> access_stored item) result) \<Rightarrow> nat \<Rightarrow> nat \<Rightarrow> 's \<Rightarrow> access_request result \<times> 's" where
  "swap_loop bk clock others cancelled key next_item i 0 s = (Inl CompareFailed, s)"
| "swap_loop bk clock others cancelled key next_item i (Suc n) s =
     (case b_Get bk (clock i 0) key (others i 0 s) of
        (Inl e, s1) \<Rightarrow> (Inl e, s1)
      | (Inr old, s1) \<Rightarrow>
          (case next_item old of
             Inl e \<Rightarrow> (Inl e, s1)
           | Inr (req, new) \<Rightarrow>
               (case b_CompareAndSwap bk (clock i 1) old new (others i 1 s1) of
                  (Inr _, s2) \<Rightarrow> (Inr req, s2)
                | (Inl e, s2) \<Rightarrow>
                    if e = CompareFailed then
                      (if cancelled i then (Inl Unclassified, s2)
                       else swap_loop bk clock others cancelled key next_item (i + 1) n s2)
                    else (Inl e, s2))))"

definition SetAccessRequestState ::
  "'s access_backend \<Rightarrow> (string \<Rightarrow> bool) \<Rightarrow> (nat \<Rightarrow> nat \<Rightarrow> time) \<Rightarrow> (nat \<Rightarrow> nat \<Rightarrow> 's \<Rightarrow> 's) \<Rightarrow> (nat \<Rightarrow> bool) \<Rightarrow>
     access_request_update \<Rightarrow> 's \<Rightarrow> access_request result \<times> 's" where
  "SetAccessRequestState bk is_uuid clock others cancelled params s =
     (case update_Check params of
        Inl e \<Rightarrow> (Inl e, s)
      | Inr _ \<Rightarrow>
          swap_loop bk clock others cancelled (accessRequestKey (upd_RequestID params)) (updated_item is_uuid params) 0
            maxCmpAttempts s)"

definition SubmitAccessReview ::
  "'s access_backend \<Rightarrow> (string \<Rightarrow> bool) \<Rightarrow> (review_checker \<Rightarrow> access_request \<Rightarrow> predicate_parser result) \<Rightarrow> filter_parser \<Rightarrow>
     (nat \<Rightarrow> nat \<Rightarrow> time) \<Rightarrow> (nat \<Rightarrow> nat \<Rightarrow> 's \<Rightarrow> 's) \<Rightarrow> (nat \<Rightarrow> bool) \<Rightarrow> access_review_submission \<Rightarrow> review_checker \<Rightarrow> 's \<Rightarrow>
     access_request result \<times> 's" where
  "SubmitAccessReview bk is_uuid newParser newThresholdFilterParser clock others cancelled params checker s =
     (case submission_Check params of
        Inl e \<Rightarrow> (Inl e, s)
      | Inr _ \<Rightarrow>
          swap_loop bk clock others cancelled (accessRequestKey (sub_RequestID params))
            (reviewed_item is_uuid newParser newThresholdFilterParser checker (sub_Review params)) 0 maxCmpAttempts s)"

definition GetAccessRequest :: "'s access_backend \<Rightarrow> (string \<Rightarrow> bool) \<Rightarrow> time \<Rightarrow> string \<Rightarrow> 's \<Rightarrow> access_request result \<times> 's" where
  "GetAccessRequest bk is_uuid now name s =
     (case b_Get bk now (accessRequestKey name) s of
        (Inl e, s1) \<Rightarrow> (Inl e, s1)
      | (Inr i, s1) \<Rightarrow> (itemToAccessRequest is_uuid i, s1))"

fun matching_requests :: "(string \<Rightarrow> bool) \<Rightarrow> access_request_filter \<Rightarrow> access_stored item list \<Rightarrow> access_request list result" where
  "matching_requests is_uuid f [] = Inr []"
| "matching_requests is_uuid f (i # is) =
     (if \<not> has_suffix (it_Key i) request_paramsPrefix then matching_requests is_uuid f is
      else case itemToAccessRequest is_uuid i of
             Inl e \<Rightarrow> Inl e
           | Inr req \<Rightarrow>
               (case matching_requests is_uuid f is of
                  Inl e \<Rightarrow> Inl e
                | Inr reqs \<Rightarrow> Inr (if filter_Match f req then req # reqs else reqs)))"

definition GetAccessRequests ::
  "'s access_backend \<Rightarrow> (string \<Rightarrow> bool) \<Rightarrow> time \<Rightarrow> access_request_filter \<Rightarrow> 's \<Rightarrow> access_request list result \<times> 's" where
  "GetAccessRequests bk is_uuid now f s =
     (if flt_ID f \<noteq> [] then
        (case GetAccessRequest bk is_uuid now (flt_ID f) s of
           (Inl e, s1) \<Rightarrow> (if e = NotFound then Inr [] else Inl e, s1)
         | (Inr req, s1) \<Rightarrow> (Inr (if filter_Match f req then [req] else []), s1))
      else
        (let startKey = Key [accessRequestsPrefix]
         in case b_GetRange bk now startKey (RangeEnd startKey) NoLimit s of
              (Inl e, s1) \<Rightarrow> (Inl e, s1)
            | (Inr items, s1) \<Rightarrow> (matching_requests is_uuid f items, s1)))"

definition DeleteAccessRequest :: "'s access_backend \<Rightarrow> time \<Rightarrow> string \<Rightarrow> 's \<Rightarrow> unit result \<times> 's" where
  "DeleteAccessRequest bk now name s = b_Delete bk now (accessRequestKey name) s"

definition DeleteAllAccessRequests :: "'s access_backend \<Rightarrow> time \<Rightarrow> 's \<Rightarrow> unit result \<times> 's" where
  "DeleteAllAccessRequests bk now s =
     b_DeleteRange bk now (Key [accessRequestsPrefix]) (RangeEnd (Key [accessRequestsPrefix])) s"

section \<open>The data of plugins\<close>

fun matching_plugin_data :: "plugin_filter \<Rightarrow> access_stored item list \<Rightarrow> plugin_data list result" where
  "matching_plugin_data f [] = Inr []"
| "matching_plugin_data f (i # is) =
     (if \<not> has_suffix (it_Key i) request_paramsPrefix then matching_plugin_data f is
      else case itemToPluginData i of
             Inl e \<Rightarrow> Inl e
           | Inr d \<Rightarrow>
               (case matching_plugin_data f is of Inl e \<Rightarrow> Inl e | Inr ds \<Rightarrow> Inr (if pf_Match f d then d # ds else ds)))"

definition getAccessRequestPluginData :: "'s access_backend \<Rightarrow> time \<Rightarrow> plugin_filter \<Rightarrow> 's \<Rightarrow> plugin_data list result \<times> 's" where
  "getAccessRequestPluginData bk now f s =
     (if pf_Resource f \<noteq> [] then
        (case b_Get bk now (pluginDataKey KindAccessRequest (pf_Resource f)) s of
           (Inl e, s1) \<Rightarrow> (if e = NotFound then Inr [] else Inl e, s1)
         | (Inr i, s1) \<Rightarrow>
             (case itemToPluginData i of
                Inl e \<Rightarrow> (Inl e, s1)
              | Inr d \<Rightarrow> (Inr (if pf_Match f d then [d] else []), s1)))
      else
        (let prefix1 = Key [pluginDataPrefix, KindAccessRequest]
         in case b_GetRange bk now prefix1 (RangeEnd prefix1) NoLimit s of
              (Inl e, s1) \<Rightarrow> (Inl e, s1)
            | (Inr items, s1) \<Rightarrow> (matching_plugin_data f items, s1)))"

definition GetPluginData :: "'s access_backend \<Rightarrow> time \<Rightarrow> plugin_filter \<Rightarrow> 's \<Rightarrow> plugin_data list result \<times> 's" where
  "GetPluginData bk now f s =
     (if pf_Kind f = KindAccessRequest then getAccessRequestPluginData bk now f s else (Inl BadParameter, s))"

definition hour :: duration where
  "hour = 3600 * second_ns"

text \<open>The data to update, and the item it was read from, if it was there.\<close>

definition plugin_data_for ::
  "'s access_backend \<Rightarrow> (string \<Rightarrow> bool) \<Rightarrow> (nat \<Rightarrow> time) \<Rightarrow> (nat \<Rightarrow> 's \<Rightarrow> 's) \<Rightarrow> string \<Rightarrow> 's \<Rightarrow>
     (access_stored item option \<times> plugin_data) result \<times> 's" where
  "plugin_data_for bk is_uuid clock others resource s =
     (case b_Get bk (clock 0) (pluginDataKey KindAccessRequest resource) (others 0 s) of
        (Inr i, s1) \<Rightarrow> (case itemToPluginData i of Inl e \<Rightarrow> (Inl e, s1) | Inr d \<Rightarrow> (Inr (Some i, d), s1))
      | (Inl e, s1) \<Rightarrow>
          if e \<noteq> NotFound then (Inl e, s1)
          else
            (case GetAccessRequest bk is_uuid (clock 1) resource (others 1 s1) of
               (Inl e, s2) \<Rightarrow> (Inl e, s2)
             | (Inr req, s2) \<Rightarrow>
                 (case NewPluginData resource KindAccessRequest of
                    Inl e \<Rightarrow> (Inl e, s2)
                  | Inr d \<Rightarrow> (Inr (None, pd_SetExpiry (ar_Expires req + hour) d), s2))))"

fun update_plugin_loop ::
  "'s access_backend \<Rightarrow> (string \<Rightarrow> bool) \<Rightarrow> (plugin_data \<Rightarrow> int) \<Rightarrow> (nat \<Rightarrow> nat \<Rightarrow> time) \<Rightarrow> (nat \<Rightarrow> nat \<Rightarrow> 's \<Rightarrow> 's) \<Rightarrow>
     (nat \<Rightarrow> bool) \<Rightarrow> plugin_update \<Rightarrow> nat \<Rightarrow> nat \<Rightarrow> 's \<Rightarrow> unit result \<times> 's" where
  "update_plugin_loop bk is_uuid json_size clock others cancelled params i 0 s = (Inl CompareFailed, s)"
| "update_plugin_loop bk is_uuid json_size clock others cancelled params i (Suc n) s =
     (case plugin_data_for bk is_uuid (clock i) (others i) (pu_Resource params) s of
        (Inl e, s1) \<Rightarrow> (Inl e, s1)
      | (Inr (old, d), s1) \<Rightarrow>
          (case pd_Update params d of
             Inl e \<Rightarrow> (Inl e, s1)
           | Inr d1 \<Rightarrow>
               (case pd_CheckAndSetDefaults d1 of
                  Inl e \<Rightarrow> (Inl e, s1)
                | Inr d2 \<Rightarrow>
                    (case itemFromPluginData json_size d2 of
                       Inl e \<Rightarrow> (Inl e, s1)
                     | Inr new \<Rightarrow>
                         (case (case old of
                                  None \<Rightarrow> b_Create bk (clock i 2) new (others i 2 s1)
                                | Some j \<Rightarrow> b_CompareAndSwap bk (clock i 2) j new (others i 2 s1)) of
                            (Inr _, s2) \<Rightarrow> (Inr (), s2)
                          | (Inl e, s2) \<Rightarrow>
                              if e = (if old = None then AlreadyExists else CompareFailed) then
                                (if cancelled i then (Inl Unclassified, s2)
                                 else update_plugin_loop bk is_uuid json_size clock others cancelled params (i + 1) n s2)
                              else (Inl e, s2))))))"

definition UpdatePluginData ::
  "'s access_backend \<Rightarrow> (string \<Rightarrow> bool) \<Rightarrow> (plugin_data \<Rightarrow> int) \<Rightarrow> (nat \<Rightarrow> nat \<Rightarrow> time) \<Rightarrow> (nat \<Rightarrow> nat \<Rightarrow> 's \<Rightarrow> 's) \<Rightarrow>
     (nat \<Rightarrow> bool) \<Rightarrow> plugin_update \<Rightarrow> 's \<Rightarrow> unit result \<times> 's" where
  "UpdatePluginData bk is_uuid json_size clock others cancelled params s =
     (if pu_Kind params = KindAccessRequest
      then update_plugin_loop bk is_uuid json_size clock others cancelled params 0 maxCmpAttempts s
      else (Inl BadParameter, s))"

end
