(* ===== verification/Access_Store_Facts.thy ===== *)
theory Access_Store_Facts
  imports Access_Store Memory_Contract
begin

text \<open>
  What the updates of stored requests guarantee to each other. An update relies on what others do to the stored request
  between its accesses: \<open>R\<close> relates what is stored before and after, and is kept by removal. What the update then does
  is again related by \<open>R\<close>, so that updates that run at the same time can rely on each other.
\<close>

section \<open>What the storage form keeps\<close>

definition same_request :: "access_request \<Rightarrow> access_request \<Rightarrow> bool" where
  "same_request r r' \<longleftrightarrow> ar_Reviews r' = ar_Reviews r \<and> ar_Thresholds r' = ar_Thresholds r \<and>
     ar_RoleThresholdMapping r' = ar_RoleThresholdMapping r \<and> ar_User r' = ar_User r \<and> request_name r' = request_name r \<and>
     (ar_State r \<noteq> StateNone \<longrightarrow> ar_State r' = ar_State r)"

lemma same_request_refl [simp]: "same_request r r"
  by (simp add: same_request_def)

lemma same_request_trans: "same_request r r1 \<Longrightarrow> same_request r1 r2 \<Longrightarrow> same_request r r2"
  by (auto simp: same_request_def)

lemma same_request_simps [simp]:
  "same_request r (request_SetResourceID i r1) = same_request r r1" "same_request r (request_SetExpiry t r1) = same_request r r1"
  by (simp_all add: same_request_def request_SetResourceID_def request_SetExpiry_def request_name_def)

lemma request_SetResourceID_fields [simp]:
  "ar_Reviews (request_SetResourceID i r) = ar_Reviews r" "ar_User (request_SetResourceID i r) = ar_User r"
  "ar_State (request_SetResourceID i r) = ar_State r"
  by (simp_all add: request_SetResourceID_def)

lemma review_inv_SetResourceID [simp]: "review_inv (request_SetResourceID i r) \<longleftrightarrow> review_inv r"
  by (simp add: request_SetResourceID_def review_inv_def reviewed_state_def trigger_def)

lemma validate_same: "ValidateAccessRequest is_uuid r = Inr r' \<Longrightarrow> same_request r r'"
  using Metadata_check_Inr [of "ar_Metadata r"]
  by (auto simp: ValidateAccessRequest_def request_check_Inr same_request_def request_name_def split: sum.splits if_splits)

lemma item_to_request:
  assumes "itemToAccessRequest is_uuid i = Inr req"
  obtains r where "it_Value i = StRequest r" "same_request r req"
  using assms validate_same
  by (auto simp: itemToAccessRequest_def UnmarshalAccessRequest_def Let_def split: access_stored.splits sum.splits if_splits)

lemma same_request_name: "same_request r r' \<Longrightarrow> request_name r' = request_name r"
  by (simp add: same_request_def)

lemma item_from_request:
  assumes "itemFromAccessRequest is_uuid req = Inr (req', i)"
  obtains r where "it_Key i = accessRequestKey (request_name req)" "it_Value i = StRequest r" "same_request req r" "same_request req req'"
    "r = request_SetResourceID 0 req'"
proof -
  obtain r where r: "ValidateAccessRequest is_uuid req = Inr r" "req' = r" "it_Key i = accessRequestKey (request_name r)"
    "it_Value i = StRequest (request_SetResourceID 0 r)"
    using assms by (auto simp: itemFromAccessRequest_def MarshalAccessRequest_def split: sum.splits)
  show thesis
    by (rule that [OF _ r(4)]) (simp_all add: r(2,3) validate_same [OF r(1)] same_request_name [OF validate_same [OF r(1)]])
qed

section \<open>Plugin data\<close>

text \<open>The value of a field; a field that is not there, or of a plugin without data, is empty.\<close>

definition plugin_field :: "plugin_data \<Rightarrow> string \<Rightarrow> string \<Rightarrow> string" where
  "plugin_field d plugin key = (case map_of (pd_Entries d) plugin of None \<Rightarrow> [] | Some data \<Rightarrow> field data key)"

lemma checkExpectations_ok:
  "checkExpectations plugin expect d =
     (if \<forall>(key, val)\<in>set expect. plugin_field d plugin key = val then Inr () else Inl CompareFailed)"
proof (cases "map_of (pd_Entries d) plugin")
  case None
  then show ?thesis by (auto simp: checkExpectations_def plugin_field_def case_prod_beta)
next
  case (Some data)
  then show ?thesis by (auto simp: checkExpectations_def plugin_field_def case_prod_beta)
qed

lemma field_set_fields:
  "distinct (map fst updates) \<Longrightarrow>
     field (set_fields updates data) key = (case map_of updates key of None \<Rightarrow> field data key | Some val \<Rightarrow> val)"
proof (induction updates data rule: set_fields.induct)
  case (2 k val rest data)
  have "map_of rest k = None" using "2.prems" by (simp add: map_of_eq_None_iff)
  moreover have "field (if val = [] then AList.delete k data else AList.update k val data) key =
      (if key = k then val else field data key)"
    by (simp add: field_def delete_conv' update_conv')
  ultimately show ?case using 2 by (auto split: option.splits)
qed simp

lemma pd_Update_fields:
  assumes "pd_Update p d = Inr d'" "distinct (map fst (pu_Set p))"
  shows "plugin_field d' (pu_Plugin p) key = (case map_of (pu_Set p) key of None \<Rightarrow> plugin_field d (pu_Plugin p) key | Some val \<Rightarrow> val)"
    "plugin \<noteq> pu_Plugin p \<Longrightarrow> map_of (pd_Entries d') plugin = map_of (pd_Entries d) plugin"
    "map_of (pd_Entries d') (pu_Plugin p) \<noteq> Some []"
proof -
  let ?old = "case map_of (pd_Entries d) (pu_Plugin p) of None \<Rightarrow> [] | Some data \<Rightarrow> data"
  let ?data = "set_fields (pu_Set p) ?old"
  have d': "d' = d\<lparr>pd_Entries := if ?data = [] then AList.delete (pu_Plugin p) (pd_Entries d)
      else AList.update (pu_Plugin p) ?data (pd_Entries d)\<rparr>"
    using assms(1) by (auto simp: pd_Update_def Let_def split: if_splits sum.splits)
  have "field [] key = []" by (simp add: field_def)
  then have f: "field ?old key = plugin_field d (pu_Plugin p) key" "plugin_field d' (pu_Plugin p) key = field ?data key"
    by (simp_all add: d' plugin_field_def delete_conv' update_conv' split: option.splits)
  then show "plugin_field d' (pu_Plugin p) key = (case map_of (pu_Set p) key of None \<Rightarrow> plugin_field d (pu_Plugin p) key | Some val \<Rightarrow> val)"
    by (simp only: f field_set_fields [OF assms(2)])
  show "plugin \<noteq> pu_Plugin p \<Longrightarrow> map_of (pd_Entries d') plugin = map_of (pd_Entries d) plugin"
    "map_of (pd_Entries d') (pu_Plugin p) \<noteq> Some []"
    by (simp_all add: d' delete_conv' update_conv')
qed

section \<open>Updates\<close>

text \<open>A request under the name: what an update reads and what it writes.\<close>

definition named :: "string \<Rightarrow> access_stored option \<Rightarrow> bool" where
  "named reqID x \<longleftrightarrow> (\<forall>v. x = Some v \<longrightarrow> (\<exists>r. v = StRequest r \<and> request_name r = reqID))"

lemma updated_item_Inr:
  assumes "updated_item is_uuid params old = Inr (req, new)" "named reqID (Some (it_Value old))"
  obtains r r' where "it_Value old = StRequest r" "it_Key new = accessRequestKey reqID" "it_Value new = StRequest r'"
    "request_name r' = reqID" "ar_State r = StateDenied \<longrightarrow> ar_State r' = StateDenied \<and> ar_State req = StateDenied"
proof -
  obtain req0 req1 req4 where u: "itemToAccessRequest is_uuid old = Inr req0" "SetState (upd_State params) req0 = Inr req1"
    "itemFromAccessRequest is_uuid req4 = Inr (req, new)"
    "request_name req4 = request_name req1" "ar_State req4 = ar_State req1"
    using assms(1)
    by (auto simp: updated_item_def Let_def request_SetExpiry_def request_name_def split: sum.splits if_splits)
  obtain r where r: "it_Value old = StRequest r" "same_request r req0" using item_to_request [OF u(1)] .
  obtain r' where r': "it_Key new = accessRequestKey (request_name req4)" "it_Value new = StRequest r'" "same_request req4 r'"
    "same_request req4 req"
    by (rule item_from_request [OF u(3)])
  have s: "request_name req1 = request_name req0" "ar_State req0 = StateDenied \<longrightarrow> ar_State req1 = StateDenied"
    using u(2) by (auto simp: SetState_def IsDenied_def request_name_def split: if_splits)
  have "request_name r = reqID" using assms(2) r(1) by (simp add: named_def)
  then show thesis using that [OF r(1) _ r'(2)] r r' s u(4,5) by (auto simp: same_request_def)
qed

lemma settle_request_name: "settle_request req = Inr req' \<Longrightarrow> request_name req' = request_name req"
  by (auto simp: settle_request_def Let_def SetState_def request_SetExpiry_def request_name_def
      split: if_splits sum.splits option.splits)

text \<open>A stored request as reviews leave it: what can be reviewed stays, the reviews grow, a resolution is final.\<close>

definition reviewed :: "access_request \<Rightarrow> access_request \<Rightarrow> bool" where
  "reviewed r r' \<longleftrightarrow> ar_Thresholds r' = ar_Thresholds r \<and> ar_RoleThresholdMapping r' = ar_RoleThresholdMapping r \<and>
     ar_User r' = ar_User r \<and> request_name r' = request_name r \<and> (\<exists>more. ar_Reviews r' = ar_Reviews r @ more) \<and>
     (ar_State r \<notin> {StateNone, StatePending} \<longrightarrow> ar_State r' = ar_State r) \<and>
     (review_inv r \<longrightarrow> length (ar_Reviews r') < 2 ^ 32 \<longrightarrow> review_inv r')"

lemma reviewed_refl [simp]: "reviewed r r"
  by (simp add: reviewed_def)

lemma reviewed_trans: "reviewed r r1 \<Longrightarrow> reviewed r1 r2 \<Longrightarrow> reviewed r r2"
proof -
  assume a: "reviewed r r1" "reviewed r1 r2"
  have "length (ar_Reviews r1) \<le> length (ar_Reviews r2)" using a(2) by (auto simp: reviewed_def)
  moreover have "ar_State r \<notin> {StateNone, StatePending} \<longrightarrow> ar_State r2 = ar_State r"
    using a unfolding reviewed_def by metis
  ultimately show "reviewed r r2" using a unfolding reviewed_def by (metis append.assoc order_le_less_trans)
qed

lemma review_inv_same: "same_request r r' \<Longrightarrow> review_inv r \<Longrightarrow> review_inv r'"
  using review_inv_resolved(3) [of r] by (simp add: same_request_def review_inv_def reviewed_state_def trigger_def)

lemma reviewed_item_Inr:
  assumes "reviewed_item is_uuid np tp checker review old = Inr (req, new)" "named reqID (Some (it_Value old))"
  obtains r r' where "it_Value old = StRequest r" "it_Key new = accessRequestKey reqID" "it_Value new = StRequest r'" "reviewed r r'"
    "r' = request_SetResourceID 0 req" "\<exists>rev1. ar_Reviews r' = ar_Reviews r @ [rev1] \<and> rev_Author rev1 = user_Name (rc_User checker)"
    "ar_State r = StateDenied \<longrightarrow> ar_State req = StateDenied" "user_Name (rc_User checker) \<noteq> ar_User r"
proof -
  let ?author = "user_Name (rc_User checker)"
  obtain req0 req1 where u: "itemToAccessRequest is_uuid old = Inr req0" "CanReviewRequest np checker req0 = Inr True"
    "ApplyAccessReview tp req0 review ?author = Inr req1" "itemFromAccessRequest is_uuid req1 = Inr (req, new)"
    using assms(1) by (auto simp: reviewed_item_def split: sum.splits if_splits)
  obtain r where r: "it_Value old = StRequest r" "same_request r req0" using item_to_request [OF u(1)] .
  obtain r' where r': "it_Key new = accessRequestKey (request_name req1)" "it_Value new = StRequest r'" "same_request req1 r'"
    "same_request req1 req" "r' = request_SetResourceID 0 req"
    by (rule item_from_request [OF u(4)])
  obtain rev1 where rev1: "rev_Author rev1 = ?author" "settle_request (req0\<lparr>ar_Reviews := ar_Reviews req0 @ [rev1]\<rparr>) = Inr req1"
    by (rule ApplyAccessReview_Inr [OF u(3)])
  note f = settle_request_frame [OF rev1(2)] settle_request_name [OF rev1(2)] settle_request_reviews [OF rev1(2)]
  have final: "ar_State req0 \<noteq> StatePending \<longrightarrow> ar_State req1 = ar_State req0" using ApplyAccessReview_final(1) [OF u(3)] by blast
  have inv: "review_inv r'" if "review_inv r" "length (ar_Reviews r') < 2 ^ 32"
  proof -
    have "review_inv req0" by (rule review_inv_same [OF r(2) that(1)])
    moreover have "length (ar_Reviews req0) + 1 < 2 ^ 32" using that(2) f r'(3) by (simp add: same_request_def)
    ultimately show ?thesis using ApplyAccessReview_inv [OF _ _ u(3)] review_inv_same [OF r'(3)] by blast
  qed
  have "ar_State r \<notin> {StateNone, StatePending} \<longrightarrow> ar_State r' = ar_State r"
    using r(2) r'(3) final by (auto simp: same_request_def)
  then have "reviewed r r'"
    using r(2) r'(3) f inv unfolding reviewed_def same_request_def request_name_def by simp
  moreover have "it_Key new = accessRequestKey reqID"
    using r r'(1) f assms(2) by (simp add: same_request_def named_def request_name_def)
  moreover have "ar_State r = StateDenied \<longrightarrow> ar_State req = StateDenied"
    using r(2) r'(4) final by (auto simp: same_request_def)
  moreover have "?author \<noteq> ar_User r" using u(2) r(2) by (auto simp: CanReviewRequest_def same_request_def split: if_splits)
  moreover have "\<exists>rev1. ar_Reviews r' = ar_Reviews r @ [rev1] \<and> rev_Author rev1 = ?author"
    using rev1(1) f r(2) r'(3) by (simp add: same_request_def)
  ultimately show thesis using that [OF r(1) _ r'(2) _ r'(5)] by blast
qed

section \<open>What updates keep\<close>

text \<open>A denial stays until the request is removed.\<close>

definition is_denied :: "access_stored option \<Rightarrow> bool" where
  "is_denied x \<longleftrightarrow> (\<exists>r. x = Some (StRequest r) \<and> ar_State r = StateDenied)"

definition keeps_denial :: "string \<Rightarrow> access_stored option \<Rightarrow> access_stored option \<Rightarrow> bool" where
  "keeps_denial name x y \<longleftrightarrow> (named name x \<longrightarrow> named name y \<and> (x = None \<longrightarrow> y = None) \<and> (is_denied x \<longrightarrow> y = None \<or> is_denied y))"

text \<open>A request changes by reviews only, until it is removed.\<close>

definition keeps_reviews :: "string \<Rightarrow> access_stored option \<Rightarrow> access_stored option \<Rightarrow> bool" where
  "keeps_reviews name x y \<longleftrightarrow> (named name x \<longrightarrow> y = None \<or> (\<exists>r r'. x = Some (StRequest r) \<and> y = Some (StRequest r') \<and> reviewed r r'))"

lemma keeps_denial_order: "reflp (keeps_denial name)" "transp (keeps_denial name)" "\<forall>x. keeps_denial name x None"
  "\<forall>x y. named name x \<longrightarrow> keeps_denial name x y \<longrightarrow> named name y"
proof -
  show "transp (keeps_denial name)" unfolding transp_def keeps_denial_def by blast
qed (auto simp: reflp_def keeps_denial_def named_def)

lemma keeps_reviews_named: "\<forall>x y. named name x \<longrightarrow> keeps_reviews name x y \<longrightarrow> named name y"
  by (auto simp: keeps_reviews_def named_def reviewed_def)

lemma keeps_reviews_order: "reflp (keeps_reviews name)" "transp (keeps_reviews name)" "\<forall>x. keeps_reviews name x None"
proof -
  show "transp (keeps_reviews name)"
  proof (rule transpI)
    fix x y z
    assume a: "keeps_reviews name x y" "keeps_reviews name y z"
    show "keeps_reviews name x z" unfolding keeps_reviews_def
    proof
      assume x: "named name x"
      with a(1) have y: "named name y" using keeps_reviews_named by blast
      show "z = None \<or> (\<exists>r r'. x = Some (StRequest r) \<and> z = Some (StRequest r') \<and> reviewed r r')"
      proof (cases z)
        case (Some v)
        then obtain r1 r' where "y = Some (StRequest r1)" "z = Some (StRequest r')" "reviewed r1 r'"
          using a(2) y by (auto simp: keeps_reviews_def)
        moreover from this(1) obtain r where "x = Some (StRequest r)" "reviewed r r1"
          using a(1) x by (auto simp: keeps_reviews_def)
        ultimately show ?thesis using reviewed_trans by blast
      qed simp
    qed
  qed
  show "reflp (keeps_reviews name)"
  proof (rule reflpI)
    fix x
    show "keeps_reviews name x x" by (cases x) (auto simp: keeps_reviews_def named_def)
  qed
qed (simp add: keeps_reviews_def)

section \<open>The loop\<close>

text \<open>A step from one state of the store to another, as its users rely on it for one key.\<close>

definition relies_on ::
  "('s \<Rightarrow> bool) \<Rightarrow> ('s \<Rightarrow> string \<Rightarrow> 'v item option) \<Rightarrow> string \<Rightarrow> ('v option \<Rightarrow> 'v option \<Rightarrow> bool) \<Rightarrow> 's \<Rightarrow> 's \<Rightarrow> bool" where
  "relies_on ok contents key R s s' \<longleftrightarrow> ok s' \<and> R (value_at (contents s) key) (value_at (contents s') key)"

locale request_store = kv_store bk inv view purge safe
  for bk :: "('s, access_stored) backend" and inv and view :: "'s \<Rightarrow> string \<Rightarrow> access_stored item option" and purge and safe +
  fixes key :: string
  assumes safe_request_key: "safe key"
begin

abbreviation stored_value :: "'s \<Rightarrow> access_stored option" where
  "stored_value s \<equiv> value_at (view s) key"

abbreviation relies :: "(access_stored option \<Rightarrow> access_stored option \<Rightarrow> bool) \<Rightarrow> 's \<Rightarrow> 's \<Rightarrow> bool" where
  "relies \<equiv> relies_on inv view key"

lemma purge_stored: "inv s \<Longrightarrow> stored_value (purge t s) = stored_value s \<or> stored_value (purge t s) = None"
  using purge_old [of s t key] by (cases "view (purge t s) key") (auto simp: value_at_def)

lemma swap_loop_guarantee:
  assumes R: "reflp R" "transp R" "\<forall>x. R x None"
    and all_J: "\<forall>x y. J x \<longrightarrow> R x y \<longrightarrow> J y"
    and all_others: "\<forall>i j s. inv s \<longrightarrow> J (stored_value s) \<longrightarrow> relies R s (others i j s)"
    and all_items: "\<forall>old req new. next_item old = Inr (req, new) \<longrightarrow> J (Some (it_Value old)) \<longrightarrow>
      it_Key new = key \<and> R (Some (it_Value old)) (Some (it_Value new))"
    and "inv s" "J (stored_value s)" "swap_loop bk clock others cancelled key next_item i n s = (r, s')"
  shows "relies R s s' \<and> (\<forall>req. r = Inr req \<longrightarrow> (\<exists>old new. R (stored_value s) (Some (it_Value old)) \<and>
    next_item old = Inr (req, new) \<and> J (Some (it_Value old)) \<and> view s' key = Some new))"
  using assms(7-)
proof (induction n arbitrary: i s)
  case 0
  then show ?case using R(1) by (auto simp: relies_on_def reflp_def)
next
  case (Suc n)
  note J = all_J [rule_format] and others = all_others [rule_format] and next_item = all_items [rule_format]
  have trans: "R x y \<Longrightarrow> R y z \<Longrightarrow> R x z" for x y z using R(2) by (auto dest: transpD)
  have purged: "R (stored_value x) (stored_value (purge t x))" if "inv x" for t x
    using purge_stored [OF that, of t] R(1,3) by (auto simp: reflp_def)
  let ?s0 = "others i 0 s"
  have s0: "inv ?s0" "R (stored_value s) (stored_value ?s0)" using others [OF Suc.prems(1,2), of i 0] by (simp_all add: relies_on_def)
  obtain g s1 where g: "b_Get bk (clock i 0) key ?s0 = (g, s1)" by fastforce
  have "s1 = purge (clock i 0) ?s0" using g get [OF s0(1) safe_request_key] by simp
  then have s1: "inv s1" "R (stored_value s) (stored_value s1)"
    using purge_inv [OF s0(1)] trans [OF s0(2) purged [OF s0(1)]] by simp_all
  note J1 = J [OF Suc.prems(2) s1(2)]
  show ?case
  proof (cases "\<exists>old req new. g = Inr old \<and> next_item old = Inr (req, new)")
    case False
    then have "s' = s1" "\<not> is_ok r" using Suc.prems(3) g by (auto split: sum.splits prod.splits)
    then show ?thesis using s1 by (auto simp: relies_on_def)
  next
    case True
    then obtain old req new where old: "g = Inr old" "next_item old = Inr (req, new)" by blast
    have o: "view s1 key = Some old" "it_Key old = key"
      using get_Inr [OF s0(1) safe_request_key g [unfolded old(1)]] view_key [OF s1(1)] by auto
    then have so: "stored_value s1 = Some (it_Value old)" by (simp add: value_at_def)
    have new: "it_Key new = key" "R (Some (it_Value old)) (Some (it_Value new))" using next_item [OF old(2)] J1 so by auto
    let ?s2 = "others i 1 s1"
    have s2: "inv ?s2" "R (stored_value s) (stored_value ?s2)"
      using others [OF s1(1) J1, of i 1] trans [OF s1(2)] by (auto simp: relies_on_def)
    obtain w s3 where w: "b_CompareAndSwap bk (clock i 1) old new ?s2 = (w, s3)" by fastforce
    have safe: "safe (it_Key old)" "it_Key new = it_Key old" using o(2) new(1) safe_request_key by simp_all
    show ?thesis
    proof (cases w)
      case (Inl e)
      have s3: "view s3 = view (purge (clock i 1) ?s2)" "inv s3" "e = CompareFailed"
        using compare_and_swap_Inl [OF s2(1) safe w [unfolded Inl]] by auto
      have R3: "R (stored_value s) (stored_value s3)"
        using trans [OF s2(2) purged [OF s2(1), of "clock i 1"]] s3(1) by simp
      show ?thesis
      proof (cases "cancelled i")
        case True
        then show ?thesis using Suc.prems(3) g old w Inl s3(2,3) R3 by (auto simp: relies_on_def)
      next
        case False
        then have loop: "swap_loop bk clock others cancelled key next_item (i + 1) n s3 = (r, s')"
          using Suc.prems(3) g old w Inl s3(3) by simp
        show ?thesis
          using Suc.IH [OF s3(2) J [OF Suc.prems(2) R3] loop] trans [OF R3] unfolding relies_on_def by blast
      qed
    next
      case (Inr l)
      have s3: "value_at (view (purge (clock i 1) ?s2)) key = Some (it_Value old)"
        "view s3 = (view (purge (clock i 1) ?s2))(key \<mapsto> new)" "inv s3"
        using compare_and_swap_Inr [OF s2(1) safe w [unfolded Inr]] o(2) by auto
      have before: "R (stored_value s) (Some (it_Value old))"
        using trans [OF s2(2) purged [OF s2(1), of "clock i 1"]] s3(1) by simp
      have s': "s' = s3" "r = Inr req" using Suc.prems(3) g old w Inr by simp_all
      then have after: "view s' key = Some new" "stored_value s' = Some (it_Value new)" using s3(2) by (simp_all add: value_at_def)
      show ?thesis
        using s3(3) s' after before old(2) J [OF Suc.prems(2) before] trans [OF before new(2)] unfolding relies_on_def by auto
    qed
  qed
qed

text \<open>What others may do to the request under the name between the accesses of an update.\<close>

lemma SetAccessRequestState_guarantee:
  assumes k: "key = accessRequestKey (upd_RequestID params)"
    and others: "\<forall>i j s. inv s \<longrightarrow> named (upd_RequestID params) (stored_value s) \<longrightarrow>
      relies (keeps_denial (upd_RequestID params)) s (others i j s)"
    and s: "inv s" "named (upd_RequestID params) (stored_value s)"
    and run: "SetAccessRequestState bk is_uuid clock others cancelled params s = (res, s')"
  shows "relies (keeps_denial (upd_RequestID params)) s s' \<and>
    (\<forall>req. res = Inr req \<longrightarrow> is_denied (stored_value s) \<longrightarrow> ar_State req = StateDenied)"
proof (cases "update_Check params")
  case (Inl e)
  then show ?thesis using run s(1) keeps_denial_order(1) by (auto simp: SetAccessRequestState_def relies_on_def reflp_def)
next
  case (Inr u)
  let ?name = "upd_RequestID params"
  have loop: "swap_loop bk clock others cancelled key (updated_item is_uuid params) 0 maxCmpAttempts s = (res, s')"
    using run by (simp add: SetAccessRequestState_def Inr k)
  have step: "\<forall>old req new. updated_item is_uuid params old = Inr (req, new) \<longrightarrow> named ?name (Some (it_Value old)) \<longrightarrow>
      it_Key new = key \<and> keeps_denial ?name (Some (it_Value old)) (Some (it_Value new))"
  proof (intro allI impI)
    fix old req new
    assume that: "updated_item is_uuid params old = Inr (req, new)" "named ?name (Some (it_Value old))"
    show "it_Key new = key \<and> keeps_denial ?name (Some (it_Value old)) (Some (it_Value new))"
      by (rule updated_item_Inr [OF that]) (simp add: k keeps_denial_def named_def is_denied_def)
  qed
  note g = swap_loop_guarantee [where R = "keeps_denial ?name" and J = "named ?name",
      OF keeps_denial_order(1-3) keeps_denial_order(4) others step s loop]
  have "ar_State req = StateDenied"
    if ok: "res = Inr req" "is_denied (stored_value s)" for req
  proof -
    obtain old new where o: "keeps_denial ?name (stored_value s) (Some (it_Value old))" "updated_item is_uuid params old = Inr (req, new)"
      "named ?name (Some (it_Value old))" using g ok(1) by blast
    then have "is_denied (Some (it_Value old))" using ok(2) s(2) by (simp add: keeps_denial_def)
    then obtain r where "it_Value old = StRequest r" "ar_State r = StateDenied" by (auto simp: is_denied_def)
    then show ?thesis using updated_item_Inr [OF o(2,3)] by (metis access_stored.inject(1))
  qed
  then show ?thesis using g by blast
qed

lemma SubmitAccessReview_keeps_denial:
  assumes k: "key = accessRequestKey (sub_RequestID params)"
    and others: "\<forall>i j s. inv s \<longrightarrow> named (sub_RequestID params) (stored_value s) \<longrightarrow>
      relies (keeps_denial (sub_RequestID params)) s (others i j s)"
    and s: "inv s" "named (sub_RequestID params) (stored_value s)"
    and run: "SubmitAccessReview bk is_uuid np tp clock others cancelled params checker s = (res, s')"
  shows "relies (keeps_denial (sub_RequestID params)) s s' \<and>
    (\<forall>req. res = Inr req \<longrightarrow> is_denied (stored_value s) \<longrightarrow> ar_State req = StateDenied)"
proof (cases "submission_Check params")
  case (Inl e)
  then show ?thesis using run s(1) keeps_denial_order(1) by (auto simp: SubmitAccessReview_def relies_on_def reflp_def)
next
  case (Inr u)
  let ?name = "sub_RequestID params" and ?item = "reviewed_item is_uuid np tp checker (sub_Review params)"
  have loop: "swap_loop bk clock others cancelled key ?item 0 maxCmpAttempts s = (res, s')"
    using run by (simp add: SubmitAccessReview_def Inr k)
  have step: "\<forall>old req new. ?item old = Inr (req, new) \<longrightarrow> named ?name (Some (it_Value old)) \<longrightarrow>
      it_Key new = key \<and> keeps_denial ?name (Some (it_Value old)) (Some (it_Value new))"
  proof (intro allI impI)
    fix old req new
    assume that: "?item old = Inr (req, new)" "named ?name (Some (it_Value old))"
    show "it_Key new = key \<and> keeps_denial ?name (Some (it_Value old)) (Some (it_Value new))"
      by (rule reviewed_item_Inr [OF that]) (use that(2) in \<open>simp add: k keeps_denial_def named_def is_denied_def reviewed_def\<close>)
  qed
  note g = swap_loop_guarantee [where R = "keeps_denial ?name" and J = "named ?name",
      OF keeps_denial_order(1-3) keeps_denial_order(4) others step s loop]
  have "ar_State req = StateDenied"
    if ok: "res = Inr req" "is_denied (stored_value s)" for req
  proof -
    obtain old new where o: "keeps_denial ?name (stored_value s) (Some (it_Value old))" "?item old = Inr (req, new)"
      "named ?name (Some (it_Value old))" using g ok(1) by blast
    then have "is_denied (Some (it_Value old))" using ok(2) s(2) by (simp add: keeps_denial_def)
    then obtain r where "it_Value old = StRequest r" "ar_State r = StateDenied" by (auto simp: is_denied_def)
    then show ?thesis using reviewed_item_Inr [OF o(2,3)] by (metis access_stored.inject(1))
  qed
  then show ?thesis using g by blast
qed

lemma SubmitAccessReview_guarantee:
  assumes k: "key = accessRequestKey (sub_RequestID params)"
    and others: "\<forall>i j s. inv s \<longrightarrow> named (sub_RequestID params) (stored_value s) \<longrightarrow>
      relies (keeps_reviews (sub_RequestID params)) s (others i j s)"
    and s: "inv s" "named (sub_RequestID params) (stored_value s)"
    and run: "SubmitAccessReview bk is_uuid np tp clock others cancelled params checker s = (res, s')"
  shows "relies (keeps_reviews (sub_RequestID params)) s s' \<and>
    (\<forall>req. res = Inr req \<longrightarrow> (\<exists>r r1 r' rev1. stored_value s = Some (StRequest r) \<and> reviewed r r1 \<and>
       stored_value s' = Some (StRequest r') \<and> reviewed r1 r' \<and> r' = request_SetResourceID 0 req \<and> ar_Reviews r' = ar_Reviews r1 @ [rev1] \<and>
       rev_Author rev1 = user_Name (rc_User checker) \<and> user_Name (rc_User checker) \<noteq> ar_User r))"
proof (cases "submission_Check params")
  case (Inl e)
  then show ?thesis using run s(1) keeps_reviews_order(1) by (auto simp: SubmitAccessReview_def relies_on_def reflp_def)
next
  case (Inr u)
  let ?name = "sub_RequestID params" and ?item = "reviewed_item is_uuid np tp checker (sub_Review params)"
  have loop: "swap_loop bk clock others cancelled key ?item 0 maxCmpAttempts s = (res, s')"
    using run by (simp add: SubmitAccessReview_def Inr k)
  have step: "\<forall>old req new. ?item old = Inr (req, new) \<longrightarrow> named ?name (Some (it_Value old)) \<longrightarrow>
      it_Key new = key \<and> keeps_reviews ?name (Some (it_Value old)) (Some (it_Value new))"
  proof (intro allI impI)
    fix old req new
    assume that: "?item old = Inr (req, new)" "named ?name (Some (it_Value old))"
    show "it_Key new = key \<and> keeps_reviews ?name (Some (it_Value old)) (Some (it_Value new))"
      by (rule reviewed_item_Inr [OF that]) (simp add: k keeps_reviews_def)
  qed
  note g = swap_loop_guarantee [where R = "keeps_reviews ?name" and J = "named ?name",
      OF keeps_reviews_order keeps_reviews_named others step s loop]
  show ?thesis
  proof (intro conjI allI impI)
    fix req assume "res = Inr req"
    then obtain old new where o: "keeps_reviews ?name (stored_value s) (Some (it_Value old))" "?item old = Inr (req, new)"
      "named ?name (Some (it_Value old))" "view s' key = Some new" using g by blast
    from o(1) s(2) obtain r r1 where r: "stored_value s = Some (StRequest r)" "it_Value old = StRequest r1" "reviewed r r1"
      by (auto simp: keeps_reviews_def)
    show "\<exists>r r1 r' rev1. stored_value s = Some (StRequest r) \<and> reviewed r r1 \<and>
       stored_value s' = Some (StRequest r') \<and> reviewed r1 r' \<and> r' = request_SetResourceID 0 req \<and> ar_Reviews r' = ar_Reviews r1 @ [rev1] \<and>
       rev_Author rev1 = user_Name (rc_User checker) \<and> user_Name (rc_User checker) \<noteq> ar_User r"
    proof -
      obtain r' rev1 where r': "it_Value new = StRequest r'" "reviewed r1 r'" "r' = request_SetResourceID 0 req"
        "ar_Reviews r' = ar_Reviews r1 @ [rev1]" "rev_Author rev1 = user_Name (rc_User checker)"
        "user_Name (rc_User checker) \<noteq> ar_User r1"
        using reviewed_item_Inr [OF o(2,3)] r(2) by (metis access_stored.inject(1))
      moreover have "stored_value s' = Some (StRequest r')" using o(4) r'(1) by (simp add: value_at_def)
      moreover have "ar_User r1 = ar_User r" using r(3) by (simp add: reviewed_def)
      ultimately show ?thesis using r by metis
    qed
  qed (use g in blast)
qed

end

interpretation request_mem: request_store "memory_backend cfg" memory_inv memory_view "removeExpired cfg" "\<lambda>k. k \<noteq> []"
  "accessRequestKey name" for cfg name
  by unfold_locales (simp add: accessRequestKey_def Key_def)

end
