(* ===== verification/Access_Store_Properties.thy ===== *)
theory Access_Store_Properties
  imports Access_Store_Facts Request_Properties Backend_Properties
begin

text \<open>
  The properties of the store of access requests over the memory backend, whatever other servers do between the
  accesses of an operation, as long as what they do keeps what is relied on. In the witnesses another server completes
  an operation of its own in between, so that the first attempt fails and the loop starts again.
\<close>

section \<open>Examples\<close>

definition request_item :: "access_request \<Rightarrow> access_stored item" where
  "request_item r =
     \<lparr>it_Key = accessRequestKey (request_name r), it_Value = StRequest r, it_Expires = zero_time, it_ID = 0, it_LeaseID = 0\<rparr>"

definition checker_for :: "string \<Rightarrow> review_checker" where
  "checker_for name = \<lparr>rc_User = \<lparr>user_Name = name, user_Roles = [], user_Traits = []\<rparr>,
     rc_AllowReview = [([], [LiteralMatcher ''admin''])], rc_DenyReview = []\<rparr>"

definition submission_by :: "string \<Rightarrow> request_state \<Rightarrow> access_review_submission" where
  "submission_by name st = \<lparr>sub_RequestID = ''request-1'', sub_Review = review_by name st\<rparr>"

definition submit :: "string \<Rightarrow> request_state \<Rightarrow> (nat \<Rightarrow> nat \<Rightarrow> access_stored memory \<Rightarrow> access_stored memory) \<Rightarrow>
    access_stored memory \<Rightarrow> access_request result \<times> access_stored memory" where
  "submit name st others = SubmitAccessReview (memory_backend plain_memory) (\<lambda>_. True) (\<lambda>c req. Inr no_predicates)
     (\<lambda>req r. Inr no_predicates) (\<lambda>i j. 100 + int i * 10 + int j) others (\<lambda>_. False) (submission_by name st) (checker_for name)"

definition meanwhile :: "string \<Rightarrow> request_state \<Rightarrow> nat \<Rightarrow> nat \<Rightarrow> access_stored memory \<Rightarrow> access_stored memory" where
  "meanwhile name st i j s = (if i = 0 \<and> j = 1 then snd (submit name st (\<lambda>_ _. id) s) else s)"

definition with_request :: "access_request \<Rightarrow> access_stored memory" where
  "with_request r = created [request_item r]"

lemma with_request:
  "memory_inv (with_request r)" "value_at (memory_view (with_request r)) (accessRequestKey (request_name r)) = Some (StRequest r)"
  using created_view [of "[request_item r]"]
  by (simp_all add: with_request_def request_item_def accessRequestKey_def Key_def lives_def is_zero_time_def value_at_def)

lemma relies_refl: "ok s \<Longrightarrow> reflp R \<Longrightarrow> relies_on ok contents key R s s"
  by (simp add: relies_on_def reflp_def)


lemma meanwhile_keeps_denial:
  assumes "memory_inv s" "named ''request-1'' (value_at (memory_view s) (accessRequestKey ''request-1''))"
  shows "relies_on memory_inv memory_view (accessRequestKey ''request-1'') (keeps_denial ''request-1'') s (meanwhile name st i j s)"
proof (cases "i = 0 \<and> j = 1")
  case True
  have k: "accessRequestKey ''request-1'' = accessRequestKey (sub_RequestID (submission_by name st))"
    "sub_RequestID (submission_by name st) = ''request-1''" by (simp_all add: submission_by_def)
  obtain res s' where run: "submit name st (\<lambda>_ _. id) s = (res, s')" by fastforce
  show ?thesis
    using request_mem.SubmitAccessReview_keeps_denial [OF k(1), unfolded k(2), OF _ assms run [unfolded submit_def]] run
      keeps_denial_order(1) True by (simp add: relies_refl meanwhile_def)
qed (use assms(1) keeps_denial_order(1) in \<open>simp only: meanwhile_def if_False relies_refl\<close>)

section \<open>Reviews submitted at the same time\<close>



section \<open>A denial is final\<close>

text \<open>C4: Once an access request is denied, neither an update of its state nor a review leads away from the denial,
  whatever other servers that keep a denial do in the meantime: the stored request stays denied until it is removed,
  and the request that the operation returns is denied.\<close>

theorem denial_final:
  assumes "memory_inv s" "value_at (memory_view s) (accessRequestKey name) = Some (StRequest r)" "request_name r = name"
    "ar_State r = StateDenied"
    and others: "\<forall>i j s. memory_inv s \<longrightarrow> named name (value_at (memory_view s) (accessRequestKey name)) \<longrightarrow>
      relies_on memory_inv memory_view (accessRequestKey name) (keeps_denial name) s (others i j s)"
    and run: "upd_RequestID update = name \<and>
        SetAccessRequestState (memory_backend cfg) is_uuid clock others cancelled update s = (res, s') \<or>
      sub_RequestID params = name \<and>
        SubmitAccessReview (memory_backend cfg) is_uuid np tp clock others cancelled params checker s = (res, s')"
  shows "(value_at (memory_view s') (accessRequestKey name) = None \<or>
       is_denied (value_at (memory_view s') (accessRequestKey name))) \<and>
    relies_on memory_inv memory_view (accessRequestKey name) (keeps_denial name) s s' \<and>
    (\<forall>req. res = Inr req \<longrightarrow> ar_State req = StateDenied)"
proof -
  have start: "named name (value_at (memory_view s) (accessRequestKey name))"
    "is_denied (value_at (memory_view s) (accessRequestKey name))" using assms(2-4) by (simp_all add: named_def is_denied_def)
  have "relies_on memory_inv memory_view (accessRequestKey name) (keeps_denial name) s s' \<and>
    (\<forall>req. res = Inr req \<longrightarrow> ar_State req = StateDenied)"
    using run
  proof
    assume u: "upd_RequestID update = name \<and>
        SetAccessRequestState (memory_backend cfg) is_uuid clock others cancelled update s = (res, s')"
    show ?thesis
      using request_mem.SetAccessRequestState_guarantee [of name update others s cfg is_uuid clock cancelled res s'] u others assms(1) start
      by blast
  next
    assume u: "sub_RequestID params = name \<and>
        SubmitAccessReview (memory_backend cfg) is_uuid np tp clock others cancelled params checker s = (res, s')"
    show ?thesis
      using request_mem.SubmitAccessReview_keeps_denial
        [of name params others s cfg is_uuid np tp clock cancelled checker res s'] u others assms(1) start
      by blast
  qed
  moreover from this have "value_at (memory_view s') (accessRequestKey name) = None \<or>
       is_denied (value_at (memory_view s') (accessRequestKey name))"
    using start by (simp add: relies_on_def keeps_denial_def)
  ultimately show ?thesis by blast
qed

definition denied_request :: access_request where
  "denied_request = validated_request\<lparr>ar_State := StateDenied\<rparr>"

definition approve :: access_request_update where
  "approve = \<lparr>upd_RequestID = ''request-1'', upd_State = StateApproved, upd_Reason = ''ok'', upd_Annotations = [], upd_Roles = []\<rparr>"

theorem denial_final_witness:
  "let run = SetAccessRequestState (memory_backend plain_memory) (\<lambda>_. True) (\<lambda>i j. 100 + int i * 10 + int j)
       (meanwhile ''bob'' StateApproved) (\<lambda>_. False) approve (with_request denied_request)
   in \<not> is_ok (fst run) \<and> (value_at (memory_view (snd run)) (accessRequestKey ''request-1'') = None \<or>
       is_denied (value_at (memory_view (snd run)) (accessRequestKey ''request-1'')))"
proof -
  let ?run = "SetAccessRequestState (memory_backend plain_memory) (\<lambda>_. True) (\<lambda>i j. 100 + int i * 10 + int j)
       (meanwhile ''bob'' StateApproved) (\<lambda>_. False) approve (with_request denied_request)"
  have "\<not> is_ok (fst ?run)" by code_simp
  moreover have "request_name denied_request = ''request-1''" "ar_State denied_request = StateDenied" "upd_RequestID approve = ''request-1''"
    by code_simp+
  moreover obtain res s' where "?run = (res, s')" by fastforce
  ultimately show ?thesis
    using denial_final [of "with_request denied_request" "''request-1''" denied_request "meanwhile ''bob'' StateApproved" approve
        plain_memory "\<lambda>_. True" "\<lambda>i j. 100 + int i * 10 + int j" "\<lambda>_. False" res s']
      with_request [of denied_request] meanwhile_keeps_denial by simp
qed

section \<open>The data of a plugin\<close>

text \<open>C40: An accepted update of plugin data found every field it expects, an empty value standing for a field that
  is not there; afterwards the fields it sets have their new values and all others, of this and of other plugins, are
  as before.\<close>

theorem plugin_data_update:
  assumes "distinct (map fst (pu_Set p))"
  shows "(is_ok (pd_Update p d) \<longleftrightarrow> pu_Kind p = pd_SubKind d \<and> pu_Resource p = pd_name d \<and>
       (\<forall>(key, val)\<in>set (pu_Expect p). plugin_field d (pu_Plugin p) key = val)) \<and>
    (\<forall>d'. pd_Update p d = Inr d' \<longrightarrow>
       (\<forall>key. plugin_field d' (pu_Plugin p) key =
          (case map_of (pu_Set p) key of None \<Rightarrow> plugin_field d (pu_Plugin p) key | Some val \<Rightarrow> val)) \<and>
       (\<forall>plugin. plugin \<noteq> pu_Plugin p \<longrightarrow> map_of (pd_Entries d') plugin = map_of (pd_Entries d) plugin) \<and>
       map_of (pd_Entries d') (pu_Plugin p) \<noteq> Some [])"
proof
  show "is_ok (pd_Update p d) \<longleftrightarrow> pu_Kind p = pd_SubKind d \<and> pu_Resource p = pd_name d \<and>
       (\<forall>(key, val)\<in>set (pu_Expect p). plugin_field d (pu_Plugin p) key = val)"
    by (simp add: pd_Update_def Let_def checkExpectations_ok)
qed (use pd_Update_fields [OF _ assms] in blast)

definition slack_data :: plugin_data where
  "slack_data = projr (NewPluginData ''request-1'' KindAccessRequest)
     \<lparr>pd_Entries := [(''slack'', [(''channel'', ''ops''), (''ts'', ''1'')]), (''jira'', [(''issue'', ''7'')])]\<rparr>"

definition slack_update :: plugin_update where
  "slack_update = \<lparr>pu_Kind = KindAccessRequest, pu_Resource = ''request-1'', pu_Plugin = ''slack'',
     pu_Set = [(''ts'', []), (''channel'', ''dev'')], pu_Expect = [(''channel'', ''ops''), (''thread'', [])]\<rparr>"

theorem plugin_data_update_witness:
  "\<exists>d. pd_Update slack_update slack_data = Inr d \<and> plugin_field d ''slack'' ''channel'' = ''dev'' \<and> plugin_field d ''slack'' ''ts'' = [] \<and>
     map_of (pd_Entries d) ''jira'' = Some [(''issue'', ''7'')]"
proof -
  have u: "distinct (map fst (pu_Set slack_update))" "is_ok (pd_Update slack_update slack_data)"
    "map_of (pd_Entries slack_data) ''jira'' = Some [(''issue'', ''7'')]" "pu_Plugin slack_update = ''slack''"
    "map_of (pu_Set slack_update) ''channel'' = Some ''dev''" "map_of (pu_Set slack_update) ''ts'' = Some []"
    by code_simp+
  from u(2) obtain d where d: "pd_Update slack_update slack_data = Inr d" by (auto simp: is_ok_iff)
  show ?thesis
    using plugin_data_update [OF u(1), of slack_data] d u(3-6) by auto
qed

end
