(* ===== verification/Tokens.thy ===== *)
theory Tokens
  imports Identity
begin

text \<open>
  How servers join the cluster: the provisioning service (\<open>lib/services/local/provisioning.go\<close>), the static tokens of
  the configuration (\<open>lib/services/local/configuration.go\<close>), the operations of the auth server on tokens
  (\<open>lib/auth/auth.go\<close>) and joining with the identity document of an EC2 instance (\<open>lib/auth/ec2_join.go\<close>).

  The auth server is one without a cache, so that what it reads is the storage. Parsing and verifying signed documents
  and the EC2 service are the record \<open>ec2_world\<close>; the servers that are there are the record \<open>presence\<close>; the keys and
  certificates are made by an argument of \<open>RegisterUsingToken\<close>. \<open>clock i\<close> is the time of the i-th access. Audit events
  and logging are left out.
\<close>

section \<open>The provisioning service\<close>

definition tokensPrefix :: string where
  "tokensPrefix = ''tokens''"

definition provision_key :: "string \<Rightarrow> string" where
  "provision_key token = Key [tokensPrefix, token]"

definition ProvisioningTokenTTL :: duration where
  "ProvisioningTokenTTL = 30 * minute_ns"

definition UpsertToken :: "('s, stored) backend \<Rightarrow> (nat \<Rightarrow> time) \<Rightarrow> provision_token \<Rightarrow> 's \<Rightarrow> unit result \<times> 's" where
  "UpsertToken bk clock p s =
     (case pt_CheckAndSetDefaults p of
        Inl e \<Rightarrow> (Inl e, s)
      | Inr p1 \<Rightarrow>
          (let p2 = (if is_zero_time (pt_Expiry p1) \<or> pt_Expiry p1 - clock 0 < second_ns
                     then pt_SetExpiry (clock 1 + ProvisioningTokenTTL) p1 else p1)
           in case MarshalProvisionToken p2 of
                Inl e \<Rightarrow> (Inl e, s)
              | Inr (p3, data) \<Rightarrow>
                  unit_of (b_Put bk (clock 2)
                    (stored_item (provision_key (pt_name p3)) (StProvision data) (pt_Expiry p3) (md_ID (pt_Metadata p3))) s)))"

definition DeleteAllTokens :: "('s, stored) backend \<Rightarrow> time \<Rightarrow> 's \<Rightarrow> unit result \<times> 's" where
  "DeleteAllTokens bk now s = b_DeleteRange bk now (Key [tokensPrefix]) (RangeEnd (Key [tokensPrefix])) s"

definition read_provision :: "stored item \<Rightarrow> provision_token result" where
  "read_provision i = (case as_provision (it_Value i) of Inl e \<Rightarrow> Inl e | Inr t \<Rightarrow> UnmarshalProvisionToken (it_ID i) t)"

definition GetToken :: "('s, stored) backend \<Rightarrow> time \<Rightarrow> string \<Rightarrow> 's \<Rightarrow> provision_token result \<times> 's" where
  "GetToken bk now token s =
     (if token = [] then (Inl BadParameter, s)
      else case b_Get bk now (provision_key token) s of
             (Inl e, s1) \<Rightarrow> (Inl e, s1)
           | (Inr i, s1) \<Rightarrow> (read_provision i, s1))"

definition service_DeleteToken :: "('s, stored) backend \<Rightarrow> time \<Rightarrow> string \<Rightarrow> 's \<Rightarrow> unit result \<times> 's" where
  "service_DeleteToken bk now token s =
     (if token = [] then (Inl BadParameter, s) else b_Delete bk now (provision_key token) s)"

definition service_GetTokens :: "('s, stored) backend \<Rightarrow> time \<Rightarrow> 's \<Rightarrow> provision_token list result \<times> 's" where
  "service_GetTokens bk now s =
     (let startKey = Key [tokensPrefix]
      in case b_GetRange bk now startKey (RangeEnd startKey) NoLimit s of
           (Inl e, s1) \<Rightarrow> (Inl e, s1)
         | (Inr items, s1) \<Rightarrow> (map_res read_provision items, s1))"

section \<open>The static tokens of the configuration\<close>

definition clusterConfigPrefix :: string where
  "clusterConfigPrefix = ''cluster_configuration''"

definition staticTokensPrefix :: string where
  "staticTokensPrefix = ''static_tokens''"

definition static_key :: string where
  "static_key = Key [clusterConfigPrefix, staticTokensPrefix]"

definition config_GetStaticTokens :: "('s, stored) backend \<Rightarrow> time \<Rightarrow> 's \<Rightarrow> static_tokens result \<times> 's" where
  "config_GetStaticTokens bk now s =
     (case b_Get bk now static_key s of
        (Inl e, s1) \<Rightarrow> (Inl e, s1)
      | (Inr i, s1) \<Rightarrow>
          (case as_static (it_Value i) of
             Inl e \<Rightarrow> (Inl e, s1)
           | Inr c \<Rightarrow> (UnmarshalStaticTokens (it_ID i) (it_Expires i) c, s1)))"

definition config_SetStaticTokens :: "('s, stored) backend \<Rightarrow> time \<Rightarrow> static_tokens \<Rightarrow> 's \<Rightarrow> unit result \<times> 's" where
  "config_SetStaticTokens bk now c s =
     (case MarshalStaticTokens c of
        Inl e \<Rightarrow> (Inl e, s)
      | Inr (c1, value) \<Rightarrow>
          unit_of (b_Put bk now (stored_item static_key (StStatic value) (st_Expiry c1) (md_ID (st_Metadata c1))) s))"

definition config_DeleteStaticTokens :: "('s, stored) backend \<Rightarrow> time \<Rightarrow> 's \<Rightarrow> unit result \<times> 's" where
  "config_DeleteStaticTokens bk now s = b_Delete bk now static_key s"

section \<open>Issuing and deleting tokens\<close>

record generate_token_request =
  gt_Token :: string
  gt_Roles :: "system_role list"
  gt_TTL :: duration
  gt_Labels :: "(string \<times> string) list"

text \<open>\<open>newToken\<close> is what the source of random tokens returns.\<close>

definition gt_CheckAndSetDefaults :: "string result \<Rightarrow> generate_token_request \<Rightarrow> generate_token_request result" where
  "gt_CheckAndSetDefaults newToken req =
     (case map_res SystemRole_Check (gt_Roles req) of
        Inl e \<Rightarrow> Inl e
      | Inr _ \<Rightarrow>
          (let req1 = (if gt_TTL req = 0 then req\<lparr>gt_TTL := ProvisioningTokenTTL\<rparr> else req)
           in if gt_Token req1 = [] then
                (case newToken of Inl e \<Rightarrow> Inl e | Inr token \<Rightarrow> Inr (req1\<lparr>gt_Token := token\<rparr>))
              else Inr req1))"

definition GenerateToken ::
  "('s, stored) backend \<Rightarrow> (nat \<Rightarrow> time) \<Rightarrow> string result \<Rightarrow> generate_token_request \<Rightarrow> 's \<Rightarrow> string result \<times> 's" where
  "GenerateToken bk clock newToken req s =
     (case gt_CheckAndSetDefaults newToken req of
        Inl e \<Rightarrow> (Inl e, s)
      | Inr req1 \<Rightarrow>
          (case NewProvisionToken (gt_Token req1) (gt_Roles req1) (clock 0 + gt_TTL req1) of
             Inl e \<Rightarrow> (Inl e, s)
           | Inr token \<Rightarrow>
               (let token1 = (if gt_Labels req1 \<noteq> [] then token\<lparr>pt_Metadata := (pt_Metadata token)\<lparr>md_Labels := gt_Labels req1\<rparr>\<rparr>
                              else token)
                in case UpsertToken bk (\<lambda>i. clock (1 + i)) token1 s of
                     (Inl e, s1) \<Rightarrow> (Inl e, s1)
                   | (Inr _, s1) \<Rightarrow> (Inr (gt_Token req1), s1))))"

definition static_token :: "static_tokens \<Rightarrow> string \<Rightarrow> provision_token option" where
  "static_token tkns token = find (\<lambda>st. pt_name st = token) (GetStaticTokens tkns)"

text \<open>\<open>others i\<close> is what other servers do before the i-th of the three steps.\<close>

definition DeleteToken ::
  "('s, stored) backend \<Rightarrow> (nat \<Rightarrow> time) \<Rightarrow> (nat \<Rightarrow> 's \<Rightarrow> 's) \<Rightarrow> string \<Rightarrow> 's \<Rightarrow> unit result \<times> 's" where
  "DeleteToken bk clock others token s =
     (case config_GetStaticTokens bk (clock 0) (others 0 s) of
        (Inl e, s1) \<Rightarrow> (Inl e, s1)
      | (Inr tkns, s1) \<Rightarrow>
          if static_token tkns token \<noteq> None then (Inl BadParameter, s1)
          else case DeleteResetPasswordToken bk (\<lambda>i. clock (1 + i)) token (others 1 s1) of
                 (Inr _, s2) \<Rightarrow> (Inr (), s2)
               | (Inl _, s2) \<Rightarrow> service_DeleteToken bk (clock 3) token (others 2 s2))"

definition reset_tokens_as_provision :: "reset_token list \<Rightarrow> provision_token list result" where
  "reset_tokens_as_provision = map_res (\<lambda>t. NewProvisionToken (rt_name t) [RoleSignup] (rt_Expiry t))"

definition reset_tokens_after ::
  "('s, stored) backend \<Rightarrow> time \<Rightarrow> provision_token list \<Rightarrow> 's \<Rightarrow> provision_token list result \<times> 's" where
  "reset_tokens_after bk now tokens s =
     (case GetResetPasswordTokens bk now s of
        (Inl e, s1) \<Rightarrow> (Inl e, s1)
      | (Inr resets, s1) \<Rightarrow>
          (case reset_tokens_as_provision resets of Inl e \<Rightarrow> (Inl e, s1) | Inr signups \<Rightarrow> (Inr (tokens @ signups), s1)))"

definition GetTokens :: "('s, stored) backend \<Rightarrow> (nat \<Rightarrow> time) \<Rightarrow> 's \<Rightarrow> provision_token list result \<times> 's" where
  "GetTokens bk clock s =
     (case service_GetTokens bk (clock 0) s of
        (Inl e, s1) \<Rightarrow> (Inl e, s1)
      | (Inr tokens, s1) \<Rightarrow>
          (case config_GetStaticTokens bk (clock 1) s1 of
             (r, s2) \<Rightarrow>
               (case r of
                  Inl e \<Rightarrow> if e \<noteq> NotFound then (Inl e, s2) else reset_tokens_after bk (clock 2) tokens s2
                | Inr tkns \<Rightarrow> reset_tokens_after bk (clock 2) (tokens @ GetStaticTokens tkns) s2)))"

section \<open>Checking tokens\<close>

definition no_others :: "nat \<Rightarrow> 's \<Rightarrow> 's" where
  "no_others i s = s"

text \<open>Whether the token is still valid; an expired one is deleted, and errors of that are only logged.\<close>

definition checkTokenTTL :: "('s, stored) backend \<Rightarrow> (nat \<Rightarrow> time) \<Rightarrow> provision_token \<Rightarrow> 's \<Rightarrow> bool \<times> 's" where
  "checkTokenTTL bk clock tok s =
     (if pt_Expiry tok < clock 0 then (False, snd (DeleteToken bk (\<lambda>i. clock (1 + i)) no_others (pt_name tok) s)) else (True, s))"

definition ValidateToken ::
  "('s, stored) backend \<Rightarrow> (nat \<Rightarrow> time) \<Rightarrow> string \<Rightarrow> 's \<Rightarrow> (system_role list \<times> (string \<times> string) list) result \<times> 's" where
  "ValidateToken bk clock token s =
     (case config_GetStaticTokens bk (clock 0) s of
        (Inl e, s1) \<Rightarrow> (Inl e, s1)
      | (Inr tkns, s1) \<Rightarrow>
          (case static_token tkns token of
             Some st \<Rightarrow> (Inr (pt_Roles st, []), s1)
           | None \<Rightarrow>
               (case GetToken bk (clock 1) token s1 of
                  (Inl e, s2) \<Rightarrow> (Inl e, s2)
                | (Inr tok, s2) \<Rightarrow>
                    (case checkTokenTTL bk (\<lambda>i. clock (2 + i)) tok s2 of
                       (ok, s3) \<Rightarrow>
                         if \<not> ok then (Inl AccessDenied, s3) else (Inr (pt_Roles tok, md_Labels (pt_Metadata tok)), s3)))))"

definition RegisterNewAuthServer ::
  "('s, stored) backend \<Rightarrow> (nat \<Rightarrow> time) \<Rightarrow> (nat \<Rightarrow> 's \<Rightarrow> 's) \<Rightarrow> string \<Rightarrow> 's \<Rightarrow> unit result \<times> 's" where
  "RegisterNewAuthServer bk clock others token s =
     (case GetToken bk (clock 0) token (others 0 s) of
        (Inl e, s1) \<Rightarrow> (Inl e, s1)
      | (Inr tok, s1) \<Rightarrow>
          if \<not> Include (pt_Roles tok) RoleAuth then (Inl AccessDenied, s1)
          else DeleteToken bk (\<lambda>i. clock (1 + i)) (\<lambda>i. others (1 + i)) token s1)"

section \<open>Joining with the identity document of an EC2 instance\<close>

record identity_document =
  iid_AccountID :: string
  iid_InstanceID :: string
  iid_Region :: string
  iid_PendingTime :: time

record ec2_instance =
  ins_InstanceId :: "string option"
  ins_State :: "string option"

text \<open>The libraries: decoding PEM, the content of a signed PKCS7 message and its JSON, the certificate of a region,
  verification by a certificate, the default configuration, and what the service says about an instance when asked in
  a region under a role.\<close>

record ec2_world =
  pem_Decode :: "string \<Rightarrow> string option"
  pkcs7_Parse :: "string \<Rightarrow> string result"
  json_document :: "string \<Rightarrow> identity_document result"
  region_cert :: "string \<Rightarrow> string option"
  pkcs7_Verify :: "string \<Rightarrow> string \<Rightarrow> unit result"
  LoadDefaultConfig :: "unit result"
  DescribeInstances :: "string \<Rightarrow> string \<Rightarrow> string \<Rightarrow> ec2_instance list list result"

definition NodeIDFromIID :: "identity_document \<Rightarrow> string" where
  "NodeIDFromIID iid = iid_AccountID iid @ ''-'' @ iid_InstanceID iid"

definition checkInstanceRunning :: "ec2_world \<Rightarrow> string \<Rightarrow> string \<Rightarrow> string \<Rightarrow> unit result" where
  "checkInstanceRunning w instanceID region IAMRole =
     (case LoadDefaultConfig w of
        Inl e \<Rightarrow> Inl e
      | Inr _ \<Rightarrow>
          (case DescribeInstances w region IAMRole instanceID of
             Inl e \<Rightarrow> Inl e
           | Inr reservations \<Rightarrow>
               if reservations = [] \<or> hd reservations = [] then Inl AccessDenied
               else
                 (let ins = hd (hd reservations)
                  in if ins_InstanceId ins \<noteq> Some instanceID then Inl AccessDenied
                     else if ins_State ins \<noteq> Some ''running'' then Inl AccessDenied
                     else Inr ())))"

fun allow_rules_loop :: "ec2_world \<Rightarrow> identity_document \<Rightarrow> token_rule list \<Rightarrow> unit result" where
  "allow_rules_loop w iid [] = Inl AccessDenied"
| "allow_rules_loop w iid (rule1 # rules) =
     (if tr_AWSAccount rule1 \<noteq> [] \<and> tr_AWSAccount rule1 \<noteq> iid_AccountID iid then allow_rules_loop w iid rules
      else if tr_AWSRegions rule1 \<noteq> [] \<and> \<not> slice_contains (tr_AWSRegions rule1) (iid_Region iid) then allow_rules_loop w iid rules
      else checkInstanceRunning w (iid_InstanceID iid) (iid_Region iid) (tr_AWSRole rule1))"

definition checkEC2AllowRules :: "ec2_world \<Rightarrow> identity_document \<Rightarrow> provision_token \<Rightarrow> unit result" where
  "checkEC2AllowRules w iid t = allow_rules_loop w iid (pt_Allow t)"

definition parseAndVerifyIID :: "ec2_world \<Rightarrow> string \<Rightarrow> identity_document result" where
  "parseAndVerifyIID w iidBytes =
     (case pem_Decode w (''-----BEGIN PKCS7-----'' @ [CHR 0x0A] @ iidBytes @ [CHR 0x0A] @ ''-----END PKCS7-----'') of
        None \<Rightarrow> Inl AccessDenied
      | Some sigBER \<Rightarrow>
          (case pkcs7_Parse w sigBER of
             Inl e \<Rightarrow> Inl e
           | Inr content \<Rightarrow>
               (case json_document w content of
                  Inl e \<Rightarrow> Inl e
                | Inr iid \<Rightarrow>
                    (case region_cert w (iid_Region iid) of
                       None \<Rightarrow> Inl AccessDenied
                     | Some cert \<Rightarrow>
                         (case pkcs7_Verify w sigBER cert of Inl _ \<Rightarrow> Inl AccessDenied | Inr _ \<Rightarrow> Inr iid)))))"

definition checkPendingTime :: "identity_document \<Rightarrow> provision_token \<Rightarrow> time \<Rightarrow> unit result" where
  "checkPendingTime iid t now =
     (let timeSinceInstanceStart = now - iid_PendingTime iid
      in if timeSinceInstanceStart < - minute_ns then Inl AccessDenied
         else if timeSinceInstanceStart > pt_AWSIIDTTL t then Inl AccessDenied else Inr ())"

text \<open>The servers that have joined, by name; \<open>pr_Node\<close> takes a namespace and the name of a node.\<close>

record presence =
  pr_Namespaces :: "string list result"
  pr_Node :: "string \<Rightarrow> string \<Rightarrow> unit result"
  pr_Proxies :: "string list result"
  pr_KubeServices :: "string list result"
  pr_AppServers :: "string \<Rightarrow> string list result"
  pr_DatabaseServers :: "string \<Rightarrow> string list result"

fun node_loop :: "presence \<Rightarrow> string \<Rightarrow> string list \<Rightarrow> bool result" where
  "node_loop p hostID [] = Inr False"
| "node_loop p hostID (ns # namespaces) =
     (case pr_Node p ns hostID of
        Inl e \<Rightarrow> if e = NotFound then node_loop p hostID namespaces else Inl e
      | Inr _ \<Rightarrow> Inr True)"

definition nodeExists :: "presence \<Rightarrow> string \<Rightarrow> bool result" where
  "nodeExists p hostID = (case pr_Namespaces p of Inl e \<Rightarrow> Inl e | Inr namespaces \<Rightarrow> node_loop p hostID namespaces)"

definition proxyExists :: "presence \<Rightarrow> string \<Rightarrow> bool result" where
  "proxyExists p hostID = (case pr_Proxies p of Inl e \<Rightarrow> Inl e | Inr proxies \<Rightarrow> Inr (hostID \<in> set proxies))"

definition kubeExists :: "presence \<Rightarrow> string \<Rightarrow> bool result" where
  "kubeExists p hostID = (case pr_KubeServices p of Inl e \<Rightarrow> Inl e | Inr kubes \<Rightarrow> Inr (hostID \<in> set kubes))"

fun servers_loop :: "(string \<Rightarrow> string list result) \<Rightarrow> string \<Rightarrow> string list \<Rightarrow> bool result" where
  "servers_loop servers hostID [] = Inr False"
| "servers_loop servers hostID (ns # namespaces) =
     (case servers ns of
        Inl e \<Rightarrow> Inl e
      | Inr found \<Rightarrow> if hostID \<in> set found then Inr True else servers_loop servers hostID namespaces)"

definition appExists :: "presence \<Rightarrow> string \<Rightarrow> bool result" where
  "appExists p hostID =
     (case pr_Namespaces p of Inl e \<Rightarrow> Inl e | Inr namespaces \<Rightarrow> servers_loop (pr_AppServers p) hostID namespaces)"

definition dbExists :: "presence \<Rightarrow> string \<Rightarrow> bool result" where
  "dbExists p hostID =
     (case pr_Namespaces p of Inl e \<Rightarrow> Inl e | Inr namespaces \<Rightarrow> servers_loop (pr_DatabaseServers p) hostID namespaces)"

record join_request =
  jr_HostID :: string
  jr_NodeName :: string
  jr_Role :: system_role
  jr_Token :: string
  jr_AdditionalPrincipals :: "string list"
  jr_DNSNames :: "string list"
  jr_PublicTLSKey :: string
  jr_PublicSSHKey :: string
  jr_RemoteAddr :: string
  jr_EC2IdentityDocument :: "string option"

definition jr_CheckAndSetDefaults :: "join_request \<Rightarrow> unit result" where
  "jr_CheckAndSetDefaults r =
     (if jr_HostID r = [] then Inl BadParameter
      else if jr_Token r = [] then Inl BadParameter
      else SystemRole_Check (jr_Role r))"

definition instance_exists :: "presence \<Rightarrow> system_role \<Rightarrow> string \<Rightarrow> bool result" where
  "instance_exists p role1 hostID =
     (if role1 = RoleNode then nodeExists p hostID
      else if role1 = RoleProxy then proxyExists p hostID
      else if role1 = RoleKube then kubeExists p hostID
      else if role1 = RoleApp then appExists p hostID
      else if role1 = RoleDatabase then dbExists p hostID
      else Inl BadParameter)"

definition checkInstanceUnique :: "presence \<Rightarrow> join_request \<Rightarrow> identity_document \<Rightarrow> unit result" where
  "checkInstanceUnique p req iid =
     (if jr_HostID req \<noteq> NodeIDFromIID iid then Inl AccessDenied
      else case instance_exists p (jr_Role req) (jr_HostID req) of
             Inl e \<Rightarrow> Inl e
           | Inr instanceExists \<Rightarrow> if instanceExists then Inl AccessDenied else Inr ())"

text \<open>The checks of the document, once the token asks for one and the request has it.\<close>

definition check_document :: "ec2_world \<Rightarrow> presence \<Rightarrow> time \<Rightarrow> join_request \<Rightarrow> string \<Rightarrow> provision_token \<Rightarrow> unit result" where
  "check_document w p now req document t =
     (case parseAndVerifyIID w document of
        Inl e \<Rightarrow> Inl e
      | Inr iid \<Rightarrow>
          (case checkPendingTime iid t now of
             Inl e \<Rightarrow> Inl e
           | Inr _ \<Rightarrow>
               (case checkInstanceUnique p req iid of
                  Inl e \<Rightarrow> Inl e
                | Inr _ \<Rightarrow> checkEC2AllowRules w iid t)))"

definition CheckEC2Request ::
  "ec2_world \<Rightarrow> presence \<Rightarrow> ('s, stored) backend \<Rightarrow> (nat \<Rightarrow> time) \<Rightarrow> join_request \<Rightarrow> 's \<Rightarrow> unit result \<times> 's" where
  "CheckEC2Request w p bk clock req s =
     (case GetToken bk (clock 0) (jr_Token req) s of
        (Inl e, s1) \<Rightarrow> (if e = NotFound \<and> jr_EC2IdentityDocument req = None then Inr () else Inl e, s1)
      | (Inr t, s1) \<Rightarrow>
          (case jr_EC2IdentityDocument req of
             None \<Rightarrow> if pt_Allow t = [] then (Inr (), s1) else (Inl AccessDenied, s1)
           | Some document \<Rightarrow>
               if pt_Allow t = [] then (Inl BadParameter, s1) else (check_document w p (clock 1) req document t, s1)))"

text \<open>The request for keys, with the fields that a registration sets.\<close>

record server_keys_request =
  sk_HostID :: string
  sk_NodeName :: string
  sk_Roles :: "system_role list"
  sk_AdditionalPrincipals :: "string list"
  sk_DNSNames :: "string list"
  sk_PublicTLSKey :: string
  sk_PublicSSHKey :: string
  sk_RemoteAddr :: string

definition sk_CheckAndSetDefaults :: "server_keys_request \<Rightarrow> unit result" where
  "sk_CheckAndSetDefaults req =
     (if sk_HostID req = [] then Inl BadParameter else if length (sk_Roles req) \<noteq> 1 then Inl BadParameter else Inr ())"

definition keys_request :: "join_request \<Rightarrow> server_keys_request" where
  "keys_request req =
     \<lparr>sk_HostID = jr_HostID req, sk_NodeName = jr_NodeName req, sk_Roles = [jr_Role req],
      sk_AdditionalPrincipals = jr_AdditionalPrincipals req, sk_DNSNames = jr_DNSNames req,
      sk_PublicTLSKey = jr_PublicTLSKey req, sk_PublicSSHKey = jr_PublicSSHKey req, sk_RemoteAddr = jr_RemoteAddr req\<rparr>"

definition RegisterUsingToken ::
  "ec2_world \<Rightarrow> presence \<Rightarrow> ('s, stored) backend \<Rightarrow> (server_keys_request \<Rightarrow> 's \<Rightarrow> 'k result \<times> 's) \<Rightarrow> (nat \<Rightarrow> time) \<Rightarrow>
     join_request \<Rightarrow> 's \<Rightarrow> 'k result \<times> 's" where
  "RegisterUsingToken w p bk generateServerKeys clock req s =
     (case jr_CheckAndSetDefaults req of
        Inl e \<Rightarrow> (Inl e, s)
      | Inr _ \<Rightarrow>
          (case CheckEC2Request w p bk clock req s of
             (Inl e, s1) \<Rightarrow> (Inl e, s1)
           | (Inr _, s1) \<Rightarrow>
               (case ValidateToken bk (\<lambda>i. clock (2 + i)) (jr_Token req) s1 of
                  (Inl _, s2) \<Rightarrow> (Inl AccessDenied, s2)
                | (Inr (roles, labels), s2) \<Rightarrow>
                    if \<not> Include roles (jr_Role req) then (Inl BadParameter, s2)
                    else generateServerKeys (keys_request req) s2)))"

end
