(* ===== verification/Tokens_Facts.thy ===== *)
theory Tokens_Facts
  imports Tokens
begin

text \<open>
  What joining the cluster needs: a token that is in the storage or the configuration, grants the role asked for and has
  not expired, and for a token with rules a verified document of a running instance that has not joined yet.
\<close>

section \<open>What a token grants\<close>

text \<open>The token under a name, as it reads from an item.\<close>

definition provision_at :: "(string \<Rightarrow> stored item option) \<Rightarrow> string \<Rightarrow> provision_token option" where
  "provision_at m token =
     (case m (provision_key token) of
        None \<Rightarrow> None
      | Some i \<Rightarrow> (case read_provision i of Inl _ \<Rightarrow> None | Inr t \<Rightarrow> Some t))"

definition static_at :: "(string \<Rightarrow> stored item option) \<Rightarrow> static_tokens option" where
  "static_at m =
     (case m static_key of
        None \<Rightarrow> None
      | Some i \<Rightarrow>
          (case as_static (it_Value i) of
             Inl _ \<Rightarrow> None
           | Inr c \<Rightarrow> (case UnmarshalStaticTokens (it_ID i) (it_Expires i) c of Inl _ \<Rightarrow> None | Inr c1 \<Rightarrow> Some c1)))"

definition rule_matches :: "identity_document \<Rightarrow> token_rule \<Rightarrow> bool" where
  "rule_matches iid r \<longleftrightarrow> (tr_AWSAccount r = [] \<or> tr_AWSAccount r = iid_AccountID iid) \<and>
     (tr_AWSRegions r = [] \<or> iid_Region iid \<in> set (tr_AWSRegions r))"

text \<open>The conditions of joining with a document.\<close>

definition document_ok :: "ec2_world \<Rightarrow> presence \<Rightarrow> time \<Rightarrow> join_request \<Rightarrow> provision_token \<Rightarrow> bool" where
  "document_ok w p now req t \<longleftrightarrow>
     (\<exists>doc iid. jr_EC2IdentityDocument req = Some doc \<and> parseAndVerifyIID w doc = Inr iid \<and>
        iid_PendingTime iid - minute_ns \<le> now \<and> now \<le> iid_PendingTime iid + pt_AWSIIDTTL t \<and>
        jr_HostID req = NodeIDFromIID iid \<and> instance_exists p (jr_Role req) (jr_HostID req) = Inr False \<and>
        (\<exists>r\<in>set (pt_Allow t). rule_matches iid r \<and>
           checkInstanceRunning w (iid_InstanceID iid) (iid_Region iid) (tr_AWSRole r) = Inr ()))"

lemma allow_rules_loop_ok:
  "allow_rules_loop w iid rules = Inr () \<Longrightarrow>
     \<exists>r\<in>set rules. rule_matches iid r \<and> checkInstanceRunning w (iid_InstanceID iid) (iid_Region iid) (tr_AWSRole r) = Inr ()"
  by (induction rules) (auto simp: rule_matches_def slice_contains_def split: if_splits)

lemma check_document_ok:
  "check_document w p now req doc t = Inr () \<Longrightarrow> jr_EC2IdentityDocument req = Some doc \<Longrightarrow> document_ok w p now req t"
  using allow_rules_loop_ok [of w _ "pt_Allow t"]
  by (auto simp: check_document_def document_ok_def checkPendingTime_def checkInstanceUnique_def checkEC2AllowRules_def Let_def
      split: sum.splits if_splits)

text \<open>When a generated token expires.\<close>

definition generated_expiry :: "(nat \<Rightarrow> time) \<Rightarrow> generate_token_request \<Rightarrow> time" where
  "generated_expiry clock req =
     (let e = clock 0 + (if gt_TTL req = 0 then ProvisioningTokenTTL else gt_TTL req)
      in if is_zero_time e \<or> e - clock 1 < second_ns then clock 2 + ProvisioningTokenTTL else e)"

text \<open>What is not there stays so.\<close>

definition keeps_absent :: "('s \<Rightarrow> bool) \<Rightarrow> ('s \<Rightarrow> string \<Rightarrow> 'v item option) \<Rightarrow> string set \<Rightarrow> 's \<Rightarrow> 's \<Rightarrow> bool" where
  "keeps_absent ok contents K s s' \<longleftrightarrow> ok s' \<and> (\<forall>k\<in>K. contents s k = None \<longrightarrow> contents s' k = None)"

section \<open>What the operations read\<close>

locale join_store = kv_keyed bk inv view purge safe
  for bk :: "('s, stored) backend" and inv and view :: "'s \<Rightarrow> string \<Rightarrow> stored item option" and purge and safe
begin

lemma safe_keys [simp]: "safe static_key" "safe (provision_key token)" "safe (token_key parts)"
  using all_safe(1) by (simp_all add: static_key_def provision_key_def token_key_def)

lemma GetStaticTokens_read:
  assumes "inv s"
  shows "config_GetStaticTokens bk now s =
      (fst (config_GetStaticTokens bk now s), purge now s)"
    "fst (config_GetStaticTokens bk now s) = Inr c \<longleftrightarrow> static_at (view (purge now s)) = Some c"
  using get [OF assms safe_keys(1), of now]
  by (auto simp: config_GetStaticTokens_def static_at_def split: option.splits sum.splits)

lemma GetToken_read:
  assumes "inv s" "token \<noteq> []"
  shows "GetToken bk now token s =
      (case view (purge now s) (provision_key token) of None \<Rightarrow> Inl NotFound | Some i \<Rightarrow> read_provision i, purge now s)"
  using get [OF assms(1) safe_keys(2), of now] assms(2) by (auto simp: GetToken_def split: option.splits)

lemma provision_purged: "inv s \<Longrightarrow> provision_at (view (purge now s)) token = Some t \<Longrightarrow> provision_at (view s) token = Some t"
  using purge_old [of s now "provision_key token"] by (auto simp: provision_at_def split: option.splits)

lemma static_purged: "inv s \<Longrightarrow> static_at (view (purge now s)) = Some c \<Longrightarrow> static_at (view s) = Some c"
  using purge_old [of s now static_key] by (auto simp: static_at_def split: option.splits)

lemma ValidateToken_Inr:
  assumes "inv s" "token \<noteq> []" "ValidateToken bk clock token s = (Inr (roles, labels), s')"
  shows "(\<exists>c st. static_at (view s) = Some c \<and> static_token c token = Some st \<and> pt_Roles st = roles) \<or>
    (\<exists>t. provision_at (view s) token = Some t \<and> pt_Roles t = roles \<and> clock 2 \<le> pt_Expiry t)"
proof -
  obtain c where c: "fst (config_GetStaticTokens bk (clock 0) s) = Inr c"
    using assms(3) by (auto simp: ValidateToken_def split: sum.splits prod.splits)
  note static = GetStaticTokens_read(1) [OF assms(1), of "clock 0", unfolded c]
  have c1: "static_at (view s) = Some c" using c GetStaticTokens_read(2) [OF assms(1)] static_purged [OF assms(1)] by blast
  show ?thesis
  proof (cases "static_token c token")
    case (Some st)
    then show ?thesis using assms(3) c1 by (simp add: ValidateToken_def static)
  next
    case None
    let ?s1 = "purge (clock 0) s"
    have inv1: "inv ?s1" by (rule purge_inv [OF assms(1)])
    have "\<exists>t. provision_at (view (purge (clock 1) ?s1)) token = Some t \<and> pt_Roles t = roles \<and> clock 2 \<le> pt_Expiry t"
      using assms(3) None
      by (auto simp: ValidateToken_def static GetToken_read [OF inv1 assms(2)] checkTokenTTL_def provision_at_def numeral_2_eq_2
          split: option.splits sum.splits if_splits)
    then show ?thesis using provision_purged [OF inv1] provision_purged [OF assms(1)] by blast
  qed
qed

lemma CheckEC2Request_ok:
  assumes "inv s" "jr_Token req \<noteq> []" "CheckEC2Request w p bk clock req s = (Inr (), s1)"
  shows "s1 = purge (clock 0) s" and
    "provision_at (view (purge (clock 0) s)) (jr_Token req) = Some t \<Longrightarrow> pt_Allow t \<noteq> [] \<Longrightarrow> document_ok w p (clock 1) req t"
proof -
  note read = GetToken_read [OF assms(1,2), of "clock 0"]
  show "s1 = purge (clock 0) s"
    using assms(3) by (auto simp: CheckEC2Request_def read split: option.splits sum.splits if_splits)
  assume "provision_at (view (purge (clock 0) s)) (jr_Token req) = Some t" "pt_Allow t \<noteq> []"
  then show "document_ok w p (clock 1) req t"
    using assms(3) check_document_ok
    by (auto simp: CheckEC2Request_def read provision_at_def split: option.splits sum.splits if_splits)
qed

lemma RegisterUsingToken_ok:
  assumes "inv s" "RegisterUsingToken w p bk gen clock req s = (Inr keys, s')"
  shows "\<exists>roles s1. jr_Role req \<in> set roles \<and> gen (keys_request req) s1 = (Inr keys, s') \<and>
    ((\<exists>c st. static_at (view s) = Some c \<and> static_token c (jr_Token req) = Some st \<and> pt_Roles st = roles) \<or>
     (\<exists>t. provision_at (view s) (jr_Token req) = Some t \<and> pt_Roles t = roles \<and> clock 4 \<le> pt_Expiry t)) \<and>
    (\<forall>t. provision_at (view (purge (clock 0) s)) (jr_Token req) = Some t \<longrightarrow> pt_Allow t \<noteq> [] \<longrightarrow> document_ok w p (clock 1) req t)"
proof -
  let ?token = "jr_Token req"
  have token: "?token \<noteq> []" using assms(2) by (auto simp: RegisterUsingToken_def jr_CheckAndSetDefaults_def split: if_splits)
  obtain s1 where c: "CheckEC2Request w p bk clock req s = (Inr (), s1)"
    using assms(2) by (auto simp: RegisterUsingToken_def split: sum.splits prod.splits)
  note c1 = CheckEC2Request_ok [OF assms(1) token c]
  have inv1: "inv s1" using c1(1) purge_inv [OF assms(1)] by simp
  obtain roles labels s2 where v: "ValidateToken bk (\<lambda>i. clock (2 + i)) ?token s1 = (Inr (roles, labels), s2)"
    "jr_Role req \<in> set roles" "gen (keys_request req) s2 = (Inr keys, s')"
    using assms(2) c by (auto simp: RegisterUsingToken_def split: sum.splits prod.splits if_splits)
  have "(\<exists>c st. static_at (view s) = Some c \<and> static_token c ?token = Some st \<and> pt_Roles st = roles) \<or>
     (\<exists>t. provision_at (view s) ?token = Some t \<and> pt_Roles t = roles \<and> clock 4 \<le> pt_Expiry t)"
    using ValidateToken_Inr [OF inv1 token v(1)] static_purged [OF assms(1)] provision_purged [OF assms(1)] c1(1) by auto
  then show ?thesis using v(2,3) c1(2) by blast
qed

text \<open>An upserted token reads earlier with its roles; one that would expire within a second gets the default time to live.\<close>

lemma UpsertToken_stores:
  assumes "inv s" "UpsertToken bk clock p s = (Inr (), s')"
  shows "inv s' \<and> (\<exists>i t. view s' (provision_key (pt_name p)) = Some i \<and> read_provision i = Inr t \<and> it_Expires i = pt_Expiry t \<and>
    pt_Roles t = pt_Roles p \<and> pt_Allow t = pt_Allow p \<and> md_Labels (pt_Metadata t) = md_Labels (pt_Metadata p) \<and>
    pt_Expiry t = (if is_zero_time (pt_Expiry p) \<or> pt_Expiry p - clock 0 < second_ns then clock 1 + ProvisioningTokenTTL else pt_Expiry p))"
proof -
  obtain p1 where p1: "pt_CheckAndSetDefaults p = Inr p1" using assms(2) by (auto simp: UpsertToken_def split: sum.splits)
  note f1 = pt_check_Inr [OF p1]
  let ?p2 = "if is_zero_time (pt_Expiry p1) \<or> pt_Expiry p1 - clock 0 < second_ns
             then pt_SetExpiry (clock 1 + ProvisioningTokenTTL) p1 else p1"
  obtain p3 data where p3: "MarshalProvisionToken ?p2 = Inr (p3, data)"
    using assms(2) p1 by (auto simp: UpsertToken_def Let_def split: sum.splits)
  then have "pt_CheckAndSetDefaults ?p2 = Inr p3" by (auto simp: MarshalProvisionToken_def split: sum.splits)
  note f3 = pt_check_Inr [OF this]
  have f2: "pt_Roles ?p2 = pt_Roles p1" "pt_Allow ?p2 = pt_Allow p1" "pt_name ?p2 = pt_name p1"
    "md_Labels (pt_Metadata ?p2) = md_Labels (pt_Metadata p1)"
    "pt_Expiry ?p2 = (if is_zero_time (pt_Expiry p1) \<or> pt_Expiry p1 - clock 0 < second_ns then clock 1 + ProvisioningTokenTTL else pt_Expiry p1)"
    by (simp_all add: pt_SetExpiry_def pt_name_def pt_Expiry_def)
  let ?i = "stored_item (provision_key (pt_name p3)) (StProvision data) (pt_Expiry p3) (md_ID (pt_Metadata p3))"
  have run: "unit_of (b_Put bk (clock 2) ?i s) = (Inr (), s')"
    using assms(2) p1 p3 by (simp add: UpsertToken_def Let_def)
  have "safe (it_Key ?i)" by (simp add: stored_item_def)
  from put [OF assms(1) this, of "clock 2"] obtain l j s2 where put: "b_Put bk (clock 2) ?i s = (Inr l, s2)" "inv s2"
    "view s2 = (view (purge (clock 2) s))(it_Key ?i \<mapsto> ?i\<lparr>it_ID := j\<rparr>)" by blast
  have "read_provision (?i\<lparr>it_ID := j\<rparr>) = Inr (pt_SetResourceID j p3)"
    using provision_token_roundtrip [OF p3] by (simp add: read_provision_def stored_item_def)
  moreover have "view s' (provision_key (pt_name p)) = Some (?i\<lparr>it_ID := j\<rparr>)" "inv s'"
    using put run f1(4) f2(3) f3(4) by (simp_all add: stored_item_def)
  ultimately show ?thesis using f1 f2 f3 by (simp add: stored_item_def)
qed

lemma GenerateToken_stores:
  assumes "inv s" "GenerateToken bk clock newToken req s = (Inr token, s')"
  shows "inv s' \<and> token \<noteq> [] \<and> (\<exists>i t. view s' (provision_key token) = Some i \<and> read_provision i = Inr t \<and> it_Expires i = pt_Expiry t \<and>
    pt_Roles t = gt_Roles req \<and> pt_Allow t = [] \<and> md_Labels (pt_Metadata t) = gt_Labels req \<and> pt_Expiry t = generated_expiry clock req)"
proof -
  obtain req1 where r: "gt_CheckAndSetDefaults newToken req = Inr req1"
    using assms(2) by (auto simp: GenerateToken_def split: sum.splits)
  then have req1: "gt_Roles req1 = gt_Roles req" "gt_Labels req1 = gt_Labels req"
    "gt_TTL req1 = (if gt_TTL req = 0 then ProvisioningTokenTTL else gt_TTL req)"
    by (auto simp: gt_CheckAndSetDefaults_def Let_def split: sum.splits if_splits)
  obtain t0 where t0: "NewProvisionToken (gt_Token req1) (gt_Roles req1) (clock 0 + gt_TTL req1) = Inr t0"
    using assms(2) r by (auto simp: GenerateToken_def split: sum.splits)
  then have f0: "pt_Roles t0 = gt_Roles req1" "pt_Allow t0 = []" "pt_name t0 = gt_Token req1" "pt_Expiry t0 = clock 0 + gt_TTL req1"
    "md_Labels (pt_Metadata t0) = []" "gt_Token req1 \<noteq> []"
    using pt_check_Inr(1-6) [OF t0 [unfolded NewProvisionToken_def NewProvisionTokenFromSpec_def]] by (simp_all add: pt_name_def pt_Expiry_def)
  let ?t1 = "if gt_Labels req1 \<noteq> [] then t0\<lparr>pt_Metadata := (pt_Metadata t0)\<lparr>md_Labels := gt_Labels req1\<rparr>\<rparr> else t0"
  have f1: "pt_Roles ?t1 = gt_Roles req" "pt_Allow ?t1 = []" "pt_name ?t1 = gt_Token req1"
    "pt_Expiry ?t1 = clock 0 + gt_TTL req1" "md_Labels (pt_Metadata ?t1) = gt_Labels req"
    using f0 req1 by (simp_all add: pt_name_def pt_Expiry_def)
  have up: "UpsertToken bk (\<lambda>i. clock (1 + i)) ?t1 s = (Inr (), s')" "token = gt_Token req1"
    using assms(2) r t0 by (auto simp: GenerateToken_def Let_def split: sum.splits prod.splits if_splits)
  have expiry: "(if is_zero_time (clock 0 + gt_TTL req1) \<or> clock 0 + gt_TTL req1 - clock (1 + 0) < second_ns
      then clock (1 + 1) + ProvisioningTokenTTL else clock 0 + gt_TTL req1) = generated_expiry clock req"
    by (simp add: generated_expiry_def Let_def req1(3) numeral_2_eq_2)
  show ?thesis
    using UpsertToken_stores [OF assms(1) up(1), unfolded f1 expiry] up(2) f0(6) by simp
qed

text \<open>Checking a token that is in the storage and not a static one.\<close>

lemma ValidateToken_stored:
  assumes "inv s" "token \<noteq> []" "fst (config_GetStaticTokens bk (clock 0) s) = Inr c" "static_token c token = None"
    and i: "view s (provision_key token) = Some i" "read_provision i = Inr t" "it_Expires i = pt_Expiry t"
    and times: "clock 0 \<le> clock 1" "clock 1 \<le> clock 2" "0 < pt_Expiry t"
  shows "(clock 2 < pt_Expiry t \<longrightarrow> fst (ValidateToken bk clock token s) = Inr (pt_Roles t, md_Labels (pt_Metadata t))) \<and>
    (pt_Expiry t < clock 2 \<longrightarrow> fst (ValidateToken bk clock token s) \<in> {Inl NotFound, Inl AccessDenied})"
proof -
  let ?s1 = "purge (clock 0) s" and ?k = "provision_key token"
  let ?s2 = "purge (clock 1) ?s1"
  have inv1: "inv ?s1" by (rule purge_inv [OF assms(1)])
  note static = GetStaticTokens_read(1) [OF assms(1), of "clock 0", unfolded assms(3)]
  have old: "view ?s2 ?k = Some i \<or> view ?s2 ?k = None"
    using purge_old [OF inv1, of "clock 1" ?k] purge_old [OF assms(1), of "clock 0" ?k] i(1)
    by (cases "view ?s2 ?k") auto
  have run: "ValidateToken bk clock token s =
      (case view ?s2 ?k of
         None \<Rightarrow> (Inl NotFound, ?s2)
       | Some i \<Rightarrow>
           (case read_provision i of
              Inl e \<Rightarrow> (Inl e, ?s2)
            | Inr tok \<Rightarrow>
                (case checkTokenTTL bk (\<lambda>i. clock (2 + i)) tok ?s2 of
                   (ok, s3) \<Rightarrow> if \<not> ok then (Inl AccessDenied, s3) else (Inr (pt_Roles tok, md_Labels (pt_Metadata tok)), s3))))"
    by (simp add: ValidateToken_def static assms(4) GetToken_read [OF inv1 assms(2)] del: One_nat_def split: option.splits)
  have "fst (ValidateToken bk clock token s) = Inr (pt_Roles t, md_Labels (pt_Metadata t))" if "clock 2 < pt_Expiry t"
  proof -
    have "lives (clock 0) i" "lives (clock 1) i" using that times i(3) by (simp_all add: lives_def)
    then have "view ?s2 ?k = Some i" using purge_lives [OF inv1] purge_lives [OF assms(1) i(1)] by blast
    then show ?thesis using that i(2) by (simp add: run checkTokenTTL_def numeral_2_eq_2)
  qed
  moreover have "fst (ValidateToken bk clock token s) \<in> {Inl NotFound, Inl AccessDenied}" if "pt_Expiry t < clock 2"
    using old
  proof
    assume "view ?s2 ?k = Some i"
    then show ?thesis using that i(2) by (simp add: run checkTokenTTL_def numeral_2_eq_2)
  qed (simp add: run)
  ultimately show ?thesis by blast
qed

lemma keeps_absent_trans: "keeps_absent inv view K s s1 \<Longrightarrow> keeps_absent inv view K s1 s2 \<Longrightarrow> keeps_absent inv view K s s2"
  by (simp add: keeps_absent_def)

lemma keeps_absent_purge: "inv s \<Longrightarrow> keeps_absent inv view K s (purge now s)"
  using purge_inv purge_old unfolding keeps_absent_def by (metis not_None_eq)

lemma RegisterNewAuthServer_ok:
  fixes token :: string
  defines "K \<equiv> {provision_key token, token_key [token, paramsPrefix]}"
  assumes s: "inv s" "view s (token_key [token, paramsPrefix]) = None"
    and others: "\<forall>i s. inv s \<longrightarrow> keeps_absent inv view K s (others i s)"
    and run: "RegisterNewAuthServer bk clock others token s = (Inr (), s')"
  shows "inv s' \<and> view s' (provision_key token) = None \<and> view s (provision_key token) \<noteq> None \<and>
    (\<forall>i\<le>3. \<exists>s1. inv s1 \<and> view (others i s1) (provision_key token) \<noteq> None) \<and>
    (\<exists>s1 t. keeps_absent inv view K s s1 \<and> provision_at (view s1) token = Some t \<and> RoleAuth \<in> set (pt_Roles t))"
proof -
  let ?pk = "provision_key token" and ?rk = "token_key [token, paramsPrefix]"
  note o = others [rule_format] and purges = keeps_absent_purge [where K = K]
  define s0 where "s0 = others 0 s"
  define s1 where "s1 = purge (clock 0) s0"
  define s2 where "s2 = others 1 s1"
  define s3 where "s3 = purge (clock 1) s2"
  define s4 where "s4 = others 2 s3"
  define s5 where "s5 = purge (clock 2) s4"
  define s6 where "s6 = others 3 s5"
  have inv: "inv s0" "inv s1" "inv s2" "inv s3" "inv s4" "inv s5" "inv s6"
    and step: "keeps_absent inv view K s s0" "keeps_absent inv view K s0 s1" "keeps_absent inv view K s1 s2" "keeps_absent inv view K s2 s3"
      "keeps_absent inv view K s3 s4" "keeps_absent inv view K s4 s5" "keeps_absent inv view K s5 s6"
    using s(1) o purges unfolding s0_def s1_def s2_def s3_def s4_def s5_def s6_def keeps_absent_def by blast+
  have token: "token \<noteq> []" using run by (auto simp: RegisterNewAuthServer_def GetToken_def)
  note read = GetToken_read [OF inv(1) token, of "clock 0", folded s1_def]
  obtain t where t: "provision_at (view s1) token = Some t" "RoleAuth \<in> set (pt_Roles t)"
    and del: "DeleteToken bk (\<lambda>i. clock (1 + i)) (\<lambda>i. others (1 + i)) token s1 = (Inr (), s')"
    using run by (auto simp: RegisterNewAuthServer_def s0_def [symmetric] read provision_at_def split: option.splits sum.splits if_splits)
  obtain r where static: "config_GetStaticTokens bk (clock 1) s2 = (r, s3)"
    using GetStaticTokens_read(1) [OF inv(3), of "clock 1"] by (metis s3_def)
  have "view s4 ?rk = None" using s(2) step by (simp add: keeps_absent_def K_def)
  then have "view (purge (clock 2) s4) ?rk = None" using purges [OF inv(5), of "clock 2"] by (simp add: keeps_absent_def K_def)
  then have "GetResetPasswordToken bk (clock 2) token s4 = (Inl NotFound, s5)"
    using get [OF inv(5) safe_keys(3)] by (simp add: GetResetPasswordToken_def get_bytes_def s5_def)
  then have reset: "DeleteResetPasswordToken bk (\<lambda>i. clock (1 + (1 + i))) token s4 = (Inl NotFound, s5)"
    by (simp add: DeleteResetPasswordToken_def numeral_2_eq_2)
  have indices: "(1::nat) + 0 = 1" "(1::nat) + 1 = 2" "(1::nat) + 2 = 3" "(1::nat) + 3 = 4" by simp_all
  have "service_DeleteToken bk (clock 4) token s6 = (Inr (), s')"
    using del reset
    unfolding DeleteToken_def indices s2_def [symmetric] static prod.case s4_def [symmetric]
    by (cases r) (simp_all add: s6_def split: if_splits)
  then have "b_Delete bk (clock 4) ?pk s6 = (Inr (), s')" using token by (simp add: service_DeleteToken_def)
  from delete_Inr [OF inv(7) safe_keys(2) this]
  have gone: "inv s'" "view s' ?pk = None" "view (purge (clock 4) s6) ?pk \<noteq> None" by simp_all
  then have six: "view s6 ?pk \<noteq> None" using purges [OF inv(7), of "clock 4"] by (auto simp: keeps_absent_def K_def)
  have earlier: "view x ?pk \<noteq> None" if "keeps_absent inv view K x y" "view y ?pk \<noteq> None" for x y
    using that by (auto simp: keeps_absent_def K_def)
  note five = earlier [OF step(7) six] 
  note four = earlier [OF step(6) five]
  note three = earlier [OF step(5) four]
  note two = earlier [OF step(4) three]
  note one = earlier [OF step(3) two]
  note zero = earlier [OF step(2) one]
  have "\<exists>s1. inv s1 \<and> view (others i s1) ?pk \<noteq> None" if i: "i \<le> 3" for i
  proof -
    consider "i = 0" | "i = 1" | "i = 2" | "i = 3" using i by linarith
    then show ?thesis using zero two four six s(1) inv by cases (auto simp: s0_def s2_def s4_def s6_def)
  qed
  then show ?thesis
    using gone earlier [OF step(1) zero] t keeps_absent_trans [OF step(1,2)] by blast
qed

end

interpretation join_mem: join_store "memory_backend cfg" memory_inv memory_view "removeExpired cfg" "\<lambda>k. k \<noteq> []" for cfg ..

end
