(* ===== verification/Tokens_Properties.thy ===== *)
theory Tokens_Properties
  imports Tokens_Facts Backend_Properties
begin

text \<open>
  The properties of joining the cluster with tokens, over the memory backend, with their witnesses. The documents and
  the EC2 service of the witnesses accept everything; the keys are the host and the roles they are asked for.
\<close>

section \<open>Examples\<close>

definition no_static_tokens :: "stored item" where
  "no_static_tokens = stored_item static_key (StStatic (projr (NewStaticTokens []))) zero_time 0"

definition provision_item :: "string \<Rightarrow> system_role list \<Rightarrow> token_rule list \<Rightarrow> time \<Rightarrow> stored item" where
  "provision_item token roles allow expires =
     stored_item (provision_key token) (StProvision (StoredV2 (projr (NewProvisionTokenFromSpec token expires roles allow 0)))) expires 0"

definition a_document :: identity_document where
  "a_document = \<lparr>iid_AccountID = ''1234'', iid_InstanceID = ''i-7'', iid_Region = ''us-west-2'', iid_PendingTime = 1000\<rparr>"

definition toy_world :: ec2_world where
  "toy_world =
     \<lparr>pem_Decode = Some, pkcs7_Parse = Inr, json_document = (\<lambda>_. Inr a_document), region_cert = (\<lambda>_. Some ''cert''),
      pkcs7_Verify = (\<lambda>_ _. Inr ()), LoadDefaultConfig = Inr (),
      DescribeInstances = (\<lambda>region role1 i. Inr [[\<lparr>ins_InstanceId = Some i, ins_State = Some ''running''\<rparr>]])\<rparr>"

definition nobody_there :: presence where
  "nobody_there =
     \<lparr>pr_Namespaces = Inr [''default''], pr_Node = (\<lambda>_ _. Inl NotFound), pr_Proxies = Inr [], pr_KubeServices = Inr [],
      pr_AppServers = (\<lambda>_. Inr []), pr_DatabaseServers = (\<lambda>_. Inr [])\<rparr>"

definition toy_keys :: "server_keys_request \<Rightarrow> 's \<Rightarrow> (string \<times> system_role list) result \<times> 's" where
  "toy_keys r s = (Inr (sk_HostID r, sk_Roles r), s)"

definition node_request :: join_request where
  "node_request =
     \<lparr>jr_HostID = ''1234-i-7'', jr_NodeName = ''node'', jr_Role = RoleNode, jr_Token = ''secret'', jr_AdditionalPrincipals = [],
      jr_DNSNames = [], jr_PublicTLSKey = [], jr_PublicSSHKey = [], jr_RemoteAddr = [], jr_EC2IdentityDocument = Some ''doc''\<rparr>"

definition ec2_rule :: token_rule where
  "ec2_rule = \<lparr>tr_AWSAccount = ''1234'', tr_AWSRegions = [''us-west-2''], tr_AWSRole = []\<rparr>"

definition tokens_memory :: "stored item list \<Rightarrow> stored memory" where
  "tokens_memory = created"

lemma example_keys: "static_key = ''/cluster_configuration/static_tokens''" "provision_key ''secret'' = ''/tokens/secret''"
  "token_key [''secret'', paramsPrefix] = ''/resetpasswordtokens/secret/params''"
  by code_simp+

lemma example_memory:
  "1 < expires \<Longrightarrow> memory_inv (tokens_memory [provision_item ''secret'' roles allow expires, no_static_tokens])"
  "1 < expires \<Longrightarrow> memory_view (tokens_memory [provision_item ''secret'' roles allow expires, no_static_tokens]) =
     [provision_key ''secret'' \<mapsto> provision_item ''secret'' roles allow expires, static_key \<mapsto> no_static_tokens]"
  "memory_inv (tokens_memory [no_static_tokens])"
  using created_view [of "[provision_item ''secret'' roles allow expires, no_static_tokens]"] created_view [of "[no_static_tokens]"]
  by (simp_all add: tokens_memory_def provision_item_def no_static_tokens_def stored_item_def example_keys lives_def is_zero_time_def
      zero_time_def fun_upd_twist)

section \<open>Joining needs a token\<close>

text \<open>C22: A server that joins holds a token that is among the static tokens, or in the storage and not expired, and that
  grants the one role the server gets its keys for. If the token in the storage has rules, then a verified identity
  document, neither from the future nor older than the token allows, names the host, matches a rule and is of a
  running instance, and no server of that name and role has joined.\<close>

theorem join_needs_token:
  assumes "memory_inv s" "RegisterUsingToken w p (memory_backend cfg) gen clock req s = (Inr keys, s')"
  shows "(\<exists>roles s1. jr_Role req \<in> set roles \<and> gen (keys_request req) s1 = (Inr keys, s') \<and> sk_Roles (keys_request req) = [jr_Role req] \<and>
      ((\<exists>c st. static_at (memory_view s) = Some c \<and> static_token c (jr_Token req) = Some st \<and> pt_Roles st = roles) \<or>
       (\<exists>t. provision_at (memory_view s) (jr_Token req) = Some t \<and> pt_Roles t = roles \<and> clock 4 \<le> pt_Expiry t))) \<and>
    (\<forall>i t. memory_view s (provision_key (jr_Token req)) = Some i \<longrightarrow> lives (clock 0) i \<longrightarrow> read_provision i = Inr t \<longrightarrow>
       pt_Allow t \<noteq> [] \<longrightarrow> document_ok w p (clock 1) req t)"
proof -
  note j = join_mem.RegisterUsingToken_ok [OF assms]
  have "document_ok w p (clock 1) req t"
    if "memory_view s (provision_key (jr_Token req)) = Some i" "lives (clock 0) i" "read_provision i = Inr t" "pt_Allow t \<noteq> []" for i t
    using j that mem.purge_lives [OF assms(1) that(1,2)] by (auto simp: provision_at_def)
  moreover have "sk_Roles (keys_request req) = [jr_Role req]" by (simp add: keys_request_def)
  ultimately show ?thesis using j by blast
qed

theorem join_needs_token_witness:
  "\<exists>s'. RegisterUsingToken toy_world nobody_there (memory_backend plain_memory) toy_keys (\<lambda>i. 2000 + int i) node_request
       (tokens_memory [provision_item ''secret'' [RoleNode] [ec2_rule] 5000, no_static_tokens]) =
     (Inr (''1234-i-7'', [RoleNode]), s') \<and>
     document_ok toy_world nobody_there 2001 node_request (projr (NewProvisionTokenFromSpec ''secret'' 5000 [RoleNode] [ec2_rule] 0))"
proof -
  let ?s = "tokens_memory [provision_item ''secret'' [RoleNode] [ec2_rule] 5000, no_static_tokens]"
  let ?t = "projr (NewProvisionTokenFromSpec ''secret'' 5000 [RoleNode] [ec2_rule] 0)"
  have "fst (RegisterUsingToken toy_world nobody_there (memory_backend plain_memory) toy_keys (\<lambda>i. 2000 + int i) node_request ?s) =
      Inr (''1234-i-7'', [RoleNode])"
    by code_simp
  then obtain s' where run: "RegisterUsingToken toy_world nobody_there (memory_backend plain_memory) toy_keys (\<lambda>i. 2000 + int i) node_request ?s =
      (Inr (''1234-i-7'', [RoleNode]), s')" by (metis prod.collapse)
  have "read_provision (provision_item ''secret'' [RoleNode] [ec2_rule] 5000) = Inr ?t" "pt_Allow ?t \<noteq> []" "jr_Token node_request = ''secret''"
    by code_simp+
  moreover have "lives 2000 (provision_item ''secret'' [RoleNode] [ec2_rule] 5000)"
    by (simp add: provision_item_def stored_item_def lives_def)
  moreover have "memory_view ?s (provision_key ''secret'') = Some (provision_item ''secret'' [RoleNode] [ec2_rule] 5000)"
    using example_memory(2) [of 5000] by (simp add: example_keys)
  ultimately show ?thesis
    using join_needs_token [OF example_memory(1) run] run by simp
qed

section \<open>The life of a token\<close>

text \<open>C23: A generated token is accepted with just its roles and labels until it expires, and refused after that,
  whatever happened to the rest of the storage. It expires when its time to live is over, counted from its generation;
  a token that would expire within a second lives for thirty minutes.\<close>

theorem generated_token_valid_until:
  assumes "memory_inv s" "GenerateToken (memory_backend cfg) clock newToken req s = (Inr token, s')" "\<forall>i. 0 < clock i"
    and "memory_inv start" "memory_view start (provision_key token) = memory_view s' (provision_key token)"
    and "fst (config_GetStaticTokens (memory_backend cfg) (later 0) start) = Inr c" "static_token c token = None"
    and "later 0 \<le> later 1" "later 1 \<le> later 2"
  shows "(later 2 < generated_expiry clock req \<longrightarrow>
       fst (ValidateToken (memory_backend cfg) later token start) = Inr (gt_Roles req, gt_Labels req)) \<and>
    (generated_expiry clock req < later 2 \<longrightarrow>
       fst (ValidateToken (memory_backend cfg) later token start) \<in> {Inl NotFound, Inl AccessDenied})"
proof -
  obtain i t where t: "memory_view s' (provision_key token) = Some i" "read_provision i = Inr t" "it_Expires i = pt_Expiry t"
    "pt_Roles t = gt_Roles req" "md_Labels (pt_Metadata t) = gt_Labels req" "pt_Expiry t = generated_expiry clock req" "token \<noteq> []"
    using join_mem.GenerateToken_stores [OF assms(1,2)] by blast
  have "0 < generated_expiry clock req"
    using assms(3) [rule_format, of 1] assms(3) [rule_format, of 2]
    by (simp add: generated_expiry_def Let_def ProvisioningTokenTTL_def minute_ns_def second_ns_def)
  then show ?thesis
    using join_mem.ValidateToken_stored [OF assms(4) t(7) assms(6,7) t(1) [folded assms(5)] t(2,3) assms(8,9)] t(4-6) by simp
qed

definition node_token_request :: generate_token_request where
  "node_token_request = \<lparr>gt_Token = ''secret'', gt_Roles = [RoleNode, RoleProxy], gt_TTL = 3600 * second_ns, gt_Labels = [(''env'', ''prod'')]\<rparr>"

theorem generated_token_valid_until_witness:
  "let run = GenerateToken (memory_backend plain_memory) (\<lambda>i. 100 + int i) (Inl Unclassified) node_token_request (tokens_memory [no_static_tokens])
   in fst run = Inr ''secret'' \<and>
     fst (ValidateToken (memory_backend plain_memory) (\<lambda>i. 1000 * second_ns + int i) ''secret'' (snd run)) =
       Inr ([RoleNode, RoleProxy], [(''env'', ''prod'')]) \<and>
     \<not> is_ok (fst (ValidateToken (memory_backend plain_memory) (\<lambda>i. 4000 * second_ns + int i) ''secret'' (snd run)))"
proof -
  let ?run = "GenerateToken (memory_backend plain_memory) (\<lambda>i. 100 + int i) (Inl Unclassified) node_token_request (tokens_memory [no_static_tokens])"
  have "fst ?run = Inr ''secret''" by code_simp
  then obtain s' where run: "?run = (Inr ''secret'', s')" by (metis prod.collapse)
  have static: "fst (config_GetStaticTokens (memory_backend plain_memory) (1000 * second_ns) (snd ?run)) = Inr (projr (NewStaticTokens []))"
    "fst (config_GetStaticTokens (memory_backend plain_memory) (4000 * second_ns) (snd ?run)) = Inr (projr (NewStaticTokens []))"
    "static_token (projr (NewStaticTokens [])) ''secret'' = None"
    by code_simp+
  have e: "generated_expiry (\<lambda>i. 100 + int i) node_token_request = 3600 * second_ns + 100"
    by (simp add: generated_expiry_def node_token_request_def second_ns_def is_zero_time_def zero_time_def)
  have inv: "memory_inv s'" using join_mem.GenerateToken_stores [OF example_memory(3) run] by blast
  note v = generated_token_valid_until [OF example_memory(3) run _ inv refl _ static(3), unfolded e]
  have "fst (ValidateToken (memory_backend plain_memory) (\<lambda>i. 1000 * second_ns + int i) ''secret'' s') =
      Inr (gt_Roles node_token_request, gt_Labels node_token_request)"
    using v [of "\<lambda>i. 1000 * second_ns + int i"] static(1) run by (simp add: second_ns_def)
  moreover have "\<not> is_ok (fst (ValidateToken (memory_backend plain_memory) (\<lambda>i. 4000 * second_ns + int i) ''secret'' s'))"
    using v [of "\<lambda>i. 4000 * second_ns + int i"] static(2) run by (auto simp: second_ns_def)
  ultimately show ?thesis using run by (simp add: node_token_request_def)
qed

text \<open>A time to live of less than a second, zero and negative ones included, makes a token for thirty minutes.\<close>

lemma short_ttl_is_default:
  "gt_TTL req < second_ns \<Longrightarrow> clock 0 \<le> clock 1 \<Longrightarrow> gt_TTL req \<noteq> 0 \<Longrightarrow> generated_expiry clock req = clock 2 + ProvisioningTokenTTL"
  by (simp add: generated_expiry_def Let_def)

section \<open>Tokens of auth servers\<close>

text \<open>C24: A token registers one new auth server. If nobody issues it again, nor a reset token of its name, it was in the
  storage before the registration, it granted the role of auth servers, and after the registration it is gone, so that
  later registrations fail; and no step of others in between had removed it, so that of two registrations that overlap
  at most one succeeds.\<close>

theorem auth_server_token_used_once:
  assumes "memory_inv s" "memory_view s (token_key [token, paramsPrefix]) = None"
    and others: "\<forall>i s. memory_inv s \<longrightarrow>
      keeps_absent memory_inv memory_view {provision_key token, token_key [token, paramsPrefix]} s (others i s)"
    and run: "RegisterNewAuthServer (memory_backend cfg) clock others token s = (Inr (), s')"
  shows "memory_view s (provision_key token) \<noteq> None \<and> memory_view s' (provision_key token) = None \<and>
    (\<forall>i\<le>3. \<exists>s1. memory_inv s1 \<and> memory_view (others i s1) (provision_key token) \<noteq> None) \<and>
    (\<exists>s1 t. keeps_absent memory_inv memory_view {provision_key token, token_key [token, paramsPrefix]} s s1 \<and>
       provision_at (memory_view s1) token = Some t \<and> RoleAuth \<in> set (pt_Roles t)) \<and>
    (\<forall>later start. keeps_absent memory_inv memory_view {provision_key token} s' start \<longrightarrow>
       fst (RegisterNewAuthServer (memory_backend cfg) later no_others token start) = Inl NotFound)"
proof -
  note r = join_mem.RegisterNewAuthServer_ok [OF assms(1,2) others run]
  have token: "token \<noteq> []" using run by (auto simp: RegisterNewAuthServer_def GetToken_def)
  have "fst (RegisterNewAuthServer (memory_backend cfg) later no_others token start) = Inl NotFound"
    if start: "keeps_absent memory_inv memory_view {provision_key token} s' start" for later start
  proof -
    have inv: "memory_inv start" and gone: "memory_view start (provision_key token) = None" using start r by (auto simp: keeps_absent_def)
    have "memory_view (removeExpired cfg (later 0) start) (provision_key token) = None"
      using mem.purge_old [OF inv, of cfg "later 0" "provision_key token"] gone
      by (cases "memory_view (removeExpired cfg (later 0) start) (provision_key token)") auto
    then show ?thesis
      using join_mem.GetToken_read [OF inv token, of cfg "later 0"] by (simp add: RegisterNewAuthServer_def no_others_def)
  qed
  then show ?thesis using r by blast
qed

theorem auth_server_token_used_once_witness:
  "let run = RegisterNewAuthServer (memory_backend plain_memory) (\<lambda>i. 2000 + int i) no_others ''secret''
       (tokens_memory [provision_item ''secret'' [RoleAuth] [] 5000, no_static_tokens])
   in fst run = Inr () \<and> fst (RegisterNewAuthServer (memory_backend plain_memory) (\<lambda>i. 3000 + int i) no_others ''secret'' (snd run)) = Inl NotFound"
proof -
  let ?s = "tokens_memory [provision_item ''secret'' [RoleAuth] [] 5000, no_static_tokens]"
  let ?run = "RegisterNewAuthServer (memory_backend plain_memory) (\<lambda>i. 2000 + int i) no_others ''secret'' ?s"
  have "fst ?run = Inr ()" by code_simp
  then obtain s' where run: "?run = (Inr (), s')" by (metis prod.collapse)
  have reset: "memory_view ?s (token_key [''secret'', paramsPrefix]) = None"
    using example_memory(2) [of 5000] by (simp add: example_keys)
  have o: "\<forall>i s. memory_inv s \<longrightarrow>
      keeps_absent memory_inv memory_view {provision_key ''secret'', token_key [''secret'', paramsPrefix]} s (no_others i s)"
    by (simp add: keeps_absent_def no_others_def)
  have inv: "memory_inv s'" using join_mem.RegisterNewAuthServer_ok [OF example_memory(1) reset o run] by simp
  then have "keeps_absent memory_inv memory_view {provision_key ''secret''} s' s'" by (simp add: keeps_absent_def)
  then have "fst (RegisterNewAuthServer (memory_backend plain_memory) (\<lambda>i. 3000 + int i) no_others ''secret'' s') = Inl NotFound"
    using auth_server_token_used_once [OF example_memory(1) reset o run] by simp
  then show ?thesis using run by simp
qed

end
