(* ===== verification/Spec2Isabelle.thy ===== *)
theory Spec2Isabelle
  imports Access_Properties Role_Properties Request_Properties Authority_Properties Backend_Properties Lease_Properties Login_Properties Access_Store_Properties Tokens_Properties
begin

text \<open>
  A model of the core of siriusec (a fork of Teleport, written in Go): the part that decides who may do what. It
  holds roles and what they grant, access requests and their review, local users and how they log in, the tokens servers
  join with, the certificate authorities and their rotation, and the storage that all of them share, with the leases and
  locks on it. The Go sources are under \<open>src/\<close>.

  How the parts interact. A user holds roles (\<open>api/types/role.go\<close>); when a certificate is issued or a
  resource is reached, \<open>FetchRoles\<close> loads them, interpolates the user's traits into their templates
  (\<open>ApplyTraits\<close>, over the expression language of \<open>lib/utils/parse\<close>) and makes a role set, with
  the implicit role added. The role set answers the access checks of \<open>lib/services/role.go\<close>: to servers,
  applications, Kubernetes clusters, databases and remote clusters by labels, and to resources of the auth server by
  rules. A user may also ask for roles: \<open>lib/services/access_request.go\<close> validates such a request
  against the user's roles, and resolves it from the reviews others submit; the store of
  \<open>lib/services/local/dynamic_access.go\<close> keeps both under concurrent updates. Users log in with passwords and second
  factors (\<open>lib/auth/password.go\<close>, \<open>methods.go\<close>), which the identity service (\<open>lib/services/local/users.go\<close>) stores, and
  servers join with tokens (\<open>lib/auth/auth.go\<close>, \<open>ec2_join.go\<close>). The auth server signs with certificate authorities
  (\<open>api/types/authority.go\<close>, \<open>lib/services/local/trust.go\<close>) that it rotates (\<open>lib/auth/rotate.go\<close>). All of these
  services are functions of a backend (\<open>lib/backend/backend.go\<close>), the record of its operations; the memory backend
  (\<open>lib/backend/memory\<close>) is one, and the properties of the services are about it.

  Theories, in the order of their imports:
  \<^item> \<open>Prelude\<close>: errors (the kinds of the \<open>trace\<close> package; messages are not modelled), results
    as sums, time and durations, slices, strings, loops that may fail.
  \<^item> \<open>Regexp\<close>, \<open>Glob\<close>: the syntax and the backtracking matcher of Go's \<open>regexp\<close>
    on byte strings, and \<open>lib/utils/replace.go\<close>; globs as regular expressions and their direct meaning.
  \<^item> \<open>Role_Types\<close>: the role resource as records, with the accessors, defaults and checks of
    \<open>api/types/role.go\<close>. A nil slice or map that the code tells from an empty one is an option.
  \<^item> \<open>Matching\<close>, \<open>Access\<close>: namespaces, logins, labels and role matchers, and the
    \<open>CheckAccessTo...\<close> methods of a role set. The locale \<open>access_decision\<close> is the contract of a
    check with deny phase, allow phase and second factor, interpreted on the checks for servers,
    applications, Kubernetes clusters and databases; \<open>deny_then_allow\<close> that of the checks without a
    factor, interpreted on remote clusters, rules and impersonation.
  \<^item> \<open>Rules\<close>: scores, rule sets and \<open>CheckAccessToRule\<close>; \<open>RoleSets\<close>: the limits and
    contents of certificates.
  \<^item> \<open>Go_Expr\<close>, \<open>Expression\<close>: Go's parser restricted to primary expressions, and templates
    and matchers; \<open>Traits\<close>: interpolation, role fetching, impersonation, claim mappings;
    \<open>Presets\<close>: the built-in roles.
  \<^item> \<open>Requests\<close>, \<open>Reviews\<close>, \<open>Request_Validator\<close>: the access request, its reviews,
    its validation and the permission to review.
  \<^item> \<open>Backend\<close>: keys, ranges, expiry, items, the operations of a backend as a record of functions, the sanitizer of
    \<open>lib/backend/sanitize.go\<close>, and \<open>IterateRange\<close>. Its locale \<open>kv_store\<close> is the contract of a backend on the map of
    its items, with expired items dropped at any access; \<open>kv_keyed\<close> and \<open>kv_expiring\<close> extend it. \<open>Iteration\<close> proves
    that the iteration ends and visits everything.
  \<^item> \<open>Binary_Heap\<close>, \<open>Memory\<close>, \<open>Memory_Contract\<close>: Go's \<open>container/heap\<close>, the memory backend with its tree, its heap of
    expiring items and its events, and the interpretations \<open>mem\<close>, \<open>keyed_mem\<close>, \<open>auth\<close> and \<open>safe_mem\<close> of the contracts.
  \<^item> \<open>Authority\<close>, \<open>Trust\<close>: the authority resource with its key sets in the old and the new schema, checks and storage
    form, and its store, with the locale \<open>ca_store\<close>; \<open>Rotation\<close>, \<open>Rotation_Facts\<close>: the requests and phases of a rotation,
    manual and automatic, and what each transition does to the keys.
  \<^item> \<open>Semaphores\<close>, \<open>Semaphore_Safety\<close>, \<open>Backend_Lock\<close>: leases on semaphores (\<open>lib/services/local/presence.go\<close>,
    \<open>api/types/semaphore.go\<close>) and locks (\<open>lib/backend/helpers.go\<close>), each as a relation of single accesses of any number of
    holders, with its invariant in the locales \<open>semaphore_store\<close> and \<open>lock_store\<close>.
  \<^item> \<open>Users\<close>, \<open>Provisioning\<close>: the resources of users, credentials, preferences and tokens. \<open>Identity\<close>: the identity
    service over any backend. \<open>Login\<close>: account locking, password and second factor checks, changes and resets of
    passwords. \<open>Login_Safety\<close>, \<open>Login_Facts\<close>, \<open>Reset_Facts\<close>: what they keep, in the locales \<open>login_store\<close> and
    \<open>identity_store\<close>.
  \<^item> \<open>Access_Store\<close>, \<open>Access_Store_Facts\<close>: the store of access requests and plugin data; the locale \<open>request_store\<close> says
    what its updates guarantee when others keep what they rely on.
  \<^item> \<open>Tokens\<close>, \<open>Tokens_Facts\<close>: issuing, checking and using up the tokens of servers, and joining with an EC2 identity
    document; locale \<open>join_store\<close>.
  \<^item> \<open>Examples\<close> and the theories named \<open>..._Properties\<close>: the properties and their witnesses.
    The properties of preset roles, which span most components, are below.

  Conventions. A Go map is an association list; its order stands for the order in which the code happens to visit
  it, and the properties do not depend on it. A loop is a recursive function named after the method with the
  suffix \<open>_loop\<close>. \<open>sort.Slice\<close> need not be stable; \<open>MakeRuleSet\<close> uses the stable sort, one
  of its outcomes, and no property depends on the order of rules with the same score. Strings are bytes: a
  regular expression or a glob over text beyond ASCII may behave otherwise in the code, which matches code points.
  Logging and audit events are left out. A time is the number of nanoseconds since the zero time of Go. An operation
  that reads the clock more than once takes \<open>clock i\<close>, the time of the i-th access; \<open>others\<close> is what other servers do to
  the storage between two accesses, and \<open>cancelled\<close> says where the context is done. A stored value is the resource
  itself: JSON is not modelled, and reading a value as another kind fails. The predicate language of rules and review
  filters (\<open>vulcand/predicate\<close>), the e-mail address parser, the source of unique identifiers and random numbers, and
  cryptography (\<open>bcrypt\<close>, one-time passwords, U2F, keys, certificates, signed documents) are parameters; the user and
  role storage that request validation reads is a record of functions. A nil dereference in a matcher is the outcome
  \<open>None\<close> of \<open>Match\<close>.

  Recursion and bounds. Every function is total: structural, or with a measure (the matcher on the expression and the
  length of the rest of the input, which a star must shorten; the expiry of the memory backend on its heap). The parser
  bounds nesting as the code does. Loops that try again count their attempts as the code does: seven for updates of
  requests and plugin data, \<open>acquireAttempts\<close> for semaphores. \<open>IterateRange\<close> and \<open>AcquireLock\<close> go round without a bound in
  the code; their models have fuel and return \<open>None\<close> when it is used up. For \<open>IterateRange\<close> it is proved how much is
  enough; \<open>AcquireLock\<close> may wait for ever.

  Not modelled. Everything that moves bytes: the SSH server and its sessions, reverse tunnels, the multiplexer, the web
  server, the tools, watchers and the cache, event streams. The storage drivers for SQLite, etcd, DynamoDB and
  Firestore are external stores behind the interface of \<open>Backend\<close>. Of the auth server, the handlers that only check an
  access rule and call a service, the connectors of external identity providers, web sessions and the making of
  certificates. \<open>RunWhileLocked\<close> and the renewal of semaphore leases in the background are goroutines around the modelled
  operations. Generated and vendored code.
\<close>

section \<open>The preset roles\<close>

lemma preset_case:
  assumes "\<exists>r. x = Inr r \<and> GetName r = name \<and> GetRules Allow r = rules \<and> GetRules Deny r = [] \<and>
      GetNamespaces Allow r = [default_namespace]"
    and "x = Inr r" "name \<noteq> RoleNop" "\<forall>ru\<in>set rules. plain_rule ru"
  shows "snd (CheckAccessToRule (NewRoleSet [ApplyTraits pa r tr]) (Inr wp) (Inr ap) namespace resource verb) = Inr ()
    \<longleftrightarrow> ProcessNamespace namespace = default_namespace \<and>
        (grants rules resource verb \<or> grants DefaultImplicitRules resource verb)"
proof -
  have "GetName r = name" "GetRules Allow r = rules" "GetRules Deny r = []" "GetNamespaces Allow r = [default_namespace]"
    using assms(1,2) by auto
  then show ?thesis using preset_access [of r] assms(3,4) by simp
qed

lemma preset_rules_plain:
  "\<forall>ru\<in>set viewer_rules. plain_rule ru" "\<forall>ru\<in>set editor_rules. plain_rule ru"
  "\<forall>ru\<in>set (getExtendedAdminUserRules cloud). plain_rule ru"
  by (simp_all add: viewer_rules_def editor_rules_def getExtendedAdminUserRules_def)

lemmas viewer_case = preset_case [OF NewViewerRole_ok _ _ preset_rules_plain(1)]
lemmas editor_case = preset_case [OF NewEditorRole_ok _ _ preset_rules_plain(2)]
lemmas admin_case = preset_case [OF NewAdminRole_ok _ _ preset_rules_plain(3)]

lemmas preset_grants = grants_def viewer_rules_def editor_rules_def getExtendedAdminUserRules_def
  DefaultImplicitRules_def RO_def RW_def CRUL_def ReadNoSecrets_def VerbReadNoSecrets_def VerbRead_def Wildcard_def

text \<open>C15: a user whose only role is the preset viewer, whatever traits are applied to it, can change no
  resource: the verbs granted are list, read and readnosecrets.\<close>

theorem viewer_reads_only:
  assumes "NewViewerRole = Inr r"
    and "snd (CheckAccessToRule (NewRoleSet [ApplyTraits pa r tr]) (Inr wp) (Inr ap) namespace resource verb) = Inr ()"
  shows "verb \<in> {''list'', ''read'', ''readnosecrets''}"
  using assms(2) unfolding viewer_case [OF assms(1), simplified RoleNop_def, simplified]
  by (auto simp: preset_grants)

theorem viewer_reads_only_witness:
  "\<exists>r. NewViewerRole = Inr r \<and>
     snd (CheckAccessToRule (NewRoleSet [ApplyTraits no_addresses r []]) (Inr no_predicates) (Inr no_predicates)
       ''default'' ''role'' ''list'') = Inr () \<and> ''list'' \<in> {''list'', ''read'', ''readnosecrets''}"
proof -
  obtain r where r: "NewViewerRole = Inr r" using NewViewerRole_ok by blast
  have "snd (CheckAccessToRule (NewRoleSet [ApplyTraits no_addresses r []]) (Inr no_predicates) (Inr no_predicates)
       ''default'' ''role'' ''list'') = Inr ()"
    unfolding viewer_case [OF r, simplified RoleNop_def, simplified]
    by (simp add: preset_grants ProcessNamespace_def default_namespace_def)
  with r viewer_reads_only [OF r this] show ?thesis by blast
qed

text \<open>C14: none of the presets admin, editor and viewer, whatever traits are applied, lets its holder read the
  secrets of the certificate authorities or write to them.\<close>

theorem presets_guard_authorities:
  assumes "NewAdminRole cloud = Inr r \<or> NewEditorRole = Inr r \<or> NewViewerRole = Inr r"
    "verb \<notin> {''list'', ''readnosecrets''}"
  shows "snd (CheckAccessToRule (NewRoleSet [ApplyTraits pa r tr]) (Inr wp) (Inr ap) namespace ''cert_authority'' verb)
    \<noteq> Inr ()"
  using assms(1)
proof (elim disjE)
  assume "NewAdminRole cloud = Inr r"
  then show ?thesis using assms(2) by (simp add: admin_case RoleNop_def preset_grants)
next
  assume "NewEditorRole = Inr r"
  then show ?thesis using assms(2) by (simp add: editor_case RoleNop_def preset_grants)
next
  assume "NewViewerRole = Inr r"
  then show ?thesis using assms(2) by (simp add: viewer_case RoleNop_def preset_grants)
qed

theorem presets_guard_authorities_witness:
  "\<exists>r. NewAdminRole True = Inr r \<and>
     snd (CheckAccessToRule (NewRoleSet [ApplyTraits no_addresses r []])
     (Inr no_predicates) (Inr no_predicates) ''default'' ''cert_authority'' ''read'') \<noteq> Inr ()"
proof -
  obtain r where r: "NewAdminRole True = Inr r" using NewAdminRole_ok by blast
  have "snd (CheckAccessToRule (NewRoleSet [ApplyTraits no_addresses r []])
     (Inr no_predicates) (Inr no_predicates) ''default'' ''cert_authority'' ''read'') \<noteq> Inr ()"
    by (rule presets_guard_authorities [where cloud = True]) (simp_all add: r)
  with r show ?thesis by blast
qed

end
